(* ===== verification/Prelude.thy ===== *)
theory Prelude
  imports Main "HOL-Library.AList" "HOL-Library.List_Lexorder" "HOL-Library.Char_ord"
begin

section \<open>Shared vocabulary of the development\<close>

text \<open>
  Python exceptions are values of a sum type: \<open>Inl e\<close> is a raised exception, \<open>Inr x\<close> a normal
  result. \<open>bindR\<close> sequences two computations, \<open>checkR\<close> is \<open>if not b: raise e\<close> and \<open>forR\<close> is a
  \<open>for\<close> loop whose body may raise. Dictionaries with an insertion order are association lists:
  \<open>dict_get\<close>, \<open>dict_put\<close> and \<open>dict_merge\<close> are \<open>d.get(k)\<close>, \<open>{**d, k: v}\<close> and \<open>{**a, **b}\<close>.
  The string helpers are \<open>str.strip\<close>, \<open>str.split\<close> and \<open>str.startswith\<close> on lists of characters
  (code points below 256). UUIDs are natural numbers and datetimes integers (microseconds).
\<close>

type_synonym uuid = nat
type_synonym datetime = int

text \<open>Durations (\<open>timedelta\<close>) in microseconds.\<close>

definition seconds :: "int \<Rightarrow> int" where
  "seconds n = n * 1000000"

definition hours :: "int \<Rightarrow> int" where
  "hours n = seconds (n * 3600)"

definition days :: "int \<Rightarrow> int" where
  "days n = seconds (n * 86400)"

named_theorems result_simps "how checks and loops that may raise succeed or fail"
named_theorems py_simps "evaluation of the Python string and dict helpers"

subsection \<open>Results\<close>

definition bindR :: "'e + 'a \<Rightarrow> ('a \<Rightarrow> 'e + 'b) \<Rightarrow> 'e + 'b" where
  "bindR r f = (case r of Inl e \<Rightarrow> Inl e | Inr x \<Rightarrow> f x)"

definition thenR :: "'e + unit \<Rightarrow> 'e + 'b \<Rightarrow> 'e + 'b" where
  "thenR r s = (case r of Inl e \<Rightarrow> Inl e | Inr _ \<Rightarrow> s)"

definition checkR :: "bool \<Rightarrow> 'e \<Rightarrow> 'e + unit" where
  "checkR b e = (if b then Inr () else Inl e)"

fun forR :: "('a \<Rightarrow> 'e + unit) \<Rightarrow> 'a list \<Rightarrow> 'e + unit" where
  "forR f [] = Inr ()"
| "forR f (x # xs) = (case f x of Inl e \<Rightarrow> Inl e | Inr _ \<Rightarrow> forR f xs)"

fun foldR :: "('s \<Rightarrow> 'a \<Rightarrow> 'e + 's) \<Rightarrow> 's \<Rightarrow> 'a list \<Rightarrow> 'e + 's" where
  "foldR f s [] = Inr s"
| "foldR f s (x # xs) = (case f s x of Inl e \<Rightarrow> Inl e | Inr s' \<Rightarrow> foldR f s' xs)"

fun mapR :: "('a \<Rightarrow> 'e + 'b) \<Rightarrow> 'a list \<Rightarrow> 'e + 'b list" where
  "mapR f [] = Inr []"
| "mapR f (x # xs) =
     (case f x of Inl e \<Rightarrow> Inl e
      | Inr y \<Rightarrow> (case mapR f xs of Inl e \<Rightarrow> Inl e | Inr ys \<Rightarrow> Inr (y # ys)))"

lemma bindR_simps [simp, result_simps]:
  "bindR (Inl e) f = Inl e"
  "bindR (Inr x) f = f x"
  by (simp_all add: bindR_def)

lemma thenR_simps [simp, result_simps]:
  "thenR (Inl e) s = Inl e"
  "thenR (Inr u) s = s"
  by (simp_all add: thenR_def)

lemma bindR_eq_Inr [result_simps]: "bindR r f = Inr y \<longleftrightarrow> (\<exists>x. r = Inr x \<and> f x = Inr y)"
  by (cases r) auto

lemma thenR_eq_Inr [result_simps]: "thenR r s = Inr y \<longleftrightarrow> r = Inr () \<and> s = Inr y"
  by (cases r) auto

lemma checkR_eq_Inr [simp, result_simps]: "checkR b e = Inr u \<longleftrightarrow> b"
  by (simp add: checkR_def)

lemma checkR_simps [simp]: "checkR True e = Inr ()" "checkR False e = Inl e"
  by (simp_all add: checkR_def)

lemma checkR_eq_Inl [simp, result_simps]: "checkR b e = Inl e' \<longleftrightarrow> \<not> b \<and> e' = e"
  by (auto simp: checkR_def)

lemma unit_result_eq: "(r :: 'e + unit) = Inr () \<longleftrightarrow> \<not> isl r"
  by (cases r) simp_all

lemma forR_isr: "\<not> isl (forR f xs) \<longleftrightarrow> (\<forall>x\<in>set xs. \<not> isl (f x))"
  by (induction xs) (simp_all split: sum.split)

lemma forR_eq_Inr [result_simps]: "forR f xs = Inr () \<longleftrightarrow> (\<forall>x\<in>set xs. f x = Inr ())"
  by (simp only: unit_result_eq forR_isr)

lemma forR_eq_Inl: "forR f xs = Inl e \<Longrightarrow> \<exists>x\<in>set xs. f x = Inl e"
  by (induction xs) (auto split: sum.splits)

lemma unit_result_cases: "(r :: 'e + unit) = Inr () \<or> (\<exists>e. r = Inl e)"
  by (cases r) auto

lemma foldR_append:
  "foldR f s (xs @ ys) = (case foldR f s xs of Inl e \<Rightarrow> Inl e | Inr t \<Rightarrow> foldR f t ys)"
  by (induction xs arbitrary: s) (auto split: sum.splits)

text \<open>A loop invariant of \<open>foldR\<close>: what every step keeps holds for the result.\<close>

lemma foldR_invariant:
  assumes "foldR f s xs = Inr t" and "I s"
    and "\<And>s x t. I s \<Longrightarrow> x \<in> set xs \<Longrightarrow> f s x = Inr t \<Longrightarrow> I t"
  shows "I t"
  using assms
proof (induction xs arbitrary: s)
  case Nil
  then show ?case by simp
next
  case (Cons x xs)
  from Cons.prems(1) obtain s' where s': "f s x = Inr s'" and rest: "foldR f s' xs = Inr t"
    by (auto split: sum.splits)
  from Cons.prems(3) [OF Cons.prems(2) _ s'] have "I s'" by simp
  with rest show ?case
  proof (rule Cons.IH)
    fix s x t
    assume "I s" and "x \<in> set xs" and "f s x = Inr t"
    then show "I t" using Cons.prems(3) [of s x t] by simp
  qed
qed

lemma mapR_eq_Inr: "mapR f xs = Inr ys \<Longrightarrow> list_all2 (\<lambda>x y. f x = Inr y) xs ys"
  by (induction xs arbitrary: ys) (auto split: sum.splits)

subsection \<open>Dictionaries in insertion order\<close>

type_synonym 'v dict = "(string \<times> 'v) list"

definition dict_get :: "'v dict \<Rightarrow> string \<Rightarrow> 'v option" where
  "dict_get d k = map_of d k"

definition dict_put :: "string \<Rightarrow> 'v \<Rightarrow> 'v dict \<Rightarrow> 'v dict" where
  "dict_put k v d = AList.update k v d"

definition dict_merge :: "'v dict \<Rightarrow> 'v dict \<Rightarrow> 'v dict" where
  "dict_merge a b = foldl (\<lambda>d (k, v). dict_put k v d) a b"

definition dict_keys :: "'v dict \<Rightarrow> string list" where
  "dict_keys d = map fst d"

lemma dict_get_put [simp]: "dict_get (dict_put k v d) k' = (if k' = k then Some v else dict_get d k')"
  by (simp add: dict_get_def dict_put_def update_conv')

lemma set_keys_put [simp]: "set (dict_keys (dict_put k v d)) = insert k (set (dict_keys d))"
  by (simp add: dict_keys_def dict_put_def dom_update)

lemma dict_get_None: "dict_get d k = None \<longleftrightarrow> k \<notin> set (dict_keys d)"
  by (simp add: dict_get_def dict_keys_def map_of_eq_None_iff)

lemma dict_get_Some_key: "dict_get d k = Some v \<Longrightarrow> k \<in> set (dict_keys d)"
  using dict_get_None [of d k] by auto

lemma in_dict_keys: "k \<in> set (dict_keys d) \<longleftrightarrow> (\<exists>v. dict_get d k = Some v)"
  using dict_get_None [of d k] by auto

lemma dict_merge_Nil [simp]: "dict_merge a [] = a"
  by (simp add: dict_merge_def)

lemma dict_merge_Cons: "dict_merge a ((k, v) # b) = dict_merge (dict_put k v a) b"
  by (simp add: dict_merge_def)

lemma set_keys_merge [simp]: "set (dict_keys (dict_merge a b)) = set (dict_keys a) \<union> set (dict_keys b)"
proof (induction b arbitrary: a)
  case Nil
  then show ?case by (simp add: dict_keys_def)
next
  case (Cons p b)
  have "dict_keys (p # b) = fst p # dict_keys b" by (simp add: dict_keys_def)
  with Cons show ?case by (cases p) (simp add: dict_merge_Cons)
qed

lemma dict_get_merge_other: "k \<notin> set (dict_keys b) \<Longrightarrow> dict_get (dict_merge a b) k = dict_get a k"
  by (induction b arbitrary: a) (auto simp: dict_merge_Cons dict_keys_def)

lemma dict_get_merge: "distinct (dict_keys b) \<Longrightarrow>
  dict_get (dict_merge a b) k = (case dict_get b k of None \<Rightarrow> dict_get a k | Some v \<Rightarrow> Some v)"
proof (induction b arbitrary: a)
  case Nil
  then show ?case by (simp add: dict_get_def)
next
  case (Cons p b)
  obtain k0 v0 where p: "p = (k0, v0)" by (cases p)
  from Cons.prems have d: "distinct (dict_keys b)" and k0: "k0 \<notin> set (dict_keys b)"
    by (simp_all add: p dict_keys_def)
  show ?case
  proof (cases "k = k0")
    case True
    from k0 True have "dict_get b k = None" by (simp add: dict_get_None)
    then have "dict_get (dict_merge (dict_put k0 v0 a) b) k = Some v0"
      using Cons.IH [OF d, of "dict_put k0 v0 a"] True by simp
    then show ?thesis using True by (simp add: p dict_merge_Cons) (simp add: dict_get_def)
  next
    case False
    then have "dict_get (p # b) k = dict_get b k" by (simp add: p dict_get_def)
    moreover have "dict_get (dict_put k0 v0 a) k = dict_get a k" using False by simp
    ultimately show ?thesis using Cons.IH [OF d, of "dict_put k0 v0 a"] False
      by (simp add: p dict_merge_Cons split: option.split)
  qed
qed

lemma distinct_keys_put [simp]: "distinct (dict_keys d) \<Longrightarrow> distinct (dict_keys (dict_put k v d))"
  by (simp add: dict_keys_def dict_put_def distinct_update)

lemma distinct_keys_merge [simp]: "distinct (dict_keys a) \<Longrightarrow> distinct (dict_keys (dict_merge a b))"
  by (induction b arbitrary: a) (auto simp: dict_merge_Cons)

subsection \<open>Python strings\<close>

definition py_isspace :: "char \<Rightarrow> bool" where
  "py_isspace c \<longleftrightarrow> c \<in> set [CHR 0x09, CHR 0x0A, CHR 0x0B, CHR 0x0C, CHR 0x0D, CHR 0x1C, CHR 0x1D,
     CHR 0x1E, CHR 0x1F, CHR 0x20, CHR 0x85, CHR 0xA0]"

definition py_strip :: "string \<Rightarrow> string" where
  "py_strip s = rev (dropWhile py_isspace (rev (dropWhile py_isspace s)))"

definition is_blank :: "string \<Rightarrow> bool" where
  "is_blank s \<longleftrightarrow> py_strip s = []"

fun py_split_acc :: "char \<Rightarrow> string \<Rightarrow> string \<Rightarrow> string list" where
  "py_split_acc c acc [] = [rev acc]"
| "py_split_acc c acc (x # xs) =
     (if x = c then rev acc # py_split_acc c [] xs else py_split_acc c (x # acc) xs)"

definition py_split :: "char \<Rightarrow> string \<Rightarrow> string list" where
  "py_split c s = py_split_acc c [] s"

fun py_startswith :: "string \<Rightarrow> string \<Rightarrow> bool" where
  "py_startswith xs [] = True"
| "py_startswith [] (y # ys) = False"
| "py_startswith (x # xs) (y # ys) = (x = y \<and> py_startswith xs ys)"

fun py_substring :: "string \<Rightarrow> string \<Rightarrow> bool" where
  "py_substring needle [] = (needle = [])"
| "py_substring needle (x # xs) = (py_startswith (x # xs) needle \<or> py_substring needle xs)"

definition py_lower :: "string \<Rightarrow> string" where
  "py_lower s = map (\<lambda>c. let n = (of_char c :: nat) in
     if (65 \<le> n \<and> n \<le> 90) \<or> (192 \<le> n \<and> n \<le> 222 \<and> n \<noteq> 215) then char_of (n + 32) else c) s"

text \<open>\<open>repr\<close> of a string (\<open>!r\<close> in the messages) and \<open>str\<close> of a natural number.\<close>

definition hex_digit :: "nat \<Rightarrow> char" where
  "hex_digit n = ''0123456789abcdef'' ! n"

definition py_repr_char :: "char \<Rightarrow> char \<Rightarrow> string" where
  "py_repr_char q c =
     (let n = (of_char c :: nat) in
      if c = q \<or> c = CHR 0x5C then [CHR 0x5C, c]
      else if n = 10 then [CHR 0x5C, CHR ''n'']
      else if n = 13 then [CHR 0x5C, CHR ''r'']
      else if n = 9 then [CHR 0x5C, CHR ''t'']
      else if n < 32 \<or> (127 \<le> n \<and> n \<le> 160) \<or> n = 173
        then [CHR 0x5C, CHR ''x'', hex_digit (n div 16), hex_digit (n mod 16)]
      else [c])"

definition py_repr :: "string \<Rightarrow> string" where
  "py_repr s =
     (let q = (if CHR 0x27 \<in> set s \<and> CHR 0x22 \<notin> set s then CHR 0x22 else CHR 0x27) in
      [q] @ concat (map (py_repr_char q) s) @ [q])"

fun py_str_nat :: "nat \<Rightarrow> string" where
  "py_str_nat n =
     (if n < 10 then [''0123456789'' ! n] else py_str_nat (n div 10) @ [''0123456789'' ! (n mod 10)])"

declare py_str_nat.simps [simp del]

lemmas [py_simps] = py_isspace_def py_strip_def is_blank_def py_split_def

lemma is_blank_iff: "is_blank s \<longleftrightarrow> (\<forall>c\<in>set s. py_isspace c)"
proof -
  have "dropWhile py_isspace (rev (dropWhile py_isspace s)) = [] \<longleftrightarrow>
      (\<forall>c\<in>set (dropWhile py_isspace s). py_isspace c)"
    by (metis dropWhile_eq_Nil_conv set_rev)
  also have "\<dots> \<longleftrightarrow> (\<forall>c\<in>set s. py_isspace c)"
    by (metis dropWhile_eq_Nil_conv hd_dropWhile list.set_sel(1) set_dropWhileD)
  finally show ?thesis by (simp add: is_blank_def py_strip_def)
qed

lemma py_strip_idem [simp]: "py_strip (py_strip s) = py_strip s"
proof -
  define t where "t = dropWhile py_isspace (rev (dropWhile py_isspace s))"
  have "dropWhile py_isspace (rev t) = rev t"
  proof (cases "rev t")
    case Nil
    then show ?thesis by simp
  next
    case (Cons c cs)
    let ?d = "dropWhile py_isspace s"
    have "rev ?d = takeWhile py_isspace (rev ?d) @ t" unfolding t_def by simp
    then have "rev (rev ?d) = rev t @ rev (takeWhile py_isspace (rev ?d))" by (metis rev_append)
    with Cons have d: "?d = c # cs @ rev (takeWhile py_isspace (rev ?d))" by simp
    then have "?d \<noteq> []" by (metis list.distinct(1))
    then have "\<not> py_isspace (hd ?d)" by (rule hd_dropWhile)
    moreover have "hd ?d = c" by (subst d) simp
    ultimately show ?thesis using Cons by simp
  qed
  moreover have "dropWhile py_isspace t = t"
    unfolding t_def by simp
  ultimately show ?thesis by (simp add: py_strip_def t_def [symmetric])
qed

lemma py_startswith_iff: "py_startswith xs ys \<longleftrightarrow> (\<exists>zs. xs = ys @ zs)"
  by (induction xs ys rule: py_startswith.induct) auto

lemma py_substring_iff: "py_substring needle hay \<longleftrightarrow> (\<exists>us vs. hay = us @ needle @ vs)"
proof (induction hay)
  case Nil
  then show ?case by auto
next
  case (Cons x xs)
  show ?case (is "?l = ?r")
  proof
    assume ?l
    then consider "py_startswith (x # xs) needle" | "py_substring needle xs" by auto
    then show ?r
    proof cases
      case 1
      then obtain zs where "x # xs = [] @ needle @ zs" by (auto simp: py_startswith_iff)
      then show ?thesis by blast
    next
      case 2
      then obtain us vs where "xs = us @ needle @ vs" using Cons.IH by blast
      then have "x # xs = (x # us) @ needle @ vs" by simp
      then show ?thesis by blast
    qed
  next
    assume ?r
    then obtain us vs where e: "x # xs = us @ needle @ vs" by blast
    show ?l
    proof (cases us)
      case Nil
      with e have "py_startswith (x # xs) needle" by (auto simp: py_startswith_iff)
      then show ?thesis by simp
    next
      case (Cons u us')
      with e show ?thesis using Cons.IH by auto
    qed
  qed
qed

subsection \<open>Lists\<close>

lemma map_of_map_id:
  "map_of (map (\<lambda>x. (f x, x)) xs) k = Some x \<Longrightarrow> x \<in> set xs \<and> f x = k"
  by (induction xs) (auto split: if_splits)

lemma find_Some_iff_mem: "find P xs = Some x \<Longrightarrow> x \<in> set xs \<and> P x"
  by (auto simp: find_Some_iff)

lemma find_append: "find P (xs @ ys) = (case find P xs of None \<Rightarrow> find P ys | Some x \<Rightarrow> Some x)"
  by (induction xs) auto

lemma find_unique:
  assumes "distinct (map f xs)" and "x \<in> set xs"
  shows "find (\<lambda>y. f y = f x) xs = Some x"
  using assms by (induction xs) auto

end
