(* ===== verification/Py_Value.thy ===== *)
theory Py_Value
  imports Prelude Complex_Main
begin

section \<open>Dynamically typed values\<close>

text \<open>
  The values a JSON document, a node configuration or a node output holds (\<open>object\<close> in the
  source): None, booleans, unbounded integers, finite floats (as the rational they denote),
  strings, lists and dictionaries with string keys. \<open>py_eq\<close> is Python's \<open>==\<close> on them: booleans
  and floats compare with integers by value, dictionaries regardless of the order of their keys.
\<close>

datatype pyval =
    PNone
  | PBool bool
  | PInt int
  | PFloat rat
  | PStr string
  | PList "pyval list"
  | PDict "(string \<times> pyval) list"

fun py_number :: "pyval \<Rightarrow> rat option" where
  "py_number (PBool b) = Some (if b then 1 else 0)"
| "py_number (PInt i) = Some (of_int i)"
| "py_number (PFloat q) = Some q"
| "py_number _ = None"

fun py_eq :: "pyval \<Rightarrow> pyval \<Rightarrow> bool"
  and py_eq_list :: "pyval list \<Rightarrow> pyval list \<Rightarrow> bool"
  and py_eq_items :: "(string \<times> pyval) list \<Rightarrow> (string \<times> pyval) list \<Rightarrow> bool" where
  "py_eq PNone v = (v = PNone)"
| "py_eq (PBool b) v = (py_number v = Some (if b then 1 else 0))"
| "py_eq (PInt i) v = (py_number v = Some (of_int i))"
| "py_eq (PFloat q) v = (py_number v = Some q)"
| "py_eq (PStr s) v = (v = PStr s)"
| "py_eq (PList xs) v = (case v of PList ys \<Rightarrow> py_eq_list xs ys | _ \<Rightarrow> False)"
| "py_eq (PDict d) v =
     (case v of PDict e \<Rightarrow> length d = length e \<and> py_eq_items d e | _ \<Rightarrow> False)"
| "py_eq_list [] ys = (ys = [])"
| "py_eq_list (x # xs) ys = (case ys of [] \<Rightarrow> False | y # zs \<Rightarrow> py_eq x y \<and> py_eq_list xs zs)"
| "py_eq_items [] e = True"
| "py_eq_items ((k, v) # d) e =
     (case map_of e k of None \<Rightarrow> False | Some w \<Rightarrow> py_eq v w \<and> py_eq_items d e)"

fun is_pystr :: "pyval \<Rightarrow> bool" where
  "is_pystr (PStr _) = True"
| "is_pystr _ = False"

fun is_pydict :: "pyval \<Rightarrow> bool" where
  "is_pydict (PDict _) = True"
| "is_pydict _ = False"

text \<open>\<open>isinstance(x, int)\<close> holds of booleans as well: \<open>bool\<close> is a subclass of \<open>int\<close>.\<close>

fun py_as_int :: "pyval \<Rightarrow> int option" where
  "py_as_int (PInt i) = Some i"
| "py_as_int (PBool b) = Some (if b then 1 else 0)"
| "py_as_int _ = None"

text \<open>\<open>isinstance(x, str) and x.strip()\<close>: the guard most configuration readers use.\<close>

fun nonblank_str :: "pyval option \<Rightarrow> string option" where
  "nonblank_str (Some (PStr s)) = (if is_blank s then None else Some s)"
| "nonblank_str _ = None"

text \<open>\<open>[item for item in value if isinstance(item, str)]\<close>\<close>

definition str_items :: "pyval list \<Rightarrow> string list" where
  "str_items xs = concat (map (\<lambda>v. case v of PStr s \<Rightarrow> [s] | _ \<Rightarrow> []) xs)"

lemma str_items_simps [simp]:
  "str_items [] = []"
  "str_items (PStr s # xs) = s # str_items xs"
  by (simp_all add: str_items_def)

lemma str_items_append [simp]: "str_items (xs @ ys) = str_items xs @ str_items ys"
  by (simp add: str_items_def)

lemma str_items_map_PStr [simp]: "str_items (map PStr xs) = xs"
  by (induction xs) simp_all

lemma set_str_items: "s \<in> set (str_items xs) \<longleftrightarrow> PStr s \<in> set xs"
  by (induction xs) (auto simp: str_items_def split: pyval.splits)

lemma nonblank_str_Some: "nonblank_str v = Some s \<longleftrightarrow> v = Some (PStr s) \<and> \<not> is_blank s"
  by (cases v rule: nonblank_str.cases) auto

text \<open>Dictionaries without repeated keys, all the way down: what Python values satisfy.\<close>

fun wf_pyval :: "pyval \<Rightarrow> bool" where
  "wf_pyval (PList xs) = (\<forall>x\<in>set xs. wf_pyval x)"
| "wf_pyval (PDict d) = (distinct (map fst d) \<and> (\<forall>p\<in>set d. wf_pyval (snd p)))"
| "wf_pyval _ = True"


end
