(* ===== verification/Wf_Model.thy ===== *)
theory Wf_Model
  imports Py_Value
begin

section \<open>Workflow data model\<close>

text \<open>
  The pydantic models of \<open>app/ai/workflow/models\<close>: node types and statuses as datatypes,
  definitions, runs and node executions as records. Validators that the models run on
  construction are functions returning a \<open>ValueError\<close> (here its reason) or unit.
\<close>

datatype node_type = Task | Llm | Agent | Router | Fork | Join | Approval | Plugin | Terminal

datatype definition_status = Draft | Active | Archived

datatype run_status =
  RunPending | RunRunning | RunWaitingApproval | RunCompleted | RunFailed | RunCancelled

datatype node_status =
  NodePending | NodeRunning | NodeWaitingApproval | NodeSucceeded | NodeFailed | NodeSkipped
  | NodeCancelled

datatype approval_decision = Approved | Rejected | Expired

record retry_config =
  max_retries :: nat
  base_delay_seconds :: rat

record wf_node =
  wn_id :: string
  wn_type :: node_type
  wn_config :: "pyval dict"
  wn_retry_policy :: "retry_config option"
  wn_timeout_seconds :: "int option"

record wf_edge =
  we_id :: string
  we_from :: string
  we_to :: string
  we_condition :: "pyval dict option"

record wf_context =
  trigger_input :: "pyval dict"
  variables :: "pyval dict"
  metadata :: "pyval dict"

record wf_definition =
  wd_id :: uuid
  wd_owner_id :: uuid
  wd_name :: string
  wd_description :: "string option"
  wd_version :: nat
  wd_status :: definition_status
  wd_entry_node_id :: string
  wd_nodes :: "wf_node list"
  wd_edges :: "wf_edge list"
  wd_metadata :: "pyval dict"
  wd_created_at :: datetime
  wd_updated_at :: datetime

record wf_run =
  wr_id :: uuid
  wr_definition_id :: uuid
  wr_owner_id :: uuid
  wr_idempotency_key :: string
  wr_session_id :: "uuid option"
  wr_status :: run_status
  wr_context :: wf_context
  wr_current_node_ids :: "string list"
  wr_checkpoint_version :: nat
  wr_error :: "string option"
  wr_created_at :: datetime
  wr_updated_at :: datetime
  wr_started_at :: "datetime option"
  wr_completed_at :: "datetime option"

record wf_execution =
  wx_id :: uuid
  wx_run_id :: uuid
  wx_node_id :: string
  wx_node_type :: node_type
  wx_attempt :: nat
  wx_status :: node_status
  wx_input :: "pyval dict"
  wx_output :: "pyval dict option"
  wx_error :: "string option"
  wx_decided_by :: "uuid option"
  wx_decided_at :: "datetime option"
  wx_decision :: "approval_decision option"
  wx_edited_arguments :: "pyval dict option"
  wx_reason :: "string option"
  wx_started_at :: "datetime option"
  wx_completed_at :: "datetime option"

subsection \<open>Identifiers\<close>

datatype value_error =
    BadIdentifier string
  | EntryNodeMissing string
  | DuplicateEdgeId string
  | UnknownFromNode string
  | UnknownToNode string
  | DuplicateNodeId string
  | BlankIdempotencyKey

definition identifier_char :: "char \<Rightarrow> bool" where
  "identifier_char c \<longleftrightarrow> c \<in> set (''abcdefghijklmnopqrstuvwxyz'' @ ''ABCDEFGHIJKLMNOPQRSTUVWXYZ''
     @ ''0123456789_'')"

definition validate_identifier :: "string \<Rightarrow> value_error + string" where
  "validate_identifier value =
     (if value \<noteq> [] \<and> list_all identifier_char value then Inr value else Inl (BadIdentifier value))"

fun validate_identifier_dict_keys :: "pyval dict \<Rightarrow> value_error + unit" where
  "validate_identifier_dict_keys [] = Inr ()"
| "validate_identifier_dict_keys ((key, item) # rest) =
     (case validate_identifier key of
        Inl e \<Rightarrow> Inl e
      | Inr _ \<Rightarrow>
          (case (case item of PDict d \<Rightarrow> validate_identifier_dict_keys d | _ \<Rightarrow> Inr ()) of
             Inl e \<Rightarrow> Inl e
           | Inr _ \<Rightarrow> validate_identifier_dict_keys rest))"

definition normalize_idempotency_key :: "string \<Rightarrow> value_error + string" where
  "normalize_idempotency_key value =
     (let stripped = py_strip value in if stripped = [] then Inl BlankIdempotencyKey else Inr stripped)"

subsection \<open>Construction of a definition\<close>

fun check_edge_references ::
    "string list \<Rightarrow> string list \<Rightarrow> wf_edge list \<Rightarrow> value_error + unit" where
  "check_edge_references node_ids edge_ids [] = Inr ()"
| "check_edge_references node_ids edge_ids (edge # rest) =
     (if we_id edge \<in> set edge_ids then Inl (DuplicateEdgeId (we_id edge))
      else if we_from edge \<notin> set node_ids then Inl (UnknownFromNode (we_from edge))
      else if we_to edge \<notin> set node_ids then Inl (UnknownToNode (we_to edge))
      else check_edge_references node_ids (we_id edge # edge_ids) rest)"

fun check_distinct_nodes :: "string list \<Rightarrow> wf_node list \<Rightarrow> value_error + unit" where
  "check_distinct_nodes seen [] = Inr ()"
| "check_distinct_nodes seen (node # rest) =
     (if wn_id node \<in> set seen then Inl (DuplicateNodeId (wn_id node))
      else check_distinct_nodes (wn_id node # seen) rest)"

definition validate_graph_references :: "wf_definition \<Rightarrow> value_error + unit" where
  "validate_graph_references d =
     (let node_ids = map wn_id (wd_nodes d) in
      if wd_entry_node_id d \<notin> set node_ids then Inl (EntryNodeMissing (wd_entry_node_id d))
      else thenR (check_edge_references node_ids [] (wd_edges d))
                 (check_distinct_nodes [] (wd_nodes d)))"

text \<open>A definition object exists only when its validator passed.\<close>

definition wf_definition_ok :: "wf_definition \<Rightarrow> bool" where
  "wf_definition_ok d \<longleftrightarrow> validate_graph_references d = Inr ()"

lemma check_edge_references_iff [result_simps]:
  "check_edge_references ns seen es = Inr () \<longleftrightarrow>
     distinct (map we_id es) \<and> set (map we_id es) \<inter> set seen = {} \<and>
     (\<forall>e\<in>set es. we_from e \<in> set ns \<and> we_to e \<in> set ns)"
  by (induction es arbitrary: seen) auto

lemma check_distinct_nodes_iff [result_simps]:
  "check_distinct_nodes seen ns = Inr () \<longleftrightarrow>
     distinct (map wn_id ns) \<and> set (map wn_id ns) \<inter> set seen = {}"
  by (induction ns arbitrary: seen) auto

lemma wf_definition_ok_iff:
  "wf_definition_ok d \<longleftrightarrow>
     wd_entry_node_id d \<in> wn_id ` set (wd_nodes d) \<and>
     distinct (map wn_id (wd_nodes d)) \<and> distinct (map we_id (wd_edges d)) \<and>
     (\<forall>e\<in>set (wd_edges d). we_from e \<in> wn_id ` set (wd_nodes d) \<and> we_to e \<in> wn_id ` set (wd_nodes d))"
  by (auto simp: wf_definition_ok_def validate_graph_references_def Let_def thenR_eq_Inr
      check_edge_references_iff check_distinct_nodes_iff)

lemma normalize_idempotency_key_Inr:
  "normalize_idempotency_key v = Inr k \<Longrightarrow> k \<noteq> [] \<and> py_strip k = k"
  by (auto simp: normalize_idempotency_key_def Let_def split: if_splits)

text \<open>Lookups by id: \<open>nodes_by_id[id]\<close> and \<open>next((n for n in nodes if n.id == id), None)\<close>.\<close>

definition node_by_id :: "wf_definition \<Rightarrow> string \<Rightarrow> wf_node option" where
  "node_by_id d i = find (\<lambda>n. wn_id n = i) (wd_nodes d)"

lemma node_by_id_Some: "node_by_id d i = Some n \<Longrightarrow> n \<in> set (wd_nodes d) \<and> wn_id n = i"
  unfolding node_by_id_def by (rule find_Some_iff_mem)

lemma node_by_id_mem:
  "distinct (map wn_id (wd_nodes d)) \<Longrightarrow> n \<in> set (wd_nodes d) \<Longrightarrow> node_by_id d (wn_id n) = Some n"
  unfolding node_by_id_def by (rule find_unique)

lemma node_by_id_None: "node_by_id d i = None \<longleftrightarrow> i \<notin> wn_id ` set (wd_nodes d)"
  by (auto simp: node_by_id_def find_None_iff)

end
