(* ===== verification/Wf_Condition.thy ===== *)
theory Wf_Condition
  imports Wf_Model
begin

section \<open>The condition language of workflow edges\<close>

text \<open>
  \<open>conditions/field_resolution.py\<close>, \<open>conditions/evaluator.py\<close> and \<open>conditions/schema.py\<close>: dot-path
  lookup in the run context, the evaluator that the router runs on untyped dictionaries, and the
  shape check that definitions pass before they are stored. The abstract side is the typed
  condition \<open>cond\<close> with its meaning \<open>cond_holds\<close>; the refinement lemma at the end says that on a
  dictionary that passes the shape check the evaluator computes exactly that meaning.

  One branch of the evaluator can raise: \<open>expected in field_value\<close> on a dictionary with a list or
  dictionary operand is a \<open>TypeError\<close> (unhashable), so results are \<open>type_error + bool\<close>.
\<close>

datatype type_error = TypeError

subsection \<open>Field resolution\<close>

fun resolve_parts :: "string list \<Rightarrow> pyval \<Rightarrow> pyval option" where
  "resolve_parts [] current = Some current"
| "resolve_parts (part # parts) current =
     (case current of
        PDict d \<Rightarrow> (case dict_get d part of None \<Rightarrow> None | Some v \<Rightarrow> resolve_parts parts v)
      | _ \<Rightarrow> None)"

definition resolve_field :: "string \<Rightarrow> wf_context \<Rightarrow> pyval option" where
  "resolve_field path ctx =
     (case filter (\<lambda>segment. segment \<noteq> []) (py_split CHR ''.'' path) of
        [] \<Rightarrow> None
      | first # rest \<Rightarrow>
          if first = ''trigger_input'' then resolve_parts rest (PDict (trigger_input ctx))
          else if first = ''metadata'' then resolve_parts rest (PDict (metadata ctx))
          else if first = ''variables'' then resolve_parts rest (PDict (variables ctx))
          else resolve_parts (first # rest) (PDict (variables ctx)))"

subsection \<open>The evaluator\<close>

text \<open>\<open>isinstance(x, Real) and not isinstance(x, bool)\<close>\<close>

fun ordered_number :: "pyval \<Rightarrow> rat option" where
  "ordered_number (PInt i) = Some (of_int i)"
| "ordered_number (PFloat q) = Some q"
| "ordered_number _ = None"

definition compare_ordered :: "pyval \<Rightarrow> pyval \<Rightarrow> string \<Rightarrow> bool" where
  "compare_ordered left right operator =
     (case (ordered_number left, ordered_number right) of
        (Some l, Some r) \<Rightarrow>
          (if operator = ''gt'' then l > r
           else if operator = ''gte'' then l \<ge> r
           else if operator = ''lt'' then l < r
           else l \<le> r)
      | _ \<Rightarrow> False)"

text \<open>Membership \<open>x in [..]\<close> by \<open>==\<close>, and \<open>x in {..}\<close>, which hashes \<open>x\<close> first.\<close>

definition py_in_list :: "pyval \<Rightarrow> pyval list \<Rightarrow> bool" where
  "py_in_list x xs = list_ex (\<lambda>y. py_eq x y) xs"

fun py_in_dict :: "pyval \<Rightarrow> pyval dict \<Rightarrow> type_error + bool" where
  "py_in_dict (PList _) d = Inl TypeError"
| "py_in_dict (PDict _) d = Inl TypeError"
| "py_in_dict (PStr s) d = Inr (dict_get d s \<noteq> None)"
| "py_in_dict _ d = Inr False"

definition eval_contains :: "pyval \<Rightarrow> pyval \<Rightarrow> type_error + bool" where
  "eval_contains field_value expected =
     (case field_value of
        PStr s \<Rightarrow> (case expected of PStr t \<Rightarrow> Inr (py_substring t s) | _ \<Rightarrow> Inr False)
      | PList xs \<Rightarrow> Inr (py_in_list expected xs)
      | PDict d \<Rightarrow> py_in_dict expected d
      | _ \<Rightarrow> Inr False)"

text \<open>\<open>condition.get("value")\<close> is None when the key is missing.\<close>

definition get_or_None :: "pyval dict \<Rightarrow> string \<Rightarrow> pyval" where
  "get_or_None d k = (case dict_get d k of None \<Rightarrow> PNone | Some v \<Rightarrow> v)"

definition eval_operator :: "string \<Rightarrow> pyval \<Rightarrow> pyval \<Rightarrow> type_error + bool" where
  "eval_operator operator field_value expected =
     (if operator = ''eq'' then Inr (py_eq field_value expected)
      else if operator = ''neq'' then Inr (\<not> py_eq field_value expected)
      else if operator \<in> set [''gt'', ''gte'', ''lt'', ''lte'']
        then Inr (compare_ordered field_value expected operator)
      else if operator = ''in'' then
        (case expected of PList xs \<Rightarrow> Inr (py_in_list field_value xs) | _ \<Rightarrow> Inr False)
      else if operator = ''contains'' then eval_contains field_value expected
      else Inr False)"

definition evaluate_leaf :: "pyval dict \<Rightarrow> wf_context \<Rightarrow> type_error + bool" where
  "evaluate_leaf condition ctx =
     (case (dict_get condition ''field'', dict_get condition ''operator'') of
        (Some (PStr field), Some (PStr operator)) \<Rightarrow>
          (case resolve_field field ctx of
             None \<Rightarrow> Inr False
           | Some field_value \<Rightarrow>
               if operator = ''exists'' then Inr True
               else eval_operator operator field_value (get_or_None condition ''value''))
      | _ \<Rightarrow> Inr False)"

lemma size_map_of: "map_of d k = Some v \<Longrightarrow> size v < size (PDict d)"
proof (induction d)
  case Nil
  then show ?case by simp
next
  case (Cons p d)
  then show ?case by (cases p) (auto split: if_splits)
qed

lemma size_dict_get: "dict_get d k = Some v \<Longrightarrow> size v < size (PDict d)"
  unfolding dict_get_def by (rule size_map_of)

function (sequential) evaluate :: "pyval dict \<Rightarrow> wf_context \<Rightarrow> type_error + bool"
  and evaluate_all :: "pyval list \<Rightarrow> wf_context \<Rightarrow> type_error + bool"
  and evaluate_any :: "pyval list \<Rightarrow> wf_context \<Rightarrow> type_error + bool" where
  "evaluate condition ctx =
     (if dict_get condition ''all'' \<noteq> None \<and> dict_get condition ''any'' \<noteq> None then Inr False
      else if dict_get condition ''all'' \<noteq> None then
        (case dict_get condition ''all'' of
           Some (PList (c # cs)) \<Rightarrow> evaluate_all (c # cs) ctx | _ \<Rightarrow> Inr False)
      else if dict_get condition ''any'' \<noteq> None then
        (case dict_get condition ''any'' of
           Some (PList (c # cs)) \<Rightarrow> evaluate_any (c # cs) ctx | _ \<Rightarrow> Inr False)
      else evaluate_leaf condition ctx)"
| "evaluate_all [] ctx = Inr True"
| "evaluate_all (child # children) ctx =
     (case child of
        PDict d \<Rightarrow> (case evaluate d ctx of
                     Inl e \<Rightarrow> Inl e
                   | Inr b \<Rightarrow> if b then evaluate_all children ctx else Inr False)
      | _ \<Rightarrow> Inr False)"
| "evaluate_any [] ctx = Inr False"
| "evaluate_any (child # children) ctx =
     (case child of
        PDict d \<Rightarrow> (case evaluate d ctx of
                     Inl e \<Rightarrow> Inl e
                   | Inr b \<Rightarrow> if b then Inr True else evaluate_any children ctx)
      | _ \<Rightarrow> evaluate_any children ctx)"
  by pat_completeness auto
termination
  by (relation "measure (\<lambda>x. case x of
        Inl (c, _) \<Rightarrow> size (PDict c)
      | Inr (Inl (cs, _)) \<Rightarrow> size (PList cs)
      | Inr (Inr (cs, _)) \<Rightarrow> size (PList cs))")
    (auto dest: size_dict_get)

declare evaluate.simps [simp del]

subsection \<open>The shape check\<close>

datatype cond_error =
    CondNotObject
  | CondBothCompositions
  | CondMixedKeys
  | CondEmptyChildren
  | CondUnsupportedKeys
  | CondBadField
  | CondBadOperator
  | CondValueMissing

definition condition_operators :: "string list" where
  "condition_operators =
     [''eq'', ''neq'', ''gt'', ''gte'', ''lt'', ''lte'', ''in'', ''contains'', ''exists'']"

definition validate_leaf_shape :: "pyval dict \<Rightarrow> cond_error + unit" where
  "validate_leaf_shape condition =
     (if \<not> set (dict_keys condition) \<subseteq> set [''field'', ''operator'', ''value''] then Inl CondUnsupportedKeys
      else if nonblank_str (dict_get condition ''field'') = None then Inl CondBadField
      else (case dict_get condition ''operator'' of
              Some (PStr operator) \<Rightarrow>
                if operator \<notin> set condition_operators then Inl CondBadOperator
                else if operator = ''exists'' then Inr ()
                else if dict_get condition ''value'' = None then Inl CondValueMissing
                else Inr ()
            | _ \<Rightarrow> Inl CondBadOperator))"

function (sequential) validate_condition_shape :: "pyval dict \<Rightarrow> cond_error + unit"
  and validate_children :: "pyval list \<Rightarrow> cond_error + unit" where
  "validate_condition_shape condition =
     (if dict_get condition ''all'' \<noteq> None \<or> dict_get condition ''any'' \<noteq> None then
        (if dict_get condition ''all'' \<noteq> None \<and> dict_get condition ''any'' \<noteq> None
           then Inl CondBothCompositions
         else if \<not> set (dict_keys condition) \<subseteq> set [''all'', ''any''] then Inl CondMixedKeys
         else (case dict_get condition
                      (if dict_get condition ''all'' \<noteq> None then ''all'' else ''any'') of
                 Some (PList (c # cs)) \<Rightarrow> validate_children (c # cs)
               | _ \<Rightarrow> Inl CondEmptyChildren))
      else validate_leaf_shape condition)"
| "validate_children [] = Inr ()"
| "validate_children (child # children) =
     (case child of
        PDict d \<Rightarrow> (case validate_condition_shape d of
                     Inl e \<Rightarrow> Inl e | Inr _ \<Rightarrow> validate_children children)
      | _ \<Rightarrow> Inl CondNotObject)"
  by pat_completeness auto
termination
  by (relation "measure (\<lambda>x. case x of Inl c \<Rightarrow> size (PDict c) | Inr cs \<Rightarrow> size (PList cs))")
    (auto dest: size_dict_get)

declare validate_condition_shape.simps [simp del]

subsection \<open>Abstract conditions and their meaning\<close>

datatype cond_op =
  OpEq | OpNeq | OpGt | OpGte | OpLt | OpLte | OpIn | OpContains | OpExists

datatype cond =
    Leaf string cond_op pyval
  | AllOf "cond list"
  | AnyOf "cond list"

fun num_rel :: "cond_op \<Rightarrow> rat \<Rightarrow> rat \<Rightarrow> bool" where
  "num_rel OpGt l r = (l > r)"
| "num_rel OpGte l r = (l \<ge> r)"
| "num_rel OpLt l r = (l < r)"
| "num_rel OpLte l r = (l \<le> r)"
| "num_rel _ _ _ = False"

fun op_holds :: "cond_op \<Rightarrow> pyval \<Rightarrow> pyval \<Rightarrow> bool" where
  "op_holds OpExists v w = True"
| "op_holds OpEq v w = py_eq v w"
| "op_holds OpNeq v w = (\<not> py_eq v w)"
| "op_holds OpIn v w = (\<exists>xs. w = PList xs \<and> (\<exists>x\<in>set xs. py_eq v x))"
| "op_holds OpContains v w =
     ((\<exists>s t us vs. v = PStr s \<and> w = PStr t \<and> s = us @ t @ vs) \<or>
      (\<exists>xs. v = PList xs \<and> (\<exists>x\<in>set xs. py_eq w x)) \<or>
      (\<exists>d s. v = PDict d \<and> w = PStr s \<and> s \<in> fst ` set d))"
| "op_holds oper v w =
     (\<exists>l r. ordered_number v = Some l \<and> ordered_number w = Some r \<and> num_rel oper l r)"

fun cond_holds :: "cond \<Rightarrow> wf_context \<Rightarrow> bool" where
  "cond_holds (Leaf field oper w) ctx = (\<exists>v. resolve_field field ctx = Some v \<and> op_holds oper v w)"
| "cond_holds (AllOf cs) ctx = (\<forall>c\<in>set cs. cond_holds c ctx)"
| "cond_holds (AnyOf cs) ctx = (\<exists>c\<in>set cs. cond_holds c ctx)"

text \<open>The only leaves that can raise: \<open>contains\<close> with an unhashable operand.\<close>

fun may_raise :: "cond \<Rightarrow> bool" where
  "may_raise (Leaf field oper w) =
     (oper = OpContains \<and> (case w of PList _ \<Rightarrow> True | PDict _ \<Rightarrow> True | _ \<Rightarrow> False))"
| "may_raise (AllOf cs) = (\<exists>c\<in>set cs. may_raise c)"
| "may_raise (AnyOf cs) = (\<exists>c\<in>set cs. may_raise c)"

definition op_name :: "cond_op \<Rightarrow> string" where
  "op_name oper = (case oper of OpEq \<Rightarrow> ''eq'' | OpNeq \<Rightarrow> ''neq'' | OpGt \<Rightarrow> ''gt'' | OpGte \<Rightarrow> ''gte''
     | OpLt \<Rightarrow> ''lt'' | OpLte \<Rightarrow> ''lte'' | OpIn \<Rightarrow> ''in'' | OpContains \<Rightarrow> ''contains''
     | OpExists \<Rightarrow> ''exists'')"

text \<open>
  \<open>denotes d c\<close>: the dictionary \<open>d\<close> is a concrete form of the abstract condition \<open>c\<close> (keys in any
  order, an \<open>exists\<close> leaf with or without a value).
\<close>

inductive denotes :: "pyval dict \<Rightarrow> cond \<Rightarrow> bool" where
  leaf: "denotes d (Leaf field oper w)"
    if "set (dict_keys d) \<subseteq> {''field'', ''operator'', ''value''}"
       "dict_get d ''field'' = Some (PStr field)" "\<not> is_blank field"
       "dict_get d ''operator'' = Some (PStr (op_name oper))"
       "w = get_or_None d ''value''" "oper \<noteq> OpExists \<longrightarrow> dict_get d ''value'' \<noteq> None"
| all_of: "denotes d (AllOf cs)"
    if "set (dict_keys d) = {''all''}" "dict_get d ''all'' = Some (PList xs)" "xs \<noteq> []"
       "list_all2 (\<lambda>x c. \<exists>e. x = PDict e \<and> denotes e c) xs cs"
| any_of: "denotes d (AnyOf cs)"
    if "set (dict_keys d) = {''any''}" "dict_get d ''any'' = Some (PList xs)" "xs \<noteq> []"
       "list_all2 (\<lambda>x c. \<exists>e. x = PDict e \<and> denotes e c) xs cs"

subsection \<open>The evaluator refines the meaning\<close>

lemma op_name_in: "op_name oper \<in> set condition_operators"
  by (cases oper) (simp_all add: op_name_def condition_operators_def)

lemma op_name_surj: "s \<in> set condition_operators \<Longrightarrow> \<exists>oper. s = op_name oper"
proof -
  assume "s \<in> set condition_operators"
  then have "s \<in> op_name ` {OpEq, OpNeq, OpGt, OpGte, OpLt, OpLte, OpIn, OpContains, OpExists}"
    by (simp add: condition_operators_def op_name_def)
  then show ?thesis by blast
qed

lemma op_name_exists: "op_name oper = ''exists'' \<longleftrightarrow> oper = OpExists"
  by (cases oper) (simp_all add: op_name_def)

lemma py_in_list_iff: "py_in_list x xs \<longleftrightarrow> (\<exists>y\<in>set xs. py_eq x y)"
  by (auto simp: py_in_list_def list_ex_iff)

lemma compare_ordered_name:
  "oper \<in> {OpGt, OpGte, OpLt, OpLte} \<Longrightarrow>
   compare_ordered v w (op_name oper) \<longleftrightarrow>
     (\<exists>l r. ordered_number v = Some l \<and> ordered_number w = Some r \<and> num_rel oper l r)"
  by (auto simp: compare_ordered_def op_name_def split: option.splits)

lemma eval_contains_iff:
  "eval_contains v w = Inr b \<Longrightarrow> b = op_holds OpContains v w"
  by (cases v; cases w)
     (auto simp: eval_contains_def py_substring_iff py_in_list_iff dict_get_def map_of_eq_None_iff
        image_iff)

lemma eval_contains_raises:
  "eval_contains v w = Inl e \<Longrightarrow> (\<exists>xs. w = PList xs) \<or> (\<exists>d. w = PDict d)"
  by (cases v; cases w) (auto simp: eval_contains_def)

lemma eval_operator_name:
  "oper \<noteq> OpExists \<Longrightarrow> eval_operator (op_name oper) v w =
     (if oper = OpContains then eval_contains v w else Inr (op_holds oper v w))"
proof (cases "oper \<in> {OpGt, OpGte, OpLt, OpLte}")
  case True
  then have "op_name oper \<in> set [''gt'', ''gte'', ''lt'', ''lte'']" by (auto simp: op_name_def)
  moreover have "op_name oper \<noteq> ''eq'' \<and> op_name oper \<noteq> ''neq''" using True by (auto simp: op_name_def)
  ultimately have "eval_operator (op_name oper) v w = Inr (compare_ordered v w (op_name oper))"
    by (simp add: eval_operator_def)
  with True compare_ordered_name [OF True] show ?thesis by auto
next
  case False
  assume "oper \<noteq> OpExists"
  with False show ?thesis
    by (cases oper) (auto simp: op_name_def eval_operator_def py_in_list_iff split: pyval.splits)
qed

lemma evaluate_leaf_refines:
  assumes "dict_get d ''field'' = Some (PStr field)"
    and "dict_get d ''operator'' = Some (PStr (op_name oper))"
  shows "evaluate_leaf d ctx = Inr (cond_holds (Leaf field oper (get_or_None d ''value'')) ctx) \<or>
     (\<exists>e. evaluate_leaf d ctx = Inl e) \<and> may_raise (Leaf field oper (get_or_None d ''value''))"
proof (cases "resolve_field field ctx")
  case None
  with assms show ?thesis by (simp add: evaluate_leaf_def)
next
  case (Some v)
  let ?w = "get_or_None d ''value''"
  show ?thesis
  proof (cases "oper = OpExists")
    case True
    with assms Some show ?thesis by (simp add: evaluate_leaf_def op_name_exists)
  next
    case False
    with assms Some have e: "evaluate_leaf d ctx = eval_operator (op_name oper) v ?w"
      by (simp add: evaluate_leaf_def op_name_exists)
    show ?thesis
    proof (cases "oper = OpContains")
      case True
      show ?thesis
      proof (cases "eval_contains v ?w")
        case (Inl x)
        then have "(\<exists>xs. ?w = PList xs) \<or> (\<exists>d. ?w = PDict d)" by (rule eval_contains_raises)
        with True e Inl False show ?thesis by (auto simp: eval_operator_name)
      next
        case (Inr b)
        then have "b = op_holds OpContains v ?w" by (rule eval_contains_iff)
        with True e Inr Some show ?thesis by (simp add: eval_operator_name del: op_holds.simps)
      qed
    next
      case notc: False
      with False e have "evaluate_leaf d ctx = Inr (op_holds oper v ?w)"
        by (simp add: eval_operator_name)
      with Some show ?thesis by simp
    qed
  qed
qed

text \<open>What the evaluator returns for a form of \<open>c\<close>: the meaning of \<open>c\<close>, or a raise that \<open>c\<close> allows.\<close>

definition agrees :: "type_error + bool \<Rightarrow> cond \<Rightarrow> wf_context \<Rightarrow> bool" where
  "agrees r c ctx \<longleftrightarrow> r = Inr (cond_holds c ctx) \<or> (\<exists>e. r = Inl e) \<and> may_raise c"

lemma evaluate_all_agrees:
  assumes "list_all2 (\<lambda>x c. \<exists>e. x = PDict e \<and> agrees (evaluate e ctx) c ctx) xs cs"
  shows "agrees (evaluate_all xs ctx) (AllOf cs) ctx"
  using assms
proof (induction rule: list_all2_induct)
  case Nil
  then show ?case by (simp add: agrees_def)
next
  case (Cons x xs c cs)
  then obtain e where "x = PDict e" and a: "agrees (evaluate e ctx) c ctx" by blast
  then show ?case using Cons.IH a
    by (cases "evaluate e ctx") (auto simp: agrees_def)
qed

lemma evaluate_any_agrees:
  assumes "list_all2 (\<lambda>x c. \<exists>e. x = PDict e \<and> agrees (evaluate e ctx) c ctx) xs cs"
  shows "agrees (evaluate_any xs ctx) (AnyOf cs) ctx"
  using assms
proof (induction rule: list_all2_induct)
  case Nil
  then show ?case by (simp add: agrees_def)
next
  case (Cons x xs c cs)
  then obtain e where "x = PDict e" and a: "agrees (evaluate e ctx) c ctx" by blast
  then show ?case using Cons.IH a
    by (cases "evaluate e ctx") (auto simp: agrees_def)
qed

lemma evaluate_agrees: "denotes d c \<Longrightarrow> agrees (evaluate d ctx) c ctx"
proof (induction rule: denotes.induct)
  case (leaf d field oper w)
  have "dict_get d ''all'' = None" and "dict_get d ''any'' = None"
    using leaf(1) by (auto simp: dict_get_None)
  then have "evaluate d ctx = evaluate_leaf d ctx" by (simp add: evaluate.simps)
  with evaluate_leaf_refines [OF leaf(2) leaf(4)] leaf(5) show ?case by (simp add: agrees_def)
next
  case (all_of d xs cs)
  have "dict_get d ''any'' = None" using all_of(1) by (simp add: dict_get_None)
  moreover obtain y ys where "xs = y # ys" using all_of(3) by (cases xs) auto
  ultimately have "evaluate d ctx = evaluate_all xs ctx"
    using all_of(2) by (simp add: evaluate.simps [of d])
  moreover have "agrees (evaluate_all xs ctx) (AllOf cs) ctx"
    using all_of(4) by (intro evaluate_all_agrees) (auto elim!: list_all2_mono)
  ultimately show ?case by simp
next
  case (any_of d xs cs)
  have "dict_get d ''all'' = None" using any_of(1) by (simp add: dict_get_None)
  moreover obtain y ys where "xs = y # ys" using any_of(3) by (cases xs) auto
  ultimately have "evaluate d ctx = evaluate_any xs ctx"
    using any_of(2) by (simp add: evaluate.simps [of d])
  moreover have "agrees (evaluate_any xs ctx) (AnyOf cs) ctx"
    using any_of(4) by (intro evaluate_any_agrees) (auto elim!: list_all2_mono)
  ultimately show ?case by simp
qed

subsection \<open>The shape check accepts exactly the forms of abstract conditions\<close>

lemma validate_leaf_shape_iff:
  assumes "dict_get d ''all'' = None" "dict_get d ''any'' = None"
  shows "validate_leaf_shape d = Inr () \<longleftrightarrow> (\<exists>c. denotes d c)"
proof
  assume v: "validate_leaf_shape d = Inr ()"
  then have keys: "set (dict_keys d) \<subseteq> {''field'', ''operator'', ''value''}"
    by (auto simp: validate_leaf_shape_def split: if_splits)
  from v obtain field where field: "dict_get d ''field'' = Some (PStr field)" "\<not> is_blank field"
    by (auto simp: validate_leaf_shape_def nonblank_str_Some split: if_splits)
  from v obtain s where s: "dict_get d ''operator'' = Some (PStr s)" "s \<in> set condition_operators"
    by (auto simp: validate_leaf_shape_def split: if_splits option.splits pyval.splits)
  then obtain oper where oper: "s = op_name oper" using op_name_surj by blast
  from v s oper have "oper \<noteq> OpExists \<longrightarrow> dict_get d ''value'' \<noteq> None"
    by (auto simp: validate_leaf_shape_def op_name_exists split: if_splits)
  with keys field s oper have "denotes d (Leaf field oper (get_or_None d ''value''))"
    by (intro denotes.leaf) simp_all
  then show "\<exists>c. denotes d c" ..
next
  assume "\<exists>c. denotes d c"
  then obtain c where "denotes d c" ..
  then show "validate_leaf_shape d = Inr ()"
  proof (cases rule: denotes.cases)
    case (leaf field oper w)
    then have "nonblank_str (dict_get d ''field'') = Some field" by simp
    with leaf op_name_in [of oper] show ?thesis
      by (auto simp: validate_leaf_shape_def op_name_exists)
  qed (use assms in simp_all)
qed

lemma denotes_composite:
  assumes "denotes d c" and "dict_get d ''all'' \<noteq> None \<or> dict_get d ''any'' \<noteq> None"
  obtains (all) xs cs where "c = AllOf cs" "set (dict_keys d) = {''all''}"
      "dict_get d ''all'' = Some (PList xs)" "xs \<noteq> []"
      "list_all2 (\<lambda>x c. \<exists>e. x = PDict e \<and> denotes e c) xs cs"
    | (any) xs cs where "c = AnyOf cs" "set (dict_keys d) = {''any''}"
      "dict_get d ''any'' = Some (PList xs)" "xs \<noteq> []"
      "list_all2 (\<lambda>x c. \<exists>e. x = PDict e \<and> denotes e c) xs cs"
  using assms(1)
proof (cases rule: denotes.cases)
  case (leaf field oper w)
  then have "dict_get d ''all'' = None" and "dict_get d ''any'' = None" by (auto simp: dict_get_None)
  with assms(2) show ?thesis by simp
qed (use that in auto)

lemma list_all2_ex_Cons:
  "(\<exists>cs. list_all2 P (x # xs) cs) \<longleftrightarrow> (\<exists>c. P x c) \<and> (\<exists>cs. list_all2 P xs cs)"
  by (auto simp: list_all2_Cons1)

lemma validate_denotes:
  "validate_condition_shape d = Inr () \<longleftrightarrow> (\<exists>c. denotes d c)"
  "validate_children xs = Inr () \<longleftrightarrow>
     (\<exists>cs. list_all2 (\<lambda>x c. \<exists>e. x = PDict e \<and> denotes e c) xs cs)"
proof (induction d and xs rule: validate_condition_shape_validate_children.induct)
  case (1 d)
  let ?children = "\<lambda>xs. \<exists>cs. list_all2 (\<lambda>x c. \<exists>e. x = PDict e \<and> denotes e c) xs cs"
  show ?case
  proof (cases "dict_get d ''all'' \<noteq> None \<or> dict_get d ''any'' \<noteq> None")
    case False
    then show ?thesis using validate_leaf_shape_iff [of d]
      by (simp add: validate_condition_shape.simps [of d])
  next
    case comp: True
    show ?thesis
    proof
      assume v: "validate_condition_shape d = Inr ()"
      let ?k = "if dict_get d ''all'' \<noteq> None then ''all'' else ''any''"
      from v comp have one: "\<not> (dict_get d ''all'' \<noteq> None \<and> dict_get d ''any'' \<noteq> None)"
        and keys: "set (dict_keys d) \<subseteq> {''all'', ''any''}"
        by (auto simp: validate_condition_shape.simps [of d] split: if_splits)
      from v comp one obtain x xs where xs: "dict_get d ?k = Some (PList (x # xs))"
          "validate_children (x # xs) = Inr ()"
        by (auto simp: validate_condition_shape.simps [of d] split: if_splits option.splits
            pyval.splits list.splits)
      with "1.IH" comp one keys have "?children (x # xs)" by auto
      then obtain cs where cs: "list_all2 (\<lambda>x c. \<exists>e. x = PDict e \<and> denotes e c) (x # xs) cs" ..
      show "\<exists>c. denotes d c"
      proof (cases "dict_get d ''all'' \<noteq> None")
        case True
        with one have "''any'' \<notin> set (dict_keys d)" by (simp add: dict_get_None)
        moreover have "''all'' \<in> set (dict_keys d)" using True by (auto dest: dict_get_Some_key)
        ultimately have "set (dict_keys d) = {''all''}" using keys by auto
        with True xs cs have "denotes d (AllOf cs)" by (intro denotes.all_of) simp_all
        then show ?thesis ..
      next
        case False
        with comp have "''any'' \<in> set (dict_keys d)" by (auto dest: dict_get_Some_key)
        moreover have "''all'' \<notin> set (dict_keys d)" using False by (simp add: dict_get_None)
        ultimately have "set (dict_keys d) = {''any''}" using keys by auto
        with False xs cs have "denotes d (AnyOf cs)" by (intro denotes.any_of) simp_all
        then show ?thesis ..
      qed
    next
      assume "\<exists>c. denotes d c"
      then obtain c where "denotes d c" ..
      then show "validate_condition_shape d = Inr ()"
        using comp
      proof (cases rule: denotes_composite)
        case (all xs cs)
        then obtain y ys where xs: "xs = y # ys" by (cases xs) auto
        have "dict_get d ''any'' = None" using all by (simp add: dict_get_None)
        moreover from this all xs "1.IH" have "validate_children (y # ys) = Inr ()" by auto
        ultimately show ?thesis using all xs by (simp add: validate_condition_shape.simps [of d])
      next
        case (any xs cs)
        then obtain y ys where xs: "xs = y # ys" by (cases xs) auto
        have "dict_get d ''all'' = None" using any by (simp add: dict_get_None)
        moreover from this any xs "1.IH" have "validate_children (y # ys) = Inr ()" by auto
        ultimately show ?thesis using any xs by (simp add: validate_condition_shape.simps [of d])
      qed
    qed
  qed
next
  case 2
  then show ?case by simp
next
  case (3 x xs)
  show ?case
  proof (cases x)
    case (PDict e)
    then show ?thesis using "3.IH" unfolding list_all2_ex_Cons
      by (cases "validate_condition_shape e") auto
  qed (simp_all add: list_all2_ex_Cons)
qed

end
