(* ===== verification/Tools.thy ===== *)
theory Tools
  imports Wf_Condition
begin

section \<open>Tool definitions, registry and argument validation\<close>

text \<open>
  \<open>app/ai/tools/schemas.py\<close> (the fields governance reads), \<open>registry.py\<close> as a dictionary from tool
  names to registered tools, and \<open>validator.py\<close>, the JSON-Schema subset that tool calls and plugin
  node configurations are checked against. Of a tool's handler the registry keeps the one
  attribute the engine asks for, \<open>execution_receipt_aware\<close>.
\<close>

record tool_definition =
  td_name :: string
  td_description :: string
  td_parameters :: "pyval dict"
  td_requires_approval :: bool
  td_category :: "string option"
  td_risk_level :: "string option"
  td_data_sensitivity :: "string option"

record registered_tool =
  rt_definition :: tool_definition
  rt_receipt_aware :: bool

type_synonym tool_registry = "registered_tool dict"

datatype registry_error = ToolAlreadyRegistered string

definition registry_register ::
    "tool_registry \<Rightarrow> registered_tool \<Rightarrow> registry_error + tool_registry" where
  "registry_register reg tool =
     (let name = td_name (rt_definition tool) in
      if dict_get reg name \<noteq> None then Inl (ToolAlreadyRegistered name)
      else Inr (dict_put name tool reg))"

definition registry_unregister :: "tool_registry \<Rightarrow> string \<Rightarrow> tool_registry" where
  "registry_unregister reg name = filter (\<lambda>p. fst p \<noteq> name) reg"

definition registry_get :: "tool_registry \<Rightarrow> string \<Rightarrow> tool_definition option" where
  "registry_get reg name = map_option rt_definition (dict_get reg name)"

definition list_tools :: "tool_registry \<Rightarrow> tool_definition list" where
  "list_tools reg = map (rt_definition \<circ> snd) reg"

text \<open>Every entry is filed under its own name, once.\<close>

definition registry_ok :: "tool_registry \<Rightarrow> bool" where
  "registry_ok reg \<longleftrightarrow> distinct (dict_keys reg) \<and> (\<forall>p\<in>set reg. td_name (rt_definition (snd p)) = fst p)"

lemma dict_put_new: "dict_get d k = None \<Longrightarrow> dict_put k v d = d @ [(k, v)]"
  unfolding dict_get_def dict_put_def by (induction d) (auto split: if_splits)

lemma registry_register_ok:
  "registry_ok reg \<Longrightarrow> registry_register reg tool = Inr reg' \<Longrightarrow> registry_ok reg'"
  by (auto simp: registry_ok_def registry_register_def Let_def dict_put_new dict_keys_def
      dict_get_None split: if_splits)

lemma registry_unregister_ok: "registry_ok reg \<Longrightarrow> registry_ok (registry_unregister reg name)"
  by (auto simp: registry_ok_def registry_unregister_def dict_keys_def distinct_map_filter)

lemma registry_get_register:
  "registry_register reg tool = Inr reg' \<Longrightarrow>
   registry_get reg' n = (if n = td_name (rt_definition tool) then Some (rt_definition tool) else registry_get reg n)"
  by (auto simp: registry_register_def registry_get_def Let_def split: if_splits)

lemma registry_get_unregister:
  "registry_get (registry_unregister reg name) n = (if n = name then None else registry_get reg n)"
  by (induction reg) (auto simp: registry_unregister_def registry_get_def dict_get_def)

lemma list_tools_register:
  "registry_register reg tool = Inr reg' \<Longrightarrow> list_tools reg' = list_tools reg @ [rt_definition tool]"
  by (auto simp: registry_register_def list_tools_def Let_def dict_put_new split: if_splits)

subsection \<open>Argument validation\<close>

datatype validation_error =
    SchemaNotObject
  | InvalidProperties
  | InvalidRequired
  | MissingArgument pyval
  | UnknownArgument string
  | InvalidArgumentSchema string
  | InvalidArgumentType string
  | WrongArgumentType string

definition value_matches_type :: "pyval \<Rightarrow> pyval \<Rightarrow> bool" where
  "value_matches_type value expected =
     (if expected = PStr ''string'' then (case value of PStr _ \<Rightarrow> True | _ \<Rightarrow> False)
      else if expected = PStr ''integer'' then (case value of PInt _ \<Rightarrow> True | _ \<Rightarrow> False)
      else if expected = PStr ''number'' then
        (case value of PInt _ \<Rightarrow> True | PFloat _ \<Rightarrow> True | _ \<Rightarrow> False)
      else if expected = PStr ''boolean'' then (case value of PBool _ \<Rightarrow> True | _ \<Rightarrow> False)
      else if expected = PStr ''array'' then (case value of PList _ \<Rightarrow> True | _ \<Rightarrow> False)
      else if expected = PStr ''object'' then (case value of PDict _ \<Rightarrow> True | _ \<Rightarrow> False)
      else if expected = PStr ''null'' then value = PNone
      else True)"

definition validate_type :: "string \<Rightarrow> pyval \<Rightarrow> pyval \<Rightarrow> validation_error option" where
  "validate_type key value expected_type =
     (case expected_type of
        PNone \<Rightarrow> None
      | PList options \<Rightarrow>
          (if list_ex (value_matches_type value) options then None else Some (InvalidArgumentType key))
      | PStr s \<Rightarrow>
          (if value_matches_type value (PStr s) then None else Some (WrongArgumentType key))
      | _ \<Rightarrow> Some (InvalidArgumentSchema key))"

fun check_required :: "pyval list \<Rightarrow> pyval dict \<Rightarrow> type_error + validation_error option" where
  "check_required [] arguments = Inr None"
| "check_required (field_name # rest) arguments =
     (case py_in_dict field_name arguments of
        Inl e \<Rightarrow> Inl e
      | Inr present \<Rightarrow>
          if present then check_required rest arguments else Inr (Some (MissingArgument field_name)))"

fun check_arguments :: "pyval dict \<Rightarrow> pyval dict \<Rightarrow> validation_error option" where
  "check_arguments properties [] = None"
| "check_arguments properties ((key, value) # rest) =
     (case dict_get properties key of
        None \<Rightarrow> Some (UnknownArgument key)
      | Some (PDict prop_schema) \<Rightarrow>
          (case validate_type key value (get_or_None prop_schema ''type'') of
             Some e \<Rightarrow> Some e
           | None \<Rightarrow> check_arguments properties rest)
      | Some _ \<Rightarrow> Some (InvalidArgumentSchema key))"

definition tool_validate ::
    "pyval dict \<Rightarrow> pyval dict \<Rightarrow> type_error + validation_error option" where
  "tool_validate schema arguments =
     (let typ = (case dict_get schema ''type'' of None \<Rightarrow> PStr ''object'' | Some t \<Rightarrow> t);
          properties = get_or_None schema ''properties'';
          required = (case dict_get schema ''required'' of None \<Rightarrow> PList [] | Some r \<Rightarrow> r) in
      if typ \<noteq> PStr ''object'' then Inr (Some SchemaNotObject)
      else if properties \<noteq> PNone \<and> \<not> is_pydict properties then Inr (Some InvalidProperties)
      else (case required of
              PList names \<Rightarrow>
                (case check_required names arguments of
                   Inl e \<Rightarrow> Inl e
                 | Inr (Some e) \<Rightarrow> Inr (Some e)
                 | Inr None \<Rightarrow>
                     (case properties of
                        PDict props \<Rightarrow> Inr (check_arguments props arguments)
                      | _ \<Rightarrow> Inr None))
            | _ \<Rightarrow> Inr (Some InvalidRequired)))"

lemma check_required_None:
  "check_required names arguments = Inr None \<longleftrightarrow>
     (\<forall>n\<in>set names. \<exists>s. n = PStr s \<and> s \<in> set (dict_keys arguments))"
proof (induction names)
  case Nil
  then show ?case by simp
next
  case (Cons n names)
  have "py_in_dict n arguments = Inr True \<longleftrightarrow> (\<exists>s. n = PStr s \<and> s \<in> set (dict_keys arguments))"
    by (cases n) (auto simp: in_dict_keys)
  moreover have "check_required (n # names) arguments = Inr None \<longleftrightarrow>
      py_in_dict n arguments = Inr True \<and> check_required names arguments = Inr None"
    by (cases "py_in_dict n arguments") auto
  ultimately show ?case using Cons.IH by auto
qed

definition type_accepts :: "pyval \<Rightarrow> pyval \<Rightarrow> bool" where
  "type_accepts value ty \<longleftrightarrow> ty = PNone \<or> (\<exists>s. ty = PStr s \<and> value_matches_type value ty) \<or>
     (\<exists>opts. ty = PList opts \<and> (\<exists>t\<in>set opts. value_matches_type value t))"

lemma validate_type_None: "validate_type key value ty = None \<longleftrightarrow> type_accepts value ty"
  by (cases ty) (auto simp: validate_type_def type_accepts_def list_ex_iff)

lemma check_arguments_None:
  "check_arguments props args = None \<longleftrightarrow>
     (\<forall>(k, v)\<in>set args. \<exists>ps. dict_get props k = Some (PDict ps) \<and> type_accepts v (get_or_None ps ''type''))"
proof (induction props args rule: check_arguments.induct)
  case (1 props)
  then show ?case by simp
next
  case (2 props key v rest)
  then show ?case
    by (auto simp: validate_type_None [symmetric, where key = key] split: option.splits pyval.splits)
qed

end
