(* ===== verification/Wf_Node_Config.thy ===== *)
theory Wf_Node_Config
  imports Tools
begin

section \<open>Definition-time checks of node configurations\<close>

text \<open>
  \<open>graph/node_config.py\<close>, with the plugin registries it and the graph validator consult
  (\<open>plugins/registry.py\<close>, \<open>plugins/workflow/registry.py\<close>). Each check returns the first problem the
  code would raise. The lemma at the end says in one place what an accepted configuration is.
\<close>

datatype plugin_status = PluginLoaded | PluginFailed

type_synonym plugin_records = "(string \<times> plugin_status) list"
type_synonym workflow_plugins = "((string \<times> string) \<times> pyval dict) list"

definition plugin_registry_get :: "plugin_records \<Rightarrow> string \<Rightarrow> plugin_status option" where
  "plugin_registry_get records plugin_id = map_of records plugin_id"

definition workflow_plugin_has :: "workflow_plugins \<Rightarrow> string \<Rightarrow> string \<Rightarrow> bool" where
  "workflow_plugin_has reg plugin_id node_type \<longleftrightarrow> map_of reg (plugin_id, node_type) \<noteq> None"

definition workflow_plugin_schema :: "workflow_plugins \<Rightarrow> string \<Rightarrow> string \<Rightarrow> pyval dict option" where
  "workflow_plugin_schema reg plugin_id node_type =
     (case map_of reg (plugin_id, node_type) of
        None \<Rightarrow> None
      | Some schema \<Rightarrow> if schema = [] then None else Some schema)"

datatype node_config_error =
    LlmPromptTemplate
  | LlmModelOverride
  | FileTemplateRef
  | AgentGoal
  | FileTemplateUnsupported
  | AgentInstructions
  | AgentToolNames
  | AgentToolName nat
  | AgentMaxIterations
  | AgentModelOverride
  | ApprovalEdgeId string
  | PluginIdRequired
  | PluginNodeTypeRequired
  | PluginConfigInvalid validation_error
  | PluginConfigTypeError

definition is_None_value :: "pyval option \<Rightarrow> bool" where
  "is_None_value v \<longleftrightarrow> v = None \<or> v = Some PNone"

definition parse_file_template_ref :: "string \<Rightarrow> node_config_error + string \<times> string \<times> string" where
  "parse_file_template_ref prompt_template =
     (case py_split CHR ''/'' (drop 1 prompt_template) of
        [category, name, version] \<Rightarrow>
          (if is_blank category \<or> is_blank name \<or> is_blank version then Inl FileTemplateRef
           else Inr (category, name, version))
      | _ \<Rightarrow> Inl FileTemplateRef)"

definition check_model_override :: "pyval dict \<Rightarrow> node_config_error \<Rightarrow> node_config_error + unit" where
  "check_model_override config err =
     (let model_override = dict_get config ''model_override'' in
      checkR (is_None_value model_override \<or> nonblank_str model_override \<noteq> None) err)"

definition validate_llm_node_config :: "pyval dict \<Rightarrow> node_config_error + unit" where
  "validate_llm_node_config config =
     (case nonblank_str (dict_get config ''prompt_template'') of
        None \<Rightarrow> Inl LlmPromptTemplate
      | Some prompt_template \<Rightarrow>
          thenR (check_model_override config LlmModelOverride)
            (if py_startswith prompt_template ''@''
             then bindR (parse_file_template_ref prompt_template) (\<lambda>_. Inr ())
             else Inr ()))"

definition reject_file_template_ref :: "string \<Rightarrow> node_config_error + unit" where
  "reject_file_template_ref value = checkR (\<not> py_startswith value ''@'') FileTemplateUnsupported"

fun check_tool_names :: "nat \<Rightarrow> pyval list \<Rightarrow> node_config_error + unit" where
  "check_tool_names index [] = Inr ()"
| "check_tool_names index (name # names) =
     (if nonblank_str (Some name) = None then Inl (AgentToolName index)
      else check_tool_names (Suc index) names)"

definition validate_agent_node_config :: "pyval dict \<Rightarrow> node_config_error + unit" where
  "validate_agent_node_config config =
     (case nonblank_str (dict_get config ''goal'') of
        None \<Rightarrow> Inl AgentGoal
      | Some goal \<Rightarrow>
          thenR (reject_file_template_ref goal)
         (thenR (let instructions = dict_get config ''instructions'' in
                 if is_None_value instructions then Inr ()
                 else (case nonblank_str instructions of
                         None \<Rightarrow> Inl AgentInstructions
                       | Some s \<Rightarrow> reject_file_template_ref s))
         (thenR (let tool_names = dict_get config ''tool_names'' in
                 if is_None_value tool_names then Inr ()
                 else (case tool_names of
                         Some (PList (n # ns)) \<Rightarrow> check_tool_names 0 (n # ns)
                       | _ \<Rightarrow> Inl AgentToolNames))
         (thenR (let max_iterations = dict_get config ''max_iterations'' in
                 if is_None_value max_iterations then Inr ()
                 else (case Option.bind max_iterations py_as_int of
                         Some i \<Rightarrow> checkR (1 \<le> i) AgentMaxIterations
                       | None \<Rightarrow> Inl AgentMaxIterations))
                (check_model_override config AgentModelOverride)))))"

definition check_approval_edge_id :: "pyval dict \<Rightarrow> string \<Rightarrow> node_config_error + unit" where
  "check_approval_edge_id config key =
     (let value = dict_get config key in
      checkR (is_None_value value \<or> nonblank_str value \<noteq> None) (ApprovalEdgeId key))"

definition validate_approval_node_config :: "pyval dict \<Rightarrow> node_config_error + unit" where
  "validate_approval_node_config config =
     forR (check_approval_edge_id config) [''approved_edge_id'', ''rejected_edge_id'']"

definition validate_plugin_node_config ::
    "workflow_plugins option \<Rightarrow> pyval dict \<Rightarrow> node_config_error + unit" where
  "validate_plugin_node_config registry config =
     (case nonblank_str (dict_get config ''plugin_id'') of
        None \<Rightarrow> Inl PluginIdRequired
      | Some plugin_id \<Rightarrow>
     (case nonblank_str (dict_get config ''plugin_node_type'') of
        None \<Rightarrow> Inl PluginNodeTypeRequired
      | Some plugin_node_type \<Rightarrow>
     (case registry of
        None \<Rightarrow> Inr ()
      | Some reg \<Rightarrow>
     (case workflow_plugin_schema reg plugin_id plugin_node_type of
        None \<Rightarrow> Inr ()
      | Some schema \<Rightarrow>
     (case tool_validate schema config of
        Inl _ \<Rightarrow> Inl PluginConfigTypeError
      | Inr None \<Rightarrow> Inr ()
      | Inr (Some e) \<Rightarrow> Inl (PluginConfigInvalid e))))))"

definition validate_node_config ::
    "workflow_plugins option \<Rightarrow> wf_node \<Rightarrow> node_config_error + unit" where
  "validate_node_config registry node =
     (case wn_type node of
        Llm \<Rightarrow> validate_llm_node_config (wn_config node)
      | Agent \<Rightarrow> validate_agent_node_config (wn_config node)
      | Approval \<Rightarrow> validate_approval_node_config (wn_config node)
      | Plugin \<Rightarrow> validate_plugin_node_config registry (wn_config node)
      | _ \<Rightarrow> Inr ())"

text \<open>The loop over the nodes; the error carries the id of the node it names.\<close>

definition validate_node_configs ::
    "workflow_plugins option \<Rightarrow> wf_node list \<Rightarrow> (string \<times> node_config_error) + unit" where
  "validate_node_configs registry nodes =
     forR (\<lambda>node. case validate_node_config registry node of
                     Inl e \<Rightarrow> Inl (wn_id node, e) | Inr _ \<Rightarrow> Inr ()) nodes"

lemma validate_node_configs_iff:
  "validate_node_configs reg nodes = Inr () \<longleftrightarrow> (\<forall>n\<in>set nodes. validate_node_config reg n = Inr ())"
proof -
  have "(case r of Inl e \<Rightarrow> Inl (i, e) | Inr _ \<Rightarrow> Inr ()) = Inr () \<longleftrightarrow> r = Inr ()"
    for r :: "node_config_error + unit" and i :: string
    by (cases r) simp_all
  then show ?thesis by (simp add: validate_node_configs_def forR_eq_Inr)
qed

lemma check_tool_names_iff:
  "check_tool_names i names = Inr () \<longleftrightarrow> (\<forall>n\<in>set names. \<exists>s. n = PStr s \<and> \<not> is_blank s)"
proof (induction names arbitrary: i)
  case Nil
  then show ?case by simp
next
  case (Cons n names)
  have "nonblank_str (Some n) = None \<longleftrightarrow> \<not> (\<exists>s. n = PStr s \<and> \<not> is_blank s)"
    using nonblank_str_Some [of "Some n"] by (cases "nonblank_str (Some n)") auto
  then show ?case using Cons.IH [of "Suc i"] by auto
qed

end
