(* ===== verification/Wf_Nodes.thy ===== *)
theory Wf_Nodes
  imports Wf_Node_Config
begin

section \<open>Node executors\<close>

text \<open>
  \<open>app/ai/workflow/nodes\<close>: what each node type computes from its configuration, the run context
  and the request. The tool executor, the agent runtime, the LLM provider, the prompt manager and
  Jinja are the fields of the record \<open>platform\<close>, each of which may return an error; a theorem about
  node executors holds for every \<open>platform\<close>. A node executor raises a
  \<open>WorkflowNodeExecutionError\<close> (message and code) or lets another exception through.
\<close>

datatype node_exn =
    NodeExecutionError string "string option"
  | UnexpectedError string

abbreviation invalid_config :: "string \<Rightarrow> node_exn" where
  "invalid_config msg \<equiv> NodeExecutionError msg (Some ''invalid_config'')"

record node_request =
  nr_owner_id :: uuid
  nr_execution_receipt_id :: string
  nr_outgoing_edges :: "wf_edge list"

subsection \<open>Router\<close>

definition edge_matches :: "wf_edge \<Rightarrow> wf_context \<Rightarrow> type_error + bool" where
  "edge_matches edge ctx =
     (case we_condition edge of None \<Rightarrow> Inr True | Some condition \<Rightarrow> evaluate condition ctx)"

fun select_edges :: "wf_edge list \<Rightarrow> wf_context \<Rightarrow> string \<Rightarrow> type_error + string list" where
  "select_edges [] ctx routing_mode = Inr []"
| "select_edges (edge # rest) ctx routing_mode =
     (case edge_matches edge ctx of
        Inl e \<Rightarrow> Inl e
      | Inr matches \<Rightarrow>
          if \<not> matches then select_edges rest ctx routing_mode
          else if routing_mode = ''exclusive'' then Inr [we_id edge]
          else (case select_edges rest ctx routing_mode of
                  Inl e \<Rightarrow> Inl e
                | Inr matching \<Rightarrow> Inr (we_id edge # matching)))"

definition router_execute :: "wf_node \<Rightarrow> wf_context \<Rightarrow> node_request \<Rightarrow> node_exn + pyval dict" where
  "router_execute node ctx request =
     (let edges = nr_outgoing_edges request;
          mode = (case dict_get (wn_config node) ''routing_mode'' of
                    None \<Rightarrow> PStr ''exclusive'' | Some m \<Rightarrow> m) in
      if edges = [] then Inl (invalid_config
        (''Router node '' @ py_repr (wn_id node) @ '' requires outgoing_edges on the execution request.''))
      else (case mode of
        PStr routing_mode \<Rightarrow>
          (if routing_mode \<notin> {''exclusive'', ''all_matching''} then Inl (invalid_config
             (''Router node '' @ py_repr (wn_id node) @ '' has unsupported routing_mode ''
              @ py_repr routing_mode @ ''.''))
           else (case select_edges edges ctx routing_mode of
                   Inl _ \<Rightarrow> Inl (UnexpectedError ''TypeError'')
                 | Inr [] \<Rightarrow> Inl (NodeExecutionError
                     (''Router node '' @ py_repr (wn_id node) @ '' matched no outgoing edge.'')
                     (Some ''no_matching_edge''))
                 | Inr selected \<Rightarrow> Inr [(''selected_edge_ids'', PList (map PStr selected))]))
      | _ \<Rightarrow> Inl (invalid_config
          (''Router node '' @ py_repr (wn_id node) @ '' config.routing_mode must be a string.''))))"

subsection \<open>Fork and join\<close>

definition parse_join_config :: "wf_node \<Rightarrow> node_exn + (string \<times> int \<times> bool)" where
  "parse_join_config node =
     (let name = ''Join node '' @ py_repr (wn_id node);
          raw_policy = (case dict_get (wn_config node) ''join_policy'' of
                          None \<Rightarrow> PStr ''all'' | Some p \<Rightarrow> p);
          raw_cancel = (case dict_get (wn_config node) ''cancel_remaining'' of
                          None \<Rightarrow> PBool True | Some c \<Rightarrow> c);
          finish = (\<lambda>policy count. (case raw_cancel of
              PBool cancel \<Rightarrow> Inr (policy, count, cancel)
            | _ \<Rightarrow> Inl (invalid_config (name @ '' config.cancel_remaining must be a boolean.''))))
      in
      (case raw_policy of
         PStr policy \<Rightarrow>
           (if policy \<notin> {''all'', ''any'', ''count''} then Inl (invalid_config
              (name @ '' has unsupported join_policy '' @ py_repr policy @ ''.''))
            else if policy = ''count'' then
              (case Option.bind (dict_get (wn_config node) ''count'') py_as_int of
                 Some count \<Rightarrow>
                   (if count < 1 then Inl (invalid_config
                      (name @ '' requires config.count >= 1 when join_policy is 'count'.''))
                    else finish policy count)
               | None \<Rightarrow> Inl (invalid_config
                   (name @ '' requires config.count >= 1 when join_policy is 'count'.'')))
            else finish policy 1)
       | _ \<Rightarrow> Inl (invalid_config (name @ '' config.join_policy must be a string.''))))"

definition fork_execute :: "nat \<Rightarrow> wf_node \<Rightarrow> wf_context \<Rightarrow> node_request \<Rightarrow> node_exn + pyval dict" where
  "fork_execute max_parallel_branches node ctx request =
     (let edges = nr_outgoing_edges request; name = ''Fork node '' @ py_repr (wn_id node) in
      if edges = [] then Inl (invalid_config (name @ '' has no outgoing edges.''))
      else (case nonblank_str (dict_get (wn_config node) ''join_node_id'') of
        None \<Rightarrow> Inl (invalid_config (name @ '' requires config.join_node_id.''))
      | Some join_node_id \<Rightarrow>
          (let branch_edges = filter (\<lambda>edge. we_to edge \<noteq> join_node_id) edges;
               branch_count = length branch_edges in
           if branch_edges = [] then Inl (invalid_config (name @ '' has no branch outgoing edges.''))
           else if branch_count > max_parallel_branches then Inl (NodeExecutionError
             (name @ '' fans out to '' @ py_str_nat branch_count @ '' branches; maximum is ''
              @ py_str_nat max_parallel_branches @ '' (workflow_max_parallel_branches).'')
             (Some ''parallel_limit_exceeded''))
           else Inr [(''join_node_id'', PStr join_node_id),
                     (''branch_node_ids'', PList (map (\<lambda>edge. PStr (we_to edge)) branch_edges)),
                     (''branch_count'', PInt (int branch_count))])))"

text \<open>\<open>{b: variables[b] for b in branch_ids if b in variables}\<close>\<close>

definition merged_outputs :: "string list \<Rightarrow> pyval dict \<Rightarrow> pyval dict" where
  "merged_outputs branch_node_ids vars =
     foldl (\<lambda>acc b. case dict_get vars b of None \<Rightarrow> acc | Some v \<Rightarrow> dict_put b v acc) [] branch_node_ids"

definition join_execute :: "wf_node \<Rightarrow> wf_context \<Rightarrow> node_exn + pyval dict" where
  "join_execute node ctx =
     bindR (parse_join_config node) (\<lambda>(join_policy, count, cancel_remaining).
       (case nonblank_str (dict_get (wn_config node) ''fork_node_id'') of
          None \<Rightarrow> Inl (invalid_config
            (''Join node '' @ py_repr (wn_id node) @ '' requires config.fork_node_id.''))
        | Some fork_node_id \<Rightarrow>
            (let branch_node_ids =
                   (case dict_get (variables ctx) fork_node_id of
                      Some (PDict fork_output) \<Rightarrow>
                        (case dict_get fork_output ''branch_node_ids'' of
                           Some (PList raw_branches) \<Rightarrow> str_items raw_branches
                         | _ \<Rightarrow> [])
                    | _ \<Rightarrow> []);
                 merged = merged_outputs branch_node_ids (variables ctx) in
             Inr [(''fork_node_id'', PStr fork_node_id),
                  (''join_policy'', PStr join_policy),
                  (''count'', PInt count),
                  (''cancel_remaining'', PBool cancel_remaining),
                  (''merged_branch_outputs'', PDict merged),
                  (''completed_branch_count'', PInt (int (length merged)))])))"

subsection \<open>Approval\<close>

definition approval_execute :: "wf_node \<Rightarrow> wf_context \<Rightarrow> pyval dict" where
  "approval_execute node ctx =
     [(''status'', PStr ''waiting_approval''),
      (''node_id'', PStr (wn_id node)),
      (''trigger_input'', PDict (trigger_input ctx)),
      (''variable_keys'', PList (map PStr (sort (dict_keys (variables ctx)))))]"

definition resolve_approval_selected_edge_ids ::
    "wf_node \<Rightarrow> wf_edge list \<Rightarrow> approval_decision \<Rightarrow> string + string list" where
  "resolve_approval_selected_edge_ids node outgoing_edges decision =
     (if decision = Approved then
        (case nonblank_str (dict_get (wn_config node) ''approved_edge_id'') of
           Some configured \<Rightarrow> Inr [py_strip configured]
         | None \<Rightarrow>
             (let unconditional = filter (\<lambda>edge. we_condition edge = None) outgoing_edges in
              if length unconditional = 1 then Inr [we_id (hd unconditional)]
              else if length outgoing_edges = 1 \<and> we_condition (hd outgoing_edges) = None
                then Inr [we_id (hd outgoing_edges)]
              else Inl (''Approval node '' @ py_repr (wn_id node) @ '' requires config.approved_edge_id ''
                        @ ''when multiple outgoing edges are present.'')))
      else
        (case nonblank_str (dict_get (wn_config node) ''rejected_edge_id'') of
           Some configured \<Rightarrow> Inr [py_strip configured]
         | None \<Rightarrow> Inr []))"

fun decision_value :: "approval_decision \<Rightarrow> string" where
  "decision_value Approved = ''approved''"
| "decision_value Rejected = ''rejected''"
| "decision_value Expired = ''expired''"

definition build_approval_decision_output ::
    "string \<Rightarrow> approval_decision \<Rightarrow> string list \<Rightarrow> pyval dict option \<Rightarrow> pyval dict" where
  "build_approval_decision_output node_id decision selected_edge_ids edited_arguments =
     [(''node_id'', PStr node_id),
      (''decision'', PStr (decision_value decision)),
      (''selected_edge_ids'', PList (map PStr selected_edge_ids))]
     @ (case edited_arguments of None \<Rightarrow> [] | Some a \<Rightarrow> [(''edited_arguments'', PDict a)])"

subsection \<open>Task\<close>

text \<open>
  \<open>_PLACEHOLDER\<close>: two braces, blanks, a dotted path of identifiers, blanks, two braces; \<open>$\<close> also
  matches before one newline at the end.
\<close>

definition placeholder_path :: "string \<Rightarrow> string option" where
  "placeholder_path value0 =
     (let v = (if value0 \<noteq> [] \<and> last value0 = CHR 0x0A then butlast value0 else value0);
          inner = py_strip (drop 2 (take (length v - 2) v)) in
      if py_startswith v ''{{'' \<and> py_startswith (rev v) ''}}'' \<and>
         list_all (\<lambda>segment. segment \<noteq> [] \<and> list_all identifier_char segment) (py_split CHR ''.'' inner)
      then Some inner else None)"

definition resolve_path :: "string \<Rightarrow> pyval dict \<Rightarrow> node_exn + pyval" where
  "resolve_path path scope =
     (case resolve_parts (py_split CHR ''.'' path) (PDict scope) of
        None \<Rightarrow> Inl (invalid_config
          (''Unresolved arguments_template placeholder {{'' @ path @ ''}}.''))
      | Some v \<Rightarrow> Inr v)"

fun resolve_value :: "pyval dict \<Rightarrow> pyval \<Rightarrow> node_exn + pyval"
  and resolve_items :: "pyval dict \<Rightarrow> pyval dict \<Rightarrow> node_exn + pyval dict"
  and resolve_list :: "pyval dict \<Rightarrow> pyval list \<Rightarrow> node_exn + pyval list" where
  "resolve_value scope (PStr s) =
     (case placeholder_path s of None \<Rightarrow> Inr (PStr s) | Some path \<Rightarrow> resolve_path path scope)"
| "resolve_value scope (PDict d) =
     (case resolve_items scope d of Inl e \<Rightarrow> Inl e | Inr r \<Rightarrow> Inr (PDict r))"
| "resolve_value scope (PList xs) =
     (case resolve_list scope xs of Inl e \<Rightarrow> Inl e | Inr r \<Rightarrow> Inr (PList r))"
| "resolve_value scope v = Inr v"
| "resolve_items scope [] = Inr []"
| "resolve_items scope ((key, item) # rest) =
     (case resolve_value scope item of
        Inl e \<Rightarrow> Inl e
      | Inr v \<Rightarrow> (case resolve_items scope rest of Inl e \<Rightarrow> Inl e | Inr r \<Rightarrow> Inr ((key, v) # r)))"
| "resolve_list scope [] = Inr []"
| "resolve_list scope (item # rest) =
     (case resolve_value scope item of
        Inl e \<Rightarrow> Inl e
      | Inr v \<Rightarrow> (case resolve_list scope rest of Inl e \<Rightarrow> Inl e | Inr r \<Rightarrow> Inr (v # r)))"

definition resolve_template :: "pyval dict \<Rightarrow> wf_context \<Rightarrow> node_exn + pyval dict" where
  "resolve_template template ctx =
     resolve_items [(''trigger_input'', PDict (trigger_input ctx)),
                    (''variables'', PDict (variables ctx))] template"

record tool_result =
  tr_success :: bool
  tr_error :: "string option"
  tr_error_code :: "string option"
  tr_dump :: "pyval dict"

record agent_request =
  ar_goal :: string
  ar_model :: string
  ar_tool_names :: "string list option"
  ar_system_prompt :: "string option"
  ar_max_iterations :: "int option"

record agent_response =
  as_content :: string
  as_tools_used :: "string list"
  as_iterations :: int
  as_finish_reason :: "string option"

record node_settings =
  ns_agent_runtime_enabled :: bool
  ns_llm_provider :: string
  ns_openai_model :: string
  ns_gemini_model :: string
  ns_groq_model :: string
  ns_anthropic_model :: string

datatype jinja_error = UndefinedVariable string | OtherTemplateError string
datatype prompt_error = PromptRenderError string | OtherPromptError string
datatype provider_error = UnsupportedProvider string | ProviderFailure string

record platform =
  pf_settings :: node_settings
  pf_tool_execute :: "string \<Rightarrow> pyval dict \<Rightarrow> uuid \<Rightarrow> string \<Rightarrow> string + tool_result"
  pf_agent_run :: "agent_request \<Rightarrow> uuid \<Rightarrow> string \<Rightarrow> node_exn + agent_response"
  pf_complete_chat :: "string \<Rightarrow> string \<Rightarrow> provider_error + (string \<times> string option)"
  pf_prompt_render :: "string \<Rightarrow> string \<Rightarrow> string \<Rightarrow> pyval dict \<Rightarrow> prompt_error + string"
  pf_jinja_render :: "string \<Rightarrow> pyval dict \<Rightarrow> jinja_error + string"

definition or_default :: "string option \<Rightarrow> string \<Rightarrow> string" where
  "or_default s d = (case s of None \<Rightarrow> d | Some t \<Rightarrow> if t = [] then d else t)"

definition task_execute ::
    "platform \<Rightarrow> wf_node \<Rightarrow> wf_context \<Rightarrow> node_request \<Rightarrow> node_exn + pyval dict" where
  "task_execute pf node ctx request =
     (case nonblank_str (dict_get (wn_config node) ''tool_name'') of
        None \<Rightarrow> Inl (invalid_config (''Task node '' @ py_repr (wn_id node) @ '' requires config.tool_name.''))
      | Some tool_name \<Rightarrow>
          (case (case dict_get (wn_config node) ''arguments_template'' of
                   None \<Rightarrow> PDict [] | Some t \<Rightarrow> t) of
             PDict arguments_template \<Rightarrow>
               bindR (resolve_template arguments_template ctx) (\<lambda>arguments.
                 (case pf_tool_execute pf tool_name arguments (nr_owner_id request)
                         (nr_execution_receipt_id request) of
                    Inl e \<Rightarrow> Inl (UnexpectedError e)
                  | Inr result \<Rightarrow>
                      if tr_success result then Inr (tr_dump result)
                      else Inl (NodeExecutionError
                        (or_default (tr_error result)
                           (''Tool '' @ py_repr tool_name @ '' execution failed.''))
                        (tr_error_code result))))
           | _ \<Rightarrow> Inl (invalid_config (''Task node '' @ py_repr (wn_id node)
               @ '' config.arguments_template must be an object.''))))"

subsection \<open>Templates, LLM and agent nodes\<close>

definition prompt_render_scope :: "wf_context \<Rightarrow> pyval dict" where
  "prompt_render_scope ctx =
     [(''trigger_input'', PDict (trigger_input ctx)), (''variables'', PDict (variables ctx))]"

definition render_inline ::
    "platform \<Rightarrow> string \<Rightarrow> pyval dict \<Rightarrow> string \<Rightarrow> string \<Rightarrow> node_exn + string" where
  "render_inline pf template scope node_id field_name =
     (case pf_jinja_render pf template scope of
        Inr text \<Rightarrow> Inr text
      | Inl (UndefinedVariable msg) \<Rightarrow> Inl (invalid_config
          (''Failed to render '' @ field_name @ '' for node '' @ py_repr node_id @ '': '' @ msg))
      | Inl (OtherTemplateError msg) \<Rightarrow> Inl (UnexpectedError msg))"

definition render_inline_template ::
    "platform \<Rightarrow> string \<Rightarrow> wf_context \<Rightarrow> string \<Rightarrow> string \<Rightarrow> node_exn + string" where
  "render_inline_template pf template ctx node_id field_name =
     (if py_startswith template ''@'' then Inl (invalid_config
        (''Agent node '' @ py_repr node_id @ '' config.'' @ field_name
         @ '' does not support @ file template references.''))
      else render_inline pf template (prompt_render_scope ctx) node_id field_name)"

definition render_prompt_template ::
    "platform \<Rightarrow> string \<Rightarrow> wf_context \<Rightarrow> string \<Rightarrow> node_exn + string" where
  "render_prompt_template pf prompt_template ctx node_id =
     (if py_startswith prompt_template ''@'' then
        (case parse_file_template_ref prompt_template of
           Inl _ \<Rightarrow> Inl (invalid_config (''LLM node '' @ py_repr node_id
             @ '' config.prompt_template file reference must match @category/name/version; got ''
             @ py_repr prompt_template @ ''.''))
         | Inr (category, name, version) \<Rightarrow>
             (case pf_prompt_render pf category name version (prompt_render_scope ctx) of
                Inr text \<Rightarrow> Inr text
              | Inl (PromptRenderError msg) \<Rightarrow> Inl (invalid_config msg)
              | Inl (OtherPromptError msg) \<Rightarrow> Inl (UnexpectedError msg)))
      else render_inline pf prompt_template (prompt_render_scope ctx) node_id ''prompt_template'')"

definition resolve_model :: "string \<Rightarrow> pyval dict \<Rightarrow> node_settings \<Rightarrow> node_exn + string" where
  "resolve_model kind config settings =
     (case nonblank_str (dict_get config ''model_override'') of
        Some model \<Rightarrow> Inr (py_strip model)
      | None \<Rightarrow>
          (let provider = ns_llm_provider settings in
           if provider = ''openai'' then Inr (ns_openai_model settings)
           else if provider = ''gemini'' then Inr (ns_gemini_model settings)
           else if provider = ''groq'' then Inr (ns_groq_model settings)
           else if provider = ''anthropic'' then Inr (ns_anthropic_model settings)
           else Inl (invalid_config (''Unsupported LLM_PROVIDER '' @ py_repr provider @ '' for ''
                       @ kind @ '' node execution.''))))"

fun opt_str :: "string option \<Rightarrow> pyval" where
  "opt_str None = PNone"
| "opt_str (Some s) = PStr s"

definition llm_execute ::
    "platform \<Rightarrow> wf_node \<Rightarrow> wf_context \<Rightarrow> node_request \<Rightarrow> node_exn + pyval dict" where
  "llm_execute pf node ctx request =
     (case nonblank_str (dict_get (wn_config node) ''prompt_template'') of
        None \<Rightarrow> Inl (invalid_config
          (''LLM node '' @ py_repr (wn_id node) @ '' requires config.prompt_template.''))
      | Some prompt_template \<Rightarrow>
          bindR (render_prompt_template pf prompt_template ctx (wn_id node)) (\<lambda>prompt.
          bindR (resolve_model ''LLM'' (wn_config node) (pf_settings pf)) (\<lambda>model.
            (case pf_complete_chat pf prompt model of
               Inl (UnsupportedProvider msg) \<Rightarrow> Inl (invalid_config msg)
             | Inl (ProviderFailure _) \<Rightarrow> Inl (NodeExecutionError
                 (''LLM node '' @ py_repr (wn_id node) @ '' provider call failed.'')
                 (Some ''provider_error''))
             | Inr (content, finish_reason) \<Rightarrow>
                 Inr [(''content'', PStr content), (''finish_reason'', opt_str finish_reason),
                      (''model'', PStr model),
                      (''execution_receipt_id'', PStr (nr_execution_receipt_id request))]))))"

definition build_agent_config :: "pyval dict \<Rightarrow> node_exn + int option" where
  "build_agent_config config =
     (let max_iterations = dict_get config ''max_iterations'' in
      if is_None_value max_iterations then Inr None
      else (case Option.bind max_iterations py_as_int of
              Some i \<Rightarrow>
                (if i < 1 then Inl (invalid_config ''Agent node config.max_iterations must be an integer >= 1.'')
                 else Inr (Some i))
            | None \<Rightarrow> Inl (invalid_config ''Agent node config.max_iterations must be an integer >= 1.'')))"

definition optional_string_list :: "pyval option \<Rightarrow> node_exn + string list option" where
  "optional_string_list v =
     (if is_None_value v then Inr None
      else (case v of
              Some (PList items) \<Rightarrow>
                (let names = filter (\<lambda>s. \<not> is_blank s) (str_items items) in
                 if names = [] then Inl (invalid_config ''Agent node config.tool_names must be a non-empty list.'')
                 else Inr (Some names))
            | _ \<Rightarrow> Inl (invalid_config ''Agent node config.tool_names must be a list of strings.'')))"

definition agent_execute ::
    "platform \<Rightarrow> wf_node \<Rightarrow> wf_context \<Rightarrow> node_request \<Rightarrow> node_exn + pyval dict" where
  "agent_execute pf node ctx request =
     (if \<not> ns_agent_runtime_enabled (pf_settings pf) then Inl (invalid_config
        (''Agent node '' @ py_repr (wn_id node) @ '' requires AGENT_RUNTIME_ENABLED=true.''))
      else (case nonblank_str (dict_get (wn_config node) ''goal'') of
        None \<Rightarrow> Inl (invalid_config (''Agent node '' @ py_repr (wn_id node) @ '' requires config.goal.''))
      | Some goal_raw \<Rightarrow>
          bindR (render_inline_template pf goal_raw ctx (wn_id node) ''goal'') (\<lambda>goal.
          bindR (case nonblank_str (dict_get (wn_config node) ''instructions'') of
                   None \<Rightarrow> Inr None
                 | Some instructions_raw \<Rightarrow>
                     bindR (render_inline_template pf instructions_raw ctx (wn_id node) ''instructions'')
                       (\<lambda>t. Inr (Some t))) (\<lambda>instructions.
          bindR (optional_string_list (dict_get (wn_config node) ''tool_names'')) (\<lambda>tool_names.
          bindR (build_agent_config (wn_config node)) (\<lambda>max_iterations.
          bindR (resolve_model ''agent'' (wn_config node) (pf_settings pf)) (\<lambda>model.
            (case pf_agent_run pf
                    \<lparr>ar_goal = goal, ar_model = model, ar_tool_names = tool_names,
                     ar_system_prompt = instructions, ar_max_iterations = max_iterations\<rparr>
                    (nr_owner_id request) (nr_execution_receipt_id request) of
               Inl (NodeExecutionError msg code) \<Rightarrow> Inl (NodeExecutionError msg code)
             | Inl (UnexpectedError _) \<Rightarrow> Inl (NodeExecutionError
                 (''Agent node '' @ py_repr (wn_id node) @ '' execution failed.'') (Some ''agent_error''))
             | Inr response \<Rightarrow>
                 Inr [(''content'', PStr (as_content response)),
                      (''tools_used'', PList (map PStr (as_tools_used response))),
                      (''iterations'', PInt (as_iterations response)),
                      (''finish_reason'', opt_str (as_finish_reason response)),
                      (''execution_receipt_id'', PStr (nr_execution_receipt_id request))]))))))))"

end
