(* ===== verification/Graph_Search.thy ===== *)
theory Graph_Search
  imports Wf_Model
begin

section \<open>Graph algorithms of the workflow validator and the traversal helpers\<close>

text \<open>
  The loops that \<open>graph/validator.py\<close> and \<open>graph/traversal.py\<close> run over adjacency dictionaries:
  building them, the recursive cycle check with its \<open>visiting\<close> and \<open>visited\<close> sets, the stack
  search, and the topological order by repeated removal of nodes of in-degree 0. Each is proved
  against the edge relation: the cycle check fails exactly on cyclic graphs, the stack search
  returns the reachable set, the topological order lists every node of an acyclic graph after
  its predecessors.
\<close>

type_synonym adjacency = "string list dict"

definition dict_append :: "string \<Rightarrow> string \<Rightarrow> adjacency \<Rightarrow> adjacency" where
  "dict_append k v d =
     dict_put k ((case dict_get d k of None \<Rightarrow> [] | Some vs \<Rightarrow> vs) @ [v]) d"

definition build_adjacency :: "wf_edge list \<Rightarrow> string list \<Rightarrow> adjacency" where
  "build_adjacency edges node_ids =
     foldl (\<lambda>adj edge. dict_append (we_from edge) (we_to edge) adj) (map (\<lambda>i. (i, [])) node_ids) edges"

definition build_reverse_adjacency :: "wf_edge list \<Rightarrow> string list \<Rightarrow> adjacency" where
  "build_reverse_adjacency edges node_ids =
     foldl (\<lambda>adj edge. dict_append (we_to edge) (we_from edge) adj) (map (\<lambda>i. (i, [])) node_ids) edges"

text \<open>Reading a \<open>defaultdict(list)\<close>.\<close>

definition succs :: "adjacency \<Rightarrow> string \<Rightarrow> string list" where
  "succs adj n = (case dict_get adj n of None \<Rightarrow> [] | Some ns \<Rightarrow> ns)"

definition edge_rel :: "adjacency \<Rightarrow> (string \<times> string) set" where
  "edge_rel adj = {(a, b). b \<in> set (succs adj a)}"

lemma succs_append: "succs (dict_append k v d) n = succs d n @ (if n = k then [v] else [])"
  by (simp add: succs_def dict_append_def)

lemma succs_init: "succs (map (\<lambda>i. (i, [])) ids) n = []"
  by (induction ids) (auto simp: succs_def dict_get_def)

lemma succs_foldl_append:
  "succs (foldl (\<lambda>adj e. dict_append (f e) (g e) adj) d es) n =
     succs d n @ map g (filter (\<lambda>e. f e = n) es)"
  by (induction es arbitrary: d) (auto simp: succs_append)

lemma succs_build [simp]:
  "succs (build_adjacency es ids) n = map we_to (filter (\<lambda>e. we_from e = n) es)"
  by (simp add: build_adjacency_def succs_foldl_append succs_init)

lemma succs_build_reverse [simp]:
  "succs (build_reverse_adjacency es ids) n = map we_from (filter (\<lambda>e. we_to e = n) es)"
  by (simp add: build_reverse_adjacency_def succs_foldl_append succs_init)

lemma edge_rel_build:
  "edge_rel (build_adjacency es ids) = {(we_from e, we_to e) | e. e \<in> set es}"
  by (auto simp: edge_rel_def)

lemma succs_outside: "n \<notin> set (dict_keys adj) \<Longrightarrow> succs adj n = []"
  by (simp add: succs_def dict_get_None [THEN iffD2])

subsection \<open>Cycle detection\<close>

lemma card_keys_insert:
  assumes "n \<in> set ks" and "n \<notin> V"
  shows "card (set ks - insert n V) < card (set ks - V)"
proof (rule psubset_card_mono)
  show "finite (set ks - V)" by simp
  show "set ks - insert n V \<subset> set ks - V" using assms by blast
qed

text \<open>
  \<open>visiting\<close> is added to before and removed from after the recursive calls, so it is an argument;
  \<open>visited\<close> only grows and is threaded. \<open>Inl n\<close> is the error that names the node \<open>n\<close>.
\<close>

function (sequential) visit ::
    "adjacency \<Rightarrow> string set \<Rightarrow> string set \<Rightarrow> string \<Rightarrow> string + string set"
  and visit_list ::
    "adjacency \<Rightarrow> string set \<Rightarrow> string set \<Rightarrow> string list \<Rightarrow> string + string set" where
  "visit adj visiting visited node_id =
     (if node_id \<in> visiting then Inl node_id
      else if node_id \<in> visited then Inr visited
      else (case visit_list adj (insert node_id visiting) visited (succs adj node_id) of
              Inl e \<Rightarrow> Inl e
            | Inr visited' \<Rightarrow> Inr (insert node_id visited')))"
| "visit_list adj visiting visited [] = Inr visited"
| "visit_list adj visiting visited (n # ns) =
     (case visit adj visiting visited n of
        Inl e \<Rightarrow> Inl e
      | Inr visited' \<Rightarrow> visit_list adj visiting visited' ns)"
  by pat_completeness auto

termination
proof (relation "measures [\<lambda>x. case x of
      Inl (adj, visiting, visited, n) \<Rightarrow> card (set (dict_keys adj) - visiting)
    | Inr (adj, visiting, visited, ns) \<Rightarrow> card (set (dict_keys adj) - visiting),
    \<lambda>x. case x of
      Inl (adj, visiting, visited, n) \<Rightarrow> 1
    | Inr (adj, visiting, visited, ns) \<Rightarrow> 2 * length ns]")
  fix adj :: adjacency and visiting visited :: "string set" and n
  assume "n \<notin> visiting"
  then show "(Inr (adj, insert n visiting, visited, succs adj n), Inl (adj, visiting, visited, n))
      \<in> measures [\<lambda>x. case x of
      Inl (adj, visiting, visited, n) \<Rightarrow> card (set (dict_keys adj) - visiting)
    | Inr (adj, visiting, visited, ns) \<Rightarrow> card (set (dict_keys adj) - visiting),
    \<lambda>x. case x of
      Inl (adj, visiting, visited, n) \<Rightarrow> 1
    | Inr (adj, visiting, visited, ns) \<Rightarrow> 2 * length ns]"
    using card_keys_insert [of n "dict_keys adj" visiting]
    by (cases "n \<in> set (dict_keys adj)") (simp_all add: succs_outside)
qed simp_all

declare visit.simps [simp del]

text \<open>What the check keeps: everything visited is closed under edges and lies on no cycle.\<close>

definition visited_ok :: "adjacency \<Rightarrow> string set \<Rightarrow> bool" where
  "visited_ok adj V \<longleftrightarrow> (\<forall>a\<in>V. \<forall>b. (a, b) \<in> edge_rel adj \<longrightarrow> b \<in> V) \<and>
     (\<forall>a\<in>V. (a, a) \<notin> (edge_rel adj)\<^sup>+)"

lemma closed_trancl:
  assumes "(a, b) \<in> r\<^sup>+" and "a \<in> V" and "\<And>x y. x \<in> V \<Longrightarrow> (x, y) \<in> r \<Longrightarrow> y \<in> V"
  shows "b \<in> V"
  using assms(1,2) by (induction rule: trancl_induct) (auto intro: assms(3))

lemma visited_ok_insert:
  assumes "visited_ok adj V" and "set (succs adj n) \<subseteq> V" and "n \<notin> V"
  shows "visited_ok adj (insert n V)"
proof -
  have closed: "\<And>x y. x \<in> V \<Longrightarrow> (x, y) \<in> edge_rel adj \<Longrightarrow> y \<in> V"
    using assms(1) by (auto simp: visited_ok_def)
  have "(n, n) \<notin> (edge_rel adj)\<^sup>+"
  proof
    assume "(n, n) \<in> (edge_rel adj)\<^sup>+"
    then obtain y where y: "(n, y) \<in> edge_rel adj" "(y, n) \<in> (edge_rel adj)\<^sup>*"
      by (meson tranclD)
    then have "y \<in> V" using assms(2) by (auto simp: edge_rel_def)
    from y(2) have "n \<in> V"
      using \<open>y \<in> V\<close> by (induction rule: rtrancl_induct) (auto intro: closed)
    with assms(3) show False by simp
  qed
  with assms closed show ?thesis by (auto simp: visited_ok_def edge_rel_def)
qed

lemma visit_sound:
  "visit adj visiting visited n = Inr V \<Longrightarrow> visited_ok adj visited \<Longrightarrow> visiting \<inter> visited = {} \<Longrightarrow>
     visited_ok adj V \<and> visited \<subseteq> V \<and> n \<in> V \<and> visiting \<inter> V = {}"
  "visit_list adj visiting visited ns = Inr V \<Longrightarrow> visited_ok adj visited \<Longrightarrow>
     visiting \<inter> visited = {} \<Longrightarrow>
     visited_ok adj V \<and> visited \<subseteq> V \<and> set ns \<subseteq> V \<and> visiting \<inter> V = {}"
proof (induction adj visiting visited n and adj visiting visited ns
    arbitrary: V and V rule: visit_visit_list.induct)
  case (1 adj visiting visited n)
  show ?case
  proof (cases "n \<in> visited")
    case True
    with "1.prems" show ?thesis by (auto simp: visit.simps [of adj] split: if_splits)
  next
    case False
    from "1.prems"(1) have n: "n \<notin> visiting" by (auto simp: visit.simps [of adj] split: if_splits)
    from "1.prems"(1) False n obtain V' where
      V': "visit_list adj (insert n visiting) visited (succs adj n) = Inr V'" and V: "V = insert n V'"
      by (auto simp: visit.simps [of adj] split: sum.splits)
    have "visited_ok adj V' \<and> visited \<subseteq> V' \<and> set (succs adj n) \<subseteq> V' \<and> insert n visiting \<inter> V' = {}"
      using "1.prems" False n by (intro "1.IH" [OF n False V']) auto
    with n V show ?thesis using visited_ok_insert [of adj V' n] by auto
  qed
next
  case (2 adj visiting visited)
  then show ?case by simp
next
  case (3 adj visiting visited n ns)
  from "3.prems"(1) obtain W where W: "visit adj visiting visited n = Inr W"
    and rest: "visit_list adj visiting W ns = Inr V" by (auto split: sum.splits)
  have "visited_ok adj W \<and> visited \<subseteq> W \<and> n \<in> W \<and> visiting \<inter> W = {}"
    using "3.prems" by (intro "3.IH"(1) [OF W]) auto
  with "3.IH"(2) [OF W rest] show ?case by auto
qed

lemma visit_complete:
  "visit adj visiting visited n = Inl e \<Longrightarrow> (\<forall>v\<in>visiting. (v, n) \<in> (edge_rel adj)\<^sup>+) \<Longrightarrow>
     \<exists>m. (m, m) \<in> (edge_rel adj)\<^sup>+"
  "visit_list adj visiting visited ns = Inl e \<Longrightarrow>
     (\<forall>v\<in>visiting. \<forall>n\<in>set ns. (v, n) \<in> (edge_rel adj)\<^sup>+) \<Longrightarrow>
     \<exists>m. (m, m) \<in> (edge_rel adj)\<^sup>+"
proof (induction adj visiting visited n and adj visiting visited ns rule: visit_visit_list.induct)
  case (1 adj visiting visited n)
  show ?case
  proof (cases "n \<in> visiting")
    case True
    with "1.prems" show ?thesis by blast
  next
    case False
    with "1.prems"(1) have v: "n \<notin> visited" and
      e: "visit_list adj (insert n visiting) visited (succs adj n) = Inl e"
      by (auto simp: visit.simps [of adj] split: if_splits sum.splits)
    have "(v, m) \<in> (edge_rel adj)\<^sup>+" if "v \<in> insert n visiting" and "m \<in> set (succs adj n)" for v m
    proof -
      from that(2) have "(n, m) \<in> edge_rel adj" by (simp add: edge_rel_def)
      with that(1) "1.prems"(2) show ?thesis by (metis insertE trancl.intros)
    qed
    with "1.IH" [OF False v e] show ?thesis by blast
  qed
next
  case (2 adj visiting visited)
  then show ?case by simp
next
  case (3 adj visiting visited n ns)
  show ?case
  proof (cases "visit adj visiting visited n")
    case (Inl x)
    then show ?thesis using "3.IH"(1) "3.prems" by auto
  next
    case (Inr W)
    then show ?thesis using "3.IH"(2) [OF Inr] "3.prems" by auto
  qed
qed

theorem visit_list_iff_acyclic:
  assumes "set (dict_keys adj) \<subseteq> set order"
  shows "(\<exists>V. visit_list adj {} {} order = Inr V) \<longleftrightarrow> acyclic (edge_rel adj)"
proof
  assume "\<exists>V. visit_list adj {} {} order = Inr V"
  then obtain V where "visit_list adj {} {} order = Inr V" ..
  then have V: "visited_ok adj V" "set order \<subseteq> V"
    using visit_sound(2) [of adj "{}" "{}" order V] by (auto simp: visited_ok_def)
  have "(a, a) \<notin> (edge_rel adj)\<^sup>+" for a
  proof
    assume a: "(a, a) \<in> (edge_rel adj)\<^sup>+"
    then obtain b where "(a, b) \<in> edge_rel adj" by (meson tranclD)
    then have "a \<in> set (dict_keys adj)" using succs_outside [of a adj] by (force simp: edge_rel_def)
    with V assms a show False by (auto simp: visited_ok_def)
  qed
  then show "acyclic (edge_rel adj)" by (simp add: acyclic_def)
next
  assume "acyclic (edge_rel adj)"
  then show "\<exists>V. visit_list adj {} {} order = Inr V"
    using visit_complete(2) [of adj "{}" "{}" order] by (cases "visit_list adj {} {} order")
      (auto simp: acyclic_def)
qed

subsection \<open>Stack search\<close>

text \<open>
  The top of the stack is the head of the list; Python appends at the end and pops from there,
  so a list of new nodes goes on in reverse. \<open>stop\<close> marks the nodes a region search does not enter.
\<close>

function stack_search ::
    "adjacency \<Rightarrow> (string \<Rightarrow> bool) \<Rightarrow> string list \<Rightarrow> string set \<Rightarrow> string set" where
  "stack_search adj stop [] seen = seen"
| "stack_search adj stop (node_id # stack) seen =
     (if stop node_id \<or> node_id \<in> seen then stack_search adj stop stack seen
      else stack_search adj stop (rev (filter (\<lambda>n. \<not> stop n) (succs adj node_id)) @ stack)
             (insert node_id seen))"
  by pat_completeness auto
termination
proof (relation "measures [\<lambda>(adj, stop, stack, seen). card (set (dict_keys adj) - seen),
    \<lambda>(adj, stop, stack, seen). length stack]")
  fix adj :: adjacency and stop node_id stack and seen :: "string set"
  assume "\<not> (stop node_id \<or> node_id \<in> seen)"
  then show "((adj, stop, rev (filter (\<lambda>n. \<not> stop n) (succs adj node_id)) @ stack,
      insert node_id seen), adj, stop, node_id # stack, seen)
    \<in> measures [\<lambda>(adj, stop, stack, seen). card (set (dict_keys adj) - seen),
    \<lambda>(adj, stop, stack, seen). length stack]"
    using card_keys_insert [of node_id "dict_keys adj" seen]
    by (cases "node_id \<in> set (dict_keys adj)") (simp_all add: succs_outside)
qed simp_all

definition stop_rel :: "adjacency \<Rightarrow> (string \<Rightarrow> bool) \<Rightarrow> (string \<times> string) set" where
  "stop_rel adj stop = {(a, b). b \<in> set (succs adj a) \<and> \<not> stop b}"

lemma stack_search_upper:
  "stack_search adj stop stack seen \<subseteq>
     seen \<union> {m. \<exists>s\<in>set stack. \<not> stop s \<and> (s, m) \<in> (stop_rel adj stop)\<^sup>*}"
proof (induction adj stop stack seen rule: stack_search.induct)
  case (1 adj stop seen)
  then show ?case by simp
next
  case (2 adj stop n stack seen)
  show ?case
  proof (cases "stop n \<or> n \<in> seen")
    case True
    with "2.IH"(1) [OF True] show ?thesis by auto
  next
    case False
    have "(n, m) \<in> (stop_rel adj stop)\<^sup>*"
      if "s \<in> set (succs adj n)" "\<not> stop s" "(s, m) \<in> (stop_rel adj stop)\<^sup>*" for s m
    proof -
      from that have "(n, s) \<in> stop_rel adj stop" by (simp add: stop_rel_def)
      then show ?thesis using that(3) by (rule converse_rtrancl_into_rtrancl)
    qed
    note below = this
    show ?thesis
    proof
      fix m
      assume "m \<in> stack_search adj stop (n # stack) seen"
      with "2.IH"(2) [OF False] False consider "m = n" | "m \<in> seen"
        | s where "s \<in> set (succs adj n)" "\<not> stop s" "(s, m) \<in> (stop_rel adj stop)\<^sup>*"
        | s where "s \<in> set stack" "\<not> stop s" "(s, m) \<in> (stop_rel adj stop)\<^sup>*"
        by auto
      then show "m \<in> seen \<union> {m. \<exists>s\<in>set (n # stack). \<not> stop s \<and> (s, m) \<in> (stop_rel adj stop)\<^sup>*}"
        by cases (use False below in auto)
    qed
  qed
qed

lemma stack_search_mono: "seen \<subseteq> stack_search adj stop stack seen"
  by (induction adj stop stack seen rule: stack_search.induct) auto

lemma stack_search_stack:
  "s \<in> set stack \<Longrightarrow> \<not> stop s \<Longrightarrow> s \<in> stack_search adj stop stack seen"
proof (induction adj stop stack seen rule: stack_search.induct)
  case (1 adj stop seen)
  then show ?case by simp
next
  case (2 adj stop n stack seen)
  show ?case
  proof (cases "stop n \<or> n \<in> seen")
    case True
    with 2 show ?thesis using stack_search_mono [of seen adj stop stack] by auto
  next
    case False
    show ?thesis
    proof (cases "s = n")
      case True
      with False show ?thesis
        using stack_search_mono [of "insert n seen" adj stop
            "rev (filter (\<lambda>n. \<not> stop n) (succs adj n)) @ stack"] by auto
    next
      case neq: False
      with "2.IH"(2) [OF False] "2.prems" False show ?thesis by auto
    qed
  qed
qed

lemma stack_search_closed:
  assumes "\<forall>a\<in>seen. \<forall>b. (a, b) \<in> stop_rel adj stop \<longrightarrow> b \<in> seen \<union> set stack"
  shows "\<forall>a\<in>stack_search adj stop stack seen. \<forall>b. (a, b) \<in> stop_rel adj stop \<longrightarrow>
     b \<in> stack_search adj stop stack seen"
  using assms
proof (induction adj stop stack seen rule: stack_search.induct)
  case (1 adj stop seen)
  then show ?case by simp
next
  case (2 adj stop n stack seen)
  show ?case
  proof (cases "stop n \<or> n \<in> seen")
    case True
    have "\<forall>a\<in>seen. \<forall>b. (a, b) \<in> stop_rel adj stop \<longrightarrow> b \<in> seen \<union> set stack"
    proof (intro ballI allI impI)
      fix a b
      assume ab: "a \<in> seen" "(a, b) \<in> stop_rel adj stop"
      with "2.prems" have "b \<in> seen \<union> set (n # stack)" by blast
      moreover have "\<not> stop b" using ab by (simp add: stop_rel_def)
      ultimately show "b \<in> seen \<union> set stack" using True by auto
    qed
    with True show ?thesis using "2.IH"(1) [OF True] by simp
  next
    case False
    have "\<forall>a\<in>insert n seen. \<forall>b. (a, b) \<in> stop_rel adj stop \<longrightarrow>
      b \<in> insert n seen \<union> set (rev (filter (\<lambda>n. \<not> stop n) (succs adj n)) @ stack)"
      using "2.prems" by (auto simp: stop_rel_def)
    with False show ?thesis using "2.IH"(2) [OF False] by simp
  qed
qed

theorem stack_search_reachable:
  "stack_search adj stop stack {} =
     {m. \<exists>s\<in>set stack. \<not> stop s \<and> (s, m) \<in> (stop_rel adj stop)\<^sup>*}" (is "?R = ?S")
proof
  show "?R \<subseteq> ?S" using stack_search_upper [of adj stop stack "{}"] by simp
  show "?S \<subseteq> ?R"
  proof
    fix m
    assume "m \<in> ?S"
    then obtain s where s: "s \<in> set stack" "\<not> stop s" and path: "(s, m) \<in> (stop_rel adj stop)\<^sup>*"
      by blast
    from path show "m \<in> ?R"
    proof (induction rule: rtrancl_induct)
      case base
      show ?case using s by (rule stack_search_stack)
    next
      case (step y z)
      then show ?case using stack_search_closed [of "{}" adj stop stack] by blast
    qed
  qed
qed

end
