(* ===== verification/Wf_Traversal.thy ===== *)
theory Wf_Traversal
  imports Wf_Nodes Graph_Search "HOL-Library.Multiset"
begin

section \<open>Ready nodes, skipped nodes and fork regions\<close>

text \<open>
  \<open>graph/traversal.py\<close>: which nodes of a run are done, which may start, how ready nodes are grouped
  into parallel branches and which nodes a routing decision skips. A node has succeeded when its id
  is a key of the run's variables, is skipped when the run's metadata lists it, and is active while
  it is in \<open>current_node_ids\<close>.
\<close>

definition get_skipped_node_ids :: "wf_run \<Rightarrow> string set" where
  "get_skipped_node_ids run =
     (case dict_get (metadata (wr_context run)) ''skipped_node_ids'' of
        Some (PList items) \<Rightarrow> set (str_items items)
      | _ \<Rightarrow> {})"

definition get_succeeded_node_ids :: "wf_run \<Rightarrow> string set" where
  "get_succeeded_node_ids run = set (dict_keys (variables (wr_context run)))"

definition get_resolved_node_ids :: "wf_run \<Rightarrow> string set" where
  "get_resolved_node_ids run = get_succeeded_node_ids run \<union> get_skipped_node_ids run"

definition started_node_ids :: "wf_run \<Rightarrow> string set" where
  "started_node_ids run = get_resolved_node_ids run \<union> set (wr_current_node_ids run)"

definition outgoing_edges :: "wf_definition \<Rightarrow> string \<Rightarrow> wf_edge list" where
  "outgoing_edges d node_id = filter (\<lambda>edge. we_from edge = node_id) (wd_edges d)"

definition incoming_edges :: "wf_definition \<Rightarrow> string \<Rightarrow> wf_edge list" where
  "incoming_edges d node_id = filter (\<lambda>edge. we_to edge = node_id) (wd_edges d)"

subsection \<open>Regions\<close>

definition get_fork_join_region_nodes :: "wf_definition \<Rightarrow> string \<Rightarrow> string \<Rightarrow> string set" where
  "get_fork_join_region_nodes d fork_id join_id =
     stack_search (build_adjacency (wd_edges d) []) (\<lambda>n. n = join_id)
       (rev (map we_to (outgoing_edges d fork_id))) {}"

fun find_region :: "wf_definition \<Rightarrow> wf_node list \<Rightarrow> string \<Rightarrow> (string \<times> string) option" where
  "find_region d [] node_id = None"
| "find_region d (node # rest) node_id =
     (if wn_type node \<noteq> Fork then find_region d rest node_id
      else (case dict_get (wn_config node) ''join_node_id'' of
              Some (PStr join_node_id) \<Rightarrow>
                (if node_id \<in> get_fork_join_region_nodes d (wn_id node) join_node_id
                 then Some (wn_id node, join_node_id) else find_region d rest node_id)
            | _ \<Rightarrow> find_region d rest node_id))"

definition find_fork_join_region :: "wf_definition \<Rightarrow> string \<Rightarrow> (string \<times> string) option" where
  "find_fork_join_region d node_id = find_region d (wd_nodes d) node_id"

type_synonym region_groups = "((string \<times> string) \<times> string list) list"

definition group_add :: "(string \<times> string) \<Rightarrow> string \<Rightarrow> region_groups \<Rightarrow> region_groups" where
  "group_add k v groups =
     AList.update k ((case map_of groups k of None \<Rightarrow> [] | Some vs \<Rightarrow> vs) @ [v]) groups"

definition group_step ::
    "wf_definition \<Rightarrow> region_groups \<times> string list \<Rightarrow> string \<Rightarrow> region_groups \<times> string list" where
  "group_step d acc node_id =
     (case find_fork_join_region d node_id of
        Some region \<Rightarrow> (group_add region node_id (fst acc), snd acc)
      | None \<Rightarrow> (fst acc, snd acc @ [node_id]))"

definition group_parallel_ready_nodes ::
    "wf_definition \<Rightarrow> string list \<Rightarrow> string list list \<times> string list" where
  "group_parallel_ready_nodes d ready_node_ids =
     (let (region_groups, sequential) = foldl (group_step d) ([], []) ready_node_ids;
          groups = map snd region_groups in
      (filter (\<lambda>g. length g > 1) groups,
       sequential @ concat (filter (\<lambda>g. \<not> length g > 1) groups)))"

subsection \<open>Joins\<close>

definition join_branch_incoming_edges :: "wf_definition \<Rightarrow> wf_node \<Rightarrow> wf_edge list" where
  "join_branch_incoming_edges d join_node =
     (let incoming = incoming_edges d (wn_id join_node) in
      case dict_get (wn_config join_node) ''fork_node_id'' of
        Some (PStr fork_node_id) \<Rightarrow> filter (\<lambda>edge. we_from edge \<noteq> fork_node_id) incoming
      | _ \<Rightarrow> incoming)"

definition is_join_ready :: "wf_definition \<Rightarrow> wf_run \<Rightarrow> wf_node \<Rightarrow> node_exn + bool" where
  "is_join_ready d run join_node =
     (let branch_incoming = join_branch_incoming_edges d join_node;
          succeeded = get_succeeded_node_ids run;
          resolved = get_resolved_node_ids run;
          succeeded_sources = length (filter (\<lambda>edge. we_from edge \<in> succeeded) branch_incoming) in
      if branch_incoming = [] then Inr False
      else bindR (parse_join_config join_node) (\<lambda>(join_policy, count, _).
        Inr (if join_policy = ''all'' then (\<forall>edge\<in>set branch_incoming. we_from edge \<in> resolved)
             else if join_policy = ''any'' then succeeded_sources \<ge> 1
             else if join_policy = ''count'' then int succeeded_sources \<ge> count
             else False)))"

definition collect_incomplete_fork_branch_nodes_to_skip ::
    "wf_definition \<Rightarrow> string \<Rightarrow> string \<Rightarrow> wf_run \<Rightarrow> string list" where
  "collect_incomplete_fork_branch_nodes_to_skip d fork_node_id join_node_id run =
     sorted_list_of_set
       {n \<in> get_fork_join_region_nodes d fork_node_id join_node_id. n \<notin> started_node_ids run}"

subsection \<open>Ready nodes\<close>

text \<open>
  The edges into a node are grouped by their source when that source is a router or an approval
  node; every such source must have selected one of its edges.
\<close>

definition branch_sources :: "wf_definition \<Rightarrow> wf_edge list \<Rightarrow> string list" where
  "branch_sources d incoming =
     remdups (map we_from (filter (\<lambda>edge.
       case node_by_id d (we_from edge) of
         None \<Rightarrow> False | Some source \<Rightarrow> wn_type source \<in> {Router, Approval}) incoming))"

definition source_selects :: "wf_run \<Rightarrow> wf_edge list \<Rightarrow> string \<Rightarrow> bool" where
  "source_selects run incoming source_id =
     (case dict_get (variables (wr_context run)) source_id of
        Some (PDict output) \<Rightarrow>
          (case dict_get output ''selected_edge_ids'' of
             Some (PList selected) \<Rightarrow>
               (\<exists>edge\<in>set incoming. we_from edge = source_id \<and> we_id edge \<in> set (str_items selected))
           | _ \<Rightarrow> False)
      | _ \<Rightarrow> False)"

definition incoming_branch_edges_selected :: "wf_definition \<Rightarrow> wf_edge list \<Rightarrow> wf_run \<Rightarrow> bool" where
  "incoming_branch_edges_selected d incoming run =
     (\<forall>source_id\<in>set (branch_sources d incoming). source_selects run incoming source_id)"

definition node_ready :: "wf_definition \<Rightarrow> wf_run \<Rightarrow> wf_node \<Rightarrow> node_exn + bool" where
  "node_ready d run node =
     (if wn_id node \<in> started_node_ids run then Inr False
      else if wn_id node = wd_entry_node_id d then Inr True
      else if wn_type node = Join then is_join_ready d run node
      else (let incoming = incoming_edges d (wn_id node) in
            Inr (incoming \<noteq> [] \<and>
                 (\<forall>edge\<in>set incoming. we_from edge \<in> get_resolved_node_ids run) \<and>
                 incoming_branch_edges_selected d incoming run)))"

fun resolve_ready :: "wf_definition \<Rightarrow> wf_run \<Rightarrow> wf_node list \<Rightarrow> node_exn + string list" where
  "resolve_ready d run [] = Inr []"
| "resolve_ready d run (node # rest) =
     (case node_ready d run node of
        Inl e \<Rightarrow> Inl e
      | Inr is_ready \<Rightarrow>
          (case resolve_ready d run rest of
             Inl e \<Rightarrow> Inl e
           | Inr ready \<Rightarrow> Inr (if is_ready then wn_id node # ready else ready)))"

definition resolve_ready_nodes :: "wf_definition \<Rightarrow> wf_run \<Rightarrow> node_exn + string list" where
  "resolve_ready_nodes d run = resolve_ready d run (wd_nodes d)"

subsection \<open>Skipping after a routing decision\<close>

fun skip_pass ::
    "wf_definition \<Rightarrow> wf_run \<Rightarrow> wf_node list \<Rightarrow> string set \<times> bool \<Rightarrow> string set \<times> bool" where
  "skip_pass d run [] st = st"
| "skip_pass d run (node # rest) (to_skip, changed) =
     (let sources = map we_from (incoming_edges d (wn_id node)) in
      if wn_id node \<in> started_node_ids run \<or> wn_id node \<in> to_skip \<or> sources = [] \<or>
         \<not> (\<forall>s\<in>set sources. s \<in> get_succeeded_node_ids run \<union> get_skipped_node_ids run \<union> to_skip) \<or>
         (\<exists>s\<in>set sources. s \<in> get_succeeded_node_ids run)
      then skip_pass d run rest (to_skip, changed)
      else skip_pass d run rest (insert (wn_id node) to_skip, True))"

lemma skip_pass_mono: "fst st \<subseteq> fst (skip_pass d run nodes st)"
  by (induction d run nodes st rule: skip_pass.induct) (auto simp: Let_def)

lemma skip_pass_changed:
  "snd (skip_pass d run nodes st) \<Longrightarrow> \<not> snd st \<Longrightarrow>
   \<exists>n\<in>set nodes. wn_id n \<in> fst (skip_pass d run nodes st) \<and> wn_id n \<notin> fst st"
proof (induction d run nodes st rule: skip_pass.induct)
  case (1 d run st)
  then show ?case by simp
next
  case (2 d run node rest to_skip changed)
  let ?c = "wn_id node \<in> started_node_ids run \<or> wn_id node \<in> to_skip \<or>
     map we_from (incoming_edges d (wn_id node)) = [] \<or>
     \<not> (\<forall>s\<in>set (map we_from (incoming_edges d (wn_id node))).
          s \<in> get_succeeded_node_ids run \<union> get_skipped_node_ids run \<union> to_skip) \<or>
     (\<exists>s\<in>set (map we_from (incoming_edges d (wn_id node))). s \<in> get_succeeded_node_ids run)"
  show ?case
  proof (cases ?c)
    case True
    then have e: "skip_pass d run (node # rest) (to_skip, changed) = skip_pass d run rest (to_skip, changed)"
      by (simp only: skip_pass.simps Let_def if_True)
    show ?thesis using "2.IH"(1) [OF refl True] "2.prems" unfolding e by auto
  next
    case False
    then have "skip_pass d run (node # rest) (to_skip, changed) =
        skip_pass d run rest (insert (wn_id node) to_skip, True)"
      by (simp only: skip_pass.simps Let_def if_False)
    moreover have "insert (wn_id node) to_skip \<subseteq>
        fst (skip_pass d run rest (insert (wn_id node) to_skip, True))"
      using skip_pass_mono [of "(insert (wn_id node) to_skip, True)"] by simp
    ultimately show ?thesis using False by auto
  qed
qed

function skip_loop :: "wf_definition \<Rightarrow> wf_run \<Rightarrow> string set \<Rightarrow> string set" where
  "skip_loop d run to_skip =
     (let st = skip_pass d run (wd_nodes d) (to_skip, False) in
      if snd st then skip_loop d run (fst st) else fst st)"
  by pat_completeness auto
termination
proof (relation "measure (\<lambda>(d, run, to_skip). card (wn_id ` set (wd_nodes d) - to_skip))")
  fix d :: wf_definition and run to_skip st
  assume st: "st = skip_pass d run (wd_nodes d) (to_skip, False)" and "snd st"
  then obtain n where "n \<in> set (wd_nodes d)" "wn_id n \<in> fst st" "wn_id n \<notin> to_skip"
    using skip_pass_changed [of d run "wd_nodes d" "(to_skip, False)"] by auto
  moreover have "to_skip \<subseteq> fst st" using skip_pass_mono [of "(to_skip, False)"] by (simp add: st)
  ultimately have "wn_id ` set (wd_nodes d) - fst st \<subset> wn_id ` set (wd_nodes d) - to_skip" by auto
  then have "card (wn_id ` set (wd_nodes d) - fst st) < card (wn_id ` set (wd_nodes d) - to_skip)"
    by (intro psubset_card_mono) auto
  then show "((d, run, fst st), d, run, to_skip)
      \<in> measure (\<lambda>(d, run, to_skip). card (wn_id ` set (wd_nodes d) - to_skip))" by simp
qed simp

declare skip_loop.simps [simp del]

definition initial_skips :: "wf_definition \<Rightarrow> string \<Rightarrow> string list \<Rightarrow> wf_run \<Rightarrow> string set" where
  "initial_skips d router_node_id selected_edge_ids run =
     (let outgoing = outgoing_edges d router_node_id;
          selected_targets = we_to ` set (filter (\<lambda>edge. we_id edge \<in> set selected_edge_ids) outgoing) in
      we_to ` set (filter (\<lambda>edge. we_id edge \<notin> set selected_edge_ids \<and>
                               we_to edge \<notin> started_node_ids run \<and>
                               we_to edge \<notin> selected_targets) outgoing))"

definition collect_nodes_to_skip ::
    "wf_definition \<Rightarrow> string \<Rightarrow> string list \<Rightarrow> wf_run \<Rightarrow> string list" where
  "collect_nodes_to_skip d router_node_id selected_edge_ids run =
     sorted_list_of_set (skip_loop d run (initial_skips d router_node_id selected_edge_ids run))"

end
