(* ===== verification/Failure.thy ===== *)
theory Failure
  imports Prelude
begin

section \<open>Failures of external calls\<close>

text \<open>
  The classes of exceptions that the retry code of the platform tells apart, and the two predicates of
  \<open>core/retry.py\<close> that decide which of them are transient. The workflow engine and the agent runtime each
  refine them.
\<close>

datatype failure =
    NodeFailure string "string option"
  | ValidationFailure
  | PermissionFailure
  | LookupFailure
  | FileNotFoundFailure
  | TimeoutFailure
  | HttpStatusFailure nat
  | HttpTimeoutFailure
  | NetworkFailure
  | ConnectionFailure
  | OtherFailure

definition is_retryable_http_status :: "nat \<Rightarrow> bool" where
  "is_retryable_http_status status_code \<longleftrightarrow> status_code = 429 \<or> status_code = 503"

fun is_retryable_exception :: "failure \<Rightarrow> bool" where
  "is_retryable_exception (HttpStatusFailure status_code) = is_retryable_http_status status_code"
| "is_retryable_exception TimeoutFailure = True"
| "is_retryable_exception HttpTimeoutFailure = True"
| "is_retryable_exception NetworkFailure = True"
| "is_retryable_exception ConnectionFailure = True"
| "is_retryable_exception _ = False"

end
