(* ===== verification/Wf_Retry.thy ===== *)
theory Wf_Retry
  imports Wf_Nodes Failure
begin

section \<open>Retries and crash recovery\<close>

text \<open>
  \<open>core/retry.py\<close>, \<open>retry/classifier.py\<close>, \<open>retry/policy.py\<close> and \<open>retry/recovery.py\<close>. Exceptions are
  grouped into the classes the classifier tells apart. An operation that is retried is a function of
  the number of the call (its result may differ from call to call); \<open>retry_async\<close> returns its result
  with the sequence of calls made and of delays slept. Delays are rationals; the jitter of each sleep
  is what \<open>random.uniform\<close> returned for it.
\<close>

definition retryable_error_codes :: "string list" where
  "retryable_error_codes = [''timeout'', ''rate_limit'', ''service_unavailable'', ''provider_error'']"

definition non_retryable_error_codes :: "string list" where
  "non_retryable_error_codes =
     [''invalid_config'', ''not_found'', ''forbidden'', ''unauthorized'', ''auth_error'']"

definition is_non_retryable_node_error :: "string option \<Rightarrow> bool" where
  "is_non_retryable_node_error error_code \<longleftrightarrow> error_code \<in> Some ` set non_retryable_error_codes"

definition is_retryable_node_error :: "string option \<Rightarrow> bool" where
  "is_retryable_node_error error_code \<longleftrightarrow> error_code \<in> Some ` set retryable_error_codes"

fun is_retryable_node_failure :: "failure \<Rightarrow> bool" where
  "is_retryable_node_failure (NodeFailure msg code) =
     (if is_non_retryable_node_error code then False
      else if is_retryable_node_error code then True else False)"
| "is_retryable_node_failure ValidationFailure = False"
| "is_retryable_node_failure PermissionFailure = False"
| "is_retryable_node_failure LookupFailure = False"
| "is_retryable_node_failure FileNotFoundFailure = False"
| "is_retryable_node_failure TimeoutFailure = True"
| "is_retryable_node_failure exc = is_retryable_exception exc"

lemma retryable_node_failure_codes:
  "is_retryable_node_failure (NodeFailure msg code) \<longleftrightarrow> code \<in> Some ` set retryable_error_codes"
  by (auto simp: is_non_retryable_node_error_def is_retryable_node_error_def retryable_error_codes_def
      non_retryable_error_codes_def)

subsection \<open>The retry loop\<close>

definition backoff_delay :: "nat \<Rightarrow> rat \<Rightarrow> rat \<Rightarrow> rat" where
  "backoff_delay attempt base_delay jitter = base_delay * 2 ^ attempt + jitter"

text \<open>\<open>random.uniform(0, delay * 0.25)\<close> returned \<open>jitter\<close>.\<close>

definition jitter_ok :: "nat \<Rightarrow> rat \<Rightarrow> rat \<Rightarrow> bool" where
  "jitter_ok attempt base_delay jitter \<longleftrightarrow> 0 \<le> jitter \<and> jitter \<le> base_delay * 2 ^ attempt / 4"

text \<open>\<open>range(max_attempts)\<close> from \<open>attempt\<close> on; \<open>None\<close> is the failed assertion when there is no attempt.\<close>

function retry_from ::
    "(nat \<Rightarrow> failure + 'a) \<Rightarrow> (failure \<Rightarrow> bool) \<Rightarrow> rat \<Rightarrow> (nat \<Rightarrow> rat) \<Rightarrow> nat \<Rightarrow> nat \<Rightarrow>
     (failure + 'a) option \<times> nat list \<times> rat list" where
  "retry_from operation retryable base_delay jitter max_attempts attempt =
     (if attempt \<ge> max_attempts then (None, [], [])
      else (case operation attempt of
              Inr x \<Rightarrow> (Some (Inr x), [attempt], [])
            | Inl exc \<Rightarrow>
                if int attempt \<ge> int max_attempts - 1 \<or> \<not> retryable exc
                then (Some (Inl exc), [attempt], [])
                else (case retry_from operation retryable base_delay jitter max_attempts (Suc attempt) of
                        (r, calls, delays) \<Rightarrow>
                          (r, attempt # calls, backoff_delay attempt base_delay (jitter attempt) # delays))))"
  by pat_completeness auto
termination by (relation "measure (\<lambda>(_, _, _, _, m, a). m - a)") auto

declare retry_from.simps [simp del]

definition retry_async ::
    "(nat \<Rightarrow> failure + 'a) \<Rightarrow> (failure \<Rightarrow> bool) \<Rightarrow> rat \<Rightarrow> (nat \<Rightarrow> rat) \<Rightarrow> nat \<Rightarrow>
     (failure + 'a) option \<times> nat list \<times> rat list" where
  "retry_async operation retryable base_delay jitter max_attempts =
     retry_from operation retryable base_delay jitter max_attempts 0"

text \<open>
  What the loop does: it makes the calls \<open>0, \<dots>, n\<close>, all but the last failed with a retryable
  exception, it returns the last outcome, and it stopped because that was a success, was not
  retryable or was the last attempt allowed.
\<close>

definition retry_spec ::
    "(nat \<Rightarrow> failure + 'a) \<Rightarrow> (failure \<Rightarrow> bool) \<Rightarrow> nat \<Rightarrow> nat \<Rightarrow> nat \<Rightarrow> bool" where
  "retry_spec operation retryable max_attempts first n \<longleftrightarrow>
     first \<le> n \<and> n < max_attempts \<and>
     (\<forall>i. first \<le> i \<and> i < n \<longrightarrow> (\<exists>exc. operation i = Inl exc \<and> retryable exc)) \<and>
     (\<forall>exc. operation n = Inl exc \<longrightarrow> n = max_attempts - 1 \<or> \<not> retryable exc)"

lemma retry_from_spec:
  assumes "first < max_attempts"
  shows "\<exists>n. retry_from operation retryable base jitter max_attempts first =
      (Some (operation n), [first..<Suc n], map (\<lambda>i. backoff_delay i base (jitter i)) [first..<n]) \<and>
    retry_spec operation retryable max_attempts first n"
  using assms
proof (induction operation retryable base jitter max_attempts first rule: retry_from.induct)
  case (1 operation retryable base jitter max_attempts first)
  show ?case
  proof (cases "\<exists>exc. operation first = Inl exc \<and> \<not> (int first \<ge> int max_attempts - 1 \<or> \<not> retryable exc)")
    case False
    then have "retry_from operation retryable base jitter max_attempts first =
        (Some (operation first), [first], [])"
      using "1.prems" by (cases "operation first") (auto simp: retry_from.simps [of operation])
    moreover have "retry_spec operation retryable max_attempts first first"
      using False "1.prems" by (auto simp: retry_spec_def)
    ultimately show ?thesis by (intro exI [of _ first]) simp
  next
    case True
    then obtain exc where exc: "operation first = Inl exc"
        "\<not> (int first \<ge> int max_attempts - 1 \<or> \<not> retryable exc)" by blast
    then have "Suc first < max_attempts" by auto
    from "1.IH" [OF _ exc this] "1.prems" obtain n where
      n: "retry_from operation retryable base jitter max_attempts (Suc first) =
          (Some (operation n), [Suc first..<Suc n], map (\<lambda>i. backoff_delay i base (jitter i)) [Suc first..<n])"
        "retry_spec operation retryable max_attempts (Suc first) n" by auto
    have le: "first < n" using n(2) by (simp add: retry_spec_def)
    have "retry_from operation retryable base jitter max_attempts first =
        (Some (operation n), first # [Suc first..<Suc n],
         backoff_delay first base (jitter first) # map (\<lambda>i. backoff_delay i base (jitter i)) [Suc first..<n])"
      using exc n(1) "1.prems" by (simp add: retry_from.simps [of operation _ _ _ _ first])
    moreover have "first # [Suc first..<Suc n] = [first..<Suc n]"
      using le by (simp add: upt_conv_Cons)
    moreover have "backoff_delay first base (jitter first) # map (\<lambda>i. backoff_delay i base (jitter i)) [Suc first..<n]
        = map (\<lambda>i. backoff_delay i base (jitter i)) [first..<n]"
      using le by (simp add: upt_conv_Cons)
    moreover have "retry_spec operation retryable max_attempts first n"
      using n(2) exc unfolding retry_spec_def by (metis Suc_leI Suc_leD le_neq_implies_less)
    ultimately show ?thesis by (intro exI [of _ n]) simp
  qed
qed

lemma backoff_delay_bounds:
  assumes "0 \<le> base" and "jitter_ok attempt base j"
  shows "base * 2 ^ attempt \<le> backoff_delay attempt base j \<and>
         backoff_delay attempt base j \<le> base * 2 ^ attempt * 5 / 4"
  using assms by (simp add: backoff_delay_def jitter_ok_def field_simps)

subsection \<open>Node retry policy\<close>

record retry_settings =
  rs_max_node_retries :: nat
  rs_base_delay_seconds :: rat

definition effective_retry_policy :: "retry_config option \<Rightarrow> retry_settings option \<Rightarrow> retry_config" where
  "effective_retry_policy policy settings =
     (case policy of
        Some p \<Rightarrow> p
      | None \<Rightarrow>
          (case settings of
             Some s \<Rightarrow> \<lparr>max_retries = rs_max_node_retries s, base_delay_seconds = rs_base_delay_seconds s\<rparr>
           | None \<Rightarrow> \<lparr>max_retries = 3, base_delay_seconds = 1\<rparr>))"

definition max_attempts :: "retry_config \<Rightarrow> nat" where
  "max_attempts policy = max_retries policy + 1"

text \<open>\<open>RetryPolicy.run\<close>: the calls of \<open>on_retry\<close> (attempt, exception) made on the way.\<close>

definition policy_run ::
    "retry_config \<Rightarrow> (nat \<Rightarrow> failure + 'a) \<Rightarrow> (nat \<Rightarrow> rat) \<Rightarrow>
     (failure + 'a) option \<times> nat list \<times> rat list \<times> (nat \<times> failure) list" where
  "policy_run policy operation jitter =
     (case retry_async operation is_retryable_node_failure (base_delay_seconds policy) jitter
             (max_attempts policy) of
        (r, calls, delays) \<Rightarrow>
          (r, calls, delays,
           concat (map (\<lambda>i. case operation i of
                       Inl exc \<Rightarrow> if is_retryable_node_failure exc then [(Suc i, exc)] else []
                     | Inr _ \<Rightarrow> []) calls)))"

lemma policy_run_spec:
  "\<exists>n calls. policy_run policy operation jitter =
     (Some (operation n), [0..<Suc n],
      map (\<lambda>i. backoff_delay i (base_delay_seconds policy) (jitter i)) [0..<n], calls) \<and>
     n \<le> max_retries policy \<and>
     retry_spec operation is_retryable_node_failure (max_attempts policy) 0 n"
proof -
  have "0 < max_attempts policy" by (simp add: max_attempts_def)
  from retry_from_spec [OF this, of operation is_retryable_node_failure "base_delay_seconds policy" jitter]
  obtain n where
    "retry_from operation is_retryable_node_failure (base_delay_seconds policy) jitter (max_attempts policy) 0 =
       (Some (operation n), [0..<Suc n], map (\<lambda>i. backoff_delay i (base_delay_seconds policy) (jitter i)) [0..<n])"
    and "retry_spec operation is_retryable_node_failure (max_attempts policy) 0 n" by blast
  then show ?thesis by (auto simp: policy_run_def retry_async_def retry_spec_def max_attempts_def)
qed

subsection \<open>Crash recovery\<close>

definition execution_interrupted_error :: string where
  "execution_interrupted_error = ''execution_interrupted''"

definition extract_execution_receipt_id :: "wf_execution \<Rightarrow> string option" where
  "extract_execution_receipt_id execution = nonblank_str (dict_get (wx_input execution) ''execution_receipt_id'')"

text \<open>\<open>str\<close> of a UUID is a parameter: an injective text without a colon.\<close>

definition build_execution_receipt_id :: "(uuid \<Rightarrow> string) \<Rightarrow> uuid \<Rightarrow> string \<Rightarrow> nat \<Rightarrow> string" where
  "build_execution_receipt_id uuid_str run_id node_id attempt =
     uuid_str run_id @ '':'' @ node_id @ '':'' @ py_str_nat attempt"

definition is_receipt_aware_tool :: "string \<Rightarrow> tool_registry option \<Rightarrow> bool" where
  "is_receipt_aware_tool tool_name registry =
     (case registry of
        None \<Rightarrow> False
      | Some reg \<Rightarrow> (case dict_get reg tool_name of None \<Rightarrow> False | Some tool \<Rightarrow> rt_receipt_aware tool))"

fun node_type_value :: "node_type \<Rightarrow> string" where
  "node_type_value Task = ''task''"
| "node_type_value Llm = ''llm''"
| "node_type_value Agent = ''agent''"
| "node_type_value Router = ''router''"
| "node_type_value Fork = ''fork''"
| "node_type_value Join = ''join''"
| "node_type_value Approval = ''approval''"
| "node_type_value Plugin = ''plugin''"
| "node_type_value Terminal = ''terminal''"

definition crash_recovery_allowed ::
    "wf_execution \<Rightarrow> pyval dict \<Rightarrow> tool_registry option \<Rightarrow> bool \<times> string option" where
  "crash_recovery_allowed execution node_config registry =
     (let effective_config = (case dict_get (wx_input execution) ''config'' of
                                Some (PDict input_config) \<Rightarrow> dict_merge node_config input_config
                              | _ \<Rightarrow> node_config) in
      case wx_node_type execution of
        Router \<Rightarrow> (True, None) | Fork \<Rightarrow> (True, None) | Join \<Rightarrow> (True, None)
      | Approval \<Rightarrow> (False, Some ''Approval nodes cannot be crash-recovered; use approve/reject.'')
      | Terminal \<Rightarrow> (True, None)
      | Task \<Rightarrow>
          (case nonblank_str (dict_get effective_config ''tool_name'') of
             None \<Rightarrow> (False, Some ''Task node is missing tool_name for crash recovery.'')
           | Some tool_name \<Rightarrow>
               if is_receipt_aware_tool (py_strip tool_name) registry then (True, None)
               else (False, Some (''Task node tool is not execution-receipt-aware; crash recovery would ''
                                  @ ''risk duplicate side effects.'')))
      | Llm \<Rightarrow> (False, Some (''llm nodes cannot be crash-recovered without a ''
                             @ ''platform-wide execution receipt store.''))
      | Agent \<Rightarrow> (False, Some (''agent nodes cannot be crash-recovered without a ''
                               @ ''platform-wide execution receipt store.''))
      | Plugin \<Rightarrow> (False, Some (''Unsupported node type '' @ py_repr (node_type_value Plugin)
                                @ '' for crash recovery.'')))"

definition latest_step ::
    "(string \<times> wf_execution) list \<Rightarrow> wf_execution \<Rightarrow> (string \<times> wf_execution) list" where
  "latest_step by_node execution =
     (case dict_get by_node (wx_node_id execution) of
        None \<Rightarrow> dict_put (wx_node_id execution) execution by_node
      | Some existing \<Rightarrow>
          if wx_attempt execution > wx_attempt existing
          then dict_put (wx_node_id execution) execution by_node else by_node)"

definition latest_execution_by_node :: "wf_execution list \<Rightarrow> (string \<times> wf_execution) list" where
  "latest_execution_by_node executions = foldl latest_step [] executions"

definition find_interrupted_executions :: "string list \<Rightarrow> wf_execution list \<Rightarrow> wf_execution list" where
  "find_interrupted_executions current_node_ids executions =
     (let latest = latest_execution_by_node executions in
      concat (map (\<lambda>node_id. case dict_get latest node_id of
                     None \<Rightarrow> []
                   | Some execution \<Rightarrow> if wx_status execution = NodeRunning then [execution] else [])
                current_node_ids))"

definition next_attempt_number :: "wf_execution list \<Rightarrow> string \<Rightarrow> nat" where
  "next_attempt_number executions node_id =
     foldr max (map wx_attempt (filter (\<lambda>e. wx_node_id e = node_id) executions)) 0 + 1"

text \<open>The latest execution of a node is one of its rows, and no row of the node has a higher attempt.\<close>

lemma latest_fold:
  "dict_get (foldl latest_step acc es) i = Some e \<Longrightarrow>
   (\<forall>j x. dict_get acc j = Some x \<longrightarrow> wx_node_id x = j) \<Longrightarrow>
   (e \<in> set es \<or> dict_get acc i = Some e) \<and> wx_node_id e = i \<and>
   (\<forall>x\<in>set es. wx_node_id x = i \<longrightarrow> wx_attempt x \<le> wx_attempt e) \<and>
   (\<forall>x. dict_get acc i = Some x \<longrightarrow> wx_attempt x \<le> wx_attempt e)"
proof (induction es arbitrary: acc)
  case Nil
  then show ?case by auto
next
  case (Cons x es)
  have keys: "\<forall>j y. dict_get (latest_step acc x) j = Some y \<longrightarrow> wx_node_id y = j"
    using Cons.prems(2) by (auto simp: latest_step_def split: option.split)
  have IH: "(e \<in> set es \<or> dict_get (latest_step acc x) i = Some e) \<and> wx_node_id e = i \<and>
     (\<forall>x\<in>set es. wx_node_id x = i \<longrightarrow> wx_attempt x \<le> wx_attempt e) \<and>
     (\<forall>y. dict_get (latest_step acc x) i = Some y \<longrightarrow> wx_attempt y \<le> wx_attempt e)"
    using Cons.IH [OF _ keys] Cons.prems(1) by simp
  then show ?case
    by (cases "dict_get acc (wx_node_id x)") (auto simp: latest_step_def split: if_splits)
qed

lemma latest_execution:
  assumes "dict_get (latest_execution_by_node es) i = Some e"
  shows "e \<in> set es \<and> wx_node_id e = i \<and> (\<forall>x\<in>set es. wx_node_id x = i \<longrightarrow> wx_attempt x \<le> wx_attempt e)"
  using latest_fold [of "[]" es i e] assms by (auto simp: latest_execution_by_node_def dict_get_def)

lemma find_interrupted_mem:
  assumes "e \<in> set (find_interrupted_executions current es)"
  shows "e \<in> set es \<and> wx_node_id e \<in> set current \<and> wx_status e = NodeRunning \<and>
     (\<forall>x\<in>set es. wx_node_id x = wx_node_id e \<longrightarrow> wx_attempt x \<le> wx_attempt e)"
proof -
  from assms obtain i where "i \<in> set current" "dict_get (latest_execution_by_node es) i = Some e"
      "wx_status e = NodeRunning"
    by (auto simp: find_interrupted_executions_def Let_def split: option.splits if_splits)
  with latest_execution [of es i e] show ?thesis by auto
qed

lemma foldr_max_ge: "x \<in> set xs \<Longrightarrow> x \<le> foldr max xs (0::nat)"
  by (induction xs) auto

text \<open>A new attempt number was never used for the node, so a new attempt never overwrites a row.\<close>

lemma next_attempt_fresh: "e \<in> set es \<Longrightarrow> wx_node_id e = node_id \<Longrightarrow> wx_attempt e < next_attempt_number es node_id"
  unfolding next_attempt_number_def by (auto intro!: le_imp_less_Suc foldr_max_ge)

text \<open>Recovery never repeats a side effect that the platform cannot deduplicate.\<close>

lemma crash_recovery_side_effects:
  assumes "fst (crash_recovery_allowed execution config registry)"
  shows "wx_node_type execution \<in> {Router, Fork, Join, Terminal} \<or>
    (wx_node_type execution = Task \<and> (\<exists>reg name tool. registry = Some reg \<and> dict_get reg name = Some tool \<and>
       rt_receipt_aware tool))"
  using assms
  by (auto simp: crash_recovery_allowed_def Let_def is_receipt_aware_tool_def
      split: node_type.splits option.splits pyval.splits if_splits)

end
