(* ===== verification/Prog.thy ===== *)
theory Prog
  imports Prelude
begin

section \<open>Programs made of atomic actions\<close>

text \<open>
  An \<open>async\<close> method talks to shared state (the database, the clock) through calls that are atomic
  one by one, and other tasks may run between them. \<open>prog\<close> is that: either a result or one action
  (a state update and, computed from the state it read, the rest of the program). \<open>exec_prog\<close> runs a
  program alone; \<open>wp\<close> is a rely-guarantee weakest precondition: before every action the environment
  may take a step of the rely relation, and every action must be a step of the guarantee. \<open>par\<close>
  interleaves two programs under a scheduler that the state decides, and \<open>gather\<close> is
  \<open>asyncio.gather(..., return_exceptions=True)\<close>. Exceptions are results: \<open>bindE\<close> stops at the first.
\<close>

datatype ('s, 'a) prog = Ret 'a | Act "'s \<Rightarrow> 's" "'s \<Rightarrow> ('s, 'a) prog"

primrec bindP :: "('s, 'a) prog \<Rightarrow> ('a \<Rightarrow> ('s, 'b) prog) \<Rightarrow> ('s, 'b) prog" where
  "bindP (Ret a) g = g a"
| "bindP (Act f k) g = Act f (\<lambda>s. bindP (k s) g)"

definition bindE :: "('s, 'e + 'a) prog \<Rightarrow> ('a \<Rightarrow> ('s, 'e + 'b) prog) \<Rightarrow> ('s, 'e + 'b) prog" where
  "bindE p g = bindP p (\<lambda>r. case r of Inl e \<Rightarrow> Ret (Inl e) | Inr a \<Rightarrow> g a)"

abbreviation ok :: "'a \<Rightarrow> ('s, 'e + 'a) prog" where "ok a \<equiv> Ret (Inr a)"
abbreviation raise :: "'e \<Rightarrow> ('s, 'e + 'a) prog" where "raise e \<equiv> Ret (Inl e)"

text \<open>Read part of the state; run one atomic operation; lift a pure result.\<close>

definition readP :: "('s \<Rightarrow> 'a) \<Rightarrow> ('s, 'a) prog" where
  "readP f = Act (\<lambda>s. s) (\<lambda>s. Ret (f s))"

definition opP :: "('s \<Rightarrow> 's \<times> 'a) \<Rightarrow> ('s, 'a) prog" where
  "opP f = Act (\<lambda>s. fst (f s)) (\<lambda>s. Ret (snd (f s)))"

text \<open>A \<open>for\<close> loop over a list, stopping at the first exception.\<close>

fun forP :: "('a \<Rightarrow> ('s, 'e + unit) prog) \<Rightarrow> 'a list \<Rightarrow> ('s, 'e + unit) prog" where
  "forP f [] = ok ()"
| "forP f (x # xs) = bindE (f x) (\<lambda>_. forP f xs)"

primrec exec_prog :: "('s, 'a) prog \<Rightarrow> 's \<Rightarrow> 's \<times> 'a" where
  "exec_prog (Ret a) s = (s, a)"
| "exec_prog (Act f k) s = exec_prog (k s) (f s)"

lemma bindP_Ret [simp]: "bindP p Ret = p"
  by (induction p) auto

lemma bindP_assoc: "bindP (bindP p g) h = bindP p (\<lambda>a. bindP (g a) h)"
  by (induction p) auto

lemma bindE_simps [simp]:
  "bindE (raise e) g = raise e"
  "bindE (ok a) g = g a"
  by (simp_all add: bindE_def)

lemma bindE_ok [simp]:
  fixes p :: "('s, 'e + 'a) prog"
  shows "bindE p ok = p"
proof -
  have "(\<lambda>r. case r of Inl e \<Rightarrow> raise e | Inr a \<Rightarrow> ok a) = (Ret :: 'e + 'a \<Rightarrow> ('s, 'e + 'a) prog)"
    by (rule ext) (simp split: sum.split)
  then show ?thesis by (simp add: bindE_def)
qed

lemma bindE_assoc: "bindE (bindE p g) h = bindE p (\<lambda>a. bindE (g a) h)"
  unfolding bindE_def bindP_assoc by (rule arg_cong [where f = "bindP p"]) (auto split: sum.split)

lemma exec_bindP: "exec_prog (bindP p g) s = (let (t, a) = exec_prog p s in exec_prog (g a) t)"
  by (induction p arbitrary: s) auto

lemma exec_bindE: "exec_prog (bindE p g) s =
  (let (t, r) = exec_prog p s in case r of Inl e \<Rightarrow> (t, Inl e) | Inr a \<Rightarrow> exec_prog (g a) t)"
  by (auto simp: bindE_def exec_bindP split: prod.splits sum.splits)

lemma exec_readP [simp]: "exec_prog (readP f) s = (s, f s)"
  by (simp add: readP_def)

lemma exec_opP [simp]: "exec_prog (opP f) s = f s"
  by (simp add: opP_def)

subsection \<open>What a program alone keeps\<close>

definition keeps :: "('s \<Rightarrow> 's \<Rightarrow> bool) \<Rightarrow> ('s, 'a) prog \<Rightarrow> bool" where
  "keeps E p \<longleftrightarrow> (\<forall>s. E s (fst (exec_prog p s)))"

lemma keepsD: "keeps E p \<Longrightarrow> exec_prog p s = (t, a) \<Longrightarrow> E s t"
  unfolding keeps_def by (metis fst_conv)

named_theorems keeps_intros "programs that keep a relation when they run alone"

lemma keeps_if [keeps_intros]:
  "(b \<Longrightarrow> keeps E p) \<Longrightarrow> (\<not> b \<Longrightarrow> keeps E q) \<Longrightarrow> keeps E (if b then p else q)"
  by simp

lemma keeps_option [keeps_intros]:
  "(x = None \<Longrightarrow> keeps E p) \<Longrightarrow> (\<And>a. x = Some a \<Longrightarrow> keeps E (f a)) \<Longrightarrow> keeps E (case_option p f x)"
  by (cases x) simp_all

lemma keeps_sum [keeps_intros]:
  "(\<And>e. x = Inl e \<Longrightarrow> keeps E (f e)) \<Longrightarrow> (\<And>a. x = Inr a \<Longrightarrow> keeps E (g a)) \<Longrightarrow> keeps E (case_sum f g x)"
  by (cases x) simp_all

lemma keeps_opP [keeps_intros]: "(\<And>s. E s (fst (f s))) \<Longrightarrow> keeps E (opP f)"
  by (simp add: keeps_def)

locale closed_steps =
  fixes E :: "'s \<Rightarrow> 's \<Rightarrow> bool"
  assumes refl: "E s s" and trans: "E s t \<Longrightarrow> E t u \<Longrightarrow> E s u"
begin

lemma keeps_Ret: "keeps E (Ret a)"
  by (simp add: keeps_def refl)

lemma keeps_readP: "keeps E (readP f)"
  by (simp add: keeps_def refl)

lemma keeps_bindP: "keeps E p \<Longrightarrow> (\<And>a. keeps E (g a)) \<Longrightarrow> keeps E (bindP p g)"
  unfolding keeps_def exec_bindP by (auto split: prod.split intro: trans)

lemma keeps_bindE:
  assumes "keeps E p" and "\<And>a. keeps E (g a)"
  shows "keeps E (bindE p g)"
  unfolding bindE_def using assms by (auto intro!: keeps_bindP keeps_sum keeps_Ret)

end

subsection \<open>Interleaving\<close>

primrec par_step ::
    "('s \<Rightarrow> bool) \<Rightarrow> ('s \<Rightarrow> 's) \<Rightarrow> ('s \<Rightarrow> 's) \<Rightarrow> ('s \<Rightarrow> ('s, 'b) prog \<Rightarrow> ('s, 'c) prog) \<Rightarrow>
     ('s, 'b) prog \<Rightarrow> ('s, 'c) prog" where
  "par_step left tick f kp (Ret b) = Act (\<lambda>s. tick (f s)) (\<lambda>s. kp s (Ret b))"
| "par_step left tick f kp (Act g l) =
     Act (\<lambda>s. tick (if left s then f s else g s))
         (\<lambda>s. if left s then kp s (Act g l) else par_step left tick f kp (l s))"

primrec par ::
    "('s \<Rightarrow> bool) \<Rightarrow> ('s \<Rightarrow> 's) \<Rightarrow> ('s, 'a) prog \<Rightarrow> ('s, 'b) prog \<Rightarrow> ('s, 'a \<times> 'b) prog" where
  "par left tick (Ret a) = (\<lambda>q. bindP q (\<lambda>b. Ret (a, b)))"
| "par left tick (Act f k) = (\<lambda>q. par_step left tick f (\<lambda>s. par left tick (k s)) q)"

primrec gather ::
    "('s \<Rightarrow> bool) \<Rightarrow> ('s \<Rightarrow> 's) \<Rightarrow> ('s, 'a) prog list \<Rightarrow> ('s, 'a list) prog" where
  "gather left tick [] = Ret []"
| "gather left tick (p # ps) = bindP (par left tick p (gather left tick ps)) (\<lambda>(a, as). Ret (a # as))"

subsection \<open>Rely-guarantee\<close>

type_synonym 's steps = "'s \<Rightarrow> 's \<Rightarrow> bool"

primrec wp :: "'s steps \<Rightarrow> 's steps \<Rightarrow> ('s, 'a) prog \<Rightarrow> ('a \<Rightarrow> 's \<Rightarrow> bool) \<Rightarrow> 's \<Rightarrow> bool" where
  "wp R G (Ret a) Q s = Q a s"
| "wp R G (Act f k) Q s = (\<forall>t. R s t \<longrightarrow> G t (f t) \<and> wp R G (k t) Q (f t))"

abbreviation safe :: "'s steps \<Rightarrow> ('s, 'a) prog \<Rightarrow> 's \<Rightarrow> bool" where
  "safe E p s \<equiv> wp E E p (\<lambda>_ _. True) s"

lemma wp_mono: "wp R G p Q s \<Longrightarrow> (\<And>a t. Q a t \<Longrightarrow> Q' a t) \<Longrightarrow> wp R G p Q' s"
  by (induction p arbitrary: s) auto

lemma wp_conj: "wp R G p Q s \<Longrightarrow> wp R G p Q' s \<Longrightarrow> wp R G p (\<lambda>a t. Q a t \<and> Q' a t) s"
  by (induction p arbitrary: s) auto

lemma wp_bindP: "wp R G (bindP p g) Q s = wp R G p (\<lambda>a. wp R G (g a) Q) s"
  by (induction p arbitrary: s) auto

lemma wp_bindE: "wp R G (bindE p g) Q s =
    wp R G p (\<lambda>r. case r of Inl e \<Rightarrow> Q (Inl e) | Inr a \<Rightarrow> wp R G (g a) Q) s"
proof -
  have e: "wp R G (case r of Inl e \<Rightarrow> Ret (Inl e) | Inr a \<Rightarrow> g a) Q =
      (case r of Inl e \<Rightarrow> Q (Inl e) | Inr a \<Rightarrow> wp R G (g a) Q)" for r
    by (cases r) (auto intro!: ext)
  show ?thesis unfolding bindE_def wp_bindP e ..
qed

lemma wp_bindE_I:
  assumes "wp R G p (\<lambda>r t. case r of Inl e \<Rightarrow> Q (Inl e) t | Inr a \<Rightarrow> wp R G (g a) Q t) s"
  shows "wp R G (bindE p g) Q s"
  unfolding wp_bindE by (rule wp_mono [OF assms]) (auto split: sum.splits)

lemma wp_readP [simp]:
  "wp R G (readP f) Q s = (\<forall>t. R s t \<longrightarrow> G t t \<and> Q (f t) t)"
  by (simp add: readP_def)

lemma wp_opP [simp]:
  "wp R G (opP f) Q s = (\<forall>t. R s t \<longrightarrow> G t (fst (f t)) \<and> Q (snd (f t)) (fst (f t)))"
  by (simp add: opP_def)

text \<open>A program alone is a program whose environment does nothing.\<close>

lemma wp_exec: "wp R G p Q s \<Longrightarrow> (\<And>t. R t t) \<Longrightarrow> (\<lambda>(t, a). Q a t) (exec_prog p s)"
  by (induction p arbitrary: s) auto

text \<open>
  For a relation \<open>E\<close> that is reflexive and transitive: \<open>safe\<close> survives steps of the environment,
  what holds by virtue of the starting point can be remembered, and interleaving keeps \<open>safe\<close>.
\<close>

lemma wp_env:
  assumes "wp E E p Q s" and "E s t" and "transp E" and "\<And>a s t. Q a s \<Longrightarrow> E s t \<Longrightarrow> Q a t"
  shows "wp E E p Q t"
proof (cases p)
  case (Ret a)
  with assms show ?thesis by auto
next
  case (Act f k)
  with assms show ?thesis by (auto dest: transpD)
qed

lemma safe_env: "safe E p s \<Longrightarrow> E s t \<Longrightarrow> transp E \<Longrightarrow> safe E p t"
  by (erule wp_env) auto

lemma wp_remember:
  assumes "wp E E p Q s" and "E s0 s" and "transp E" and "reflp E"
  shows "wp E E p (\<lambda>a t. Q a t \<and> E s0 t) s"
  using assms(1,2)
proof (induction p arbitrary: s)
  case (Ret a)
  then show ?case by simp
next
  case (Act f k)
  show ?case
  proof (simp, intro allI impI conjI)
    fix t
    assume t: "E s t"
    with Act.prems(1) show "E t (f t)" by simp
    with t Act.prems(2) assms(3) have "E s0 (f t)" by (blast dest: transpD)
    with Act t show "wp E E (k t) (\<lambda>a t. Q a t \<and> E s0 t) (f t)" by auto
  qed
qed

lemma safe_bindP:
  assumes "safe E p s" and "transp E" and "reflp E" and "\<And>a t. E s t \<Longrightarrow> safe E (g a) t"
  shows "safe E (bindP p g) s"
  unfolding wp_bindP
proof (rule wp_mono)
  show "wp E E p (\<lambda>a t. True \<and> E s t) s"
    using assms(1) reflpD [OF assms(3)] assms(2,3) by (rule wp_remember)
qed (use assms(4) in blast)

lemma safe_bindE:
  assumes "safe E p s" and "transp E" and "reflp E" and "\<And>a t. E s t \<Longrightarrow> safe E (g a) t"
  shows "safe E (bindE p g) s"
  unfolding bindE_def using assms by (intro safe_bindP) (auto split: sum.split)

lemma safe_forP:
  assumes "transp E" and "reflp E" and "\<And>x t. x \<in> set xs \<Longrightarrow> E s t \<Longrightarrow> safe E (f x) t"
  shows "safe E (forP f xs) s"
  using assms(3)
proof (induction xs arbitrary: s)
  case Nil
  then show ?case by simp
next
  case (Cons x xs)
  have "safe E (f x) s" using Cons.prems reflpD [OF assms(2)] by simp
  then show ?case unfolding forP.simps
  proof (rule safe_bindE [OF _ assms(1,2)])
    fix t
    assume "E s t"
    then show "safe E (forP f xs) t"
      using Cons.prems transpD [OF assms(1)] by (intro Cons.IH) auto
  qed
qed

lemma safe_readP: "reflp E \<Longrightarrow> safe E (readP f) s"
  by (simp add: reflpD)

lemma wp_par_step:
  assumes E: "transp E" "reflp E" "\<And>s. E s (tick s)"
    and f: "\<And>t. E s t \<Longrightarrow> E t (f t)"
    and kp: "\<And>t q. E s t \<Longrightarrow> wp E E q Q (tick (f t)) \<Longrightarrow> wp E E (kp t q) R (tick (f t))"
    and q: "wp E E q Q s" and stable: "\<And>a s t. Q a s \<Longrightarrow> E s t \<Longrightarrow> Q a t"
  shows "wp E E (par_step left tick f kp q) R s"
  using f kp q
proof (induction q arbitrary: s)
  case (Ret b)
  show ?case
  proof (simp, intro allI impI conjI)
    fix t
    assume t: "E s t"
    show ft: "E t (tick (f t))" using Ret.prems(1) [OF t] E by (blast dest: transpD)
    have "E s (tick (f t))" using t ft E(1) by (blast dest: transpD)
    then have "wp E E (Ret b) Q (tick (f t))" using Ret.prems(3) stable by simp
    then show "wp E E (kp t (Ret b)) R (tick (f t))" by (rule Ret.prems(2) [OF t])
  qed
next
  case (Act g l)
  show ?case
  proof (simp, intro allI impI conjI)
    fix t
    assume t: "E s t"
    have g: "E t (g t)" "wp E E (l t) Q (g t)" using Act.prems(3) t by auto
    show "left t \<Longrightarrow> E t (tick (f t))" using Act.prems(1) [OF t] E(1,3) by (blast dest: transpD)
    show "\<not> left t \<Longrightarrow> E t (tick (g t))" using g(1) E(1,3) by (blast dest: transpD)
    have stg: "E s (tick (g t))" using t g(1) E(1,3) by (blast dest: transpD)
    show "wp E E (kp t (Act g l)) R (tick (f t))"
    proof (rule Act.prems(2) [OF t])
      have "E s (tick (f t))" using t Act.prems(1) [OF t] E(1,3) by (blast dest: transpD)
      with Act.prems(3) show "wp E E (Act g l) Q (tick (f t))" using E(1) stable by (rule wp_env)
    qed
    show "wp E E (par_step left tick f kp (l t)) R (tick (g t))"
    proof (rule Act.IH)
      show "l t \<in> range l" by simp
      show "E u (f u)" if "E (tick (g t)) u" for u
        using that stg Act.prems(1) transpD [OF E(1)] by blast
      show "wp E E (kp u q) R (tick (f u))" if "E (tick (g t)) u" "wp E E q Q (tick (f u))" for u q
        using that stg Act.prems(2) transpD [OF E(1)] by blast
      show "wp E E (l t) Q (tick (g t))" using g(2) E(3) E(1) stable by (rule wp_env)
    qed
  qed
qed

text \<open>Parallel composition: both postconditions hold at the end when each is stable.\<close>

lemma wp_par:
  fixes q :: "('s, 'b) prog"
  assumes E: "transp E" "reflp E" "\<And>s. E s (tick s)"
    and p: "wp E E p P s" and q: "wp E E q Q s"
    and P: "\<And>a s t. P a s \<Longrightarrow> E s t \<Longrightarrow> P a t" and Q: "\<And>b s t. Q b s \<Longrightarrow> E s t \<Longrightarrow> Q b t"
  shows "wp E E (par left tick p q) (\<lambda>(a, b) t. P a t \<and> Q b t) s"
  using p q
proof (induction p arbitrary: s q)
  case (Ret a)
  have "wp E E q (\<lambda>b t. Q b t \<and> E s t) s"
    using Ret.prems(2) reflpD [OF E(2)] E(1,2) by (rule wp_remember)
  then show ?case using Ret.prems(1) P by (auto simp: wp_bindP elim!: wp_mono)
next
  case (Act f k)
  show ?case unfolding par.simps
  proof (rule wp_par_step [where Q = Q, OF E])
    show "E t (f t)" if "E s t" for t using Act.prems(1) that by simp
    show "wp E E q Q s" by (rule Act.prems(2))
    show "Q b t'" if "Q b t" "E t t'" for b t t' using Q that by blast
    show "wp E E (par left tick (k t) q') (\<lambda>(a, b) t. P a t \<and> Q b t) (tick (f t))"
      if "E s t" "wp E E q' Q (tick (f t))" for t and q' :: "('s, 'b) prog"
    proof -
      have "wp E E (k t) P (f t)" using Act.prems(1) that(1) by simp
      then have "wp E E (k t) P (tick (f t))" using E(3) E(1) P by (rule wp_env)
      with that(2) show ?thesis using Act.IH [of "k t"] by simp
    qed
  qed
qed

lemma wp_gather:
  assumes E: "transp E" "reflp E" "\<And>s. E s (tick s)"
    and "list_all2 (\<lambda>p P. wp E E p P s \<and> (\<forall>a s t. P a s \<longrightarrow> E s t \<longrightarrow> P a t)) ps Ps"
  shows "wp E E (gather left tick ps) (\<lambda>as t. list_all2 (\<lambda>a P. P a t) as Ps) s"
  using assms(4)
proof (induction ps Ps rule: list_all2_induct)
  case Nil
  then show ?case by simp
next
  case (Cons p ps P Ps)
  have "wp E E (par left tick p (gather left tick ps))
      (\<lambda>(a, as) t. P a t \<and> list_all2 (\<lambda>a P. P a t) as Ps) s"
  proof (rule wp_par [OF E])
    show "wp E E p P s" "wp E E (gather left tick ps) (\<lambda>as t. list_all2 (\<lambda>a P. P a t) as Ps) s"
      using Cons by auto
    show "P a t" if "P a s" "E s t" for a s t using Cons(1) that by blast
    show "list_all2 (\<lambda>a P. P a t) as Ps" if a: "list_all2 (\<lambda>a P. P a s) as Ps" and st: "E s t" for as s t
    proof -
      have "\<forall>P\<in>set Ps. \<forall>a s t. P a s \<longrightarrow> E s t \<longrightarrow> P a t"
        using Cons(2) by (auto simp: list_all2_conv_all_nth in_set_conv_nth)
      with st have "P a t" if "P \<in> set Ps" "P a s" for P a using that by blast
      with a show ?thesis by (rule list.rel_mono_strong)
    qed
  qed
  then show ?case by (auto simp: wp_bindP elim!: wp_mono)
qed

lemma safe_gather:
  assumes E: "transp E" "reflp E" "\<And>s. E s (tick s)" and "\<forall>p\<in>set ps. safe E p s"
  shows "safe E (gather left tick ps) s"
proof -
  have "list_all2 (\<lambda>p P. wp E E p P s \<and> (\<forall>a s t. P a s \<longrightarrow> E s t \<longrightarrow> P a t)) ps
      (map (\<lambda>_ _ _. True) ps)"
    using assms(4) by (simp add: list_all2_conv_all_nth)
  from wp_gather [OF E this] show ?thesis by (rule wp_mono) simp
qed

text \<open>A pool of programs on one state: any task takes the next action. Every reachable state is
  related to the first by \<open>E\<close> when each program is safe.\<close>

inductive pool_step :: "'s \<times> ('s, 'a) prog list \<Rightarrow> 's \<times> ('s, 'a) prog list \<Rightarrow> bool" where
  "i < length ps \<Longrightarrow> ps ! i = Act f k \<Longrightarrow> pool_step (s, ps) (f s, ps[i := k s])"

lemma pool_safe:
  assumes "transp E" "reflp E" and "pool_step\<^sup>*\<^sup>* (s, ps) (t, qs)" and "\<forall>p\<in>set ps. safe E p s"
  shows "E s t \<and> (\<forall>q\<in>set qs. safe E q t)"
  using assms(3)
proof (induction "(t, qs)" arbitrary: t qs rule: rtranclp_induct)
  case base
  then show ?case using assms(2,4) by (auto dest: reflpD)
next
  case (step y)
  obtain u rs where y: "y = (u, rs)" by (cases y)
  from step(3) [OF y] have u: "E s u" and rs: "\<forall>q\<in>set rs. safe E q u" by auto
  from step(2) y obtain i f k where i: "i < length rs" "rs ! i = Act f k" and t: "t = f u" "qs = rs[i := k u]"
    by (auto elim!: pool_step.cases)
  have "Act f k \<in> set rs" using i by (metis nth_mem)
  with rs have "safe E (Act f k) u" by blast
  then have f: "E u (f u)" and k: "safe E (k u) (f u)" using assms(2) by (auto dest: reflpD)
  have "\<forall>q\<in>set qs. safe E q t"
  proof
    fix q
    assume "q \<in> set qs"
    then have "q = k u \<or> q \<in> set rs" using t(2) set_update_subset_insert by fastforce
    then show "safe E q t" using k rs f safe_env [OF _ f assms(1)] unfolding t(1) by blast
  qed
  moreover have "E s t" using u f t(1) assms(1) by (blast dest: transpD)
  ultimately show ?case by blast
qed

lemma pool_first_step:
  "p = Act f k \<Longrightarrow> pool_step\<^sup>*\<^sup>* (s, [p]) (f s, [k s])"
  using pool_step.intros [of 0 "[Act f k]" f k s] by (auto intro: r_into_rtranclp)

text \<open>A single program in the pool can run to its end.\<close>

lemma pool_exec: "pool_step\<^sup>*\<^sup>* (s, [p]) (fst (exec_prog p s), [Ret (snd (exec_prog p s))])"
proof (induction p arbitrary: s)
  case (Act f k)
  have "pool_step (s, [Act f k]) (f s, [k s])" using pool_step.intros [of 0 "[Act f k]" f k s] by simp
  moreover have "pool_step\<^sup>*\<^sup>* (f s, [k s]) (fst (exec_prog (k s) (f s)), [Ret (snd (exec_prog (k s) (f s)))])"
    by (rule Act) simp
  ultimately show ?case by (simp add: converse_rtranclp_into_rtranclp)
qed simp

inductive_cases pool_stepE: "pool_step (s, ps) (t, qs)"

subsection \<open>Programs on a part of the state\<close>

primrec zoom :: "('t \<Rightarrow> 's) \<Rightarrow> ('s \<Rightarrow> 't \<Rightarrow> 't) \<Rightarrow> ('s, 'a) prog \<Rightarrow> ('t, 'a) prog" where
  "zoom get put (Ret a) = Ret a"
| "zoom get put (Act f k) = Act (\<lambda>t. put (f (get t)) t) (\<lambda>t. zoom get put (k (get t)))"

locale substate =
  fixes get :: "'t \<Rightarrow> 's" and put :: "'s \<Rightarrow> 't \<Rightarrow> 't"
  assumes get_put: "get (put s t) = s"
    and put_put: "put s (put s' t) = put s t"
    and put_get: "put (get t) t = t"
begin

lemma exec_zoom: "exec_prog (zoom get put p) t = (let (s, a) = exec_prog p (get t) in (put s t, a))"
proof (induction p arbitrary: t)
  case (Ret a)
  then show ?case by (simp add: put_get)
next
  case (Act f k)
  have "exec_prog (zoom get put (k (get t))) (put (f (get t)) t) =
      (let (s, a) = exec_prog (k (get t)) (f (get t)) in (put s (put (f (get t)) t), a))"
    using Act [of "k (get t)"] by (simp add: get_put)
  then show ?case by (simp add: put_put split: prod.split)
qed

end

subsection \<open>Programs that start in a stable situation\<close>

text \<open>
  Often a program is safe only because of something it knows when it starts (an invariant, the row it
  has claimed). When the steps of \<open>E\<close> keep that knowledge \<open>P\<close>, the program may rely on it at each action.
\<close>

definition safe_when :: "'s steps \<Rightarrow> ('s \<Rightarrow> bool) \<Rightarrow> ('s, 'a) prog \<Rightarrow> bool" where
  "safe_when E P p \<longleftrightarrow> (\<forall>s. P s \<longrightarrow> safe E p s)"

lemma safe_whenD: "safe_when E P p \<Longrightarrow> P s \<Longrightarrow> safe E p s"
  by (simp add: safe_when_def)

named_theorems safe_when_intros "programs that are safe in a stable situation"

lemma safe_when_Ret [safe_when_intros]: "safe_when E P (Ret a)"
  by (simp add: safe_when_def)

lemma safe_when_if [safe_when_intros]:
  "(b \<Longrightarrow> safe_when E P p) \<Longrightarrow> (\<not> b \<Longrightarrow> safe_when E P q) \<Longrightarrow> safe_when E P (if b then p else q)"
  by simp

lemma safe_when_option [safe_when_intros]:
  "(x = None \<Longrightarrow> safe_when E P p) \<Longrightarrow> (\<And>a. x = Some a \<Longrightarrow> safe_when E P (f a)) \<Longrightarrow>
   safe_when E P (case_option p f x)"
  by (cases x) simp_all

lemma safe_when_sum [safe_when_intros]:
  "(\<And>e. x = Inl e \<Longrightarrow> safe_when E P (f e)) \<Longrightarrow> (\<And>a. x = Inr a \<Longrightarrow> safe_when E P (g a)) \<Longrightarrow>
   safe_when E P (case_sum f g x)"
  by (cases x) simp_all

lemma safe_when_prod [safe_when_intros]:
  "(\<And>a b. x = (a, b) \<Longrightarrow> safe_when E P (f a b)) \<Longrightarrow> safe_when E P (case_prod f x)"
  by (cases x) simp

lemma safe_when_weaken: "safe_when E P p \<Longrightarrow> (\<And>s. Q s \<Longrightarrow> P s) \<Longrightarrow> safe_when E Q p"
  by (simp add: safe_when_def)

locale stable_situation =
  fixes E :: "'s steps" and P :: "'s \<Rightarrow> bool"
  assumes transp: "transp E" and reflp: "reflp E"
    and stable: "P s \<Longrightarrow> E s t \<Longrightarrow> P t"
begin

lemma bindP: "safe_when E P p \<Longrightarrow> (\<And>a. safe_when E P (g a)) \<Longrightarrow> safe_when E P (bindP p g)"
  unfolding safe_when_def using transp reflp stable by (blast intro: safe_bindP)

lemma bindE: "safe_when E P p \<Longrightarrow> (\<And>a. safe_when E P (g a)) \<Longrightarrow> safe_when E P (bindE p g)"
  unfolding safe_when_def using transp reflp stable by (blast intro: safe_bindE)

lemma readP: "safe_when E P (readP f)"
  unfolding safe_when_def using reflp by (blast intro: safe_readP)

lemma opP: "(\<And>s. P s \<Longrightarrow> E s (fst (f s))) \<Longrightarrow> safe_when E P (opP f)"
  using stable by (simp add: safe_when_def)

lemma forP: "(\<And>x. safe_when E P (f x)) \<Longrightarrow> safe_when E P (forP f xs)"
  by (induction xs) (auto intro!: safe_when_Ret bindE)

lemma gather:
  assumes "\<And>s. E s (tick s)" and "\<And>p. p \<in> set ps \<Longrightarrow> safe_when E P p"
  shows "safe_when E P (gather left tick ps)"
  unfolding safe_when_def using assms
  by (auto intro!: safe_gather transp reflp dest: safe_whenD)

text \<open>An action whose result carries more knowledge, which the rest may rely on.\<close>

lemma opP_bindP:
  assumes "\<And>s. P s \<Longrightarrow> E s (fst (f s))"
    and "\<And>s. P s \<Longrightarrow> safe E (g (snd (f s))) (fst (f s))"
  shows "safe_when E P (bindP (opP f) g)"
  using assms stable by (simp add: safe_when_def wp_bindP)

lemma pool:
  assumes "pool_step\<^sup>*\<^sup>* (s, ps) (t, qs)" and "P s" and "\<And>p. p \<in> set ps \<Longrightarrow> safe_when E P p"
  shows "E s t"
  using pool_safe [OF transp reflp assms(1)] assms(2,3) by (auto dest: safe_whenD)

end

subsection \<open>What a program knows when it returns\<close>

text \<open>
  Started in a situation \<open>P\<close>, the program keeps the contract and, when it returns \<open>a\<close>, leaves a state that
  satisfies \<open>Q a\<close>. The rest of the program may start from that knowledge.
\<close>

definition yields :: "'s steps \<Rightarrow> ('s \<Rightarrow> bool) \<Rightarrow> ('s, 'e + 'a) prog \<Rightarrow> ('a \<Rightarrow> 's \<Rightarrow> bool) \<Rightarrow> bool" where
  "yields E P p Q \<longleftrightarrow> (\<forall>s. P s \<longrightarrow> wp E E p (\<lambda>r t. case r of Inl _ \<Rightarrow> True | Inr a \<Rightarrow> Q a t) s)"

lemma yields_raise [simp]: "yields E P (raise e) Q"
  by (simp add: yields_def)

lemma yields_ok: "(\<And>s. P s \<Longrightarrow> Q a s) \<Longrightarrow> yields E P (ok a) Q"
  by (simp add: yields_def)

lemma yields_bindE:
  assumes "yields E P p Q" and g: "\<And>a. yields E (Q a) (g a) R"
  shows "yields E P (bindE p g) R"
  unfolding yields_def
proof (intro allI impI)
  fix s
  assume "P s"
  with assms(1) have "wp E E p (\<lambda>r t. case r of Inl _ \<Rightarrow> True | Inr a \<Rightarrow> Q a t) s" by (simp add: yields_def)
  then show "wp E E (bindE p g) (\<lambda>r t. case r of Inl _ \<Rightarrow> True | Inr a \<Rightarrow> R a t) s"
    unfolding wp_bindE
  proof (rule wp_mono)
    fix r t
    assume "case r of Inl _ \<Rightarrow> True | Inr a \<Rightarrow> Q a t"
    with g show "(case r of Inl e \<Rightarrow> (\<lambda>t. case Inl e of Inl _ \<Rightarrow> True | Inr a \<Rightarrow> R a t)
        | Inr a \<Rightarrow> wp E E (g a) (\<lambda>r t. case r of Inl _ \<Rightarrow> True | Inr a \<Rightarrow> R a t)) t"
      by (cases r) (simp_all add: yields_def)
  qed
qed

lemma safe_when_yields: "yields E P p Q \<Longrightarrow> safe_when E P p"
  unfolding yields_def safe_when_def by (blast intro: wp_mono)

lemma safe_when_bindE_yields:
  assumes "yields E P p Q" and "\<And>a. safe_when E (Q a) (g a)"
  shows "safe_when E P (bindE p g)"
proof (rule safe_when_yields)
  show "yields E P (bindE p g) (\<lambda>_ _. True)"
    using assms(1)
    by (rule yields_bindE)
      (use assms(2) in \<open>auto simp: yields_def safe_when_def intro: wp_mono split: sum.split\<close>)
qed

context stable_situation begin

lemma safe_keeps:
  assumes "safe_when E P p"
  shows "yields E P p (\<lambda>_. P)"
  unfolding yields_def
proof (intro allI impI)
  fix s
  assume s: "P s"
  have "wp E E p (\<lambda>_ t. True \<and> E s t) s"
    using safe_whenD [OF assms s] reflpD [OF reflp] transp reflp by (rule wp_remember)
  then show "wp E E p (\<lambda>r t. case r of Inl _ \<Rightarrow> True | Inr a \<Rightarrow> P t) s"
    by (rule wp_mono) (auto intro: stable [OF s] split: sum.split)
qed

lemma yields_bindP_opP:
  assumes "\<And>s. P s \<Longrightarrow> E s (fst (f s)) \<and> Q (snd (f s)) (fst (f s))" and "\<And>a. yields E (Q a) (g a) R"
  shows "yields E P (bindP (opP f) g) R"
  using assms stable by (auto simp: yields_def wp_bindP)

lemma yields_opP:
  assumes "\<And>s. P s \<Longrightarrow> E s (fst (f s)) \<and> (\<forall>a. snd (f s) = Inr a \<longrightarrow> Q a (fst (f s)))"
  shows "yields E P (opP f) Q"
  using assms stable by (auto simp: yields_def split: sum.split)

end

end
