(* ===== verification/Versioned_Store.thy ===== *)
theory Versioned_Store
  imports Prog
begin

section \<open>Tables with versioned rows\<close>

text \<open>
  Several components share one concurrency discipline: a row carries a version, every writer adds one
  to it and updates the row only where the version is the one it read. \<open>evolves\<close> is what such a table
  promises to everybody who looks at it: a row, once there, stays; it is either unchanged or has a
  larger version and is a permitted successor. The locale proves, for any table that keeps its rows
  apart, that equal versions mean equal rows and that a guarded update is a step of \<open>evolves\<close>.

  The list tables at the end are what the stores of the model use: a list of rows, found by a key.
\<close>

definition evolves ::
    "('s \<Rightarrow> 'k \<Rightarrow> 'r option) \<Rightarrow> ('r \<Rightarrow> nat) \<Rightarrow> ('r \<Rightarrow> 'r \<Rightarrow> bool) \<Rightarrow> 's \<Rightarrow> 's \<Rightarrow> bool" where
  "evolves row version may_become s t \<longleftrightarrow>
     (\<forall>k r. row s k = Some r \<longrightarrow>
        (\<exists>q. row t k = Some q \<and> (q = r \<or> (version r < version q \<and> may_become r q))))"

locale versioned_store =
  fixes row :: "'s \<Rightarrow> 'k \<Rightarrow> 'r option"
    and version :: "'r \<Rightarrow> nat"
    and may_become :: "'r \<Rightarrow> 'r \<Rightarrow> bool"
  assumes may_become_trans: "may_become a b \<Longrightarrow> may_become b c \<Longrightarrow> may_become a c"
begin

lemma evolves_refl: "evolves row version may_become s s"
  by (auto simp: evolves_def)

lemma evolves_reflp: "reflp (evolves row version may_become)"
  using evolves_refl by (rule reflpI)

lemma evolves_trans:
  assumes "evolves row version may_become s t" and "evolves row version may_become t u"
  shows "evolves row version may_become s u"
  unfolding evolves_def
proof (intro allI impI)
  fix k r
  assume "row s k = Some r"
  with assms(1) obtain q where q: "row t k = Some q" "q = r \<or> (version r < version q \<and> may_become r q)"
    unfolding evolves_def by blast
  with assms(2) obtain p where p: "row u k = Some p" "p = q \<or> (version q < version p \<and> may_become q p)"
    unfolding evolves_def by blast
  have "p = r \<or> (version r < version p \<and> may_become r p)"
    using q(2) p(2) may_become_trans by (metis less_trans)
  with p(1) show "\<exists>q. row u k = Some q \<and> (q = r \<or> version r < version q \<and> may_become r q)" by blast
qed

lemma evolves_transp: "transp (evolves row version may_become)"
  using evolves_trans by (rule transpI)

lemma evolves_row:
  assumes "evolves row version may_become s t" "row s k = Some r"
  obtains q where "row t k = Some q" "q = r \<or> version r < version q \<and> may_become r q"
  using assms unfolding evolves_def by blast

lemma same_version:
  "evolves row version may_become s t \<Longrightarrow> row s k = Some r \<Longrightarrow> row t k = Some q \<Longrightarrow>
   version q = version r \<Longrightarrow> q = r"
  unfolding evolves_def by fastforce

lemma evolves_version_le:
  "evolves row version may_become s t \<Longrightarrow> row s k = Some r \<Longrightarrow> row t k = Some q \<Longrightarrow> version r \<le> version q"
  unfolding evolves_def by fastforce

text \<open>A property that permitted successors keep is kept for good.\<close>

lemma stable_property:
  assumes "evolves row version may_become s t" and "row s k = Some r" and "P r"
    and "\<And>a b. may_become a b \<Longrightarrow> P a \<Longrightarrow> P b"
  shows "\<exists>q. row t k = Some q \<and> P q"
  using assms unfolding evolves_def by metis

text \<open>A row without permitted successors is final.\<close>

lemma final_row:
  assumes "evolves row version may_become s t" and "row s k = Some r" and "\<And>q. \<not> may_become r q"
  shows "row t k = Some r"
  using assms unfolding evolves_def by metis

lemma evolves_same_rows: "row t = row s \<Longrightarrow> evolves row version may_become s t"
  by (simp add: evolves_def)

lemma evolves_insert:
  "row s k = None \<Longrightarrow> row t = (row s)(k \<mapsto> r) \<Longrightarrow> evolves row version may_become s t"
  by (auto simp: evolves_def)

text \<open>The guarded update: where the row is the one that was read, its successor is written.\<close>

lemma evolves_update:
  assumes "row t = (row s)(k := map_option (\<lambda>r. if hits r then upd r else r) (row s k))"
    and "\<And>r. row s k = Some r \<Longrightarrow> hits r \<Longrightarrow> version r < version (upd r) \<and> may_become r (upd r)"
  shows "evolves row version may_become s t"
  using assms by (auto simp: evolves_def)

text \<open>
  Compare and set after a read: the row was \<open>r\<close> at some earlier state, the update hits only the
  version of \<open>r\<close>, hence it hits only \<open>r\<close> itself.
\<close>

lemma evolves_cas:
  assumes "evolves row version may_become s0 s" and "row s0 k = Some r"
    and "row t = (row s)(k := map_option (\<lambda>q. if hits q then upd q else q) (row s k))"
    and "\<And>q. hits q \<Longrightarrow> version q = version r"
    and "version r < version (upd r)" and "may_become r (upd r)"
  shows "evolves row version may_become s t"
proof (rule evolves_update [OF assms(3)])
  fix q
  assume "row s k = Some q" "hits q"
  then have "q = r" using same_version [OF assms(1,2)] assms(4) by blast
  then show "version q < version (upd q) \<and> may_become q (upd q)" using assms(5,6) by simp
qed

end

subsection \<open>Tables whose rows may be purged\<close>

text \<open>
  A table that also deletes rows promises less: a row may disappear, but its key is never used again
  (keys are drawn in increasing order and \<open>invar\<close> bounds those in use), so that what is found under an old
  key is still the old row or a permitted successor of it. \<open>invar\<close> is whatever else all writers keep.
\<close>

definition persists ::
    "('s \<Rightarrow> nat \<Rightarrow> 'r option) \<Rightarrow> ('r \<Rightarrow> nat) \<Rightarrow> ('r \<Rightarrow> 'r \<Rightarrow> bool) \<Rightarrow> ('s \<Rightarrow> nat) \<Rightarrow> ('s \<Rightarrow> bool) \<Rightarrow> 's \<Rightarrow> 's \<Rightarrow> bool" where
  "persists row version may_become next_key invar s t \<longleftrightarrow>
     (invar s \<longrightarrow> invar t \<and> next_key s \<le> next_key t \<and>
        (\<forall>k q. k < next_key s \<longrightarrow> row t k = Some q \<longrightarrow>
           (\<exists>r. row s k = Some r \<and> (q = r \<or> version r < version q \<and> may_become r q))))"

locale purging_store = versioned_store row version may_become
  for row :: "'s \<Rightarrow> nat \<Rightarrow> 'r option"
    and version :: "'r \<Rightarrow> nat"
    and may_become :: "'r \<Rightarrow> 'r \<Rightarrow> bool" +
  fixes next_key :: "'s \<Rightarrow> nat"
    and invar :: "'s \<Rightarrow> bool"
  assumes bounded: "invar s \<Longrightarrow> row s k = Some r \<Longrightarrow> k < next_key s"
begin

lemma persists_refl: "persists row version may_become next_key invar s s"
  by (auto simp: persists_def)

lemma persists_reflp: "reflp (persists row version may_become next_key invar)"
  using persists_refl by (rule reflpI)

lemma persists_trans:
  assumes st: "persists row version may_become next_key invar s t"
    and tu: "persists row version may_become next_key invar t u"
  shows "persists row version may_become next_key invar s u"
  unfolding persists_def
proof (intro impI conjI allI)
  assume "invar s"
  with st have t: "invar t" "next_key s \<le> next_key t" by (simp_all add: persists_def)
  with tu show "invar u" "next_key s \<le> next_key u" by (auto simp: persists_def)
  fix k p
  assume k: "k < next_key s" and p: "row u k = Some p"
  from t k have "k < next_key t" by simp
  with tu t(1) p obtain q where q: "row t k = Some q" "p = q \<or> version q < version p \<and> may_become q p"
    unfolding persists_def by blast
  with st \<open>invar s\<close> k obtain r where r: "row s k = Some r" "q = r \<or> version r < version q \<and> may_become r q"
    unfolding persists_def by blast
  have "p = r \<or> version r < version p \<and> may_become r p"
    using q(2) r(2) may_become_trans by (metis less_trans)
  with r(1) show "\<exists>r. row s k = Some r \<and> (p = r \<or> version r < version p \<and> may_become r p)" by blast
qed

lemma persists_transp: "transp (persists row version may_become next_key invar)"
  using persists_trans by (rule transpI)

lemma persists_inv: "persists row version may_become next_key invar s t \<Longrightarrow> invar s \<Longrightarrow> invar t"
  by (simp add: persists_def)

text \<open>What is found later under the key of a row.\<close>

lemma persists_row:
  assumes "persists row version may_become next_key invar s t" and "invar s"
    and "row s k = Some r" and "row t k = Some q"
  shows "q = r \<or> version r < version q \<and> may_become r q"
  using assms bounded [OF assms(2,3)] unfolding persists_def by fastforce

lemma persists_same_version:
  assumes "persists row version may_become next_key invar s t" and "invar s"
    and "row s k = Some r" and "row t k = Some q" and "version q = version r"
  shows "q = r"
  using persists_row [OF assms(1-4)] assms(5) by auto

lemma persists_final:
  assumes "persists row version may_become next_key invar s t" and "invar s"
    and "row s k = Some r" and "\<And>q. \<not> may_become r q"
  shows "row t k = None \<or> row t k = Some r"
proof (cases "row t k")
  case (Some q)
  with persists_row [OF assms(1-3) Some] assms(4) show ?thesis by auto
qed simp

lemma persists_step:
  assumes "invar s \<Longrightarrow> invar t" and "next_key s \<le> next_key t"
    and "\<And>k q. invar s \<Longrightarrow> k < next_key s \<Longrightarrow> row t k = Some q \<Longrightarrow>
      \<exists>r. row s k = Some r \<and> (q = r \<or> version r < version q \<and> may_become r q)"
  shows "persists row version may_become next_key invar s t"
  using assms by (simp add: persists_def)

end

subsection \<open>List tables\<close>

definition table_get :: "('r \<Rightarrow> 'k) \<Rightarrow> 'r list \<Rightarrow> 'k \<Rightarrow> 'r option" where
  "table_get key rows k = find (\<lambda>r. key r = k) rows"

definition table_update :: "('r \<Rightarrow> 'k) \<Rightarrow> 'k \<Rightarrow> ('r \<Rightarrow> bool) \<Rightarrow> ('r \<Rightarrow> 'r) \<Rightarrow> 'r list \<Rightarrow> 'r list" where
  "table_update key k hits upd rows = map (\<lambda>r. if key r = k \<and> hits r then upd r else r) rows"

lemma table_get_Some: "table_get key rows k = Some r \<Longrightarrow> r \<in> set rows \<and> key r = k"
  by (auto simp: table_get_def find_Some_iff)

lemma table_get_None: "table_get key rows k = None \<longleftrightarrow> k \<notin> key ` set rows"
  by (auto simp: table_get_def find_None_iff)

lemma table_get_append:
  "table_get key (rows @ [r]) k = (case table_get key rows k of
     Some q \<Rightarrow> Some q | None \<Rightarrow> if key r = k then Some r else None)"
  by (induction rows) (auto simp: table_get_def)

lemma table_get_update:
  assumes "\<And>r. key (upd r) = key r"
  shows "table_get key (table_update key k hits upd rows) k' =
    (if k' = k then map_option (\<lambda>r. if hits r then upd r else r) (table_get key rows k)
     else table_get key rows k')"
  using assms by (induction rows) (auto simp: table_get_def table_update_def)

lemma table_get_unique:
  "distinct (map key rows) \<Longrightarrow> r \<in> set rows \<Longrightarrow> table_get key rows (key r) = Some r"
  unfolding table_get_def by (rule find_unique)

lemma table_update_keys: "(\<And>r. key (upd r) = key r) \<Longrightarrow> map key (table_update key k hits upd rows) = map key rows"
  by (simp add: table_update_def)

end
