(* ===== verification/Wf_Store.thy ===== *)
theory Wf_Store
  imports Wf_Traversal Wf_Retry Versioned_Store
begin

section \<open>The workflow store\<close>

text \<open>
  \<open>providers/postgres.py\<close>: definitions, runs and node executions as tables, each store method as an
  operation on the state. \<open>append_node_execution\<close> only flushes: what it writes is visible to its own
  session and becomes durable with the next \<open>checkpoint_run\<close> (\<open>w_flushed\<close> is the open transaction of
  the session at hand). \<open>checkpoint_run\<close> is one guarded UPDATE and a commit; recording an approval
  decision is a read and then one transaction. A state also holds the clock, the next fresh UUID, the
  number of node calls made, the scheduler of concurrent branches and what a process keeps of its
  background tasks (active run ids, deferred schedules, tasks created). Where SQL leaves the order of
  equal keys open, the model takes the order of insertion.
\<close>

datatype wf_exn =
    WorkflowNotFound string
  | WorkflowValidation string
  | WorkflowConcurrentUpdate
  | WorkflowDecisionConflict string
  | WorkflowApprovalCasMiss wf_execution
  | WorkflowNodeExecution string "string option"
  | WorkflowUnexpected string
  | OutOfFuel

record approval_revision =
  av_approval_id :: uuid
  av_revision_number :: nat
  av_edited_by :: uuid
  av_edited_at :: datetime
  av_edited_payload :: "pyval dict"
  av_note :: "string option"

record wf_world =
  w_defs :: "wf_definition list"
  w_runs :: "wf_run list"
  w_execs :: "wf_execution list"
  w_flushed :: "wf_execution list"
  w_revisions :: "approval_revision list"
  w_now :: datetime
  w_next_uuid :: uuid
  w_calls :: nat
  w_tick :: nat
  w_sched :: "nat \<Rightarrow> bool"
  w_active :: "uuid list"
  w_deferred :: "(uuid \<times> uuid) list"
  w_tasks :: "(uuid \<times> uuid) list"

type_synonym 'a wf_prog = "(wf_world, wf_exn + 'a) prog"

definition utcnow :: "datetime wf_prog" where
  "utcnow = bindP (readP w_now) ok"

definition uuid4 :: "uuid wf_prog" where
  "uuid4 = opP (\<lambda>w. (w\<lparr>w_next_uuid := Suc (w_next_uuid w)\<rparr>, Inr (w_next_uuid w)))"

subsection \<open>Definitions\<close>

definition owned_definition :: "wf_world \<Rightarrow> uuid \<Rightarrow> uuid \<Rightarrow> wf_definition option" where
  "owned_definition w definition_id owner_id =
     find (\<lambda>d. wd_id d = definition_id \<and> wd_owner_id d = owner_id) (w_defs w)"

definition store_create_definition :: "wf_definition \<Rightarrow> wf_world \<Rightarrow> wf_world \<times> (wf_exn + wf_definition)" where
  "store_create_definition d w = (w\<lparr>w_defs := w_defs w @ [d]\<rparr>, Inr d)"

definition count_definition_runs :: "wf_definition \<Rightarrow> wf_world \<Rightarrow> nat" where
  "count_definition_runs d w =
     length (filter (\<lambda>r. wr_definition_id r = wd_id d \<and> wr_owner_id r = wd_owner_id d) (w_runs w))"

text \<open>The columns an update writes; \<open>id\<close>, \<open>owner_id\<close>, \<open>version\<close> and \<open>created_at\<close> stay.\<close>

definition definition_values :: "wf_definition \<Rightarrow> wf_definition \<Rightarrow> wf_definition" where
  "definition_values d row = row\<lparr>wd_name := wd_name d, wd_description := wd_description d,
     wd_status := wd_status d, wd_entry_node_id := wd_entry_node_id d, wd_nodes := wd_nodes d,
     wd_edges := wd_edges d, wd_metadata := wd_metadata d, wd_updated_at := wd_updated_at d\<rparr>"

definition store_update_definition ::
    "wf_definition \<Rightarrow> nat option \<Rightarrow> bool \<Rightarrow> wf_world \<Rightarrow> wf_world \<times> (wf_exn + wf_definition)" where
  "store_update_definition d expected_version require_no_runs w =
     (let owned = (\<lambda>row. wd_owner_id row = wd_owner_id d);
          hits = (\<lambda>row. owned row \<and> (\<forall>v. expected_version = Some v \<longrightarrow> wd_version row = v)) in
      if expected_version \<noteq> None \<and> require_no_runs \<and> count_definition_runs d w \<noteq> 0
      then (w, Inl (WorkflowValidation (''Workflow definition has runs and cannot be updated in place; ''
              @ ''create a new version instead.'')))
      else (case find (\<lambda>row. wd_id row = wd_id d \<and> hits row) (w_defs w) of
              None \<Rightarrow> (w, Inl (if expected_version \<noteq> None
                then WorkflowValidation ''Workflow definition was modified concurrently; retry the update.''
                else WorkflowNotFound ''Workflow definition not found.''))
            | Some row \<Rightarrow>
                (w\<lparr>w_defs := table_update wd_id (wd_id d) hits (definition_values d) (w_defs w)\<rparr>,
                 Inr (definition_values d row))))"

definition page :: "nat option \<Rightarrow> nat \<Rightarrow> 'a list \<Rightarrow> 'a list" where
  "page limit offset xs = (case limit of None \<Rightarrow> xs | Some l \<Rightarrow> take l (drop offset xs))"

definition status_matches :: "'s option \<Rightarrow> 's \<Rightarrow> bool" where
  "status_matches wanted actual \<longleftrightarrow> (\<forall>s. wanted = Some s \<longrightarrow> actual = s)"

definition list_definitions ::
    "wf_world \<Rightarrow> uuid \<Rightarrow> definition_status option \<Rightarrow> nat option \<Rightarrow> nat \<Rightarrow> wf_definition list" where
  "list_definitions w owner_id status limit offset =
     page limit offset
       (sort_key wd_name (sort_key (\<lambda>d. - int (wd_version d))
         (filter (\<lambda>d. wd_owner_id d = owner_id \<and> status_matches status (wd_status d)) (w_defs w))))"

definition count_definitions :: "wf_world \<Rightarrow> uuid \<Rightarrow> definition_status option \<Rightarrow> nat" where
  "count_definitions w owner_id status =
     length (filter (\<lambda>d. wd_owner_id d = owner_id \<and> status_matches status (wd_status d)) (w_defs w))"

subsection \<open>Runs\<close>

definition run_row :: "wf_world \<Rightarrow> uuid \<Rightarrow> wf_run option" where
  "run_row w run_id = table_get wr_id (w_runs w) run_id"

definition owned_run :: "wf_world \<Rightarrow> uuid \<Rightarrow> uuid \<Rightarrow> wf_run option" where
  "owned_run w run_id owner_id =
     (case run_row w run_id of
        Some run \<Rightarrow> if wr_owner_id run = owner_id then Some run else None
      | None \<Rightarrow> None)"

definition run_by_key :: "wf_world \<Rightarrow> uuid \<Rightarrow> uuid \<Rightarrow> string \<Rightarrow> wf_run option" where
  "run_by_key w owner_id definition_id key =
     find (\<lambda>r. wr_owner_id r = owner_id \<and> wr_definition_id r = definition_id \<and>
               wr_idempotency_key r = key) (w_runs w)"

text \<open>\<open>INSERT .. ON CONFLICT DO NOTHING RETURNING id\<close> and the commit.\<close>

definition insert_run :: "wf_run \<Rightarrow> wf_world \<Rightarrow> wf_world \<times> uuid option" where
  "insert_run run w =
     (case run_by_key w (wr_owner_id run) (wr_definition_id run) (wr_idempotency_key run) of
        Some _ \<Rightarrow> (w, None)
      | None \<Rightarrow> (w\<lparr>w_runs := w_runs w @ [run]\<rparr>, Some (wr_id run)))"

definition get_or_create_run :: "wf_run \<Rightarrow> (wf_run \<times> bool) wf_prog" where
  "get_or_create_run run =
     bindP (opP (insert_run run)) (\<lambda>inserted.
       (case inserted of
          Some run_id \<Rightarrow>
            bindP (readP (\<lambda>w. run_row w run_id)) (\<lambda>persisted.
              (case persisted of
                 None \<Rightarrow> raise (WorkflowValidation ''Workflow run insert succeeded but row was not found.'')
               | Some row \<Rightarrow> ok (row, True)))
        | None \<Rightarrow>
            bindP (readP (\<lambda>w. run_by_key w (wr_owner_id run) (wr_definition_id run) (wr_idempotency_key run)))
              (\<lambda>existing.
                (case existing of
                   None \<Rightarrow> raise (WorkflowValidation
                     ''Workflow run idempotency conflict without an existing row.'')
                 | Some row \<Rightarrow> ok (row, False)))))"

definition get_run :: "uuid \<Rightarrow> uuid \<Rightarrow> wf_run option wf_prog" where
  "get_run run_id owner_id = bindP (readP (\<lambda>w. owned_run w run_id owner_id)) ok"

definition list_runs ::
    "wf_world \<Rightarrow> uuid \<Rightarrow> uuid option \<Rightarrow> run_status option \<Rightarrow> nat option \<Rightarrow> nat \<Rightarrow> wf_run list" where
  "list_runs w owner_id definition_id status limit offset =
     page limit offset (sort_key (\<lambda>r. - wr_created_at r)
       (filter (\<lambda>r. wr_owner_id r = owner_id \<and> status_matches definition_id (wr_definition_id r) \<and>
                    status_matches status (wr_status r)) (w_runs w)))"

definition count_runs :: "wf_world \<Rightarrow> uuid \<Rightarrow> uuid option \<Rightarrow> run_status option \<Rightarrow> nat" where
  "count_runs w owner_id definition_id status =
     length (filter (\<lambda>r. wr_owner_id r = owner_id \<and> status_matches definition_id (wr_definition_id r) \<and>
                         status_matches status (wr_status r)) (w_runs w))"

definition list_runs_by_status :: "wf_world \<Rightarrow> run_status \<Rightarrow> wf_run list" where
  "list_runs_by_status w status =
     sort_key (\<lambda>r. - wr_created_at r) (filter (\<lambda>r. wr_status r = status) (w_runs w))"

subsection \<open>Node executions and checkpoints\<close>

definition execution_key :: "wf_execution \<Rightarrow> uuid \<times> string \<times> nat" where
  "execution_key e = (wx_run_id e, wx_node_id e, wx_attempt e)"

definition upsert_execution :: "wf_execution list \<Rightarrow> wf_execution \<Rightarrow> wf_execution list" where
  "upsert_execution es e =
     (if execution_key e \<in> execution_key ` set es
      then map (\<lambda>x. if execution_key x = execution_key e then e else x) es
      else es @ [e])"

definition visible_executions :: "wf_world \<Rightarrow> wf_execution list" where
  "visible_executions w = foldl upsert_execution (w_execs w) (w_flushed w)"

definition run_executions :: "wf_world \<Rightarrow> uuid \<Rightarrow> wf_execution list" where
  "run_executions w run_id =
     (let es = sort_key wx_attempt (filter (\<lambda>e. wx_run_id e = run_id) (visible_executions w)) in
      sort_key (\<lambda>e. the (wx_started_at e)) (filter (\<lambda>e. wx_started_at e \<noteq> None) es)
      @ filter (\<lambda>e. wx_started_at e = None) es)"

definition get_run_with_executions :: "uuid \<Rightarrow> uuid \<Rightarrow> (wf_run \<times> wf_execution list) option wf_prog" where
  "get_run_with_executions run_id owner_id =
     bindP (readP (\<lambda>w. owned_run w run_id owner_id)) (\<lambda>run.
       (case run of
          None \<Rightarrow> ok None
        | Some r \<Rightarrow> bindP (readP (\<lambda>w. run_executions w run_id)) (\<lambda>es. ok (Some (r, es)))))"

definition apply_node_execution_updates :: "wf_execution \<Rightarrow> wf_execution \<Rightarrow> wf_execution" where
  "apply_node_execution_updates row e = row\<lparr>wx_status := wx_status e, wx_input := wx_input e,
     wx_output := wx_output e, wx_error := wx_error e, wx_decided_by := wx_decided_by e,
     wx_decided_at := wx_decided_at e, wx_decision := wx_decision e,
     wx_edited_arguments := wx_edited_arguments e, wx_reason := wx_reason e,
     wx_started_at := wx_started_at e, wx_completed_at := wx_completed_at e\<rparr>"

definition flush_execution :: "wf_execution \<Rightarrow> wf_world \<Rightarrow> wf_world \<times> (wf_exn + wf_execution)" where
  "flush_execution e w =
     (let row = (case find (\<lambda>x. execution_key x = execution_key e) (visible_executions w) of
                   None \<Rightarrow> e | Some existing \<Rightarrow> apply_node_execution_updates existing e) in
      (w\<lparr>w_flushed := w_flushed w @ [row]\<rparr>, Inr row))"

definition append_node_execution :: "wf_execution \<Rightarrow> wf_execution wf_prog" where
  "append_node_execution e = opP (flush_execution e)"

definition commit :: "wf_world \<Rightarrow> wf_world" where
  "commit w = w\<lparr>w_execs := visible_executions w, w_flushed := []\<rparr>"

definition rollback :: "wf_world \<Rightarrow> wf_world" where
  "rollback w = w\<lparr>w_flushed := []\<rparr>"

definition run_values :: "wf_run \<Rightarrow> wf_run \<Rightarrow> wf_run" where
  "run_values run row = row\<lparr>wr_status := wr_status run, wr_context := wr_context run,
     wr_current_node_ids := wr_current_node_ids run, wr_checkpoint_version := wr_checkpoint_version run,
     wr_error := wr_error run, wr_updated_at := wr_updated_at run, wr_started_at := wr_started_at run,
     wr_completed_at := wr_completed_at run\<rparr>"

definition checkpoint_hits :: "wf_run \<Rightarrow> nat \<Rightarrow> wf_run \<Rightarrow> bool" where
  "checkpoint_hits run expected row \<longleftrightarrow>
     wr_owner_id row = wr_owner_id run \<and> wr_checkpoint_version row = expected"

definition checkpoint_update :: "wf_run \<Rightarrow> nat \<Rightarrow> wf_world \<Rightarrow> wf_world \<times> (wf_exn + wf_run)" where
  "checkpoint_update run expected w =
     (case run_row w (wr_id run) of
        Some row \<Rightarrow>
          (if checkpoint_hits run expected row
           then (commit (w\<lparr>w_runs := table_update wr_id (wr_id run) (checkpoint_hits run expected)
                             (run_values run) (w_runs w)\<rparr>),
                 Inr (run_values run row))
           else (w, Inl WorkflowConcurrentUpdate))
      | None \<Rightarrow> (w, Inl WorkflowConcurrentUpdate))"

definition checkpoint_run :: "wf_run \<Rightarrow> nat \<Rightarrow> wf_run wf_prog" where
  "checkpoint_run run expected = opP (checkpoint_update run expected)"

subsection \<open>Approval decisions\<close>

definition execution_by_id :: "wf_world \<Rightarrow> uuid \<Rightarrow> wf_execution option" where
  "execution_by_id w execution_id = find (\<lambda>e. wx_id e = execution_id) (visible_executions w)"

definition owned_execution :: "wf_world \<Rightarrow> uuid \<Rightarrow> uuid \<Rightarrow> wf_execution option" where
  "owned_execution w execution_id owner_id =
     (case execution_by_id w execution_id of
        None \<Rightarrow> None
      | Some e \<Rightarrow> if owned_run w (wx_run_id e) owner_id = None then None else Some e)"

text \<open>The two UPDATEs, the revision and the commit of \<open>record_approval_decision\<close> as one transaction.\<close>

definition decision_values ::
    "approval_decision \<Rightarrow> uuid \<Rightarrow> node_status \<Rightarrow> pyval dict option \<Rightarrow> string option \<Rightarrow> datetime \<Rightarrow>
     wf_execution \<Rightarrow> wf_execution" where
  "decision_values decision decided_by node_status edited_arguments reason now e =
     e\<lparr>wx_status := node_status, wx_decision := Some decision, wx_decided_by := Some decided_by,
       wx_decided_at := Some now, wx_completed_at := Some now, wx_reason := reason,
       wx_edited_arguments := (case edited_arguments of None \<Rightarrow> wx_edited_arguments e | Some a \<Rightarrow> Some a)\<rparr>"

definition next_revision_number :: "wf_world \<Rightarrow> uuid \<Rightarrow> nat" where
  "next_revision_number w approval_id =
     foldr max (map av_revision_number (filter (\<lambda>v. av_approval_id v = approval_id) (w_revisions w))) 0 + 1"

definition append_revision ::
    "uuid \<Rightarrow> uuid \<Rightarrow> pyval dict option \<Rightarrow> string option \<Rightarrow> wf_world \<Rightarrow> wf_world" where
  "append_revision execution_id edited_by edited_arguments note w =
     (case edited_arguments of
        None \<Rightarrow> w
      | Some args \<Rightarrow> w\<lparr>w_revisions := w_revisions w @
          [\<lparr>av_approval_id = execution_id, av_revision_number = next_revision_number w execution_id,
            av_edited_by = edited_by, av_edited_at = w_now w, av_edited_payload = args, av_note = note\<rparr>]\<rparr>)"

text \<open>This UPDATE does not write \<open>started_at\<close>.\<close>

definition decision_run_values :: "wf_run \<Rightarrow> wf_run \<Rightarrow> wf_run" where
  "decision_run_values run row = row\<lparr>wr_status := wr_status run, wr_context := wr_context run,
     wr_current_node_ids := wr_current_node_ids run, wr_checkpoint_version := wr_checkpoint_version run,
     wr_error := wr_error run, wr_updated_at := wr_updated_at run, wr_completed_at := wr_completed_at run\<rparr>"

definition decision_hits :: "wf_run \<Rightarrow> uuid \<Rightarrow> wf_run \<Rightarrow> bool" where
  "decision_hits run owner_id row \<longleftrightarrow> wr_owner_id row = owner_id \<and> wr_status row = RunWaitingApproval \<and>
     int (wr_checkpoint_version row) = int (wr_checkpoint_version run) - 1"

definition decision_transaction ::
    "uuid \<Rightarrow> uuid \<Rightarrow> approval_decision \<Rightarrow> uuid \<Rightarrow> node_status \<Rightarrow> wf_run \<Rightarrow> pyval dict option \<Rightarrow>
     string option \<Rightarrow> wf_world \<Rightarrow> wf_world \<times> (wf_exn + wf_execution)" where
  "decision_transaction execution_id owner_id decision decided_by node_status run edited_arguments reason w =
     (case execution_by_id w execution_id of
        None \<Rightarrow> (w, Inl (WorkflowNotFound ''Workflow node execution not found.''))
      | Some e \<Rightarrow>
          if wx_status e \<noteq> NodeWaitingApproval then (w, Inl (WorkflowApprovalCasMiss e))
          else
           (let e' = decision_values decision decided_by node_status edited_arguments reason (w_now w) e;
                w1 = append_revision execution_id decided_by edited_arguments reason
                       (w\<lparr>w_flushed := w_flushed w @ [e']\<rparr>) in
            (case run_row w (wr_id run) of
               Some row \<Rightarrow>
                 (if decision_hits run owner_id row
                  then (commit (w1\<lparr>w_runs := table_update wr_id (wr_id run) (decision_hits run owner_id)
                                      (decision_run_values run) (w_runs w)\<rparr>), Inr e')
                  else (rollback w, Inl WorkflowConcurrentUpdate))
             | None \<Rightarrow> (rollback w, Inl WorkflowConcurrentUpdate))))"

definition record_approval_decision ::
    "uuid \<Rightarrow> uuid \<Rightarrow> approval_decision \<Rightarrow> uuid \<Rightarrow> node_status \<Rightarrow> wf_run \<Rightarrow> pyval dict option \<Rightarrow>
     string option \<Rightarrow> wf_execution wf_prog" where
  "record_approval_decision execution_id owner_id decision decided_by node_status run edited_arguments reason =
     bindP (readP (\<lambda>w. owned_execution w execution_id owner_id)) (\<lambda>existing.
       (case existing of
          None \<Rightarrow> raise (WorkflowNotFound ''Workflow node execution not found.'')
        | Some e \<Rightarrow>
            if wx_status e \<noteq> NodeWaitingApproval then raise (WorkflowApprovalCasMiss e)
            else if wx_run_id e \<noteq> wr_id run then raise (WorkflowValidation
              ''Workflow node execution does not belong to the supplied run.'')
            else opP (decision_transaction execution_id owner_id decision decided_by node_status run
                        edited_arguments reason)))"

definition list_stale_waiting_approval_executions ::
    "wf_world \<Rightarrow> int \<Rightarrow> (wf_execution \<times> uuid \<times> uuid) list" where
  "list_stale_waiting_approval_executions w timeout_hours =
     (if timeout_hours \<le> 0 then []
      else (let cutoff = w_now w - timeout_hours * 3600000000 in
        concat (map (\<lambda>e. case run_row w (wx_run_id e) of
            None \<Rightarrow> []
          | Some run \<Rightarrow>
              if wx_node_type e = Approval \<and> wx_status e = NodeWaitingApproval \<and> wx_decision e = None \<and>
                 (\<exists>t. wx_started_at e = Some t \<and> t < cutoff)
              then [(e, wr_id run, wr_owner_id run)] else []) (visible_executions w))))"

end
