(* ===== verification/Wf_Executor.thy ===== *)
theory Wf_Executor
  imports Wf_Store
begin

section \<open>The workflow executor\<close>

text \<open>
  \<open>engine/executor.py\<close>: the step loop that drives a run, as programs over the store (each store call,
  clock reading, UUID and node call is one atomic action). Node executors are the field
  \<open>ec_executors\<close>: what the n-th call of an executor did (output, node error, timeout, other exception).
  The bounded loops of the code are recursions on their bound (25 checkpoint attempts, the retries a
  node has left); the \<open>while\<close> loop of \<open>execute_run\<close> has fuel and raises \<open>OutOfFuel\<close> without it.
  Logging, spans, metrics and the sleep between retries have no effect on the state.
\<close>

datatype node_outcome =
    NodeOutput "pyval dict"
  | NodeRaises string "string option"
  | NodeTimesOut
  | NodeCrashes

type_synonym node_executor = "nat \<Rightarrow> wf_node \<Rightarrow> wf_context \<Rightarrow> node_request \<Rightarrow> node_outcome"

record exec_config =
  ec_executors :: "node_type \<Rightarrow> node_executor option"
  ec_retry_settings :: "retry_settings option"
  ec_tool_registry :: "tool_registry option"
  ec_max_run_duration_minutes :: int
  ec_uuid_str :: "uuid \<Rightarrow> string"
  ec_isoformat :: "datetime \<Rightarrow> string"

definition max_checkpoint_retries :: nat where
  "max_checkpoint_retries = 25"

text \<open>The constructor adds the no-op executor for terminal nodes when there is none.\<close>

definition terminal_executor :: node_executor where
  "terminal_executor n node ctx request = NodeOutput []"

definition executor_for :: "exec_config \<Rightarrow> node_type \<Rightarrow> node_executor option" where
  "executor_for cfg t =
     (case ec_executors cfg t of
        Some e \<Rightarrow> Some e
      | None \<Rightarrow> if t = Terminal then Some terminal_executor else None)"

definition outcome_of :: "node_exn + pyval dict \<Rightarrow> node_outcome" where
  "outcome_of r = (case r of
     Inr out \<Rightarrow> NodeOutput out
   | Inl (NodeExecutionError msg code) \<Rightarrow> NodeRaises msg code
   | Inl (UnexpectedError _) \<Rightarrow> NodeCrashes)"

text \<open>The executors of the node modules, on a platform whose n-th call is \<open>pf n\<close>.\<close>

fun standard_executors :: "(nat \<Rightarrow> platform) \<Rightarrow> nat \<Rightarrow> node_type \<Rightarrow> node_executor option" where
  "standard_executors pf max_branches Task = Some (\<lambda>n node ctx req. outcome_of (task_execute (pf n) node ctx req))"
| "standard_executors pf max_branches Llm = Some (\<lambda>n node ctx req. outcome_of (llm_execute (pf n) node ctx req))"
| "standard_executors pf max_branches Agent = Some (\<lambda>n node ctx req. outcome_of (agent_execute (pf n) node ctx req))"
| "standard_executors pf max_branches Router = Some (\<lambda>n node ctx req. outcome_of (router_execute node ctx req))"
| "standard_executors pf max_branches Fork = Some (\<lambda>n node ctx req. outcome_of (fork_execute max_branches node ctx req))"
| "standard_executors pf max_branches Join = Some (\<lambda>n node ctx req. outcome_of (join_execute node ctx))"
| "standard_executors pf max_branches Approval = Some (\<lambda>n node ctx req. NodeOutput (approval_execute node ctx))"
| "standard_executors pf max_branches _ = None"

subsection \<open>Checkpoints\<close>

definition merge_current_node_ids :: "string list \<Rightarrow> string option \<Rightarrow> string option \<Rightarrow> string list" where
  "merge_current_node_ids current add remove =
     (let added = (case add of None \<Rightarrow> current
                   | Some a \<Rightarrow> if a \<in> set current then current else current @ [a]) in
      case remove of None \<Rightarrow> added | Some r \<Rightarrow> remove1 r added)"

definition skipped_list :: "pyval dict \<Rightarrow> string list" where
  "skipped_list md = (case dict_get md ''skipped_node_ids'' of Some (PList xs) \<Rightarrow> str_items xs | _ \<Rightarrow> [])"

definition merge_context_metadata :: "pyval dict \<Rightarrow> pyval dict \<Rightarrow> pyval dict" where
  "merge_context_metadata fresh incoming =
     (let merged = dict_merge fresh incoming in
      if dict_get fresh ''skipped_node_ids'' = None \<and> dict_get incoming ''skipped_node_ids'' = None
      then merged
      else (let fresh_ids = skipped_list fresh; incoming_ids = skipped_list incoming in
            dict_put ''skipped_node_ids''
              (PList (map PStr (fresh_ids @ filter (\<lambda>i. i \<notin> set fresh_ids) incoming_ids))) merged))"

record run_patch =
  rp_status :: "run_status option"
  rp_error :: "string option"
  rp_current_node_ids :: "string list option"
  rp_completed_at :: "datetime option"
  rp_context :: "wf_context option"
  rp_add_current_node :: "string option"
  rp_remove_current_node :: "string option"

definition no_patch :: run_patch where
  "no_patch = \<lparr>rp_status = None, rp_error = None, rp_current_node_ids = None, rp_completed_at = None,
     rp_context = None, rp_add_current_node = None, rp_remove_current_node = None\<rparr>"

definition apply_patch :: "run_patch \<Rightarrow> datetime \<Rightarrow> wf_run \<Rightarrow> wf_run" where
  "apply_patch patch now fresh =
     fresh\<lparr>wr_status := (case rp_status patch of None \<Rightarrow> wr_status fresh | Some s \<Rightarrow> s),
       wr_error := (case rp_error patch of None \<Rightarrow> wr_error fresh | Some e \<Rightarrow> Some e),
       wr_current_node_ids :=
         (case rp_current_node_ids patch of
            Some ids \<Rightarrow> ids
          | None \<Rightarrow> merge_current_node_ids (wr_current_node_ids fresh) (rp_add_current_node patch)
                      (rp_remove_current_node patch)),
       wr_completed_at := (case rp_completed_at patch of None \<Rightarrow> wr_completed_at fresh | Some t \<Rightarrow> Some t),
       wr_context :=
         (case rp_context patch of
            None \<Rightarrow> wr_context fresh
          | Some incoming \<Rightarrow> (wr_context fresh)
              \<lparr>variables := dict_merge (variables (wr_context fresh)) (variables incoming),
               metadata := merge_context_metadata (metadata (wr_context fresh)) (metadata incoming)\<rparr>),
       wr_updated_at := now,
       wr_checkpoint_version := wr_checkpoint_version fresh + 1\<rparr>"

definition run_not_found :: "exec_config \<Rightarrow> uuid \<Rightarrow> wf_exn" where
  "run_not_found cfg run_id = WorkflowNotFound (''Workflow run '' @ ec_uuid_str cfg run_id @ '' not found.'')"

text \<open>One attempt of a checkpoint: read the run, leave it alone when cancelled, write its successor.\<close>

definition try_checkpoint ::
    "exec_config \<Rightarrow> uuid \<Rightarrow> uuid \<Rightarrow> (datetime \<Rightarrow> wf_run \<Rightarrow> wf_run) \<Rightarrow> wf_run wf_prog \<Rightarrow> wf_run wf_prog" where
  "try_checkpoint cfg run_id owner_id successor again =
     bindE (get_run run_id owner_id) (\<lambda>found.
       (case found of
          None \<Rightarrow> raise (run_not_found cfg run_id)
        | Some fresh \<Rightarrow>
            if wr_status fresh = RunCancelled then ok fresh
            else bindE utcnow (\<lambda>now.
              bindP (checkpoint_run (successor now fresh) (wr_checkpoint_version fresh)) (\<lambda>r.
                (case r of
                   Inl WorkflowConcurrentUpdate \<Rightarrow> again
                 | _ \<Rightarrow> Ret r)))))"

primrec checkpoint_loop ::
    "exec_config \<Rightarrow> uuid \<Rightarrow> uuid \<Rightarrow> (datetime \<Rightarrow> wf_run \<Rightarrow> wf_run) \<Rightarrow> nat \<Rightarrow> wf_run wf_prog" where
  "checkpoint_loop cfg run_id owner_id successor 0 =
     raise (WorkflowValidation ''Workflow run checkpoint merge exceeded retry limit.'')"
| "checkpoint_loop cfg run_id owner_id successor (Suc n) =
     try_checkpoint cfg run_id owner_id successor
       (if n = 0 then raise WorkflowConcurrentUpdate
        else checkpoint_loop cfg run_id owner_id successor n)"

definition checkpoint_with_retry :: "exec_config \<Rightarrow> wf_run \<Rightarrow> run_patch \<Rightarrow> wf_run wf_prog" where
  "checkpoint_with_retry cfg run patch =
     checkpoint_loop cfg (wr_id run) (wr_owner_id run) (apply_patch patch) max_checkpoint_retries"

definition stop_if_cancelled :: "exec_config \<Rightarrow> uuid \<Rightarrow> uuid \<Rightarrow> wf_run option wf_prog" where
  "stop_if_cancelled cfg run_id owner_id =
     bindE (get_run run_id owner_id) (\<lambda>found.
       (case found of
          None \<Rightarrow> raise (run_not_found cfg run_id)
        | Some fresh \<Rightarrow> ok (if wr_status fresh = RunCancelled then Some fresh else None)))"

text \<open>\<open>cancelled = await self._stop_if_cancelled(..); if cancelled is not None: return cancelled\<close>\<close>

definition unless_cancelled :: "exec_config \<Rightarrow> wf_run \<Rightarrow> wf_run wf_prog \<Rightarrow> wf_run wf_prog" where
  "unless_cancelled cfg run p =
     bindE (stop_if_cancelled cfg (wr_id run) (wr_owner_id run)) (\<lambda>cancelled.
       (case cancelled of Some fresh \<Rightarrow> ok fresh | None \<Rightarrow> p))"

definition fail_run_with :: "exec_config \<Rightarrow> wf_run \<Rightarrow> string \<Rightarrow> wf_run wf_prog" where
  "fail_run_with cfg run error =
     bindE utcnow (\<lambda>now. checkpoint_with_retry cfg run
       (no_patch\<lparr>rp_status := Some RunFailed, rp_error := Some error, rp_current_node_ids := Some [],
         rp_completed_at := Some now\<rparr>))"

definition complete_run :: "exec_config \<Rightarrow> wf_run \<Rightarrow> wf_run wf_prog" where
  "complete_run cfg run =
     bindE utcnow (\<lambda>now. checkpoint_with_retry cfg run
       (no_patch\<lparr>rp_status := Some RunCompleted, rp_current_node_ids := Some [],
         rp_completed_at := Some now\<rparr>))"

definition run_exceeded_duration :: "exec_config \<Rightarrow> datetime \<Rightarrow> wf_run \<Rightarrow> bool" where
  "run_exceeded_duration cfg now run =
     (case wr_started_at run of
        None \<Rightarrow> False
      | Some started \<Rightarrow> now - started > ec_max_run_duration_minutes cfg * 60000000)"

definition fail_run_duration :: "exec_config \<Rightarrow> wf_run \<Rightarrow> wf_run wf_prog" where
  "fail_run_duration cfg run =
     fail_run_with cfg run ''Workflow run exceeded the configured duration limit.''"

subsection \<open>Ends of a node attempt\<close>

definition mark_attempt_failed :: "wf_execution \<Rightarrow> string \<Rightarrow> unit wf_prog" where
  "mark_attempt_failed execution error =
     bindE utcnow (\<lambda>now.
       bindE (append_node_execution (execution\<lparr>wx_status := NodeFailed, wx_error := Some error,
                wx_completed_at := Some now\<rparr>)) (\<lambda>_. ok ()))"

definition fail_node :: "exec_config \<Rightarrow> wf_run \<Rightarrow> wf_execution \<Rightarrow> string \<Rightarrow> wf_run wf_prog" where
  "fail_node cfg run execution error =
     unless_cancelled cfg run
       (bindE utcnow (\<lambda>now.
        bindE (append_node_execution (execution\<lparr>wx_status := NodeFailed, wx_error := Some error,
                 wx_completed_at := Some now\<rparr>)) (\<lambda>_.
          checkpoint_with_retry cfg run
            (no_patch\<lparr>rp_status := Some RunFailed, rp_error := Some error, rp_current_node_ids := Some [],
              rp_completed_at := Some now\<rparr>))))"

text \<open>Rows and metadata for the nodes that a decision skips.\<close>

definition skipped_execution :: "uuid \<Rightarrow> wf_run \<Rightarrow> wf_node \<Rightarrow> datetime \<Rightarrow> wf_execution" where
  "skipped_execution i run node now =
     \<lparr>wx_id = i, wx_run_id = wr_id run, wx_node_id = wn_id node, wx_node_type = wn_type node,
      wx_attempt = 1, wx_status = NodeSkipped, wx_input = [], wx_output = None, wx_error = None,
      wx_decided_by = None, wx_decided_at = None, wx_decision = None, wx_edited_arguments = None,
      wx_reason = None, wx_started_at = None, wx_completed_at = Some now\<rparr>"

definition append_skipped :: "wf_definition \<Rightarrow> wf_run \<Rightarrow> datetime \<Rightarrow> string \<Rightarrow> unit wf_prog" where
  "append_skipped d run now node_id =
     (case node_by_id d node_id of
        None \<Rightarrow> ok ()
      | Some node \<Rightarrow>
          bindE uuid4 (\<lambda>i.
          bindE (append_node_execution (skipped_execution i run node now)) (\<lambda>_. ok ())))"

definition with_skipped :: "wf_context \<Rightarrow> string list \<Rightarrow> wf_context" where
  "with_skipped ctx node_ids =
     ctx\<lparr>metadata := dict_put ''skipped_node_ids''
       (PList (map PStr (filter (\<lambda>i. i \<notin> set node_ids) (skipped_list (metadata ctx)) @ node_ids)))
       (metadata ctx)\<rparr>"

definition skip_nodes :: "exec_config \<Rightarrow> wf_definition \<Rightarrow> wf_run \<Rightarrow> string list \<Rightarrow> wf_run wf_prog" where
  "skip_nodes cfg d run node_ids =
     (if node_ids = [] then ok run
      else bindE utcnow (\<lambda>now.
           bindE (forP (append_skipped d run now) node_ids) (\<lambda>_.
             checkpoint_with_retry cfg run
               (no_patch\<lparr>rp_context := Some (with_skipped (wr_context run) node_ids)\<rparr>))))"

definition skip_unselected_branches ::
    "exec_config \<Rightarrow> wf_definition \<Rightarrow> wf_run \<Rightarrow> string \<Rightarrow> string list \<Rightarrow> wf_run wf_prog" where
  "skip_unselected_branches cfg d run router_node_id selected_edge_ids =
     skip_nodes cfg d run (collect_nodes_to_skip d router_node_id selected_edge_ids run)"

definition liftN :: "node_exn + 'a \<Rightarrow> 'a wf_prog" where
  "liftN r = (case r of
     Inr a \<Rightarrow> ok a
   | Inl (NodeExecutionError msg code) \<Rightarrow> raise (WorkflowNodeExecution msg code)
   | Inl (UnexpectedError msg) \<Rightarrow> raise (WorkflowUnexpected msg))"

definition handle_join_completion ::
    "exec_config \<Rightarrow> wf_definition \<Rightarrow> wf_run \<Rightarrow> string \<Rightarrow> wf_run wf_prog" where
  "handle_join_completion cfg d run join_node_id =
     (case node_by_id d join_node_id of
        None \<Rightarrow> ok run
      | Some join_node \<Rightarrow>
          if wn_type join_node \<noteq> Join then ok run
          else bindE (liftN (parse_join_config join_node)) (\<lambda>(join_policy, count, cancel_remaining).
            if join_policy = ''all'' \<or> \<not> cancel_remaining then ok run
            else (case dict_get (wn_config join_node) ''fork_node_id'' of
                    Some (PStr fork_node_id) \<Rightarrow>
                      skip_nodes cfg d run
                        (collect_incomplete_fork_branch_nodes_to_skip d fork_node_id join_node_id run)
                  | _ \<Rightarrow> ok run)))"

definition succeeded_run :: "string \<Rightarrow> pyval dict \<Rightarrow> datetime \<Rightarrow> wf_run \<Rightarrow> wf_run" where
  "succeeded_run node_id output now fresh =
     fresh\<lparr>wr_context := (wr_context fresh)
             \<lparr>variables := dict_put node_id (PDict output) (variables (wr_context fresh))\<rparr>,
           wr_current_node_ids := merge_current_node_ids (wr_current_node_ids fresh) None (Some node_id),
           wr_updated_at := now,
           wr_checkpoint_version := wr_checkpoint_version fresh + 1\<rparr>"

text \<open>
  A cancelled run found inside the loop of \<open>_succeed_node\<close> ends the method; a run written by the loop
  goes on to the router and join handling.
\<close>

definition succeed_node ::
    "exec_config \<Rightarrow> wf_definition \<Rightarrow> wf_run \<Rightarrow> wf_execution \<Rightarrow> pyval dict \<Rightarrow> wf_run wf_prog" where
  "succeed_node cfg d run execution output =
     unless_cancelled cfg run
       (bindE utcnow (\<lambda>now.
        bindE (append_node_execution (execution\<lparr>wx_status := NodeSucceeded, wx_output := Some output,
                 wx_completed_at := Some now\<rparr>)) (\<lambda>_.
        bindE (checkpoint_loop cfg (wr_id run) (wr_owner_id run) (succeeded_run (wx_node_id execution) output)
                 max_checkpoint_retries) (\<lambda>run.
          if wr_status run = RunCancelled then ok run
          else
            bindE (if wx_node_type execution = Router then
                     (case dict_get output ''selected_edge_ids'' of
                        Some (PList selected) \<Rightarrow>
                          skip_unselected_branches cfg d run (wx_node_id execution) (str_items selected)
                      | _ \<Rightarrow> ok run)
                   else ok run) (\<lambda>run.
              if wx_node_type execution = Join
              then handle_join_completion cfg d run (wx_node_id execution) else ok run)))))"

definition pause_for_approval ::
    "exec_config \<Rightarrow> wf_run \<Rightarrow> wf_execution \<Rightarrow> pyval dict \<Rightarrow> wf_run wf_prog" where
  "pause_for_approval cfg run execution output =
     unless_cancelled cfg run
       (bindE utcnow (\<lambda>pause_at.
        bindE (append_node_execution (execution\<lparr>wx_status := NodeWaitingApproval,
                 wx_output := Some (dict_put ''approval_requested_at'' (PStr (ec_isoformat cfg pause_at)) output)\<rparr>))
          (\<lambda>_. checkpoint_with_retry cfg run (no_patch\<lparr>rp_status := Some RunWaitingApproval\<rparr>))))"

definition should_ignore_branch_failure :: "wf_definition \<Rightarrow> wf_run \<Rightarrow> wf_node \<Rightarrow> node_exn + bool" where
  "should_ignore_branch_failure d run node =
     (case find_fork_join_region d (wn_id node) of
        None \<Rightarrow> Inr False
      | Some (_, join_id) \<Rightarrow>
          (case node_by_id d join_id of
             None \<Rightarrow> Inr False
           | Some join_node \<Rightarrow>
               if wn_type join_node \<noteq> Join then Inr False
               else bindR (parse_join_config join_node) (\<lambda>(join_policy, count, cancel_remaining).
                 if join_policy = ''all'' then Inr False else is_join_ready d run join_node)))"

definition existing_skipped :: "pyval dict \<Rightarrow> pyval list" where
  "existing_skipped md = (case dict_get md ''skipped_node_ids'' of Some (PList xs) \<Rightarrow> xs | _ \<Rightarrow> [])"

definition skip_branch_node :: "exec_config \<Rightarrow> wf_run \<Rightarrow> wf_execution \<Rightarrow> string \<Rightarrow> wf_run wf_prog" where
  "skip_branch_node cfg run execution reason =
     bindE utcnow (\<lambda>now.
     bindE (append_node_execution (execution\<lparr>wx_status := NodeSkipped, wx_error := Some reason,
              wx_completed_at := Some now\<rparr>)) (\<lambda>_.
     bindE (checkpoint_with_retry cfg run (no_patch\<lparr>rp_remove_current_node := Some (wx_node_id execution)\<rparr>))
       (\<lambda>run.
         let skipped = existing_skipped (metadata (wr_context run)) in
         if PStr (wx_node_id execution) \<in> set skipped then ok run
         else checkpoint_with_retry cfg run (no_patch\<lparr>rp_context := Some ((wr_context run)
           \<lparr>metadata := dict_put ''skipped_node_ids'' (PList (skipped @ [PStr (wx_node_id execution)]))
              (metadata (wr_context run))\<rparr>)\<rparr>))))"

subsection \<open>Executing a node\<close>

definition pending_execution :: "uuid \<Rightarrow> wf_run \<Rightarrow> wf_node \<Rightarrow> nat \<Rightarrow> string \<Rightarrow> datetime \<Rightarrow> wf_execution" where
  "pending_execution i run node attempt receipt_id now =
     \<lparr>wx_id = i, wx_run_id = wr_id run, wx_node_id = wn_id node, wx_node_type = wn_type node,
      wx_attempt = attempt, wx_status = NodeRunning,
      wx_input = [(''execution_receipt_id'', PStr receipt_id), (''config'', PDict (wn_config node))],
      wx_output = None, wx_error = None, wx_decided_by = None, wx_decided_at = None, wx_decision = None,
      wx_edited_arguments = None, wx_reason = None, wx_started_at = Some now, wx_completed_at = None\<rparr>"

definition call_executor ::
    "node_executor \<Rightarrow> wf_node \<Rightarrow> wf_context \<Rightarrow> node_request \<Rightarrow> (wf_world, node_outcome) prog" where
  "call_executor e node ctx request =
     opP (\<lambda>w. (w\<lparr>w_calls := Suc (w_calls w)\<rparr>, e (w_calls w) node ctx request))"

text \<open>
  What follows the call, by its outcome. \<open>retry\<close> is the next iteration of the loop, None when no
  retries remain.
\<close>

definition after_call ::
    "exec_config \<Rightarrow> wf_definition \<Rightarrow> wf_node \<Rightarrow> (wf_run \<Rightarrow> wf_run wf_prog) option \<Rightarrow> wf_run \<Rightarrow>
     wf_execution \<Rightarrow> node_outcome \<Rightarrow> wf_run wf_prog" where
  "after_call cfg d node retry run pending outcome =
     (case outcome of
        NodeRaises msg code \<Rightarrow>
          bindE (get_run (wr_id run) (wr_owner_id run)) (\<lambda>fresh.
          bindE (case fresh of None \<Rightarrow> ok False
                 | Some f \<Rightarrow> liftN (should_ignore_branch_failure d f node)) (\<lambda>ignore.
            if ignore then skip_branch_node cfg (the fresh) pending msg
            else (case retry of
                    Some again \<Rightarrow>
                      if is_retryable_node_failure (NodeFailure msg code)
                      then bindE (mark_attempt_failed pending msg) (\<lambda>_. again run)
                      else fail_node cfg run pending msg
                  | None \<Rightarrow> fail_node cfg run pending msg)))
      | NodeTimesOut \<Rightarrow>
          (let error = ''Node '' @ py_repr (wn_id node) @ '' execution timed out.'' in
           case retry of
             Some again \<Rightarrow> bindE (mark_attempt_failed pending error) (\<lambda>_. again run)
           | None \<Rightarrow> fail_node cfg run pending error)
      | NodeCrashes \<Rightarrow>
          fail_node cfg run pending (''Node '' @ py_repr (wn_id node) @ '' execution failed.'')
      | NodeOutput output \<Rightarrow>
          unless_cancelled cfg run
            (if wn_type node = Approval then pause_for_approval cfg run pending output
             else succeed_node cfg d run pending output))"

definition attempt_body ::
    "exec_config \<Rightarrow> wf_definition \<Rightarrow> wf_node \<Rightarrow> (wf_run \<Rightarrow> wf_run wf_prog) option \<Rightarrow> nat \<Rightarrow> string \<Rightarrow>
     wf_run \<Rightarrow> wf_run wf_prog" where
  "attempt_body cfg d node retry attempt receipt_id run =
     unless_cancelled cfg run
       (bindE utcnow (\<lambda>now.
        bindE uuid4 (\<lambda>i.
          let pending = pending_execution i run node attempt receipt_id now in
          bindE (append_node_execution pending) (\<lambda>_.
          bindE (if wn_id node \<in> set (wr_current_node_ids run) then ok run
                 else checkpoint_with_retry cfg run (no_patch\<lparr>rp_add_current_node := Some (wn_id node)\<rparr>)) (\<lambda>run.
            (case executor_for cfg (wn_type node) of
               None \<Rightarrow> fail_node cfg run pending
                 (''No node executor registered for type '' @ py_repr (node_type_value (wn_type node)) @ ''.'')
             | Some e \<Rightarrow>
                 bindP (call_executor e node (wr_context run)
                          \<lparr>nr_owner_id = wr_owner_id run, nr_execution_receipt_id = receipt_id,
                           nr_outgoing_edges = outgoing_edges d (wn_id node)\<rparr>)
                   (after_call cfg d node retry run pending)))))))"

primrec attempt_loop ::
    "exec_config \<Rightarrow> wf_definition \<Rightarrow> wf_node \<Rightarrow> nat \<Rightarrow> nat \<Rightarrow> string \<Rightarrow> wf_run \<Rightarrow> wf_run wf_prog" where
  "attempt_loop cfg d node 0 = (\<lambda>attempt receipt_id run.
     attempt_body cfg d node None attempt receipt_id run)"
| "attempt_loop cfg d node (Suc retries) = (\<lambda>attempt receipt_id run.
     attempt_body cfg d node
       (Some (\<lambda>run'. attempt_loop cfg d node retries (Suc attempt)
          (build_execution_receipt_id (ec_uuid_str cfg) (wr_id run') (wn_id node) (Suc attempt)) run'))
       attempt receipt_id run)"

definition execute_node ::
    "exec_config \<Rightarrow> wf_definition \<Rightarrow> wf_execution list \<Rightarrow> string option \<Rightarrow> wf_node \<Rightarrow> wf_run \<Rightarrow> wf_run wf_prog" where
  "execute_node cfg d executions recovery_receipt_id node run =
     unless_cancelled cfg run
       (let policy = effective_retry_policy (wn_retry_policy node) (ec_retry_settings cfg);
            attempt = next_attempt_number executions (wn_id node);
            receipt_id = (case recovery_receipt_id of
                Some r \<Rightarrow> if r = [] then build_execution_receipt_id (ec_uuid_str cfg) (wr_id run) (wn_id node) attempt else r
              | None \<Rightarrow> build_execution_receipt_id (ec_uuid_str cfg) (wr_id run) (wn_id node) attempt) in
        attempt_loop cfg d node (max_retries policy) attempt receipt_id run)"

definition resume_interrupted_node ::
    "exec_config \<Rightarrow> wf_definition \<Rightarrow> wf_run \<Rightarrow> wf_node \<Rightarrow> wf_execution \<Rightarrow> wf_run wf_prog" where
  "resume_interrupted_node cfg d run node execution =
     (case crash_recovery_allowed execution (wn_config node) (ec_tool_registry cfg) of
        (allowed, reason) \<Rightarrow>
          if \<not> allowed then fail_run_with cfg run
            (or_default reason ''Crash recovery is not allowed for this node.'')
          else
           (let receipt = (case extract_execution_receipt_id execution of
                Some r \<Rightarrow> r
              | None \<Rightarrow> build_execution_receipt_id (ec_uuid_str cfg) (wr_id run) (wn_id node) (wx_attempt execution)) in
            bindE (if wx_status execution = NodeRunning
                   then mark_attempt_failed execution execution_interrupted_error else ok ()) (\<lambda>_.
            bindE (get_run_with_executions (wr_id run) (wr_owner_id run)) (\<lambda>refreshed.
              (case refreshed of
                 None \<Rightarrow> raise (run_not_found cfg (wr_id run))
               | Some (run', all_executions) \<Rightarrow>
                   execute_node cfg d all_executions (Some receipt) node run')))))"

subsection \<open>Parallel branches\<close>

definition sched_left :: "wf_world \<Rightarrow> bool" where
  "sched_left w = w_sched w (w_tick w)"

definition sched_tick :: "wf_world \<Rightarrow> wf_world" where
  "sched_tick w = w\<lparr>w_tick := Suc (w_tick w)\<rparr>"

fun first_exception :: "(wf_exn + wf_run) list \<Rightarrow> wf_exn option" where
  "first_exception [] = None"
| "first_exception (Inl e # rs) = Some e"
| "first_exception (Inr r # rs) = first_exception rs"

fun first_with_status :: "run_status \<Rightarrow> (wf_exn + wf_run) list \<Rightarrow> wf_run option" where
  "first_with_status st [] = None"
| "first_with_status st (Inl e # rs) = first_with_status st rs"
| "first_with_status st (Inr r # rs) = (if wr_status r = st then Some r else first_with_status st rs)"

definition settled_run :: "(wf_exn + wf_run) list \<Rightarrow> wf_run \<Rightarrow> wf_run" where
  "settled_run results latest =
     (case first_with_status RunCancelled results of
        Some r \<Rightarrow> r
      | None \<Rightarrow> (case first_with_status RunFailed results of Some r \<Rightarrow> r | None \<Rightarrow> latest))"

definition combine_results :: "exec_config \<Rightarrow> wf_run \<Rightarrow> (wf_exn + wf_run) list \<Rightarrow> wf_run wf_prog" where
  "combine_results cfg run results =
     (case first_exception results of
        Some (WorkflowNodeExecution msg code) \<Rightarrow> fail_run_with cfg run msg
      | Some e \<Rightarrow> raise e
      | None \<Rightarrow>
          bindE (get_run (wr_id run) (wr_owner_id run)) (\<lambda>latest.
            (case latest of
               None \<Rightarrow> raise (run_not_found cfg (wr_id run))
             | Some l \<Rightarrow> ok (settled_run results l))))"

definition execute_nodes_parallel ::
    "exec_config \<Rightarrow> wf_definition \<Rightarrow> wf_execution list \<Rightarrow> wf_node list \<Rightarrow> wf_run \<Rightarrow> wf_run wf_prog" where
  "execute_nodes_parallel cfg d executions nodes run =
     bindP (gather sched_left sched_tick
              (map (\<lambda>node. execute_node cfg d executions None node run) nodes))
       (combine_results cfg run)"

fun execute_groups ::
    "exec_config \<Rightarrow> wf_definition \<Rightarrow> wf_execution list \<Rightarrow> string list list \<Rightarrow> wf_run \<Rightarrow> wf_run wf_prog" where
  "execute_groups cfg d executions [] run = ok run"
| "execute_groups cfg d executions (g # groups) run =
     bindE (execute_nodes_parallel cfg d executions
              (map (\<lambda>i. the (node_by_id d i)) g) run) (\<lambda>run.
       if wr_status run \<noteq> RunRunning then ok run else execute_groups cfg d executions groups run)"

subsection \<open>The step loop\<close>

text \<open>The interrupted executions one after the other; the flag says that the method returns.\<close>

fun recover_interrupted ::
    "exec_config \<Rightarrow> wf_definition \<Rightarrow> wf_execution list \<Rightarrow> wf_run \<Rightarrow> wf_execution list \<Rightarrow>
     (bool \<times> wf_run \<times> wf_execution list) wf_prog" where
  "recover_interrupted cfg d [] run executions = ok (False, run, executions)"
| "recover_interrupted cfg d (execution # rest) run executions =
     (case node_by_id d (wx_node_id execution) of
        None \<Rightarrow>
          bindE (fail_run_with cfg run (''Interrupted node '' @ py_repr (wx_node_id execution)
                   @ '' is missing from the workflow definition.'')) (\<lambda>run. ok (True, run, executions))
      | Some node \<Rightarrow>
          bindE (resume_interrupted_node cfg d run node execution) (\<lambda>run.
            if wr_status run \<noteq> RunRunning then ok (True, run, executions)
            else bindE (get_run_with_executions (wr_id run) (wr_owner_id run)) (\<lambda>refreshed.
              (case refreshed of
                 None \<Rightarrow> raise (run_not_found cfg (wr_id run))
               | Some (run, executions) \<Rightarrow> recover_interrupted cfg d rest run executions))))"

text \<open>One iteration of the \<open>while\<close> loop: the flag says whether the loop goes on.\<close>

definition run_iteration ::
    "exec_config \<Rightarrow> wf_definition \<Rightarrow> wf_run \<Rightarrow> wf_execution list \<Rightarrow>
     (bool \<times> wf_run \<times> wf_execution list) wf_prog" where
  "run_iteration cfg d run executions =
     bindE (stop_if_cancelled cfg (wr_id run) (wr_owner_id run)) (\<lambda>cancelled.
       (case cancelled of
          Some fresh \<Rightarrow> ok (False, fresh, executions)
        | None \<Rightarrow>
     bindE utcnow (\<lambda>now.
       if run_exceeded_duration cfg now run
       then bindE (fail_run_duration cfg run) (\<lambda>run. ok (False, run, executions))
       else
        (let interrupted = find_interrupted_executions (wr_current_node_ids run) executions in
         if interrupted \<noteq> []
         then bindE (recover_interrupted cfg d interrupted run executions)
                (\<lambda>(stop, run, executions). ok (\<not> stop, run, executions))
         else
          bindE (liftN (resolve_ready_nodes d run)) (\<lambda>ready_node_ids.
            if ready_node_ids = [] then
              (if wr_current_node_ids run \<noteq> [] then ok (False, run, executions)
               else bindE (complete_run cfg run) (\<lambda>run. ok (False, run, executions)))
            else
             (case group_parallel_ready_nodes d ready_node_ids of
                (g # groups, sequential) \<Rightarrow>
                  bindE (execute_groups cfg d executions (g # groups) run)
                    (\<lambda>run. ok (True, run, executions))
              | ([], node_id # _) \<Rightarrow>
                  bindE (execute_node cfg d executions None (the (node_by_id d node_id)) run) (\<lambda>run.
                  bindE (get_run_with_executions (wr_id run) (wr_owner_id run)) (\<lambda>refreshed.
                    (case refreshed of
                       None \<Rightarrow> raise (run_not_found cfg (wr_id run))
                     | Some (run, executions) \<Rightarrow> ok (True, run, executions))))
              | ([], []) \<Rightarrow> ok (True, run, executions)))))))"

primrec run_loop ::
    "exec_config \<Rightarrow> wf_definition \<Rightarrow> nat \<Rightarrow> wf_run \<Rightarrow> wf_execution list \<Rightarrow> wf_run wf_prog" where
  "run_loop cfg d 0 = (\<lambda>run executions.
     if wr_status run \<noteq> RunRunning then ok run else raise OutOfFuel)"
| "run_loop cfg d (Suc fuel) = (\<lambda>run executions.
     if wr_status run \<noteq> RunRunning then ok run
     else bindE (run_iteration cfg d run executions) (\<lambda>(go_on, run, executions).
       if go_on then run_loop cfg d fuel run executions else ok run))"

definition execute_run :: "exec_config \<Rightarrow> nat \<Rightarrow> uuid \<Rightarrow> uuid \<Rightarrow> wf_run wf_prog" where
  "execute_run cfg fuel run_id owner_id =
     bindE (get_run run_id owner_id) (\<lambda>found.
       (case found of
          None \<Rightarrow> raise (run_not_found cfg run_id)
        | Some run \<Rightarrow>
     bindP (readP (\<lambda>w. owned_definition w (wr_definition_id run) owner_id)) (\<lambda>definition.
       (case definition of
          None \<Rightarrow> raise (WorkflowNotFound (''Workflow definition ''
            @ ec_uuid_str cfg (wr_definition_id run) @ '' not found.''))
        | Some d \<Rightarrow>
     bindE (get_run_with_executions run_id owner_id) (\<lambda>with_executions.
       (case with_executions of
          None \<Rightarrow> raise (run_not_found cfg run_id)
        | Some (run, executions) \<Rightarrow>
     bindE utcnow (\<lambda>now.
       if run_exceeded_duration cfg now run then fail_run_duration cfg run
       else bindE (stop_if_cancelled cfg run_id owner_id) (\<lambda>cancelled.
         (case cancelled of
            Some fresh \<Rightarrow> ok fresh
          | None \<Rightarrow> run_loop cfg d fuel run executions)))))))))"

definition continue_from_approval ::
    "exec_config \<Rightarrow> wf_definition \<Rightarrow> wf_run \<Rightarrow> string \<Rightarrow> string list \<Rightarrow> wf_run wf_prog" where
  "continue_from_approval cfg d run approval_node_id selected_edge_ids =
     (if selected_edge_ids = [] then ok run
      else skip_unselected_branches cfg d run approval_node_id selected_edge_ids)"

end
