(* ===== verification/Rules.thy ===== *)
theory Rules
  imports Tools
begin

section \<open>Governance rules and the approval policy\<close>

text \<open>
  \<open>app/ai/security/rules_engine.py\<close>, \<open>app/ai/hitl/rules.py\<close> and \<open>app/ai/hitl/policy.py\<close>: condition
  trees over the fields of a proposed tool call, the ordered rule engine in which the first
  matching rule by priority wins, and the policy that falls back to the tool's own flag.

  The regular-expression engine is a parameter: \<open>search pattern text start end\<close> is
  \<open>pattern.search(text, start, end) is not None\<close>, and \<open>as_text\<close> is \<open>str(x)\<close>.
\<close>

datatype rule_operator =
  RopEq | RopNe | RopIn | RopNotIn | RopGt | RopGte | RopLt | RopLte | RopContains | RopRegex

text \<open>The validator of the source admits exactly one mode per condition: a datatype.\<close>

datatype rule_condition =
    RAllOf "rule_condition list"
  | RAnyOf "rule_condition list"
  | RNot rule_condition
  | RLeaf string rule_operator pyval

subsection \<open>Ordering of Python values\<close>

fun rat_cmp :: "rule_operator \<Rightarrow> rat \<Rightarrow> rat \<Rightarrow> bool" where
  "rat_cmp RopGt a b = (a > b)"
| "rat_cmp RopGte a b = (a \<ge> b)"
| "rat_cmp RopLt a b = (a < b)"
| "rat_cmp _ a b = (a \<le> b)"

fun str_cmp :: "rule_operator \<Rightarrow> string \<Rightarrow> string \<Rightarrow> bool" where
  "str_cmp RopGt a b = (a > b)"
| "str_cmp RopGte a b = (a \<ge> b)"
| "str_cmp RopLt a b = (a < b)"
| "str_cmp _ a b = (a \<le> b)"

text \<open>Lists compare at the first position where they differ, else by length.\<close>

function (sequential) py_cmp :: "rule_operator \<Rightarrow> pyval \<Rightarrow> pyval \<Rightarrow> type_error + bool"
  and py_cmp_list :: "rule_operator \<Rightarrow> pyval list \<Rightarrow> pyval list \<Rightarrow> type_error + bool" where
  "py_cmp oper a b =
     (case (py_number a, py_number b) of
        (Some x, Some y) \<Rightarrow> Inr (rat_cmp oper x y)
      | _ \<Rightarrow> (case (a, b) of
                (PStr s, PStr t) \<Rightarrow> Inr (str_cmp oper s t)
              | (PList xs, PList ys) \<Rightarrow> py_cmp_list oper xs ys
              | _ \<Rightarrow> Inl TypeError))"
| "py_cmp_list oper [] ys = Inr (rat_cmp oper 0 (if ys = [] then 0 else 1))"
| "py_cmp_list oper (x # xs) [] = Inr (rat_cmp oper 1 0)"
| "py_cmp_list oper (x # xs) (y # ys) =
     (if py_eq x y then py_cmp_list oper xs ys else py_cmp oper x y)"
  by pat_completeness auto
termination
  by (relation "measure (\<lambda>x. case x of Inl (_, a, _) \<Rightarrow> size a | Inr (_, xs, _) \<Rightarrow> size_list size xs)") auto

text \<open>\<open>x in container\<close>; anything but a string, a list or a dictionary is not iterable.\<close>

definition py_in :: "pyval \<Rightarrow> pyval \<Rightarrow> type_error + bool" where
  "py_in x container =
     (case container of
        PStr s \<Rightarrow> (case x of PStr t \<Rightarrow> Inr (py_substring t s) | _ \<Rightarrow> Inl TypeError)
      | PList xs \<Rightarrow> Inr (py_in_list x xs)
      | PDict d \<Rightarrow> py_in_dict x d
      | _ \<Rightarrow> Inl TypeError)"

definition negate :: "type_error + bool \<Rightarrow> type_error + bool" where
  "negate r = (case r of Inl e \<Rightarrow> Inl e | Inr b \<Rightarrow> Inr (\<not> b))"

fun compare :: "rule_operator \<Rightarrow> pyval \<Rightarrow> pyval \<Rightarrow> type_error + bool" where
  "compare RopEq actual expected = Inr (py_eq actual expected)"
| "compare RopNe actual expected = Inr (\<not> py_eq actual expected)"
| "compare RopIn actual expected = (if expected \<noteq> PNone then py_in actual expected else Inr False)"
| "compare RopNotIn actual expected =
     (if expected \<noteq> PNone then negate (py_in actual expected) else Inr True)"
| "compare RopContains actual expected =
     (if actual = PNone then Inr False else py_in expected actual)"
| "compare oper actual expected =
     (if actual = PNone then Inr False else py_cmp oper actual expected)"

subsection \<open>Regular expressions in bounded windows\<close>

definition regex_max_pattern_len :: nat where
  "regex_max_pattern_len = 256"

definition regex_max_input_len :: nat where
  "regex_max_input_len = 4096"

definition regex_window_overlap :: nat where
  "regex_window_overlap = regex_max_pattern_len"

function regex_windows ::
    "(nat \<Rightarrow> nat \<Rightarrow> bool) \<Rightarrow> nat \<Rightarrow> nat \<Rightarrow> bool" where
  "regex_windows search len start =
     (if start < max len 1 then
        (let e = min (start + regex_max_input_len) len in
         if search start e then True
         else if e = len then False
         else regex_windows search len (start + (regex_max_input_len - regex_window_overlap)))
      else False)"
  by pat_completeness auto
termination
  by (relation "measure (\<lambda>(search, len, start). max len 1 - start)")
    (auto simp: regex_max_input_len_def regex_window_overlap_def regex_max_pattern_len_def)

declare regex_windows.simps [simp del]

definition regex_matches ::
    "(string \<Rightarrow> string \<Rightarrow> nat \<Rightarrow> nat \<Rightarrow> bool) \<Rightarrow> (pyval \<Rightarrow> string) \<Rightarrow> pyval \<Rightarrow> string \<Rightarrow> bool" where
  "regex_matches search as_text actual pattern =
     (if actual = PNone then False
      else (let txt = as_text actual in
            regex_windows (\<lambda>s e. search pattern txt s e) (length txt) 0))"

text \<open>
  A stretch of text no longer than the overlap lies inside one of the windows: if the search
  succeeds on every window that contains such a stretch, the loop finds it.
\<close>

lemma regex_windows_cover:
  assumes hit: "\<And>s e. s \<le> a \<Longrightarrow> b \<le> e \<Longrightarrow> e \<le> len \<Longrightarrow> search s e"
    and "start \<le> a" "a \<le> b" "b \<le> len" "b - a \<le> regex_window_overlap" "a < len"
  shows "regex_windows search len start"
  using assms(2)
proof (induction "len - start" arbitrary: start rule: less_induct)
  case less
  let ?e = "min (start + regex_max_input_len) len"
  have in_range: "start < max len 1" using less.prems assms(6) by simp
  show ?case
  proof (cases "b \<le> ?e")
    case True
    then have "search start ?e" using less.prems by (intro hit) simp_all
    with in_range show ?thesis by (subst regex_windows.simps) (simp add: Let_def)
  next
    case False
    with assms(4) have e: "?e = start + regex_max_input_len" "?e < len" by simp_all
    let ?s = "start + (regex_max_input_len - regex_window_overlap)"
    have "start + regex_max_input_len < b" using False e(1) by linarith
    then have "?s \<le> a"
      using assms(5)
      by (simp add: regex_max_input_len_def regex_window_overlap_def regex_max_pattern_len_def)
    moreover have "len - ?s < len - start"
      using e by (simp add: regex_max_input_len_def regex_window_overlap_def regex_max_pattern_len_def)
    ultimately have "regex_windows search len ?s" using less.hyps by blast
    moreover have "start + regex_max_input_len < len" using e by linarith
    ultimately show ?thesis by (subst regex_windows.simps) (simp add: Let_def min_def)
  qed
qed

subsection \<open>Rule evaluation\<close>

definition leaf_holds ::
    "(string \<Rightarrow> string \<Rightarrow> nat \<Rightarrow> nat \<Rightarrow> bool) \<Rightarrow> (pyval \<Rightarrow> string) \<Rightarrow> rule_operator \<Rightarrow> pyval \<Rightarrow> pyval \<Rightarrow> bool" where
  "leaf_holds search as_text oper actual expected =
     (if oper = RopRegex then
        (case expected of PStr pattern \<Rightarrow> regex_matches search as_text actual pattern | _ \<Rightarrow> False)
      else (case compare oper actual expected of Inl _ \<Rightarrow> False | Inr b \<Rightarrow> b))"

fun rule_evaluate ::
    "(string \<Rightarrow> string \<Rightarrow> nat \<Rightarrow> nat \<Rightarrow> bool) \<Rightarrow> (pyval \<Rightarrow> string) \<Rightarrow> (string \<Rightarrow> pyval) \<Rightarrow>
     rule_condition \<Rightarrow> bool" where
  "rule_evaluate search as_text resolve (RAllOf cs) = (\<forall>c\<in>set cs. rule_evaluate search as_text resolve c)"
| "rule_evaluate search as_text resolve (RAnyOf cs) = (\<exists>c\<in>set cs. rule_evaluate search as_text resolve c)"
| "rule_evaluate search as_text resolve (RNot c) = (\<not> rule_evaluate search as_text resolve c)"
| "rule_evaluate search as_text resolve (RLeaf field oper value) =
     leaf_holds search as_text oper (resolve field) value"

subsection \<open>The rule engine\<close>

datatype rule_outcome = AutoApprove | RequireApproval | RejectCall

record policy_context =
  pc_tool_name :: string
  pc_tool_category :: "string option"
  pc_risk_level :: "string option"
  pc_data_sensitivity :: "string option"
  pc_caller_role :: "string option"
  pc_workspace :: "string option"
  pc_tenant :: "string option"
  pc_environment :: "string option"
  pc_tool_arguments :: "pyval dict"
  pc_estimated_cost :: "rat option"

fun opt_str :: "string option \<Rightarrow> pyval" where
  "opt_str None = PNone"
| "opt_str (Some s) = PStr s"

text \<open>Attributes of the model object other than its fields are not modelled and read as None.\<close>

definition policy_attribute :: "policy_context \<Rightarrow> string \<Rightarrow> pyval" where
  "policy_attribute c field =
     (if field = ''tool_name'' then PStr (pc_tool_name c)
      else if field = ''tool_category'' then opt_str (pc_tool_category c)
      else if field = ''risk_level'' then opt_str (pc_risk_level c)
      else if field = ''data_sensitivity'' then opt_str (pc_data_sensitivity c)
      else if field = ''caller_role'' then opt_str (pc_caller_role c)
      else if field = ''workspace'' then opt_str (pc_workspace c)
      else if field = ''tenant'' then opt_str (pc_tenant c)
      else if field = ''environment'' then opt_str (pc_environment c)
      else if field = ''tool_arguments'' then PDict (pc_tool_arguments c)
      else if field = ''estimated_cost'' then
        (case pc_estimated_cost c of None \<Rightarrow> PNone | Some q \<Rightarrow> PFloat q)
      else PNone)"

definition policy_resolve_field :: "policy_context \<Rightarrow> string \<Rightarrow> pyval" where
  "policy_resolve_field c field =
     (if py_startswith field ''tool_arguments.''
      then get_or_None (pc_tool_arguments c) (drop (length ''tool_arguments.'') field)
      else policy_attribute c field)"

record approval_rule =
  ar_name :: string
  ar_priority :: int
  ar_condition :: rule_condition
  ar_outcome :: rule_outcome
  ar_required_stages :: "string list"

record policy_decision =
  pd_outcome :: rule_outcome
  pd_matched_rule :: "string option"
  pd_required_stages :: "string list"

text \<open>\<open>sorted(rules, key=priority)\<close> is stable: rules of equal priority keep their order.\<close>

definition sort_rules :: "approval_rule list \<Rightarrow> approval_rule list" where
  "sort_rules rules = sort_key ar_priority rules"

fun first_match :: "(approval_rule \<Rightarrow> bool) \<Rightarrow> approval_rule list \<Rightarrow> policy_decision option" where
  "first_match matches [] = None"
| "first_match matches (rule # rules) =
     (if matches rule then
        Some \<lparr>pd_outcome = ar_outcome rule, pd_matched_rule = Some (ar_name rule),
              pd_required_stages = ar_required_stages rule\<rparr>
      else first_match matches rules)"

definition engine_decide ::
    "(string \<Rightarrow> string \<Rightarrow> nat \<Rightarrow> nat \<Rightarrow> bool) \<Rightarrow> (pyval \<Rightarrow> string) \<Rightarrow> approval_rule list \<Rightarrow>
     policy_context \<Rightarrow> policy_decision option" where
  "engine_decide search as_text rules c =
     first_match (\<lambda>rule. rule_evaluate search as_text (policy_resolve_field c) (ar_condition rule))
       (sort_rules rules)"

lemma first_match_None: "first_match m rules = None \<longleftrightarrow> (\<forall>r\<in>set rules. \<not> m r)"
  by (induction rules) auto

lemma first_match_Some:
  "first_match m rules = Some dec \<Longrightarrow>
     \<exists>us r vs. rules = us @ r # vs \<and> m r \<and> (\<forall>u\<in>set us. \<not> m u) \<and>
       dec = \<lparr>pd_outcome = ar_outcome r, pd_matched_rule = Some (ar_name r),
              pd_required_stages = ar_required_stages r\<rparr>"
proof (induction rules)
  case Nil
  then show ?case by simp
next
  case (Cons r rules)
  show ?case
  proof (cases "m r")
    case True
    with Cons.prems have "r # rules = [] @ r # rules \<and> m r \<and> (\<forall>u\<in>set []. \<not> m u) \<and>
       dec = \<lparr>pd_outcome = ar_outcome r, pd_matched_rule = Some (ar_name r),
              pd_required_stages = ar_required_stages r\<rparr>" by simp
    then show ?thesis by blast
  next
    case False
    with Cons obtain us r' vs where "rules = us @ r' # vs \<and> m r' \<and> (\<forall>u\<in>set us. \<not> m u) \<and>
       dec = \<lparr>pd_outcome = ar_outcome r', pd_matched_rule = Some (ar_name r'),
              pd_required_stages = ar_required_stages r'\<rparr>" by auto
    with False have "r # rules = (r # us) @ r' # vs \<and> m r' \<and> (\<forall>u\<in>set (r # us). \<not> m u) \<and>
       dec = \<lparr>pd_outcome = ar_outcome r', pd_matched_rule = Some (ar_name r'),
              pd_required_stages = ar_required_stages r'\<rparr>" by simp
    then show ?thesis by blast
  qed
qed

text \<open>The decision comes from a matching rule whose priority no matching rule undercuts.\<close>

lemma engine_decide_minimal:
  assumes "engine_decide search as_text rules c = Some dec"
  shows "\<exists>r\<in>set rules. rule_evaluate search as_text (policy_resolve_field c) (ar_condition r) \<and>
     pd_outcome dec = ar_outcome r \<and> pd_matched_rule dec = Some (ar_name r) \<and>
     (\<forall>r'\<in>set rules. rule_evaluate search as_text (policy_resolve_field c) (ar_condition r') \<longrightarrow>
        ar_priority r \<le> ar_priority r')"
proof -
  let ?m = "\<lambda>r. rule_evaluate search as_text (policy_resolve_field c) (ar_condition r)"
  obtain us r vs where srt: "sort_rules rules = us @ r # vs" and m: "?m r" and
    us: "\<forall>u\<in>set us. \<not> ?m u" and
    dec: "dec = \<lparr>pd_outcome = ar_outcome r, pd_matched_rule = Some (ar_name r),
              pd_required_stages = ar_required_stages r\<rparr>"
    using first_match_Some assms unfolding engine_decide_def by blast
  have mem: "set rules = set us \<union> {r} \<union> set vs"
    using arg_cong [OF srt, of set] by (auto simp: sort_rules_def)
  have "sorted (map ar_priority (us @ r # vs))"
    unfolding srt [symmetric] sort_rules_def by simp
  then have "\<forall>v\<in>set vs. ar_priority r \<le> ar_priority v" by (simp add: sorted_append)
  with m us dec mem show ?thesis by fastforce
qed

subsection \<open>The approval policy\<close>

record approval_policy =
  ap_required_tool_names :: "string list"
  ap_rules :: "approval_rule list option"
  ap_environment :: "string option"

definition legacy_decision :: "approval_policy \<Rightarrow> tool_definition \<Rightarrow> policy_decision" where
  "legacy_decision policy tool =
     \<lparr>pd_outcome = (if td_requires_approval tool \<or> td_name tool \<in> set (ap_required_tool_names policy)
                   then RequireApproval else AutoApprove),
      pd_matched_rule = None, pd_required_stages = []\<rparr>"

definition policy_evaluate ::
    "(string \<Rightarrow> string \<Rightarrow> nat \<Rightarrow> nat \<Rightarrow> bool) \<Rightarrow> (pyval \<Rightarrow> string) \<Rightarrow> approval_policy \<Rightarrow>
     tool_definition \<Rightarrow> pyval dict \<Rightarrow> string option \<Rightarrow> string option \<Rightarrow> string option \<Rightarrow> rat option \<Rightarrow>
     policy_decision" where
  "policy_evaluate search as_text policy tool arguments caller_role workspace tenant estimated_cost =
     (case ap_rules policy of
        None \<Rightarrow> legacy_decision policy tool
      | Some rules \<Rightarrow>
          (case engine_decide search as_text rules
                  \<lparr>pc_tool_name = td_name tool, pc_tool_category = td_category tool,
                   pc_risk_level = td_risk_level tool, pc_data_sensitivity = td_data_sensitivity tool,
                   pc_caller_role = caller_role, pc_workspace = workspace, pc_tenant = tenant,
                   pc_environment = ap_environment policy, pc_tool_arguments = arguments,
                   pc_estimated_cost = estimated_cost\<rparr> of
             Some decision \<Rightarrow> decision
           | None \<Rightarrow> legacy_decision policy tool))"

definition policy_requires_approval ::
    "(string \<Rightarrow> string \<Rightarrow> nat \<Rightarrow> nat \<Rightarrow> bool) \<Rightarrow> (pyval \<Rightarrow> string) \<Rightarrow> approval_policy \<Rightarrow>
     tool_definition \<Rightarrow> bool" where
  "policy_requires_approval search as_text policy tool \<longleftrightarrow>
     pd_outcome (policy_evaluate search as_text policy tool [] None None None None) \<noteq> AutoApprove"

end
