(* ===== verification/Wf_Validator.thy ===== *)
theory Wf_Validator
  imports Wf_Node_Config Graph_Search Rules
begin

section \<open>The graph validator\<close>

text \<open>
  \<open>graph/validator.py\<close>: the checks a definition passes before it is stored, in the order
  \<open>validate\<close> runs them. The validator's constructor arguments are the record \<open>graph_validator\<close>.
  A Python set is iterated in an order the language leaves open: \<open>node_ids\<close> is the list of the
  set's elements in that order, and the theorems hold for every order. The error constructors
  stand for the messages and keep what the message names.
\<close>

datatype graph_error =
    TooManyNodes nat
  | EntryNodeNotPresent string
  | PluginsDisabled string
  | NodeConfigError string node_config_error
  | PluginIdMissing string
  | PluginNodeTypeMissing string
  | PluginNotLoaded string string
  | PluginNodeTypeUnknown string string string
  | DanglingFrom string string
  | DanglingTo string string
  | EdgeConditionError string cond_error
  | CycleDetected string
  | UnreachableNodes "string list"
  | ForkRequiresJoin string
  | ForkUnknownJoin string string
  | ForkTargetNotJoin string string
  | DuplicateFork string
  | TooManyBranches string nat
  | JoinRequiresFork string
  | JoinUnknownFork string string
  | JoinTargetNotFork string string
  | DuplicateJoin string
  | NotPaired string string
  | ApprovalWithoutEdge string
  | ApprovedEdgeUnknown string string
  | RejectedEdgeUnknown string string
  | ApprovalEdgesEqual string
  | ApprovedEdgeRequired string
  | GuardMisconfigured
  | ToolWithoutApproval string string

record graph_validator =
  gv_max_nodes :: nat
  gv_max_parallel_branches :: nat
  gv_plugins_enabled :: bool
  gv_plugin_registry :: "plugin_records option"
  gv_workflow_plugin_registry :: "workflow_plugins option"
  gv_hitl_enabled :: bool
  gv_tool_registry :: "tool_registry option"
  gv_approval_policy :: "approval_policy option"
  gv_regex_search :: "string \<Rightarrow> string \<Rightarrow> nat \<Rightarrow> nat \<Rightarrow> bool"
  gv_as_text :: "pyval \<Rightarrow> string"

definition node_type_of :: "wf_definition \<Rightarrow> string \<Rightarrow> node_type option" where
  "node_type_of d i = map_option wn_type (node_by_id d i)"

subsection \<open>Counts, plugins, edges\<close>

definition validate_node_count :: "graph_validator \<Rightarrow> wf_definition \<Rightarrow> graph_error + unit" where
  "validate_node_count gv d =
     checkR (length (wd_nodes d) \<le> gv_max_nodes gv) (TooManyNodes (length (wd_nodes d)))"

definition validate_entry_node :: "wf_definition \<Rightarrow> string list \<Rightarrow> graph_error + unit" where
  "validate_entry_node d node_ids =
     checkR (wd_entry_node_id d \<in> set node_ids) (EntryNodeNotPresent (wd_entry_node_id d))"

definition reject_plugin_nodes :: "wf_definition \<Rightarrow> graph_error + unit" where
  "reject_plugin_nodes d =
     forR (\<lambda>node. checkR (wn_type node \<noteq> Plugin) (PluginsDisabled (wn_id node))) (wd_nodes d)"

definition validate_plugin_node :: "graph_validator \<Rightarrow> wf_node \<Rightarrow> graph_error + unit" where
  "validate_plugin_node gv node =
     (if wn_type node \<noteq> Plugin then Inr ()
      else (case nonblank_str (dict_get (wn_config node) ''plugin_id'') of
              None \<Rightarrow> Inl (PluginIdMissing (wn_id node))
            | Some plugin_id \<Rightarrow>
      (case nonblank_str (dict_get (wn_config node) ''plugin_node_type'') of
              None \<Rightarrow> Inl (PluginNodeTypeMissing (wn_id node))
            | Some plugin_node_type \<Rightarrow>
      (if Option.bind (gv_plugin_registry gv) (\<lambda>reg. plugin_registry_get reg plugin_id) \<noteq> Some PluginLoaded
         then Inl (PluginNotLoaded (wn_id node) plugin_id)
       else (case gv_workflow_plugin_registry gv of
               None \<Rightarrow> Inl (PluginNodeTypeUnknown (wn_id node) plugin_node_type plugin_id)
             | Some reg \<Rightarrow>
                 checkR (workflow_plugin_has reg plugin_id plugin_node_type)
                   (PluginNodeTypeUnknown (wn_id node) plugin_node_type plugin_id))))))"

definition validate_plugin_nodes :: "graph_validator \<Rightarrow> wf_definition \<Rightarrow> graph_error + unit" where
  "validate_plugin_nodes gv d = forR (validate_plugin_node gv) (wd_nodes d)"

definition validator_node_configs :: "graph_validator \<Rightarrow> wf_definition \<Rightarrow> graph_error + unit" where
  "validator_node_configs gv d =
     (case validate_node_configs
             (if gv_plugins_enabled gv then gv_workflow_plugin_registry gv else None) (wd_nodes d) of
        Inl (i, e) \<Rightarrow> Inl (NodeConfigError i e)
      | Inr _ \<Rightarrow> Inr ())"

definition validate_dangling_edges :: "wf_definition \<Rightarrow> string list \<Rightarrow> graph_error + unit" where
  "validate_dangling_edges d node_ids =
     forR (\<lambda>edge. if we_from edge \<notin> set node_ids then Inl (DanglingFrom (we_id edge) (we_from edge))
                  else checkR (we_to edge \<in> set node_ids) (DanglingTo (we_id edge) (we_to edge)))
       (wd_edges d)"

definition validate_edge_conditions :: "wf_definition \<Rightarrow> graph_error + unit" where
  "validate_edge_conditions d =
     forR (\<lambda>edge. case we_condition edge of
                     None \<Rightarrow> Inr ()
                   | Some condition \<Rightarrow>
                       (case validate_condition_shape condition of
                          Inl e \<Rightarrow> Inl (EdgeConditionError (we_id edge) e)
                        | Inr _ \<Rightarrow> Inr ()))
       (wd_edges d)"

subsection \<open>Cycles and reachability\<close>

definition validate_cycles :: "wf_definition \<Rightarrow> string list \<Rightarrow> graph_error + unit" where
  "validate_cycles d node_ids =
     (case visit_list (build_adjacency (wd_edges d) node_ids) {} {} node_ids of
        Inl node_id \<Rightarrow> Inl (CycleDetected node_id)
      | Inr _ \<Rightarrow> Inr ())"

definition reachable_nodes :: "wf_definition \<Rightarrow> string list \<Rightarrow> string set" where
  "reachable_nodes d node_ids =
     stack_search (build_adjacency (wd_edges d) node_ids) (\<lambda>_. False) [wd_entry_node_id d] {}"

definition validate_reachability :: "wf_definition \<Rightarrow> string list \<Rightarrow> graph_error + unit" where
  "validate_reachability d node_ids =
     (let unreachable = sort (filter (\<lambda>i. i \<notin> reachable_nodes d node_ids) node_ids) in
      checkR (unreachable = []) (UnreachableNodes unreachable))"

subsection \<open>Pairing of forks and joins\<close>

type_synonym pairing = "string dict \<times> string dict"

definition pair_fork ::
    "graph_validator \<Rightarrow> wf_definition \<Rightarrow> string list \<Rightarrow> string dict \<Rightarrow> wf_node \<Rightarrow>
     graph_error + string dict" where
  "pair_fork gv d node_ids fork_to_join node =
     (case nonblank_str (dict_get (wn_config node) ''join_node_id'') of
        None \<Rightarrow> Inl (ForkRequiresJoin (wn_id node))
      | Some join_node_id \<Rightarrow>
          if join_node_id \<notin> set node_ids then Inl (ForkUnknownJoin (wn_id node) join_node_id)
          else if node_type_of d join_node_id \<noteq> Some Join
            then Inl (ForkTargetNotJoin (wn_id node) join_node_id)
          else if dict_get fork_to_join (wn_id node) \<noteq> None then Inl (DuplicateFork (wn_id node))
          else (let outgoing = filter (\<lambda>edge. we_from edge = wn_id node) (wd_edges d) in
                if length outgoing > gv_max_parallel_branches gv
                then Inl (TooManyBranches (wn_id node) (length outgoing))
                else Inr (dict_put (wn_id node) join_node_id fork_to_join)))"

definition pair_join ::
    "wf_definition \<Rightarrow> string list \<Rightarrow> string dict \<Rightarrow> wf_node \<Rightarrow> graph_error + string dict" where
  "pair_join d node_ids join_to_fork node =
     (case nonblank_str (dict_get (wn_config node) ''fork_node_id'') of
        None \<Rightarrow> Inl (JoinRequiresFork (wn_id node))
      | Some fork_node_id \<Rightarrow>
          if fork_node_id \<notin> set node_ids then Inl (JoinUnknownFork (wn_id node) fork_node_id)
          else if node_type_of d fork_node_id \<noteq> Some Fork
            then Inl (JoinTargetNotFork (wn_id node) fork_node_id)
          else if dict_get join_to_fork (wn_id node) \<noteq> None then Inl (DuplicateJoin (wn_id node))
          else Inr (dict_put (wn_id node) fork_node_id join_to_fork))"

definition pair_node ::
    "graph_validator \<Rightarrow> wf_definition \<Rightarrow> string list \<Rightarrow> pairing \<Rightarrow> wf_node \<Rightarrow> graph_error + pairing" where
  "pair_node gv d node_ids p node =
     (if wn_type node = Fork then
        bindR (pair_fork gv d node_ids (fst p) node) (\<lambda>f. Inr (f, snd p))
      else if wn_type node = Join then
        bindR (pair_join d node_ids (snd p) node) (\<lambda>j. Inr (fst p, j))
      else Inr p)"

definition check_paired :: "string dict \<Rightarrow> string dict \<Rightarrow> graph_error + unit" where
  "check_paired a b =
     forR (\<lambda>(k, v). checkR (dict_get b v = Some k) (NotPaired k v)) a"

definition validate_fork_join_pairing ::
    "graph_validator \<Rightarrow> wf_definition \<Rightarrow> string list \<Rightarrow> graph_error + unit" where
  "validate_fork_join_pairing gv d node_ids =
     bindR (foldR (pair_node gv d node_ids) ([], []) (wd_nodes d))
       (\<lambda>(fork_to_join, join_to_fork).
          thenR (check_paired fork_to_join join_to_fork) (check_paired join_to_fork fork_to_join))"

subsection \<open>Approval nodes\<close>

definition validate_approval_node :: "wf_definition \<Rightarrow> wf_node \<Rightarrow> graph_error + unit" where
  "validate_approval_node d node =
     (if wn_type node \<noteq> Approval then Inr ()
      else
       (let outgoing = filter (\<lambda>edge. we_from edge = wn_id node) (wd_edges d);
            outgoing_ids = map we_id outgoing;
            approved = dict_get (wn_config node) ''approved_edge_id'';
            rejected = dict_get (wn_config node) ''rejected_edge_id'';
            unconditional = filter (\<lambda>edge. we_condition edge = None) outgoing in
        if outgoing = [] then Inl (ApprovalWithoutEdge (wn_id node))
        else
         (case approved of
            Some (PStr a) \<Rightarrow>
              if a \<notin> set outgoing_ids then Inl (ApprovedEdgeUnknown (wn_id node) a)
              else (case rejected of
                      Some (PStr r) \<Rightarrow>
                        if r \<notin> set outgoing_ids then Inl (RejectedEdgeUnknown (wn_id node) r)
                        else checkR (a \<noteq> r) (ApprovalEdgesEqual (wn_id node))
                    | _ \<Rightarrow> Inr ())
          | _ \<Rightarrow>
             thenR (case rejected of
                      Some (PStr r) \<Rightarrow>
                        checkR (r \<in> set outgoing_ids) (RejectedEdgeUnknown (wn_id node) r)
                    | _ \<Rightarrow> Inr ())
               (checkR (length unconditional = 1) (ApprovedEdgeRequired (wn_id node))))))"

definition validate_approval_nodes :: "wf_definition \<Rightarrow> graph_error + unit" where
  "validate_approval_nodes d = forR (validate_approval_node d) (wd_nodes d)"

subsection \<open>Approval before flagged tools\<close>

fun relax ::
    "string list \<Rightarrow> (string \<Rightarrow> int) \<Rightarrow> string list \<Rightarrow> (string \<Rightarrow> int) \<times> string list" where
  "relax [] remaining ready = (remaining, ready)"
| "relax (successor # rest) remaining ready =
     (let remaining' = remaining(successor := remaining successor - 1) in
      relax rest remaining'
        (if remaining' successor = 0 then sort (ready @ [successor]) else ready))"

lemma relax_measure:
  assumes "finite U" and "set ss \<subseteq> U"
  shows "length (snd (relax ss remaining ready)) + card {s\<in>U. fst (relax ss remaining ready) s > 0} =
    length ready + card {s\<in>U. remaining s > 0}"
  using assms(2)
proof (induction ss arbitrary: remaining ready)
  case Nil
  then show ?case by simp
next
  case (Cons s ss)
  let ?r = "remaining(s := remaining s - 1)"
  show ?case
  proof (cases "remaining s = 1")
    case True
    then have "{t\<in>U. remaining t > 0} = insert s {t\<in>U. ?r t > 0}" using Cons.prems by auto
    moreover have "s \<notin> {t\<in>U. ?r t > 0}" using True by simp
    moreover have "finite {t\<in>U. ?r t > 0}" using assms(1) by simp
    ultimately have "card {t\<in>U. remaining t > 0} = Suc (card {t\<in>U. ?r t > 0})" by simp
    with True Cons show ?thesis by (simp add: Let_def)
  next
    case False
    then have "{t\<in>U. ?r t > 0} = {t\<in>U. remaining t > 0}" using Cons.prems by auto
    with False Cons show ?thesis by (simp add: Let_def)
  qed
qed

function topological_loop ::
    "adjacency \<Rightarrow> string list \<Rightarrow> (string \<Rightarrow> int) \<Rightarrow> string list" where
  "topological_loop adj [] remaining = []"
| "topological_loop adj (node_id # ready) remaining =
     node_id # topological_loop adj (snd (relax (succs adj node_id) remaining ready))
                 (fst (relax (succs adj node_id) remaining ready))"
  by pat_completeness auto
termination
proof (relation "measure (\<lambda>(adj, ready, remaining).
    length ready + card {s \<in> \<Union>(set ` snd ` set adj). remaining s > (0::int)})")
  fix adj :: adjacency and node_id ready and remaining :: "string \<Rightarrow> int"
  have "set (succs adj node_id) \<subseteq> \<Union>(set ` snd ` set adj)"
  proof (cases "map_of adj node_id")
    case None
    then show ?thesis by (simp add: succs_def dict_get_def)
  next
    case (Some ns)
    then have "(node_id, ns) \<in> set adj" by (rule map_of_SomeD)
    with Some show ?thesis by (force simp: succs_def dict_get_def)
  qed
  then show "((adj, snd (relax (succs adj node_id) remaining ready),
      fst (relax (succs adj node_id) remaining ready)), adj, node_id # ready, remaining)
    \<in> measure (\<lambda>(adj, ready, remaining).
        length ready + card {s \<in> \<Union>(set ` snd ` set adj). remaining s > (0::int)})"
    using relax_measure [of "\<Union>(set ` snd ` set adj)" "succs adj node_id" remaining ready] by simp
qed simp

definition in_degree :: "adjacency \<Rightarrow> string list \<Rightarrow> string \<Rightarrow> int" where
  "in_degree adj node_ids s = (\<Sum>n\<leftarrow>node_ids. int (count_list (succs adj n) s))"

definition topological_order :: "string \<Rightarrow> adjacency \<Rightarrow> string list \<Rightarrow> string list" where
  "topological_order entry adj node_ids =
     (let ready = sort (filter (\<lambda>i. in_degree adj node_ids i = 0) node_ids);
          ready' = (if entry \<in> set ready then entry # remove1 entry ready else ready) in
      topological_loop adj ready' (in_degree adj node_ids))"

definition protect_node ::
    "wf_definition \<Rightarrow> adjacency \<Rightarrow> (string \<rightharpoonup> bool) \<Rightarrow> string \<Rightarrow> (string \<rightharpoonup> bool)" where
  "protect_node d reverse_adj protected node_id =
     (let predecessors = succs reverse_adj node_id in
      if node_id = wd_entry_node_id d then
        protected(node_id \<mapsto> (node_type_of d node_id = Some Approval))
      else if predecessors = [] then protected(node_id \<mapsto> False)
      else protected(node_id \<mapsto>
        (\<forall>p\<in>set predecessors. node_type_of d p = Some Approval \<or> protected p = Some True)))"

definition compute_approval_protected_nodes :: "wf_definition \<Rightarrow> string list \<Rightarrow> (string \<rightharpoonup> bool)" where
  "compute_approval_protected_nodes d node_ids =
     foldl (protect_node d (build_reverse_adjacency (wd_edges d) node_ids)) Map.empty
       (topological_order (wd_entry_node_id d) (build_adjacency (wd_edges d) node_ids) node_ids)"

definition referenced_tool_names :: "wf_node \<Rightarrow> string list" where
  "referenced_tool_names node =
     (if wn_type node = Task then
        (case nonblank_str (dict_get (wn_config node) ''tool_name'') of
           Some tool_name \<Rightarrow> [tool_name] | None \<Rightarrow> [])
      else (case dict_get (wn_config node) ''tool_names'' of
              Some (PList names) \<Rightarrow> filter (\<lambda>s. \<not> is_blank s) (str_items names)
            | _ \<Rightarrow> []))"

definition tool_needs_approval :: "graph_validator \<Rightarrow> tool_registry \<Rightarrow> approval_policy \<Rightarrow> string \<Rightarrow> bool" where
  "tool_needs_approval gv registry policy tool_name =
     (case registry_get registry tool_name of
        None \<Rightarrow> False
      | Some tool \<Rightarrow>
          pd_outcome (policy_evaluate (gv_regex_search gv) (gv_as_text gv) policy tool [] None None None None)
            = RequireApproval)"

definition check_tool_protected ::
    "graph_validator \<Rightarrow> tool_registry \<Rightarrow> approval_policy \<Rightarrow> (string \<rightharpoonup> bool) \<Rightarrow> wf_node \<Rightarrow>
     graph_error + unit" where
  "check_tool_protected gv registry policy protected node =
     (if wn_type node \<notin> {Task, Agent} then Inr ()
      else forR (\<lambda>tool_name.
               checkR (\<not> tool_needs_approval gv registry policy tool_name \<or> protected (wn_id node) = Some True)
                 (ToolWithoutApproval (wn_id node) tool_name))
             (referenced_tool_names node))"

definition validate_approval_required_tool_reachability ::
    "graph_validator \<Rightarrow> wf_definition \<Rightarrow> string list \<Rightarrow> graph_error + unit" where
  "validate_approval_required_tool_reachability gv d node_ids =
     (if \<not> gv_hitl_enabled gv then Inr ()
      else (case (gv_tool_registry gv, gv_approval_policy gv) of
              (Some registry, Some policy) \<Rightarrow>
                forR (check_tool_protected gv registry policy
                        (compute_approval_protected_nodes d node_ids)) (wd_nodes d)
            | _ \<Rightarrow> Inl GuardMisconfigured))"

subsection \<open>The whole validation\<close>

definition validate_graph :: "graph_validator \<Rightarrow> string list \<Rightarrow> wf_definition \<Rightarrow> graph_error + unit" where
  "validate_graph gv node_ids d =
     thenR (validate_node_count gv d)
    (thenR (validate_entry_node d node_ids)
    (thenR (if gv_plugins_enabled gv then Inr () else reject_plugin_nodes d)
    (thenR (validator_node_configs gv d)
    (thenR (if gv_plugins_enabled gv then validate_plugin_nodes gv d else Inr ())
    (thenR (validate_dangling_edges d node_ids)
    (thenR (validate_edge_conditions d)
    (thenR (validate_cycles d node_ids)
    (thenR (validate_reachability d node_ids)
    (thenR (validate_fork_join_pairing gv d node_ids)
    (thenR (validate_approval_nodes d)
           (validate_approval_required_tool_reachability gv d node_ids)))))))))))"

text \<open>The order in which the set of node ids may be iterated: any enumeration of it.\<close>

definition iterates :: "string list \<Rightarrow> wf_definition \<Rightarrow> bool" where
  "iterates node_ids d \<longleftrightarrow> distinct node_ids \<and> set node_ids = wn_id ` set (wd_nodes d)"

end
