(* ===== verification/Wf_Manager.thy ===== *)
theory Wf_Manager
  imports Wf_Executor Wf_Validator
begin

section \<open>The workflow manager\<close>

text \<open>
  \<open>manager.py\<close> and \<open>engine/background.py\<close>: the operations callers use, as programs over the store.
  Scheduling a background task adds the run to the active ids and records the task; the task itself is
  \<open>execute_run\<close>. Metrics and spans are left out. \<open>None\<close> as settings is not modelled: the manager's
  configuration is the record \<open>manager_config\<close>.
\<close>

record manager_config =
  mc_exec :: exec_config
  mc_validator :: graph_validator
  mc_hitl_enabled :: bool
  mc_hitl_max_reason_length :: nat
  mc_parse_isoformat :: "string \<Rightarrow> datetime option"

record approval_result =
  re_approval_id :: uuid
  re_status :: approval_decision
  re_edited :: bool
  re_final_payload :: "pyval dict option"
  re_reason :: "string option"
  re_approver :: "uuid option"
  re_decided_at :: datetime

definition max_approval_decision_retries :: nat where
  "max_approval_decision_retries = 25"

subsection \<open>Background tasks\<close>

definition schedule_run_task :: "uuid \<Rightarrow> uuid \<Rightarrow> wf_world \<Rightarrow> wf_world" where
  "schedule_run_task run_id owner_id w =
     w\<lparr>w_active := List.insert run_id (w_active w), w_tasks := w_tasks w @ [(run_id, owner_id)]\<rparr>"

definition release_run_task :: "uuid \<Rightarrow> wf_world \<Rightarrow> wf_world" where
  "release_run_task run_id w = w\<lparr>w_active := removeAll run_id (w_active w)\<rparr>"

definition is_run_active :: "wf_world \<Rightarrow> uuid \<Rightarrow> bool" where
  "is_run_active w run_id \<longleftrightarrow> run_id \<in> set (w_active w)"

definition schedule_run :: "uuid \<Rightarrow> uuid \<Rightarrow> unit wf_prog" where
  "schedule_run run_id owner_id = opP (\<lambda>w. (schedule_run_task run_id owner_id w, Inr ()))"

fun reconcile_runs :: "wf_run list \<Rightarrow> nat \<Rightarrow> nat wf_prog" where
  "reconcile_runs [] orphaned = ok orphaned"
| "reconcile_runs (run # rest) orphaned =
     bindP (readP (\<lambda>w. is_run_active w (wr_id run))) (\<lambda>active.
       if active then reconcile_runs rest orphaned
       else bindE (schedule_run (wr_id run) (wr_owner_id run)) (\<lambda>_. reconcile_runs rest (Suc orphaned)))"

definition reconcile_orphaned_runs :: "nat wf_prog" where
  "reconcile_orphaned_runs =
     bindP (readP (\<lambda>w. list_runs_by_status w RunRunning)) (\<lambda>runs. reconcile_runs runs 0)"

subsection \<open>Definitions\<close>

text \<open>The order in which the validator iterates its node set is the argument \<open>iteration\<close>.\<close>

definition validate_before_persist ::
    "manager_config \<Rightarrow> (wf_definition \<Rightarrow> string list) \<Rightarrow> wf_definition \<Rightarrow> unit wf_prog" where
  "validate_before_persist cfg iteration d =
     (case validate_graph (mc_validator cfg) (iteration d) d of
        Inl _ \<Rightarrow> raise (WorkflowValidation ''graph validation'')
      | Inr _ \<Rightarrow> ok ())"

definition create_definition ::
    "manager_config \<Rightarrow> (wf_definition \<Rightarrow> string list) \<Rightarrow> wf_definition \<Rightarrow> wf_definition wf_prog" where
  "create_definition cfg iteration d =
     bindE (validate_before_persist cfg iteration d) (\<lambda>_. opP (store_create_definition d))"

definition get_definition :: "uuid \<Rightarrow> uuid \<Rightarrow> wf_definition option wf_prog" where
  "get_definition definition_id owner_id = bindP (readP (\<lambda>w. owned_definition w definition_id owner_id)) ok"

definition definition_not_found :: "manager_config \<Rightarrow> uuid \<Rightarrow> wf_exn" where
  "definition_not_found cfg i =
     WorkflowNotFound (''Workflow definition '' @ ec_uuid_str (mc_exec cfg) i @ '' not found.'')"

definition update_definition ::
    "manager_config \<Rightarrow> (wf_definition \<Rightarrow> string list) \<Rightarrow> wf_definition \<Rightarrow> uuid \<Rightarrow> wf_definition wf_prog" where
  "update_definition cfg iteration d owner_id =
     bindE (get_definition (wd_id d) owner_id) (\<lambda>existing.
       (case existing of
          None \<Rightarrow> raise (definition_not_found cfg (wd_id d))
        | Some old \<Rightarrow>
            if wd_owner_id d \<noteq> owner_id then raise (definition_not_found cfg (wd_id d))
            else
              bindE (validate_before_persist cfg iteration d) (\<lambda>_.
              bindP (readP (\<lambda>w. list_runs w owner_id (Some (wd_id d)) None None 0)) (\<lambda>runs.
              bindE utcnow (\<lambda>now.
                if runs \<noteq> [] then
                  bindE uuid4 (\<lambda>i. opP (store_create_definition
                    (d\<lparr>wd_id := i, wd_owner_id := wd_owner_id old, wd_version := wd_version old + 1,
                       wd_created_at := now, wd_updated_at := now\<rparr>)))
                else
                  opP (store_update_definition
                    (d\<lparr>wd_id := wd_id old, wd_owner_id := wd_owner_id old, wd_version := wd_version old,
                       wd_created_at := wd_created_at old, wd_updated_at := now\<rparr>)
                    (Some (wd_version old)) True))))))"

definition archive_definition :: "manager_config \<Rightarrow> uuid \<Rightarrow> uuid \<Rightarrow> wf_definition wf_prog" where
  "archive_definition cfg definition_id owner_id =
     bindE (get_definition definition_id owner_id) (\<lambda>existing.
       (case existing of
          None \<Rightarrow> raise (definition_not_found cfg definition_id)
        | Some old \<Rightarrow>
            bindE utcnow (\<lambda>now.
              opP (store_update_definition (old\<lparr>wd_status := Archived, wd_updated_at := now\<rparr>)
                     (Some (wd_version old)) False))))"

subsection \<open>Starting a run\<close>

definition new_run ::
    "uuid \<Rightarrow> uuid \<Rightarrow> uuid \<Rightarrow> string \<Rightarrow> uuid option \<Rightarrow> pyval dict \<Rightarrow> datetime \<Rightarrow> wf_run" where
  "new_run i definition_id owner_id key session_id input now =
     \<lparr>wr_id = i, wr_definition_id = definition_id, wr_owner_id = owner_id, wr_idempotency_key = key,
      wr_session_id = session_id, wr_status = RunRunning,
      wr_context = \<lparr>trigger_input = input, variables = [], metadata = []\<rparr>,
      wr_current_node_ids = [], wr_checkpoint_version = 0, wr_error = None, wr_created_at = now,
      wr_updated_at = now, wr_started_at = Some now, wr_completed_at = None\<rparr>"

definition start_run ::
    "manager_config \<Rightarrow> uuid \<Rightarrow> uuid \<Rightarrow> string \<Rightarrow> pyval dict option \<Rightarrow> uuid option \<Rightarrow> bool \<Rightarrow> wf_run wf_prog" where
  "start_run cfg definition_id owner_id idempotency_key input session_id defer_schedule =
     (case normalize_idempotency_key idempotency_key of
        Inl _ \<Rightarrow> raise (WorkflowValidation ''idempotency_key must not be blank.'')
      | Inr normalized_key \<Rightarrow>
     bindE (get_definition definition_id owner_id) (\<lambda>found.
       (case found of
          None \<Rightarrow> raise (definition_not_found cfg definition_id)
        | Some d \<Rightarrow>
            if wd_status d \<noteq> Active
            then raise (WorkflowValidation ''Workflow definition must be active to start a run.'')
            else
              bindE utcnow (\<lambda>now.
                (case validate_identifier_dict_keys (case input of None \<Rightarrow> [] | Some x \<Rightarrow> x) of
                   Inl _ \<Rightarrow> raise (WorkflowValidation ''trigger_input key'')
                 | Inr _ \<Rightarrow>
              bindE uuid4 (\<lambda>i.
              bindE (get_or_create_run (new_run i definition_id owner_id normalized_key session_id
                       (case input of None \<Rightarrow> [] | Some x \<Rightarrow> x) now)) (\<lambda>(result, created).
                if \<not> created then ok result
                else if defer_schedule
                then opP (\<lambda>w. (w\<lparr>w_deferred := w_deferred w @ [(wr_id result, owner_id)]\<rparr>, Inr result))
                else bindE (schedule_run (wr_id result) owner_id) (\<lambda>_. ok result))))))))"

definition flush_deferred_run_schedules :: "wf_world \<Rightarrow> wf_world" where
  "flush_deferred_run_schedules w =
     foldl (\<lambda>w (run_id, owner_id). schedule_run_task run_id owner_id w) (w\<lparr>w_deferred := []\<rparr>) (w_deferred w)"

definition discard_deferred_run_schedules :: "wf_world \<Rightarrow> wf_world" where
  "discard_deferred_run_schedules w = w\<lparr>w_deferred := []\<rparr>"

subsection \<open>Approval decisions\<close>

definition normalize_hitl_reason :: "string option \<Rightarrow> nat \<Rightarrow> string option" where
  "normalize_hitl_reason reason max_len =
     (case reason of None \<Rightarrow> None | Some r \<Rightarrow> Some (if length r \<le> max_len then r else take max_len r))"

definition build_approval_result ::
    "wf_execution \<Rightarrow> approval_decision \<Rightarrow> datetime \<Rightarrow> approval_result" where
  "build_approval_result e decision now =
     \<lparr>re_approval_id = wx_id e, re_status = decision, re_edited = (wx_edited_arguments e \<noteq> None),
      re_final_payload = wx_edited_arguments e, re_reason = wx_reason e, re_approver = wx_decided_by e,
      re_decided_at = (case wx_decided_at e of Some t \<Rightarrow> t | None \<Rightarrow> now)\<rparr>"

definition run_status_after_approval_decision ::
    "bool \<Rightarrow> string list \<Rightarrow> wf_definition \<Rightarrow> run_status" where
  "run_status_after_approval_decision reject_ends_run remaining d =
     (if reject_ends_run then RunFailed
      else if \<exists>i\<in>set remaining. i \<in> wn_id ` set (filter (\<lambda>n. wn_type n = Approval) (wd_nodes d))
        then RunWaitingApproval
      else RunRunning)"

definition workflow_approval_requested_at :: "manager_config \<Rightarrow> wf_execution \<Rightarrow> datetime \<Rightarrow> wf_exn + datetime" where
  "workflow_approval_requested_at cfg e run_created_at =
     (case Option.bind (wx_output e) (\<lambda>out. dict_get out ''approval_requested_at'') of
        Some (PStr raw) \<Rightarrow>
          (case mc_parse_isoformat cfg raw of
             Some t \<Rightarrow> Inr t | None \<Rightarrow> Inl (WorkflowUnexpected ''Invalid isoformat string''))
      | _ \<Rightarrow> (case wx_started_at e of Some t \<Rightarrow> Inr t | None \<Rightarrow> Inr run_created_at))"

text \<open>The run that a decision writes, computed from the run that was read.\<close>

definition decided_run ::
    "wf_run \<Rightarrow> wf_definition \<Rightarrow> wf_node \<Rightarrow> approval_decision \<Rightarrow> string list \<Rightarrow> pyval dict option \<Rightarrow>
     datetime \<Rightarrow> wf_run" where
  "decided_run run d node decision selected_edge_ids edited_arguments now =
     (let reject_ends_run = (decision \<in> {Rejected, Expired} \<and> selected_edge_ids = []);
          output = build_approval_decision_output (wn_id node) decision selected_edge_ids edited_arguments;
          remaining = filter (\<lambda>i. i \<noteq> wn_id node) (wr_current_node_ids run) in
      run\<lparr>wr_status := run_status_after_approval_decision reject_ends_run remaining d,
          wr_context := (wr_context run)
            \<lparr>variables := dict_put (wn_id node) (PDict output) (variables (wr_context run))\<rparr>,
          wr_current_node_ids := remaining,
          wr_error := (if reject_ends_run then Some
              (if decision = Rejected
               then ''Approval node '' @ py_repr (wn_id node) @ '' was rejected.''
               else ''Approval node '' @ py_repr (wn_id node) @ '' expired.'') else None),
          wr_completed_at := (if reject_ends_run then Some now else None),
          wr_updated_at := now,
          wr_checkpoint_version := wr_checkpoint_version run + 1\<rparr>)"

text \<open>An earlier decision on a node that no longer waits: the same one is repeated, another conflicts.\<close>

definition decided_already :: "wf_run \<Rightarrow> wf_execution \<Rightarrow> approval_decision \<Rightarrow> string \<Rightarrow>
    (wf_run \<times> approval_result) wf_prog" where
  "decided_already run e decision otherwise =
     (if wx_decision e = Some decision
      then bindE utcnow (\<lambda>now. ok (run, build_approval_result e decision now))
      else if wx_decision e \<noteq> None
      then raise (WorkflowDecisionConflict ''Approval decision conflicts with an existing decision.'')
      else raise (WorkflowValidation otherwise))"

definition finish_decision ::
    "manager_config \<Rightarrow> wf_definition \<Rightarrow> uuid \<Rightarrow> wf_run \<Rightarrow> wf_execution \<Rightarrow> approval_decision \<Rightarrow> string \<Rightarrow>
     string list \<Rightarrow> (wf_run \<times> approval_result) wf_prog" where
  "finish_decision cfg d owner_id updated_run decided decision node_id selected_edge_ids =
     bindE utcnow (\<lambda>now.
       let result = build_approval_result decided decision now in
       if decision \<in> {Rejected, Expired} \<and> selected_edge_ids = [] then ok (updated_run, result)
       else bindE (continue_from_approval (mc_exec cfg) d updated_run node_id selected_edge_ids) (\<lambda>continued.
            if wr_status updated_run = RunRunning
            then bindE (schedule_run (wr_id continued) owner_id) (\<lambda>_. ok (continued, result))
            else ok (continued, result)))"

definition try_decision ::
    "manager_config \<Rightarrow> uuid \<Rightarrow> uuid \<Rightarrow> uuid \<Rightarrow> approval_decision \<Rightarrow> pyval dict option \<Rightarrow> string option \<Rightarrow>
     wf_definition option \<Rightarrow> (wf_definition option \<Rightarrow> (wf_run \<times> approval_result) wf_prog) \<Rightarrow>
     (wf_run \<times> approval_result) wf_prog" where
  "try_decision cfg run_id execution_id owner_id decision edited_arguments reason known again =
     bindE (get_run run_id owner_id) (\<lambda>found.
       (case found of
          None \<Rightarrow> raise (run_not_found (mc_exec cfg) run_id)
        | Some run \<Rightarrow>
     bindE (get_run_with_executions run_id owner_id) (\<lambda>with_executions.
       (case with_executions of
          None \<Rightarrow> raise (run_not_found (mc_exec cfg) run_id)
        | Some (_, executions) \<Rightarrow>
       (case find (\<lambda>e. wx_id e = execution_id) executions of
          None \<Rightarrow> raise (WorkflowNotFound (''Workflow node execution ''
            @ ec_uuid_str (mc_exec cfg) execution_id @ '' not found.''))
        | Some e \<Rightarrow>
            if wx_node_type e \<noteq> Approval then raise (WorkflowValidation
              ''Only approval node executions accept approve/reject decisions.'')
            else if wr_status run \<noteq> RunWaitingApproval then decided_already run e decision
              ''Workflow run is not waiting for an approval decision.''
            else if wx_status e \<noteq> NodeWaitingApproval then decided_already run e decision
              ''Workflow node execution is not waiting for a decision.''
            else
     bindE (case known of Some d \<Rightarrow> ok (Some d) | None \<Rightarrow> get_definition (wr_definition_id run) owner_id)
       (\<lambda>definition.
       (case definition of
          None \<Rightarrow> raise (definition_not_found cfg (wr_definition_id run))
        | Some d \<Rightarrow>
       (case node_by_id d (wx_node_id e) of
          None \<Rightarrow> raise (WorkflowValidation (''Approval node '' @ py_repr (wx_node_id e)
            @ '' is missing from the definition.''))
        | Some node \<Rightarrow>
       (case resolve_approval_selected_edge_ids node (outgoing_edges d (wn_id node)) decision of
          Inl msg \<Rightarrow> raise (WorkflowValidation msg)
        | Inr selected_edge_ids \<Rightarrow>
     bindE utcnow (\<lambda>now.
       (case workflow_approval_requested_at cfg e (wr_created_at run) of
          Inl exn \<Rightarrow> raise exn
        | Inr _ \<Rightarrow>
     (let updated_run = decided_run run d node decision selected_edge_ids edited_arguments now in
      bindP (record_approval_decision execution_id owner_id decision owner_id
               (if decision = Approved then NodeSucceeded else NodeFailed) updated_run edited_arguments reason)
        (\<lambda>r. (case r of
           Inr decided \<Rightarrow> finish_decision cfg d owner_id updated_run decided decision (wn_id node) selected_edge_ids
         | Inl (WorkflowApprovalCasMiss existing) \<Rightarrow>
             if wx_decision existing = Some decision then
               bindE (get_run run_id owner_id) (\<lambda>latest.
                 (case latest of
                    None \<Rightarrow> raise (run_not_found (mc_exec cfg) run_id)
                  | Some l \<Rightarrow> bindE utcnow (\<lambda>now. ok (l, build_approval_result existing decision now))))
             else raise (WorkflowDecisionConflict ''Approval decision conflicts with an existing decision.'')
         | Inl WorkflowConcurrentUpdate \<Rightarrow> again (Some d)
         | Inl exn \<Rightarrow> raise exn))))))))))))))"

primrec decision_loop ::
    "manager_config \<Rightarrow> uuid \<Rightarrow> uuid \<Rightarrow> uuid \<Rightarrow> approval_decision \<Rightarrow> pyval dict option \<Rightarrow> string option \<Rightarrow>
     nat \<Rightarrow> wf_definition option \<Rightarrow> (wf_run \<times> approval_result) wf_prog" where
  "decision_loop cfg run_id execution_id owner_id decision edited_arguments reason 0 = (\<lambda>known.
     raise (WorkflowValidation ''Workflow approval decision exceeded concurrent retry limit.''))"
| "decision_loop cfg run_id execution_id owner_id decision edited_arguments reason (Suc n) = (\<lambda>known.
     try_decision cfg run_id execution_id owner_id decision edited_arguments reason known
       (if n = 0 then (\<lambda>_. raise WorkflowConcurrentUpdate)
        else decision_loop cfg run_id execution_id owner_id decision edited_arguments reason n))"

definition apply_decision ::
    "manager_config \<Rightarrow> uuid \<Rightarrow> uuid \<Rightarrow> uuid \<Rightarrow> approval_decision \<Rightarrow> pyval dict option \<Rightarrow> string option \<Rightarrow>
     (wf_run \<times> approval_result) wf_prog" where
  "apply_decision cfg run_id execution_id owner_id decision edited_arguments reason =
     (if mc_hitl_enabled cfg
      then decision_loop cfg run_id execution_id owner_id decision edited_arguments
             (normalize_hitl_reason reason (mc_hitl_max_reason_length cfg)) max_approval_decision_retries None
      else decision_loop cfg run_id execution_id owner_id decision None None max_approval_decision_retries None)"

subsection \<open>Cancelling and resuming\<close>

definition cancelled_run :: "datetime \<Rightarrow> wf_run \<Rightarrow> wf_run" where
  "cancelled_run now run = run\<lparr>wr_status := RunCancelled, wr_completed_at := Some now, wr_updated_at := now,
     wr_checkpoint_version := wr_checkpoint_version run + 1\<rparr>"

definition terminal_status :: "run_status \<Rightarrow> bool" where
  "terminal_status s \<longleftrightarrow> s \<in> {RunCompleted, RunFailed, RunCancelled}"

fun run_status_value :: "run_status \<Rightarrow> string" where
  "run_status_value RunPending = ''pending''"
| "run_status_value RunRunning = ''running''"
| "run_status_value RunWaitingApproval = ''waiting_approval''"
| "run_status_value RunCompleted = ''completed''"
| "run_status_value RunFailed = ''failed''"
| "run_status_value RunCancelled = ''cancelled''"

primrec cancel_loop :: "manager_config \<Rightarrow> uuid \<Rightarrow> uuid \<Rightarrow> nat \<Rightarrow> wf_run wf_prog" where
  "cancel_loop cfg run_id owner_id 0 =
     raise (WorkflowValidation ''Workflow run cancellation exceeded concurrent retry limit.'')"
| "cancel_loop cfg run_id owner_id (Suc n) =
     bindE (get_run run_id owner_id) (\<lambda>found.
       (case found of
          None \<Rightarrow> raise (run_not_found (mc_exec cfg) run_id)
        | Some run \<Rightarrow>
            if terminal_status (wr_status run) then ok run
            else if wr_status run \<notin> {RunRunning, RunWaitingApproval} then raise (WorkflowValidation
              (''Workflow run '' @ ec_uuid_str (mc_exec cfg) run_id @ '' cannot be cancelled from status '' @ py_repr (run_status_value (wr_status run)) @ ''.''))
            else bindE utcnow (\<lambda>now.
              bindP (checkpoint_run (cancelled_run now run) (wr_checkpoint_version run)) (\<lambda>r.
                (case r of
                   Inl WorkflowConcurrentUpdate \<Rightarrow>
                     (if n = 0 then raise WorkflowConcurrentUpdate else cancel_loop cfg run_id owner_id n)
                 | _ \<Rightarrow> Ret r)))))"

definition cancel_run :: "manager_config \<Rightarrow> uuid \<Rightarrow> uuid \<Rightarrow> wf_run wf_prog" where
  "cancel_run cfg run_id owner_id = cancel_loop cfg run_id owner_id max_approval_decision_retries"

definition resume :: "manager_config \<Rightarrow> uuid \<Rightarrow> uuid \<Rightarrow> wf_run wf_prog" where
  "resume cfg run_id owner_id =
     bindE (get_run run_id owner_id) (\<lambda>found.
       (case found of
          None \<Rightarrow> raise (run_not_found (mc_exec cfg) run_id)
        | Some run \<Rightarrow>
            if terminal_status (wr_status run) then ok run
            else if wr_status run = RunWaitingApproval then raise (WorkflowValidation
              ''Workflow runs waiting for approval use approve/reject, not resume.'')
            else if wr_status run \<noteq> RunRunning then raise (WorkflowValidation
              (''Workflow run '' @ ec_uuid_str (mc_exec cfg) run_id @ '' cannot be resumed from status '' @ py_repr (run_status_value (wr_status run)) @ ''.''))
            else bindE (schedule_run run_id owner_id) (\<lambda>_. ok run)))"

text \<open>The background task: every exception is caught and logged, then the run id is released.\<close>

definition run_task :: "manager_config \<Rightarrow> nat \<Rightarrow> uuid \<Rightarrow> uuid \<Rightarrow> (wf_world, unit) prog" where
  "run_task cfg fuel run_id owner_id =
     bindP (execute_run (mc_exec cfg) fuel run_id owner_id) (\<lambda>_. Act (release_run_task run_id) (\<lambda>_. Ret ()))"

end
