(* ===== verification/Wf_Examples.thy ===== *)
theory Wf_Examples
  imports Wf_Manager
begin

section \<open>Concrete inputs\<close>

text \<open>
  Small definitions, runs and states on which the properties of the workflow engine are evaluated:
  a workflow that deletes something after an approval, one with a fork and a join, and a run of each.
\<close>

definition delete_tool :: registered_tool where
  "delete_tool = \<lparr>rt_definition = \<lparr>td_name = ''delete'', td_description = ''Delete'', td_parameters = [],
     td_requires_approval = True, td_category = None, td_risk_level = None, td_data_sensitivity = None\<rparr>,
     rt_receipt_aware = True\<rparr>"

definition hitl_validator :: graph_validator where
  "hitl_validator = \<lparr>gv_max_nodes = 50, gv_max_parallel_branches = 8, gv_plugins_enabled = False,
     gv_plugin_registry = None, gv_workflow_plugin_registry = None, gv_hitl_enabled = True,
     gv_tool_registry = Some [(''delete'', delete_tool)],
     gv_approval_policy = Some \<lparr>ap_required_tool_names = [], ap_rules = None, ap_environment = None\<rparr>,
     gv_regex_search = (\<lambda>p s i j. False), gv_as_text = (\<lambda>v. [])\<rparr>"

definition plain_node :: "string \<Rightarrow> node_type \<Rightarrow> pyval dict \<Rightarrow> wf_node" where
  "plain_node i t cfg = \<lparr>wn_id = i, wn_type = t, wn_config = cfg, wn_retry_policy = None, wn_timeout_seconds = None\<rparr>"

definition plain_edge :: "string \<Rightarrow> string \<Rightarrow> string \<Rightarrow> wf_edge" where
  "plain_edge i a b = \<lparr>we_id = i, we_from = a, we_to = b, we_condition = None\<rparr>"

definition plain_definition :: "string \<Rightarrow> wf_node list \<Rightarrow> wf_edge list \<Rightarrow> wf_definition" where
  "plain_definition entry ns es = \<lparr>wd_id = 7, wd_owner_id = 1, wd_name = ''w'', wd_description = None, wd_version = 1,
     wd_status = Active, wd_entry_node_id = entry, wd_nodes = ns, wd_edges = es, wd_metadata = [],
     wd_created_at = 0, wd_updated_at = 0\<rparr>"

definition approval_workflow :: wf_definition where
  "approval_workflow = plain_definition ''ask''
     [plain_node ''ask'' Approval [], plain_node ''del'' Task [(''tool_name'', PStr ''delete'')],
      plain_node ''end'' Terminal []]
     [plain_edge ''e1'' ''ask'' ''del'', plain_edge ''e2'' ''del'' ''end'']"

definition fork_workflow :: wf_definition where
  "fork_workflow = plain_definition ''f''
     [plain_node ''f'' Fork [(''join_node_id'', PStr ''j'')], plain_node ''a'' Terminal [], plain_node ''b'' Terminal [],
      plain_node ''j'' Join [(''fork_node_id'', PStr ''f'')]]
     [plain_edge ''1'' ''f'' ''a'', plain_edge ''2'' ''f'' ''b'', plain_edge ''3'' ''a'' ''j'', plain_edge ''4'' ''b'' ''j'']"

definition plain_run :: "pyval dict \<Rightarrow> string list \<Rightarrow> run_status \<Rightarrow> wf_run" where
  "plain_run vars current st = \<lparr>wr_id = 3, wr_definition_id = 7, wr_owner_id = 1, wr_idempotency_key = ''k'',
     wr_session_id = None, wr_status = st,
     wr_context = \<lparr>trigger_input = [], variables = vars, metadata = []\<rparr>, wr_current_node_ids = current,
     wr_checkpoint_version = 0, wr_error = None, wr_created_at = 0, wr_updated_at = 0, wr_started_at = Some 0,
     wr_completed_at = None\<rparr>"

definition plain_world :: "wf_definition list \<Rightarrow> wf_run list \<Rightarrow> wf_world" where
  "plain_world ds rs = \<lparr>w_defs = ds, w_runs = rs, w_execs = [], w_flushed = [], w_revisions = [], w_now = 0,
     w_next_uuid = 100, w_calls = 0, w_tick = 0, w_sched = (\<lambda>_. True), w_active = [], w_deferred = [], w_tasks = []\<rparr>"

lemmas example_defs = delete_tool_def hitl_validator_def plain_node_def plain_edge_def plain_definition_def
  approval_workflow_def fork_workflow_def plain_run_def plain_world_def

end
