(* ===== verification/Wf_Validator_Correct.thy ===== *)
theory Wf_Validator_Correct
  imports Wf_Validator
begin

section \<open>What the graph validator accepts\<close>

text \<open>
  The declarative side of \<open>Wf_Validator\<close>: the edge relation of a definition, walks, the
  predicate \<open>accepted\<close>, and the proof that \<open>validate_graph\<close> succeeds exactly on accepted
  definitions, whatever order Python iterates the set of node ids in.
\<close>

definition def_edges :: "wf_definition \<Rightarrow> (string \<times> string) set" where
  "def_edges d = {(we_from e, we_to e) | e. e \<in> set (wd_edges d)}"

definition node_id_set :: "wf_definition \<Rightarrow> string set" where
  "node_id_set d = wn_id ` set (wd_nodes d)"

lemma edge_rel_def_edges: "edge_rel (build_adjacency (wd_edges d) ids) = def_edges d"
  by (simp add: edge_rel_build def_edges_def)

lemma def_edges_nodes:
  "wf_definition_ok d \<Longrightarrow> (a, b) \<in> def_edges d \<Longrightarrow> a \<in> node_id_set d \<and> b \<in> node_id_set d"
  by (auto simp: wf_definition_ok_iff def_edges_def node_id_set_def)

lemma finite_def_edges: "finite (def_edges d)"
proof -
  have "def_edges d = (\<lambda>e. (we_from e, we_to e)) ` set (wd_edges d)" by (auto simp: def_edges_def)
  then show ?thesis by simp
qed

lemma iterates_set: "iterates ids d \<Longrightarrow> set ids = node_id_set d"
  by (simp add: iterates_def node_id_set_def)

subsection \<open>Cycles and reachability\<close>

lemma keys_build_adjacency:
  "set (dict_keys (build_adjacency es ids)) = set ids \<union> we_from ` set es"
proof -
  have "set (dict_keys (foldl (\<lambda>adj e. dict_append (we_from e) (we_to e) adj) d es)) =
      set (dict_keys d) \<union> we_from ` set es" for d
    by (induction es arbitrary: d) (auto simp: dict_append_def)
  moreover have "set (dict_keys (map (\<lambda>i. (i, [] :: string list)) ids)) = set ids"
    by (induction ids) (simp_all add: dict_keys_def)
  ultimately show ?thesis by (simp add: build_adjacency_def)
qed

lemma validate_cycles_iff:
  assumes "wf_definition_ok d" and "iterates ids d"
  shows "validate_cycles d ids = Inr () \<longleftrightarrow> acyclic (def_edges d)"
proof -
  have "set (dict_keys (build_adjacency (wd_edges d) ids)) \<subseteq> set ids"
    using assms by (auto simp: keys_build_adjacency iterates_def wf_definition_ok_iff)
  then have "(\<exists>V. visit_list (build_adjacency (wd_edges d) ids) {} {} ids = Inr V) \<longleftrightarrow>
      acyclic (def_edges d)"
    by (subst visit_list_iff_acyclic) (simp_all add: edge_rel_def_edges)
  then show ?thesis by (auto simp: validate_cycles_def split: sum.splits)
qed

lemma reachable_nodes_eq: "reachable_nodes d ids = {n. (wd_entry_node_id d, n) \<in> (def_edges d)\<^sup>*}"
proof -
  have "stop_rel (build_adjacency (wd_edges d) ids) (\<lambda>_. False) = def_edges d"
    using edge_rel_def_edges [of d ids] by (simp add: stop_rel_def edge_rel_def)
  then show ?thesis by (simp add: reachable_nodes_def stack_search_reachable)
qed

lemma validate_reachability_iff:
  assumes "iterates ids d"
  shows "validate_reachability d ids = Inr () \<longleftrightarrow>
     (\<forall>n\<in>node_id_set d. (wd_entry_node_id d, n) \<in> (def_edges d)\<^sup>*)"
proof -
  have "sort (filter (\<lambda>i. i \<notin> reachable_nodes d ids) ids) = [] \<longleftrightarrow>
      (\<forall>i\<in>set ids. i \<in> reachable_nodes d ids)"
    by (metis (mono_tags, lifting) filter_empty_conv set_empty set_sort)
  then show ?thesis
    using iterates_set [OF assms] by (simp add: validate_reachability_def Let_def reachable_nodes_eq)
qed

subsection \<open>Pairing of forks and joins\<close>

text \<open>
  \<open>fork_target d f\<close> is the join a fork names, \<open>join_target d j\<close> the fork a join names, when the
  reference is a non-blank string that names a node of the right type.
\<close>

definition fork_target :: "wf_definition \<Rightarrow> wf_node \<Rightarrow> string option" where
  "fork_target d n = (case nonblank_str (dict_get (wn_config n) ''join_node_id'') of
     None \<Rightarrow> None | Some j \<Rightarrow> if node_type_of d j = Some Join then Some j else None)"

definition join_target :: "wf_definition \<Rightarrow> wf_node \<Rightarrow> string option" where
  "join_target d n = (case nonblank_str (dict_get (wn_config n) ''fork_node_id'') of
     None \<Rightarrow> None | Some f \<Rightarrow> if node_type_of d f = Some Fork then Some f else None)"

definition branch_count :: "wf_definition \<Rightarrow> wf_node \<Rightarrow> nat" where
  "branch_count d n = length (filter (\<lambda>e. we_from e = wn_id n) (wd_edges d))"

definition forks_joins_paired :: "graph_validator \<Rightarrow> wf_definition \<Rightarrow> bool" where
  "forks_joins_paired gv d \<longleftrightarrow>
     (\<forall>f\<in>set (wd_nodes d). wn_type f = Fork \<longrightarrow> branch_count d f \<le> gv_max_parallel_branches gv \<and>
        (\<exists>j\<in>set (wd_nodes d). wn_type j = Join \<and> fork_target d f = Some (wn_id j) \<and>
           join_target d j = Some (wn_id f))) \<and>
     (\<forall>j\<in>set (wd_nodes d). wn_type j = Join \<longrightarrow>
        (\<exists>f\<in>set (wd_nodes d). wn_type f = Fork \<and> join_target d j = Some (wn_id f) \<and>
           fork_target d f = Some (wn_id j)))"

lemma node_type_of_in: "node_type_of d i = Some t \<Longrightarrow> i \<in> node_id_set d"
  by (auto simp: node_type_of_def node_id_set_def dest: node_by_id_Some)

lemma pair_fork_iff:
  assumes "iterates ids d"
  shows "pair_fork gv d ids m n = Inr m' \<longleftrightarrow>
     (\<exists>j. fork_target d n = Some j \<and> dict_get m (wn_id n) = None \<and>
        branch_count d n \<le> gv_max_parallel_branches gv \<and> m' = dict_put (wn_id n) j m)"
  using iterates_set [OF assms]
  by (auto simp: pair_fork_def fork_target_def branch_count_def Let_def node_type_of_in
      split: option.splits if_splits)

lemma pair_join_iff:
  assumes "iterates ids d"
  shows "pair_join d ids m n = Inr m' \<longleftrightarrow>
     (\<exists>f. join_target d n = Some f \<and> dict_get m (wn_id n) = None \<and> m' = dict_put (wn_id n) f m)"
  using iterates_set [OF assms]
  by (auto simp: pair_join_def join_target_def node_type_of_in split: option.splits if_splits)

text \<open>What the loop over the nodes has collected after the nodes \<open>done\<close>.\<close>

definition pairs_of :: "wf_definition \<Rightarrow> wf_node list \<Rightarrow> pairing \<Rightarrow> bool" where
  "pairs_of d ns p \<longleftrightarrow>
     (\<forall>k v. dict_get (fst p) k = Some v \<longleftrightarrow>
        (\<exists>n\<in>set ns. wn_type n = Fork \<and> wn_id n = k \<and> fork_target d n = Some v)) \<and>
     (\<forall>k v. dict_get (snd p) k = Some v \<longleftrightarrow>
        (\<exists>n\<in>set ns. wn_type n = Join \<and> wn_id n = k \<and> join_target d n = Some v)) \<and>
     distinct (dict_keys (fst p)) \<and> distinct (dict_keys (snd p))"

lemma pairs_of_absent:
  assumes "pairs_of d ns p" and "wn_id n \<notin> wn_id ` set ns"
  shows "dict_get (fst p) (wn_id n) = None" and "dict_get (snd p) (wn_id n) = None"
proof -
  have *: "m \<in> set ns \<Longrightarrow> wn_id m \<noteq> wn_id n" for m using assms(2) by (metis image_eqI)
  show "dict_get (fst p) (wn_id n) = None"
  proof (rule ccontr)
    assume "dict_get (fst p) (wn_id n) \<noteq> None"
    then obtain v where "dict_get (fst p) (wn_id n) = Some v" by blast
    then obtain m where "m \<in> set ns" "wn_id m = wn_id n" using assms(1) unfolding pairs_of_def by blast
    with * show False by blast
  qed
  show "dict_get (snd p) (wn_id n) = None"
  proof (rule ccontr)
    assume "dict_get (snd p) (wn_id n) \<noteq> None"
    then obtain v where "dict_get (snd p) (wn_id n) = Some v" by blast
    then obtain m where "m \<in> set ns" "wn_id m = wn_id n" using assms(1) unfolding pairs_of_def by blast
    with * show False by blast
  qed
qed

lemma pairs_of_step:
  assumes "pairs_of d ns p" and "wn_id n \<notin> wn_id ` set ns"
  shows "wn_type n = Fork \<Longrightarrow> fork_target d n = Some j \<Longrightarrow>
      pairs_of d (ns @ [n]) (dict_put (wn_id n) j (fst p), snd p)"
    and "wn_type n = Join \<Longrightarrow> join_target d n = Some f \<Longrightarrow>
      pairs_of d (ns @ [n]) (fst p, dict_put (wn_id n) f (snd p))"
    and "wn_type n \<noteq> Fork \<Longrightarrow> wn_type n \<noteq> Join \<Longrightarrow> pairs_of d (ns @ [n]) p"
proof -
  have neq: "wn_id m \<noteq> wn_id n" if "m \<in> set ns" for m using assms(2) that by (metis image_eqI)
  show "wn_type n = Fork \<Longrightarrow> fork_target d n = Some j \<Longrightarrow>
      pairs_of d (ns @ [n]) (dict_put (wn_id n) j (fst p), snd p)"
    using assms(1) neq by (auto simp: pairs_of_def split: if_splits)
  show "wn_type n = Join \<Longrightarrow> join_target d n = Some f \<Longrightarrow>
      pairs_of d (ns @ [n]) (fst p, dict_put (wn_id n) f (snd p))"
    using assms(1) neq by (auto simp: pairs_of_def split: if_splits)
  show "wn_type n \<noteq> Fork \<Longrightarrow> wn_type n \<noteq> Join \<Longrightarrow> pairs_of d (ns @ [n]) p"
    using assms(1) by (auto simp: pairs_of_def)
qed

definition node_pairable :: "graph_validator \<Rightarrow> wf_definition \<Rightarrow> wf_node \<Rightarrow> bool" where
  "node_pairable gv d n \<longleftrightarrow>
     (wn_type n = Fork \<longrightarrow> fork_target d n \<noteq> None \<and> branch_count d n \<le> gv_max_parallel_branches gv) \<and>
     (wn_type n = Join \<longrightarrow> join_target d n \<noteq> None)"

lemma pair_node_step:
  assumes "iterates ids d" and "pairs_of d ns p" and "wn_id n \<notin> wn_id ` set ns"
  shows "(\<exists>p'. pair_node gv d ids p n = Inr p') \<longleftrightarrow> node_pairable gv d n"
    and "pair_node gv d ids p n = Inr p' \<Longrightarrow> pairs_of d (ns @ [n]) p'"
proof -
  note absent = pairs_of_absent [OF assms(2,3)]
  show "(\<exists>p'. pair_node gv d ids p n = Inr p') \<longleftrightarrow> node_pairable gv d n"
    using absent by (auto simp: pair_node_def node_pairable_def bindR_eq_Inr
        pair_fork_iff [OF assms(1)] pair_join_iff [OF assms(1)])
  show "pairs_of d (ns @ [n]) p'" if "pair_node gv d ids p n = Inr p'"
    using that absent pairs_of_step [OF assms(2,3)]
    by (auto simp: pair_node_def bindR_eq_Inr pair_fork_iff [OF assms(1)] pair_join_iff [OF assms(1)]
        split: if_splits)
qed

lemma pair_nodes_fold:
  assumes "iterates ids d" and "pairs_of d us p" and "distinct (map wn_id (us @ ns))"
  shows "(\<exists>p'. foldR (pair_node gv d ids) p ns = Inr p') \<longleftrightarrow> (\<forall>n\<in>set ns. node_pairable gv d n)"
    and "foldR (pair_node gv d ids) p ns = Inr p' \<Longrightarrow> pairs_of d (us @ ns) p'"
proof -
  have "((\<exists>p'. foldR (pair_node gv d ids) p ns = Inr p') \<longleftrightarrow> (\<forall>n\<in>set ns. node_pairable gv d n)) \<and>
      (\<forall>p'. foldR (pair_node gv d ids) p ns = Inr p' \<longrightarrow> pairs_of d (us @ ns) p')"
    using assms(2,3)
  proof (induction ns arbitrary: us p)
    case Nil
    then show ?case by simp
  next
    case (Cons n ns)
    have "wn_id n \<notin> wn_id ` set us" using Cons.prems(2) by auto
    note step = pair_node_step [OF assms(1) Cons.prems(1) this, of gv]
    show ?case
    proof (cases "pair_node gv d ids p n")
      case (Inl e)
      with step(1) show ?thesis by auto
    next
      case (Inr q)
      with Cons.IH [OF step(2) [OF Inr]] Cons.prems(2) step(1) show ?thesis by auto
    qed
  qed
  then show "(\<exists>p'. foldR (pair_node gv d ids) p ns = Inr p') \<longleftrightarrow> (\<forall>n\<in>set ns. node_pairable gv d n)"
    and "foldR (pair_node gv d ids) p ns = Inr p' \<Longrightarrow> pairs_of d (us @ ns) p'" by blast+
qed

lemma check_paired_iff:
  assumes "distinct (dict_keys a)"
  shows "check_paired a b = Inr () \<longleftrightarrow> (\<forall>k v. dict_get a k = Some v \<longrightarrow> dict_get b v = Some k)"
proof -
  have "(k, v) \<in> set a \<longleftrightarrow> dict_get a k = Some v" for k v
    using assms by (simp add: dict_get_def dict_keys_def)
  then show ?thesis by (simp add: check_paired_def forR_eq_Inr Ball_def split_paired_All)
qed

lemma node_type_of_mem:
  assumes "wf_definition_ok d"
  shows "node_type_of d i = Some t \<longleftrightarrow> (\<exists>n\<in>set (wd_nodes d). wn_id n = i \<and> wn_type n = t)"
proof
  assume "node_type_of d i = Some t"
  then show "\<exists>n\<in>set (wd_nodes d). wn_id n = i \<and> wn_type n = t"
    by (auto simp: node_type_of_def dest: node_by_id_Some)
next
  assume "\<exists>n\<in>set (wd_nodes d). wn_id n = i \<and> wn_type n = t"
  then show "node_type_of d i = Some t"
    using assms node_by_id_mem [of d] by (auto simp: node_type_of_def wf_definition_ok_iff)
qed

lemma validate_pairing_iff:
  assumes ok: "wf_definition_ok d" and it: "iterates ids d"
  shows "validate_fork_join_pairing gv d ids = Inr () \<longleftrightarrow> forks_joins_paired gv d"
proof -
  have dist: "distinct (map wn_id (wd_nodes d))" using ok by (simp add: wf_definition_ok_iff)
  have inj: "n = m" if "n \<in> set (wd_nodes d)" "m \<in> set (wd_nodes d)" "wn_id n = wn_id m" for n m
    using dist that by (simp add: distinct_map inj_on_def)
  have start: "pairs_of d [] ([], [])" by (simp add: pairs_of_def dict_get_def dict_keys_def)
  note fold = pair_nodes_fold [OF it start, of "wd_nodes d" gv, simplified, OF dist]
  have target_fork: "\<exists>j\<in>set (wd_nodes d). wn_type j = Join \<and> wn_id j = v"
    if "fork_target d n = Some v" for n v
    using that by (auto simp: fork_target_def node_type_of_mem [OF ok] split: option.splits if_splits)
  have target_join: "\<exists>f\<in>set (wd_nodes d). wn_type f = Fork \<and> wn_id f = v"
    if "join_target d n = Some v" for n v
    using that by (auto simp: join_target_def node_type_of_mem [OF ok] split: option.splits if_splits)
  show ?thesis
  proof (cases "foldR (pair_node gv d ids) ([], []) (wd_nodes d)")
    case (Inl e)
    with fold(1) obtain n where n: "n \<in> set (wd_nodes d)" "\<not> node_pairable gv d n" by auto
    then have "\<not> forks_joins_paired gv d"
      by (force simp: node_pairable_def forks_joins_paired_def)
    with Inl show ?thesis by (simp add: validate_fork_join_pairing_def)
  next
    case (Inr p)
    then have pairs: "pairs_of d (wd_nodes d) p" by (rule fold(2))
    have "\<forall>n\<in>set (wd_nodes d). node_pairable gv d n" using fold(1) Inr by auto
    then have able: "wn_type n = Fork \<Longrightarrow> branch_count d n \<le> gv_max_parallel_branches gv \<and>
        (\<exists>v. fork_target d n = Some v)"
      "wn_type n = Join \<Longrightarrow> (\<exists>v. join_target d n = Some v)" if "n \<in> set (wd_nodes d)" for n
      using that by (auto simp: node_pairable_def)
    have fk: "dict_get (fst p) k = Some v \<longleftrightarrow>
        (\<exists>n\<in>set (wd_nodes d). wn_type n = Fork \<and> wn_id n = k \<and> fork_target d n = Some v)" for k v
      using pairs by (simp add: pairs_of_def)
    have jn: "dict_get (snd p) k = Some v \<longleftrightarrow>
        (\<exists>n\<in>set (wd_nodes d). wn_type n = Join \<and> wn_id n = k \<and> join_target d n = Some v)" for k v
      using pairs by (simp add: pairs_of_def)
    have "validate_fork_join_pairing gv d ids = Inr () \<longleftrightarrow>
        (\<forall>k v. dict_get (fst p) k = Some v \<longrightarrow> dict_get (snd p) v = Some k) \<and>
        (\<forall>k v. dict_get (snd p) k = Some v \<longrightarrow> dict_get (fst p) v = Some k)"
      using Inr pairs
      by (cases p) (simp add: validate_fork_join_pairing_def thenR_eq_Inr check_paired_iff pairs_of_def)
    also have "\<dots> \<longleftrightarrow> forks_joins_paired gv d"
    proof
      assume l: "(\<forall>k v. dict_get (fst p) k = Some v \<longrightarrow> dict_get (snd p) v = Some k) \<and>
        (\<forall>k v. dict_get (snd p) k = Some v \<longrightarrow> dict_get (fst p) v = Some k)"
      show "forks_joins_paired gv d"
        unfolding forks_joins_paired_def
      proof (intro conjI ballI impI)
        fix f
        assume f: "f \<in> set (wd_nodes d)" "wn_type f = Fork"
        then show "branch_count d f \<le> gv_max_parallel_branches gv" using able by blast
        from f able obtain v where v: "fork_target d f = Some v" by blast
        with f fk l have "dict_get (snd p) v = Some (wn_id f)" by blast
        with jn v show "\<exists>j\<in>set (wd_nodes d). wn_type j = Join \<and> fork_target d f = Some (wn_id j) \<and>
           join_target d j = Some (wn_id f)" by auto
      next
        fix j
        assume j: "j \<in> set (wd_nodes d)" "wn_type j = Join"
        then obtain v where v: "join_target d j = Some v" using able by blast
        with j jn l have "dict_get (fst p) v = Some (wn_id j)" by blast
        with fk v show "\<exists>f\<in>set (wd_nodes d). wn_type f = Fork \<and> join_target d j = Some (wn_id f) \<and>
           fork_target d f = Some (wn_id j)" by auto
      qed
    next
      assume r: "forks_joins_paired gv d"
      then show "(\<forall>k v. dict_get (fst p) k = Some v \<longrightarrow> dict_get (snd p) v = Some k) \<and>
        (\<forall>k v. dict_get (snd p) k = Some v \<longrightarrow> dict_get (fst p) v = Some k)"
        unfolding fk jn by (fastforce simp: forks_joins_paired_def)
    qed
    finally show ?thesis .
  qed
qed

end
