(* ===== verification/Wf_Approval_Guard.thy ===== *)
theory Wf_Approval_Guard
  imports Wf_Validator_Correct
begin

section \<open>The approval guard of the validator\<close>

text \<open>
  The topological order lists every node of an acyclic graph once, after its predecessors; the
  protection pass over it marks a node exactly when every walk from the entry node crosses an
  approval node; and the whole validation succeeds exactly on the definitions that \<open>accepted\<close>
  describes.
\<close>

subsection \<open>One relaxation\<close>

lemma relax_fst: "fst (relax ss remaining ready) s = remaining s - int (count_list ss s)"
  by (induction ss arbitrary: remaining ready) (auto simp: Let_def)

lemma count_list_pos: "0 < count_list xs x \<longleftrightarrow> x \<in> set xs"
  by (induction xs) auto

lemma relax_ready:
  assumes "\<forall>s. int (count_list ss s) \<le> remaining s" and "distinct ready" and "set ready \<inter> set ss = {}"
  shows "distinct (snd (relax ss remaining ready)) \<and>
    set (snd (relax ss remaining ready)) =
      set ready \<union> {s\<in>set ss. remaining s = int (count_list ss s)}"
  using assms
proof (induction ss arbitrary: remaining ready)
  case Nil
  then show ?case by simp
next
  case (Cons x ss)
  let ?r = "remaining(x := remaining x - 1)"
  let ?q = "if ?r x = 0 then sort (ready @ [x]) else ready"
  have le: "\<forall>s. int (count_list ss s) \<le> ?r s"
  proof
    fix s
    show "int (count_list ss s) \<le> ?r s"
      using Cons.prems(1) [rule_format, of s] by (cases "s = x") auto
  qed
  have zero: "?r x = 0 \<Longrightarrow> x \<notin> set ss"
    using le [rule_format, of x] count_list_pos [of ss x] by auto
  have "distinct ?q" using Cons.prems by auto
  moreover have "set ?q \<inter> set ss = {}" using Cons.prems zero by auto
  ultimately have IH: "distinct (snd (relax ss ?r ?q)) \<and> set (snd (relax ss ?r ?q)) =
      set ?q \<union> {s\<in>set ss. ?r s = int (count_list ss s)}"
    using le by (intro Cons.IH) simp_all
  have "set ?q \<union> {s\<in>set ss. ?r s = int (count_list ss s)} =
      set ready \<union> {s\<in>set (x # ss). remaining s = int (count_list (x # ss) s)}"
  proof (cases "x \<in> set ss")
    case True
    with zero have "?r x \<noteq> 0" by blast
    with True show ?thesis by auto
  next
    case False
    then have "count_list ss x = 0" using count_list_pos [of ss x] by auto
    with False show ?thesis by auto
  qed
  with IH show ?case by (simp add: Let_def)
qed

subsection \<open>The loop\<close>

definition remaining_ok :: "adjacency \<Rightarrow> string set \<Rightarrow> string set \<Rightarrow> (string \<Rightarrow> int) \<Rightarrow> bool" where
  "remaining_ok adj ids D remaining \<longleftrightarrow>
     (\<forall>s. remaining s = (\<Sum>a\<in>ids - D. int (count_list (succs adj a) s)))"

lemma remaining_ok_step:
  assumes "remaining_ok adj ids D remaining" and "finite ids" and "n \<in> ids - D"
  shows "remaining_ok adj ids (insert n D) (\<lambda>s. remaining s - int (count_list (succs adj n) s))"
    and "int (count_list (succs adj n) s) \<le> remaining s"
proof -
  have split: "(\<Sum>a\<in>ids - D. int (count_list (succs adj a) s)) =
      int (count_list (succs adj n) s) + (\<Sum>a\<in>ids - insert n D. int (count_list (succs adj a) s))" for s
  proof -
    have "(ids - D) - {n} = ids - insert n D" by blast
    then show ?thesis
      using sum.remove [of "ids - D" n "\<lambda>a. int (count_list (succs adj a) s)"] assms(2,3) by simp
  qed
  then show "remaining_ok adj ids (insert n D) (\<lambda>s. remaining s - int (count_list (succs adj n) s))"
    using assms(1) by (simp add: remaining_ok_def)
  have "0 \<le> (\<Sum>a\<in>ids - insert n D. int (count_list (succs adj a) s))" by (rule sum_nonneg) simp
  then show "int (count_list (succs adj n) s) \<le> remaining s"
    using assms(1) split [of s] by (simp add: remaining_ok_def)
qed

lemma remaining_zero_pred:
  assumes "remaining_ok adj ids D remaining" and "finite ids"
  shows "remaining s = 0 \<longleftrightarrow> (\<forall>a\<in>ids - D. s \<notin> set (succs adj a))"
proof -
  have "(\<Sum>a\<in>ids - D. int (count_list (succs adj a) s)) = 0 \<longleftrightarrow>
      (\<forall>a\<in>ids - D. int (count_list (succs adj a) s) = 0)"
    using assms(2) by (intro sum_nonneg_eq_0_iff) simp_all
  also have "\<dots> \<longleftrightarrow> (\<forall>a\<in>ids - D. s \<notin> set (succs adj a))"
    by (simp add: count_list_0_iff)
  finally show ?thesis using assms(1) unfolding remaining_ok_def by metis
qed

definition loop_ok :: "adjacency \<Rightarrow> string set \<Rightarrow> string set \<Rightarrow> string list \<Rightarrow> (string \<Rightarrow> int) \<Rightarrow> bool" where
  "loop_ok adj ids D ready remaining \<longleftrightarrow>
     D \<subseteq> ids \<and> distinct ready \<and> set ready = {s\<in>ids - D. remaining s = 0} \<and>
     remaining_ok adj ids D remaining \<and> (\<forall>s\<in>D. remaining s = 0)"

lemma loop_ok_step:
  assumes closed: "\<forall>a\<in>ids. set (succs adj a) \<subseteq> ids" and fin: "finite ids"
    and ok: "loop_ok adj ids D (n # ready) remaining"
  shows "loop_ok adj ids (insert n D) (snd (relax (succs adj n) remaining ready))
           (fst (relax (succs adj n) remaining ready))"
proof -
  let ?c = "\<lambda>s. int (count_list (succs adj n) s)"
  have rem: "remaining_ok adj ids D remaining" and n: "n \<in> ids - D" and zn: "remaining n = 0"
    and D: "D \<subseteq> ids" "\<forall>s\<in>D. remaining s = 0" and dist: "distinct ready" "n \<notin> set ready"
    and ready: "insert n (set ready) = {s\<in>ids - D. remaining s = 0}"
    using ok by (auto simp: loop_ok_def)
  note step = remaining_ok_step [OF rem fin n]
  have fst_eq: "fst (relax (succs adj n) remaining ready) = (\<lambda>s. remaining s - ?c s)"
    by (simp add: relax_fst fun_eq_iff)
  have no: "remaining s = 0 \<Longrightarrow> s \<notin> set (succs adj n)" for s
    using remaining_zero_pred [OF rem fin, of s] n by blast
  then have c0: "remaining s = 0 \<Longrightarrow> ?c s = 0" for s
    using count_list_pos [of "succs adj n" s] by fastforce
  have "set ready \<inter> set (succs adj n) = {}" using no ready by blast
  then have r: "distinct (snd (relax (succs adj n) remaining ready))"
      "set (snd (relax (succs adj n) remaining ready)) =
         set ready \<union> {s\<in>set (succs adj n). remaining s = ?c s}"
    using relax_ready [of "succs adj n" remaining ready] step(2) dist by auto
  have "set ready \<union> {s\<in>set (succs adj n). remaining s = ?c s} =
      {s\<in>ids - insert n D. remaining s - ?c s = 0}" (is "?L = ?R")
  proof
    show "?L \<subseteq> ?R"
    proof
      fix s
      assume "s \<in> ?L"
      then show "s \<in> ?R"
      proof
        assume "s \<in> set ready"
        then have "s \<in> {s\<in>ids - D. remaining s = 0}" and "s \<noteq> n" using ready dist(2) by blast+
        with c0 show ?thesis by simp
      next
        assume s: "s \<in> {s\<in>set (succs adj n). remaining s = ?c s}"
        then have "remaining s \<noteq> 0" using no by blast
        with s D(2) zn closed n show ?thesis by auto
      qed
    qed
    show "?R \<subseteq> ?L"
    proof
      fix s
      assume s: "s \<in> ?R"
      show "s \<in> ?L"
      proof (cases "s \<in> set (succs adj n)")
        case True
        with s show ?thesis by simp
      next
        case False
        then have "count_list (succs adj n) s = 0" using count_list_pos [of "succs adj n" s] by auto
        with s ready show ?thesis by auto
      qed
    qed
  qed
  moreover have "\<forall>s\<in>insert n D. remaining s - ?c s = 0" using D(2) zn c0 by simp
  ultimately show ?thesis
    using r step(1) n D(1) unfolding loop_ok_def fst_eq by auto
qed

lemma topological_loop_props:
  assumes "\<forall>a\<in>ids. set (succs adj a) \<subseteq> ids" and "finite ids" and "loop_ok adj ids D ready remaining"
  shows "distinct (topological_loop adj ready remaining) \<and>
    set (topological_loop adj ready remaining) \<subseteq> ids - D \<and>
    (\<forall>xs n ys. topological_loop adj ready remaining = xs @ n # ys \<longrightarrow>
       (\<forall>p\<in>ids. n \<in> set (succs adj p) \<longrightarrow> p \<in> D \<union> set xs)) \<and>
    (\<forall>s\<in>ids - D - set (topological_loop adj ready remaining).
       \<exists>p\<in>ids - D - set (topological_loop adj ready remaining). s \<in> set (succs adj p))"
  using assms
proof (induction adj ready remaining arbitrary: D rule: topological_loop.induct)
  case (1 adj remaining)
  have "\<exists>p\<in>ids - D. s \<in> set (succs adj p)" if "s \<in> ids - D" for s
  proof -
    have "remaining s \<noteq> 0" using 1(3) that by (auto simp: loop_ok_def)
    then show ?thesis using remaining_zero_pred [of adj ids D remaining s] 1 by (auto simp: loop_ok_def)
  qed
  then show ?case by simp
next
  case (2 adj n ready remaining)
  let ?R = "topological_loop adj (snd (relax (succs adj n) remaining ready))
              (fst (relax (succs adj n) remaining ready))"
  have n: "n \<in> ids - D" "remaining n = 0" "remaining_ok adj ids D remaining"
    using "2.prems"(3) by (auto simp: loop_ok_def)
  have pn: "p \<in> D" if "p \<in> ids" "n \<in> set (succs adj p)" for p
    using remaining_zero_pred [OF n(3) "2.prems"(2), of n] n(2) that by blast
  note IH = "2.IH" [OF "2.prems"(1,2) loop_ok_step [OF "2.prems"]]
  have topo: "p \<in> D \<union> set xs"
    if e: "n # ?R = xs @ m # ys" and p: "p \<in> ids" "m \<in> set (succs adj p)" for xs m ys p
  proof (cases xs)
    case Nil
    with e have "m = n" by simp
    with pn p show ?thesis by blast
  next
    case (Cons x xs')
    have "n # ?R = x # (xs' @ m # ys)" using e unfolding Cons append_Cons .
    then have eq: "n = x \<and> ?R = xs' @ m # ys" by (rule list.inject [THEN iffD1])
    have "x = n" using conjunct1 [OF eq] by (rule sym)
    from IH p conjunct2 [OF eq] have "p \<in> insert n D \<union> set xs'" by blast
    with Cons \<open>x = n\<close> show ?thesis by auto
  qed
  have rest: "\<exists>p\<in>ids - D - set (n # ?R). s \<in> set (succs adj p)" if "s \<in> ids - D - set (n # ?R)" for s
  proof -
    have "s \<in> ids - insert n D - set ?R" using that by auto
    with IH obtain p where "p \<in> ids - insert n D - set ?R" "s \<in> set (succs adj p)" by blast
    then show ?thesis by auto
  qed
  have "distinct (n # ?R)" "set (n # ?R) \<subseteq> ids - D" using IH n(1) by auto
  with topo rest show ?case unfolding topological_loop.simps by blast
qed

lemma finite_acyclic_no_pred_closed:
  assumes "finite r" and "acyclic r" and "\<forall>s\<in>C. \<exists>p\<in>C. (p, s) \<in> r"
  shows "C = {}"
proof (rule ccontr)
  assume "C \<noteq> {}"
  then obtain x where "x \<in> C" by blast
  have "wf r" using assms(1,2) by (rule finite_acyclic_wf)
  then obtain z where "z \<in> C" "\<forall>y. (y, z) \<in> r \<longrightarrow> y \<notin> C"
    using \<open>x \<in> C\<close> by (metis wfE_min)
  with assms(3) show False by blast
qed

lemma topological_order_props:
  assumes ok: "wf_definition_ok d" and it: "iterates ids d" and ac: "acyclic (def_edges d)"
  defines "R \<equiv> topological_order (wd_entry_node_id d) (build_adjacency (wd_edges d) ids) ids"
  shows "distinct R" and "set R = node_id_set d"
    and "R = xs @ n # ys \<Longrightarrow> (p, n) \<in> def_edges d \<Longrightarrow> p \<in> set xs"
proof -
  let ?adj = "build_adjacency (wd_edges d) ids"
  let ?rem = "in_degree ?adj ids"
  let ?ready = "sort (filter (\<lambda>i. ?rem i = 0) ids)"
  let ?ready' = "if wd_entry_node_id d \<in> set ?ready
    then wd_entry_node_id d # remove1 (wd_entry_node_id d) ?ready else ?ready"
  have ids: "set ids = node_id_set d" "distinct ids" using it by (auto simp: iterates_def node_id_set_def)
  have succ: "b \<in> set (succs ?adj a) \<longleftrightarrow> (a, b) \<in> def_edges d" for a b
    by (auto simp: def_edges_def)
  have closed: "\<forall>a\<in>node_id_set d. set (succs ?adj a) \<subseteq> node_id_set d"
    using def_edges_nodes [OF ok] succ by blast
  have fin: "finite (node_id_set d)" by (simp add: node_id_set_def)
  have "remaining_ok ?adj (node_id_set d) {} ?rem"
    unfolding remaining_ok_def in_degree_def sum_list_distinct_conv_sum_set [OF ids(2)] ids(1) by simp
  moreover have "distinct ?ready'" "set ?ready' = set ?ready" using ids(2) by auto
  ultimately have "loop_ok ?adj (node_id_set d) {} ?ready' ?rem"
    using ids by (auto simp: loop_ok_def)
  note props = topological_loop_props [OF closed fin this]
  have R: "R = topological_loop ?adj ?ready' ?rem" by (simp add: R_def topological_order_def Let_def)
  show "distinct R" using props unfolding R [symmetric] by blast
  have "node_id_set d - {} - set R = {}"
    using finite_def_edges ac
  proof (rule finite_acyclic_no_pred_closed)
    show "\<forall>s\<in>node_id_set d - {} - set R. \<exists>p\<in>node_id_set d - {} - set R. (p, s) \<in> def_edges d"
      using props unfolding R [symmetric] succ by blast
  qed
  moreover have "set R \<subseteq> node_id_set d" using props unfolding R [symmetric] by blast
  ultimately show "set R = node_id_set d" by blast
  show "p \<in> set xs" if "R = xs @ n # ys" "(p, n) \<in> def_edges d"
    using props that def_edges_nodes [OF ok that(2)] unfolding R [symmetric] succ by blast
qed

subsection \<open>Protection\<close>

definition walk :: "(string \<times> string) set \<Rightarrow> string \<Rightarrow> string list \<Rightarrow> string \<Rightarrow> bool" where
  "walk r a w b \<longleftrightarrow> w \<noteq> [] \<and> hd w = a \<and> last w = b \<and> successively (\<lambda>x y. (x, y) \<in> r) w"

definition guarded :: "wf_definition \<Rightarrow> string \<Rightarrow> bool" where
  "guarded d n \<longleftrightarrow> (\<forall>w. walk (def_edges d) (wd_entry_node_id d) w n \<longrightarrow>
     (\<exists>a\<in>set w. node_type_of d a = Some Approval))"

lemma walk_snoc:
  "walk r a (w @ [n]) m \<longleftrightarrow> m = n \<and> (if w = [] then a = n else walk r a w (last w) \<and> (last w, n) \<in> r)"
  by (auto simp: walk_def successively_append_iff)

lemma walk_last_cases:
  assumes "walk r a w n" and "n \<noteq> a"
  obtains v p where "w = v @ [n]" "walk r a v p" "(p, n) \<in> r"
proof -
  have "w \<noteq> []" using assms(1) by (simp add: walk_def)
  then obtain v x where w: "w = v @ [x]" by (metis rev_exhaust)
  with assms have "v \<noteq> []" "x = n" "walk r a v (last v)" "(last v, n) \<in> r"
    by (auto simp: walk_snoc split: if_splits)
  with w that show thesis by blast
qed

lemma protect_node_other: "m \<noteq> n \<Longrightarrow> protect_node d r protected n m = protected m"
  by (auto simp: protect_node_def Let_def)

lemma protect_fold_other:
  "n \<notin> set xs \<Longrightarrow> foldl (protect_node d r) protected xs n = protected n"
  by (induction xs arbitrary: protected) (auto simp: protect_node_other)

definition guard_sound :: "wf_definition \<Rightarrow> (string \<rightharpoonup> bool) \<Rightarrow> bool" where
  "guard_sound d protected \<longleftrightarrow> (\<forall>n. protected n = Some True \<longrightarrow> guarded d n)"

lemma protect_node_sound:
  assumes "guard_sound d protected"
  shows "guard_sound d (protect_node d (build_reverse_adjacency (wd_edges d) ids) protected n)"
  unfolding guard_sound_def
proof (intro allI impI)
  let ?m = "protect_node d (build_reverse_adjacency (wd_edges d) ids) protected n"
  fix k
  assume k: "?m k = Some True"
  show "guarded d k"
  proof (cases "k = n")
    case False
    with k assms show ?thesis by (simp add: protect_node_other guard_sound_def)
  next
    case eq: True
    show ?thesis
      unfolding guarded_def
    proof (intro allI impI)
      fix w
      assume w: "walk (def_edges d) (wd_entry_node_id d) w k"
      show "\<exists>a\<in>set w. node_type_of d a = Some Approval"
      proof (cases "n = wd_entry_node_id d")
        case True
        with k eq have "node_type_of d k = Some Approval" by (auto simp: protect_node_def Let_def)
        moreover have "k \<in> set w" using w by (metis last_in_set walk_def)
        ultimately show ?thesis by blast
      next
        case False
        with w eq obtain v p where v: "w = v @ [n]" "walk (def_edges d) (wd_entry_node_id d) v p"
            "(p, n) \<in> def_edges d" by (metis walk_last_cases)
        then have "p \<in> set (succs (build_reverse_adjacency (wd_edges d) ids) n)"
          by (auto simp: def_edges_def)
        with k eq False have "node_type_of d p = Some Approval \<or> protected p = Some True"
          by (auto simp: protect_node_def Let_def split: if_splits)
        then show ?thesis
        proof
          assume "node_type_of d p = Some Approval"
          moreover have "p \<in> set w" using v by (metis Un_iff last_in_set set_append walk_def)
          ultimately show ?thesis by blast
        next
          assume "protected p = Some True"
          with assms v(2) have "\<exists>a\<in>set v. node_type_of d a = Some Approval"
            by (auto simp: guard_sound_def guarded_def)
          with v(1) show ?thesis by auto
        qed
      qed
    qed
  qed
qed

lemma protected_sound: "guard_sound d (compute_approval_protected_nodes d ids)"
proof -
  have "guard_sound d (foldl (protect_node d (build_reverse_adjacency (wd_edges d) ids)) m xs)"
    if "guard_sound d m" for m xs
    using that by (induction xs arbitrary: m) (auto intro: protect_node_sound)
  moreover have "guard_sound d Map.empty" by (simp add: guard_sound_def)
  ultimately show ?thesis unfolding compute_approval_protected_nodes_def by blast
qed

text \<open>In topological order each node is decided from the final marks of its predecessors.\<close>

lemma protected_value:
  assumes ok: "wf_definition_ok d" and it: "iterates ids d" and ac: "acyclic (def_edges d)"
    and n: "n \<in> node_id_set d" "n \<noteq> wd_entry_node_id d"
  defines "P \<equiv> compute_approval_protected_nodes d ids"
  shows "P n = Some ((\<exists>q. (q, n) \<in> def_edges d) \<and>
      (\<forall>p. (p, n) \<in> def_edges d \<longrightarrow> node_type_of d p = Some Approval \<or> P p = Some True))"
proof -
  let ?rev = "build_reverse_adjacency (wd_edges d) ids"
  let ?R = "topological_order (wd_entry_node_id d) (build_adjacency (wd_edges d) ids) ids"
  let ?f = "foldl (protect_node d ?rev) Map.empty"
  note topo = topological_order_props [OF ok it ac]
  from n(1) topo(2) obtain xs ys where R: "?R = xs @ n # ys" by (metis split_list)
  with topo(1) have dist: "distinct xs" "n \<notin> set xs" "n \<notin> set ys" "set xs \<inter> set ys = {}" by simp_all
  have P: "P = foldl (protect_node d ?rev) (protect_node d ?rev (?f xs) n) ys"
    by (simp add: P_def compute_approval_protected_nodes_def R)
  have Pn: "P n = protect_node d ?rev (?f xs) n n" using dist by (simp add: P protect_fold_other)
  have Pp: "P p = ?f xs p" if "p \<in> set xs" for p
  proof -
    have "p \<notin> set ys" and "p \<noteq> n" using that dist by auto
    then show ?thesis by (simp add: P protect_fold_other protect_node_other)
  qed
  have preds: "set (succs ?rev n) = {p. (p, n) \<in> def_edges d}" by (auto simp: def_edges_def)
  have "P p = ?f xs p" if "(p, n) \<in> def_edges d" for p using Pp topo(3) [OF R that] by blast
  moreover have "succs ?rev n = [] \<longleftrightarrow> \<not> (\<exists>q. (q, n) \<in> def_edges d)" using preds by (metis Collect_empty_eq set_empty)
  ultimately show "P n = Some ((\<exists>q. (q, n) \<in> def_edges d) \<and>
      (\<forall>p. (p, n) \<in> def_edges d \<longrightarrow> node_type_of d p = Some Approval \<or> P p = Some True))"
    using n(2) preds unfolding Pn by (auto simp: protect_node_def Let_def simp del: succs_build_reverse)
qed

lemma protected_entry:
  assumes "wf_definition_ok d" and "iterates ids d" and "acyclic (def_edges d)"
  shows "compute_approval_protected_nodes d ids (wd_entry_node_id d) =
    Some (node_type_of d (wd_entry_node_id d) = Some Approval)"
proof -
  let ?rev = "build_reverse_adjacency (wd_edges d) ids"
  let ?R = "topological_order (wd_entry_node_id d) (build_adjacency (wd_edges d) ids) ids"
  note topo = topological_order_props [OF assms]
  have "wd_entry_node_id d \<in> node_id_set d" using assms(1) by (simp add: wf_definition_ok_iff node_id_set_def)
  with topo(2) obtain xs ys where R: "?R = xs @ wd_entry_node_id d # ys" by (metis split_list)
  with topo(1) have "wd_entry_node_id d \<notin> set ys" by simp
  then show ?thesis
    by (simp add: compute_approval_protected_nodes_def R protect_fold_other)
      (simp add: protect_node_def Let_def)
qed

text \<open>An unmarked node can be reached without crossing an approval node before it.\<close>

lemma protected_complete:
  assumes ok: "wf_definition_ok d" and it: "iterates ids d" and ac: "acyclic (def_edges d)"
    and reach: "\<forall>n\<in>node_id_set d. (wd_entry_node_id d, n) \<in> (def_edges d)\<^sup>*"
    and n: "n \<in> node_id_set d" "node_type_of d n \<noteq> Some Approval"
    and un: "compute_approval_protected_nodes d ids n \<noteq> Some True"
  shows "\<exists>w. walk (def_edges d) (wd_entry_node_id d) w n \<and> (\<forall>a\<in>set w. node_type_of d a \<noteq> Some Approval)"
proof -
  have "wf (def_edges d)" using finite_def_edges ac by (rule finite_acyclic_wf)
  then show ?thesis
    using n un
  proof (induction n rule: wf_induct_rule)
    case (less n)
    show ?case
    proof (cases "n = wd_entry_node_id d")
      case True
      with less.prems have "walk (def_edges d) (wd_entry_node_id d) [n] n \<and>
          (\<forall>a\<in>set [n]. node_type_of d a \<noteq> Some Approval)" by (simp add: walk_def)
      then show ?thesis by blast
    next
      case False
      from reach less.prems(1) False obtain q where "(q, n) \<in> def_edges d"
        by (metis rtranclE)
      with less.prems(3) have "\<not> (\<forall>p. (p, n) \<in> def_edges d \<longrightarrow> node_type_of d p = Some Approval \<or>
          compute_approval_protected_nodes d ids p = Some True)"
        unfolding protected_value [OF ok it ac less.prems(1) False] by blast
      then obtain p where
        p: "(p, n) \<in> def_edges d" "node_type_of d p \<noteq> Some Approval"
          "compute_approval_protected_nodes d ids p \<noteq> Some True" by blast
      moreover have "p \<in> node_id_set d" using def_edges_nodes [OF ok p(1)] by blast
      ultimately obtain w where w: "walk (def_edges d) (wd_entry_node_id d) w p"
          "\<forall>a\<in>set w. node_type_of d a \<noteq> Some Approval" using less.IH by blast
      then have "walk (def_edges d) (wd_entry_node_id d) (w @ [n]) n"
        using p(1) by (auto simp: walk_def successively_append_iff)
      moreover have "\<forall>a\<in>set (w @ [n]). node_type_of d a \<noteq> Some Approval" using w(2) less.prems(2) by auto
      ultimately show ?thesis by blast
    qed
  qed
qed

lemma protected_iff_guarded:
  assumes "wf_definition_ok d" and "iterates ids d" and "acyclic (def_edges d)"
    and "\<forall>n\<in>node_id_set d. (wd_entry_node_id d, n) \<in> (def_edges d)\<^sup>*"
    and "n \<in> node_id_set d" "node_type_of d n \<noteq> Some Approval"
  shows "compute_approval_protected_nodes d ids n = Some True \<longleftrightarrow> guarded d n"
proof
  assume "compute_approval_protected_nodes d ids n = Some True"
  then show "guarded d n" using protected_sound [of d ids] by (simp add: guard_sound_def)
next
  assume "guarded d n"
  then show "compute_approval_protected_nodes d ids n = Some True"
    using protected_complete [OF assms] unfolding guarded_def by metis
qed

subsection \<open>The whole validation\<close>

text \<open>One approval node: an outgoing edge, configured edges among the outgoing ones and different,
  and an approved edge that is configured or unique.\<close>

definition approval_node_ok :: "wf_definition \<Rightarrow> wf_node \<Rightarrow> bool" where
  "approval_node_ok d node \<longleftrightarrow>
     (let outgoing = filter (\<lambda>e. we_from e = wn_id node) (wd_edges d);
          approved = dict_get (wn_config node) ''approved_edge_id'';
          rejected = dict_get (wn_config node) ''rejected_edge_id'' in
      outgoing \<noteq> [] \<and>
      (\<forall>a. approved = Some (PStr a) \<longrightarrow> a \<in> we_id ` set outgoing \<and> rejected \<noteq> Some (PStr a)) \<and>
      (\<forall>r. rejected = Some (PStr r) \<longrightarrow> r \<in> we_id ` set outgoing) \<and>
      ((\<exists>a. approved = Some (PStr a)) \<or> length (filter (\<lambda>e. we_condition e = None) outgoing) = 1))"

lemma validate_approval_node_iff:
  "validate_approval_node d n = Inr () \<longleftrightarrow> (wn_type n = Approval \<longrightarrow> approval_node_ok d n)"
proof (cases "wn_type n = Approval \<and> filter (\<lambda>e. we_from e = wn_id n) (wd_edges d) \<noteq> []")
  case False
  then show ?thesis by (auto simp: validate_approval_node_def approval_node_ok_def Let_def)
next
  case True
  let ?a = "dict_get (wn_config n) ''approved_edge_id''"
  show ?thesis
  proof (cases "\<exists>s. ?a = Some (PStr s)")
    case s: True
    then obtain s where "?a = Some (PStr s)" ..
    with True show ?thesis
      by (auto simp: validate_approval_node_def approval_node_ok_def Let_def split: option.splits pyval.splits)
  next
    case ns: False
    have "validate_approval_node d n = thenR
        (case dict_get (wn_config n) ''rejected_edge_id'' of
           Some (PStr r) \<Rightarrow> checkR (r \<in> set (map we_id (filter (\<lambda>e. we_from e = wn_id n) (wd_edges d))))
             (RejectedEdgeUnknown (wn_id n) r)
         | _ \<Rightarrow> Inr ())
        (checkR (length (filter (\<lambda>e. we_condition e = None)
            (filter (\<lambda>e. we_from e = wn_id n) (wd_edges d))) = 1) (ApprovedEdgeRequired (wn_id n)))"
      using True ns by (auto simp: validate_approval_node_def Let_def split: option.splits pyval.splits)
    with True ns show ?thesis
      by (auto simp: approval_node_ok_def Let_def thenR_eq_Inr split: option.splits pyval.splits)
  qed
qed

text \<open>The plugin part of an accepted definition.\<close>

definition plugins_ok :: "graph_validator \<Rightarrow> wf_definition \<Rightarrow> bool" where
  "plugins_ok gv d \<longleftrightarrow> (\<forall>n\<in>set (wd_nodes d). wn_type n = Plugin \<longrightarrow>
     gv_plugins_enabled gv \<and>
     (\<exists>plugin_id node_type reg wreg.
        dict_get (wn_config n) ''plugin_id'' = Some (PStr plugin_id) \<and> \<not> is_blank plugin_id \<and>
        dict_get (wn_config n) ''plugin_node_type'' = Some (PStr node_type) \<and> \<not> is_blank node_type \<and>
        gv_plugin_registry gv = Some reg \<and> plugin_registry_get reg plugin_id = Some PluginLoaded \<and>
        gv_workflow_plugin_registry gv = Some wreg \<and> workflow_plugin_has wreg plugin_id node_type))"

lemma validate_plugin_node_iff:
  "validate_plugin_node gv n = Inr () \<longleftrightarrow> (wn_type n = Plugin \<longrightarrow>
     (\<exists>plugin_id node_type reg wreg.
        dict_get (wn_config n) ''plugin_id'' = Some (PStr plugin_id) \<and> \<not> is_blank plugin_id \<and>
        dict_get (wn_config n) ''plugin_node_type'' = Some (PStr node_type) \<and> \<not> is_blank node_type \<and>
        gv_plugin_registry gv = Some reg \<and> plugin_registry_get reg plugin_id = Some PluginLoaded \<and>
        gv_workflow_plugin_registry gv = Some wreg \<and> workflow_plugin_has wreg plugin_id node_type))"
proof (cases "nonblank_str (dict_get (wn_config n) ''plugin_id'')")
  case None
  then have "\<not> (dict_get (wn_config n) ''plugin_id'' = Some (PStr s) \<and> \<not> is_blank s)" for s
    by (auto split: if_splits)
  with None show ?thesis by (auto simp: validate_plugin_node_def)
next
  case p: (Some p)
  show ?thesis
  proof (cases "nonblank_str (dict_get (wn_config n) ''plugin_node_type'')")
    case None
    then have "\<not> (dict_get (wn_config n) ''plugin_node_type'' = Some (PStr s) \<and> \<not> is_blank s)" for s
      by (auto split: if_splits)
    with None p show ?thesis by (auto simp: validate_plugin_node_def)
  next
    case t: (Some t)
    then show ?thesis
      using p by (auto simp: validate_plugin_node_def nonblank_str_Some bind_eq_Some_conv split: option.splits)
  qed
qed

text \<open>The tools a node names that the policy wants approved.\<close>

definition flagged_tools_guarded :: "graph_validator \<Rightarrow> wf_definition \<Rightarrow> bool" where
  "flagged_tools_guarded gv d \<longleftrightarrow> (gv_hitl_enabled gv \<longrightarrow>
     (\<exists>registry policy. gv_tool_registry gv = Some registry \<and> gv_approval_policy gv = Some policy \<and>
        (\<forall>n\<in>set (wd_nodes d). wn_type n \<in> {Task, Agent} \<longrightarrow>
           (\<forall>t\<in>set (referenced_tool_names n). tool_needs_approval gv registry policy t \<longrightarrow>
              guarded d (wn_id n)))))"

definition accepted :: "graph_validator \<Rightarrow> wf_definition \<Rightarrow> bool" where
  "accepted gv d \<longleftrightarrow>
     length (wd_nodes d) \<le> gv_max_nodes gv \<and>
     plugins_ok gv d \<and>
     (\<forall>n\<in>set (wd_nodes d). validate_node_config
        (if gv_plugins_enabled gv then gv_workflow_plugin_registry gv else None) n = Inr ()) \<and>
     (\<forall>e\<in>set (wd_edges d). \<forall>c. we_condition e = Some c \<longrightarrow> (\<exists>a. denotes c a)) \<and>
     acyclic (def_edges d) \<and>
     (\<forall>n\<in>node_id_set d. (wd_entry_node_id d, n) \<in> (def_edges d)\<^sup>*) \<and>
     forks_joins_paired gv d \<and>
     (\<forall>n\<in>set (wd_nodes d). wn_type n = Approval \<longrightarrow> approval_node_ok d n) \<and>
     flagged_tools_guarded gv d"

lemma validate_plugins_iff:
  "(if gv_plugins_enabled gv then Inr () else reject_plugin_nodes d) = Inr () \<and>
   (if gv_plugins_enabled gv then validate_plugin_nodes gv d else Inr ()) = Inr () \<longleftrightarrow> plugins_ok gv d"
  by (auto simp: reject_plugin_nodes_def validate_plugin_nodes_def plugins_ok_def forR_eq_Inr
      validate_plugin_node_iff)

lemma validate_edge_conditions_iff:
  "validate_edge_conditions d = Inr () \<longleftrightarrow>
     (\<forall>e\<in>set (wd_edges d). \<forall>c. we_condition e = Some c \<longrightarrow> (\<exists>a. denotes c a))"
  unfolding validate_edge_conditions_def forR_eq_Inr validate_denotes(1) [symmetric]
  by (rule ball_cong [OF refl]) (simp split: option.split sum.split)

lemma validate_dangling_ok:
  "wf_definition_ok d \<Longrightarrow> iterates ids d \<Longrightarrow> validate_dangling_edges d ids = Inr ()"
  by (auto simp: validate_dangling_edges_def forR_eq_Inr wf_definition_ok_iff iterates_def)

lemma validator_node_configs_iff:
  "validator_node_configs gv d = Inr () \<longleftrightarrow> (\<forall>n\<in>set (wd_nodes d). validate_node_config
     (if gv_plugins_enabled gv then gv_workflow_plugin_registry gv else None) n = Inr ())"
proof -
  have "(case r of Inl (i, e) \<Rightarrow> Inl (NodeConfigError i e) | Inr _ \<Rightarrow> Inr ()) = Inr () \<longleftrightarrow> r = Inr ()"
    for r :: "(string \<times> node_config_error) + unit" by (cases r) auto
  then show ?thesis by (simp add: validator_node_configs_def validate_node_configs_iff)
qed

lemma validate_guard_iff:
  assumes "wf_definition_ok d" and "iterates ids d" and "acyclic (def_edges d)"
    and "\<forall>n\<in>node_id_set d. (wd_entry_node_id d, n) \<in> (def_edges d)\<^sup>*"
  shows "validate_approval_required_tool_reachability gv d ids = Inr () \<longleftrightarrow> flagged_tools_guarded gv d"
proof -
  have node: "compute_approval_protected_nodes d ids (wn_id n) = Some True \<longleftrightarrow> guarded d (wn_id n)"
    if "n \<in> set (wd_nodes d)" "wn_type n \<in> {Task, Agent}" for n
  proof (rule protected_iff_guarded [OF assms])
    show "wn_id n \<in> node_id_set d" using that(1) by (simp add: node_id_set_def)
    have "node_type_of d (wn_id n) = Some (wn_type n)"
      using that(1) node_type_of_mem [OF assms(1)] by blast
    with that(2) show "node_type_of d (wn_id n) \<noteq> Some Approval" by auto
  qed
  have check: "check_tool_protected gv reg pol (compute_approval_protected_nodes d ids) n = Inr () \<longleftrightarrow>
      (wn_type n \<in> {Task, Agent} \<longrightarrow>
         (\<forall>t\<in>set (referenced_tool_names n). tool_needs_approval gv reg pol t \<longrightarrow> guarded d (wn_id n)))"
    if "n \<in> set (wd_nodes d)" for n reg pol
    using node [OF that] by (auto simp: check_tool_protected_def forR_eq_Inr)
  show ?thesis
  proof (cases "gv_hitl_enabled gv")
    case False
    then show ?thesis
      by (simp add: validate_approval_required_tool_reachability_def flagged_tools_guarded_def)
  next
    case True
    show ?thesis
    proof (cases "gv_tool_registry gv")
      case None
      with True show ?thesis
        by (simp add: validate_approval_required_tool_reachability_def flagged_tools_guarded_def)
    next
      case reg: (Some reg)
      show ?thesis
      proof (cases "gv_approval_policy gv")
        case None
        with True reg show ?thesis
          by (simp add: validate_approval_required_tool_reachability_def flagged_tools_guarded_def)
      next
        case (Some pol)
        have "(\<forall>n\<in>set (wd_nodes d). check_tool_protected gv reg pol
              (compute_approval_protected_nodes d ids) n = Inr ()) \<longleftrightarrow>
            (\<forall>n\<in>set (wd_nodes d). wn_type n \<in> {Task, Agent} \<longrightarrow>
              (\<forall>t\<in>set (referenced_tool_names n). tool_needs_approval gv reg pol t \<longrightarrow>
                 guarded d (wn_id n)))"
          by (rule ball_cong [OF refl check])
        then show ?thesis
          unfolding validate_approval_required_tool_reachability_def flagged_tools_guarded_def
            forR_eq_Inr [symmetric] using True reg Some by simp
      qed
    qed
  qed
qed

lemma validate_graph_iff:
  assumes ok: "wf_definition_ok d" and it: "iterates ids d"
  shows "validate_graph gv ids d = Inr () \<longleftrightarrow> accepted gv d"
proof -
  have count: "validate_node_count gv d = Inr () \<longleftrightarrow> length (wd_nodes d) \<le> gv_max_nodes gv"
    by (simp add: validate_node_count_def)
  have entry: "validate_entry_node d ids = Inr ()"
    using ok it by (simp add: validate_entry_node_def wf_definition_ok_iff iterates_def)
  have approvals: "validate_approval_nodes d = Inr () \<longleftrightarrow>
      (\<forall>n\<in>set (wd_nodes d). wn_type n = Approval \<longrightarrow> approval_node_ok d n)"
    by (simp add: validate_approval_nodes_def forR_eq_Inr validate_approval_node_iff)
  show ?thesis
  proof (cases "acyclic (def_edges d) \<and> (\<forall>n\<in>node_id_set d. (wd_entry_node_id d, n) \<in> (def_edges d)\<^sup>*)")
    case True
    note guard = validate_guard_iff [OF ok it conjunct1 [OF True] conjunct2 [OF True], of gv]
    show ?thesis
      unfolding validate_graph_def accepted_def thenR_eq_Inr count approvals guard
        validator_node_configs_iff validate_edge_conditions_iff validate_cycles_iff [OF ok it]
        validate_reachability_iff [OF it] validate_pairing_iff [OF ok it] validate_plugins_iff [symmetric]
      using entry validate_dangling_ok [OF ok it] by argo
  next
    case False
    have "validate_graph gv ids d \<noteq> Inr ()"
      unfolding validate_graph_def thenR_eq_Inr validate_cycles_iff [OF ok it]
        validate_reachability_iff [OF it] using False by argo
    moreover have "\<not> accepted gv d" unfolding accepted_def using False by argo
    ultimately show ?thesis by argo
  qed
qed

end
