(* ===== verification/Wf_Nodes_Correct.thy ===== *)
theory Wf_Nodes_Correct
  imports Wf_Nodes
begin

section \<open>Correctness of the node executors\<close>

text \<open>
  The router selects the matching edges of the abstract condition language, in declaration order and
  only the first in exclusive mode; the fork names all branches within its bound; the join merges
  exactly the outputs of the branches that succeeded; templates substitute placeholders and leave
  everything else alone.
\<close>

subsection \<open>Router\<close>

text \<open>An edge with its abstract condition: \<open>None\<close> is the unconditional edge.\<close>

definition edge_denotes :: "wf_edge \<Rightarrow> cond option \<Rightarrow> bool" where
  "edge_denotes e a \<longleftrightarrow> (case we_condition e of
      None \<Rightarrow> a = None
    | Some c \<Rightarrow> (\<exists>b. a = Some b \<and> denotes c b \<and> \<not> may_raise b))"

fun edge_holds :: "cond option \<Rightarrow> wf_context \<Rightarrow> bool" where
  "edge_holds None ctx = True"
| "edge_holds (Some c) ctx = cond_holds c ctx"

lemma edge_matches_holds: "edge_denotes e a \<Longrightarrow> edge_matches e ctx = Inr (edge_holds a ctx)"
  by (auto simp: edge_denotes_def edge_matches_def agrees_def dest: evaluate_agrees [of _ _ ctx]
      split: option.splits)

definition matching_ids :: "wf_context \<Rightarrow> (wf_edge \<times> cond option) list \<Rightarrow> string list" where
  "matching_ids ctx ps = map (we_id \<circ> fst) (filter (\<lambda>(e, a). edge_holds a ctx) ps)"

lemma select_edges_matching:
  "\<forall>(e, a)\<in>set ps. edge_denotes e a \<Longrightarrow>
   select_edges (map fst ps) ctx mode =
     Inr (if mode = ''exclusive'' then take 1 (matching_ids ctx ps) else matching_ids ctx ps)"
  by (induction ps) (auto simp: matching_ids_def edge_matches_holds)

lemma router_selects:
  assumes "\<forall>(e, a)\<in>set ps. edge_denotes e a"
    and "nr_outgoing_edges request = map fst ps"
    and "dict_get (wn_config node) ''routing_mode'' \<in> {None, Some (PStr ''exclusive''), Some (PStr ''all_matching'')}"
    and "matching_ids ctx ps \<noteq> []"
  shows "router_execute node ctx request = Inr [(''selected_edge_ids'', PList (map PStr
    (if dict_get (wn_config node) ''routing_mode'' = Some (PStr ''all_matching'')
     then matching_ids ctx ps else [hd (matching_ids ctx ps)])))]"
proof -
  have ne: "ps \<noteq> []" using assms(4) by (auto simp: matching_ids_def)
  obtain i rest where m: "matching_ids ctx ps = i # rest" using assms(4) by (cases "matching_ids ctx ps") auto
  show ?thesis using assms(2,3) ne select_edges_matching [OF assms(1)] m
    by (auto simp: router_execute_def Let_def)
qed

lemma select_edges_subset:
  "select_edges es ctx mode = Inr ids \<Longrightarrow> set ids \<subseteq> we_id ` set es"
  by (induction es arbitrary: ids) (auto split: sum.splits if_splits)

subsection \<open>Fork and join\<close>

lemma fork_output:
  assumes "fork_execute m node ctx request = Inr out"
  shows "\<exists>j branches. dict_get (wn_config node) ''join_node_id'' = Some (PStr j) \<and>
     branches = map we_to (filter (\<lambda>e. we_to e \<noteq> j) (nr_outgoing_edges request)) \<and>
     0 < length branches \<and> length branches \<le> m \<and>
     out = [(''join_node_id'', PStr j), (''branch_node_ids'', PList (map PStr branches)),
            (''branch_count'', PInt (int (length branches)))]"
  using assms
  by (auto simp: fork_execute_def Let_def nonblank_str_Some filter_empty_conv comp_def
      split: if_splits option.splits)

lemma merged_outputs_get:
  "dict_get (merged_outputs bs vars) k = (if k \<in> set bs then dict_get vars k else None)"
proof -
  have "dict_get (foldl (\<lambda>acc b. case dict_get vars b of None \<Rightarrow> acc | Some v \<Rightarrow> dict_put b v acc) acc bs) k =
      (if k \<in> set bs \<and> dict_get vars k \<noteq> None then dict_get vars k else dict_get acc k)" for acc
    by (induction bs arbitrary: acc) (auto split: option.split)
  then show ?thesis by (auto simp: merged_outputs_def dict_get_def)
qed

lemma merged_outputs_distinct: "distinct (dict_keys (merged_outputs bs vars))"
proof -
  have "distinct (dict_keys acc) \<Longrightarrow>
    distinct (dict_keys (foldl (\<lambda>acc b. case dict_get vars b of None \<Rightarrow> acc | Some v \<Rightarrow> dict_put b v acc) acc bs))"
    for acc by (induction bs arbitrary: acc) (auto split: option.split)
  then show ?thesis by (simp add: merged_outputs_def dict_keys_def)
qed

text \<open>The join reads what its fork wrote: a round trip through the run's variables.\<close>

lemma join_after_fork:
  assumes fork: "fork_execute m fork ctx0 request = Inr out"
    and ctx: "dict_get (variables ctx) (wn_id fork) = Some (PDict out)"
    and cfg: "dict_get (wn_config node) ''fork_node_id'' = Some (PStr (wn_id fork))" "\<not> is_blank (wn_id fork)"
    and parse: "parse_join_config node = Inr (policy, k, cancel)"
  shows "\<exists>merged j. join_execute node ctx = Inr
       [(''fork_node_id'', PStr (wn_id fork)), (''join_policy'', PStr policy), (''count'', PInt k),
        (''cancel_remaining'', PBool cancel), (''merged_branch_outputs'', PDict merged),
        (''completed_branch_count'', PInt (int (length merged)))] \<and>
     dict_get (wn_config fork) ''join_node_id'' = Some (PStr j) \<and>
     (\<forall>b. dict_get merged b =
        (if \<exists>e\<in>set (nr_outgoing_edges request). we_to e = b \<and> b \<noteq> j then dict_get (variables ctx) b else None))"
proof -
  from fork_output [OF fork] obtain j branches where
    j: "dict_get (wn_config fork) ''join_node_id'' = Some (PStr j)"
    and b: "branches = map we_to (filter (\<lambda>e. we_to e \<noteq> j) (nr_outgoing_edges request))"
    and out: "dict_get out ''branch_node_ids'' = Some (PList (map PStr branches))"
    by (auto simp: dict_get_def)
  have "dict_get (merged_outputs branches (variables ctx)) x =
      (if \<exists>e\<in>set (nr_outgoing_edges request). we_to e = x \<and> x \<noteq> j then dict_get (variables ctx) x else None)"
    for x unfolding merged_outputs_get b by auto
  moreover have "nonblank_str (dict_get (wn_config node) ''fork_node_id'') = Some (wn_id fork)"
    using cfg by simp
  ultimately show ?thesis using j parse ctx out
    by (intro exI [of _ "merged_outputs branches (variables ctx)"] exI [of _ j])
      (simp add: join_execute_def Let_def)
qed

subsection \<open>Approval\<close>

text \<open>Which edge an approval activates when the node passed validation.\<close>

lemma approved_edges:
  assumes "resolve_approval_selected_edge_ids node outgoing Approved = Inr ids"
    and "\<forall>a. dict_get (wn_config node) ''approved_edge_id'' = Some (PStr a) \<longrightarrow>
           py_strip a = a \<and> a \<in> we_id ` set outgoing"
  shows "\<exists>i. ids = [i] \<and> i \<in> we_id ` set outgoing"
proof (cases "nonblank_str (dict_get (wn_config node) ''approved_edge_id'')")
  case (Some b)
  then show ?thesis
    using assms by (auto simp: resolve_approval_selected_edge_ids_def nonblank_str_Some)
next
  case None
  then show ?thesis
    using assms(1) by (auto simp: resolve_approval_selected_edge_ids_def Let_def length_Suc_conv
        filter_eq_Cons_iff split: if_splits)
qed

subsection \<open>Templates\<close>

text \<open>Every whole-string placeholder around a dotted path of identifiers is found, and only those.\<close>

lemma py_split_acc_join:
  assumes "c \<notin> set x"
  shows "py_split_acc c acc (x @ c # rest) = (rev acc @ x) # py_split_acc c [] rest"
    and "py_split_acc c acc x = [rev acc @ x]"
  using assms by (induction x arbitrary: acc) auto

lemma py_strip_nospace:
  assumes "s \<noteq> []" "\<not> py_isspace (hd s)" "\<not> py_isspace (last s)"
  shows "py_strip s = s"
proof -
  have "dropWhile py_isspace s = s" using assms(1,2) by (cases s) auto
  moreover have "dropWhile py_isspace (rev s) = rev s"
    using assms(1,3) by (cases "rev s") (auto simp: last_rev hd_rev [symmetric])
  ultimately show ?thesis by (simp add: py_strip_def)
qed

lemma identifier_not_special:
  "identifier_char c \<Longrightarrow> c \<noteq> CHR ''.'' \<and> \<not> py_isspace c \<and> c \<noteq> CHR ''}'' \<and> c \<noteq> CHR ''{''"
  unfolding identifier_char_def py_isspace_def by auto

fun dotted :: "string list \<Rightarrow> string" where
  "dotted [] = []"
| "dotted [s] = s"
| "dotted (s # t # rest) = s @ CHR ''.'' # dotted (t # rest)"

lemma py_split_dotted:
  "segs \<noteq> [] \<Longrightarrow> \<forall>s\<in>set segs. CHR ''.'' \<notin> set s \<Longrightarrow> py_split CHR ''.'' (dotted segs) = segs"
  by (induction segs rule: dotted.induct) (auto simp: py_split_def py_split_acc_join)

lemma dotted_ends:
  assumes "segs \<noteq> []" "\<forall>s\<in>set segs. s \<noteq> [] \<and> list_all identifier_char s"
  shows "dotted segs \<noteq> [] \<and> identifier_char (hd (dotted segs)) \<and> identifier_char (last (dotted segs))"
  using assms by (induction segs rule: dotted.induct) (auto simp: list_all_iff)

lemma placeholder_roundtrip:
  assumes "segs \<noteq> []" "\<forall>s\<in>set segs. s \<noteq> [] \<and> list_all identifier_char s"
  shows "placeholder_path (''{{'' @ dotted segs @ ''}}'') = Some (dotted segs)"
proof -
  have "\<forall>s\<in>set segs. CHR ''.'' \<notin> set s"
    using assms(2) identifier_not_special by (auto simp: list_all_iff)
  then have sp: "py_split CHR ''.'' (dotted segs) = segs" using assms(1) by (rule py_split_dotted [rotated])
  have st: "py_strip (dotted segs) = dotted segs"
    using dotted_ends [OF assms] identifier_not_special by (intro py_strip_nospace) auto
  show ?thesis using assms sp st
    by (simp add: placeholder_path_def Let_def list_all_iff)
qed

text \<open>A value with no placeholder in it anywhere is returned unchanged.\<close>

fun plain_value :: "pyval \<Rightarrow> bool" where
  "plain_value (PStr s) = (placeholder_path s = None)"
| "plain_value (PDict d) = (\<forall>p\<in>set d. plain_value (snd p))"
| "plain_value (PList xs) = (\<forall>x\<in>set xs. plain_value x)"
| "plain_value _ = True"

lemma resolve_plain:
  "plain_value v \<Longrightarrow> resolve_value scope v = Inr v"
  "(\<forall>p\<in>set d. plain_value (snd p)) \<Longrightarrow> resolve_items scope d = Inr d"
  "(\<forall>x\<in>set xs. plain_value x) \<Longrightarrow> resolve_list scope xs = Inr xs"
  by (induction scope v and scope d and scope xs rule: resolve_value_resolve_items_resolve_list.induct)
    auto

text \<open>Resolution keeps the keys of the template, in order.\<close>

lemma resolve_items_keys: "resolve_items scope d = Inr r \<Longrightarrow> map fst r = map fst d"
proof (induction d arbitrary: r)
  case Nil
  then show ?case by simp
next
  case (Cons p d)
  then show ?case by (cases p) (auto split: sum.splits)
qed

lemma task_without_placeholders:
  assumes "nonblank_str (dict_get (wn_config node) ''tool_name'') = Some tool"
    and "dict_get (wn_config node) ''arguments_template'' = Some (PDict args)"
    and "\<forall>p\<in>set args. plain_value (snd p)"
    and "pf_tool_execute pf tool args (nr_owner_id request) (nr_execution_receipt_id request) = Inr result"
    and "tr_success result"
  shows "task_execute pf node ctx request = Inr (tr_dump result)"
  using assms by (simp add: task_execute_def resolve_template_def resolve_plain(2))

end
