(* ===== verification/Wf_Traversal_Correct.thy ===== *)
theory Wf_Traversal_Correct
  imports Wf_Traversal Wf_Validator_Correct
begin

section \<open>Correctness of the traversal helpers\<close>

text \<open>
  Regions are what a fork reaches before its join; the skip loop computes the least set closed under
  its two rules, whatever the order of the nodes; ready nodes are exactly the nodes the rules of
  the engine admit, in declaration order; and a graph without branching cannot get stuck.
\<close>

subsection \<open>Regions\<close>

lemma stop_rel_def_edges: "stop_rel (build_adjacency (wd_edges d) []) (\<lambda>n. n = j) = {(a, b) \<in> def_edges d. b \<noteq> j}"
  by (auto simp: stop_rel_def def_edges_def)

lemma region_eq:
  "get_fork_join_region_nodes d f j = {m. (f, m) \<in> {(a, b) \<in> def_edges d. b \<noteq> j}\<^sup>+}"
  (is "_ = {m. (f, m) \<in> ?r\<^sup>+}")
proof -
  have start: "s \<in> set (rev (map we_to (outgoing_edges d f))) \<longleftrightarrow> (f, s) \<in> def_edges d" for s
    by (auto simp: outgoing_edges_def def_edges_def)
  have "m \<in> get_fork_join_region_nodes d f j \<longleftrightarrow>
      (\<exists>s. (f, s) \<in> {(a, b) \<in> def_edges d. b \<noteq> j} \<and> (s, m) \<in> {(a, b) \<in> def_edges d. b \<noteq> j}\<^sup>*)" for m
    unfolding get_fork_join_region_nodes_def stack_search_reachable stop_rel_def_edges Bex_def start by auto
  then have "get_fork_join_region_nodes d f j = {m. \<exists>s. (f, s) \<in> ?r \<and> (s, m) \<in> ?r\<^sup>*}" by blast
  also have "\<dots> = {m. (f, m) \<in> ?r\<^sup>+}" using trancl_unfold_left [of ?r] by blast
  finally show ?thesis .
qed

lemma find_region_Some:
  "find_region d nodes n = Some (f, j) \<Longrightarrow>
     \<exists>node\<in>set nodes. wn_type node = Fork \<and> wn_id node = f \<and>
        dict_get (wn_config node) ''join_node_id'' = Some (PStr j) \<and> n \<in> get_fork_join_region_nodes d f j"
  by (induction d nodes n rule: find_region.induct) (auto split: if_splits option.splits pyval.splits)

lemma find_region_None:
  "find_region d nodes n = None \<longleftrightarrow>
     (\<forall>node\<in>set nodes. \<forall>j. wn_type node = Fork \<and> dict_get (wn_config node) ''join_node_id'' = Some (PStr j) \<longrightarrow>
        n \<notin> get_fork_join_region_nodes d (wn_id node) j)"
  by (induction d nodes n rule: find_region.induct) (auto split: option.splits pyval.splits)

subsection \<open>Parallel groups\<close>

lemma mset_group_add:
  "distinct (map fst gs) \<Longrightarrow>
   mset (concat (map snd (group_add k v gs))) = add_mset v (mset (concat (map snd gs)))"
proof (induction gs)
  case Nil
  then show ?case by (simp add: group_add_def)
next
  case (Cons g gs)
  show ?case
  proof (cases "fst g = k")
    case True
    then show ?thesis by (cases g) (simp add: group_add_def)
  next
    case False
    then have "group_add k v (g # gs) = g # group_add k v gs" by (cases g) (simp add: group_add_def)
    with Cons show ?thesis by simp
  qed
qed

definition groups_ok :: "wf_definition \<Rightarrow> string list \<Rightarrow> region_groups \<times> string list \<Rightarrow> bool" where
  "groups_ok d seen acc \<longleftrightarrow> distinct (map fst (fst acc)) \<and>
     mset (concat (map snd (fst acc))) + mset (snd acc) = mset seen \<and>
     (\<forall>(r, ns)\<in>set (fst acc). \<forall>n\<in>set ns. find_fork_join_region d n = Some r) \<and>
     (\<forall>n\<in>set (snd acc). find_fork_join_region d n = None)"

lemma set_group_add:
  "(r, ns) \<in> set (group_add k v gs) \<Longrightarrow>
     (r, ns) \<in> set gs \<or> (r = k \<and> (\<forall>n\<in>set ns. n = v \<or> (\<exists>ms. (k, ms) \<in> set gs \<and> n \<in> set ms)))"
proof -
  let ?new = "(case map_of gs k of None \<Rightarrow> [] | Some vs \<Rightarrow> vs) @ [v]"
  have upd: "(r, ns) \<in> set (AList.update k w gs) \<Longrightarrow> (r, ns) \<in> set gs \<or> (r = k \<and> ns = w)" for w
    by (induction gs) (auto split: if_splits)
  assume "(r, ns) \<in> set (group_add k v gs)"
  then have "(r, ns) \<in> set gs \<or> (r = k \<and> ns = ?new)" unfolding group_add_def by (rule upd)
  then show ?thesis by (auto split: option.splits dest: map_of_SomeD)
qed

lemma group_step_ok:
  assumes "groups_ok d seen acc"
  shows "groups_ok d (seen @ [n]) (group_step d acc n)"
proof (cases "find_fork_join_region d n")
  case None
  with assms show ?thesis by (auto simp: groups_ok_def group_step_def)
next
  case (Some r)
  have "distinct (map fst (group_add r n (fst acc)))"
    using assms unfolding groups_ok_def group_add_def by (simp add: distinct_update)
  moreover have "\<forall>(q, ns)\<in>set (group_add r n (fst acc)). \<forall>m\<in>set ns. find_fork_join_region d m = Some q"
    using assms Some unfolding groups_ok_def by (fastforce dest: set_group_add)
  ultimately show ?thesis
    using assms Some by (auto simp: groups_ok_def group_step_def mset_group_add)
qed

lemma group_fold_ok:
  "groups_ok d seen acc \<Longrightarrow> groups_ok d (seen @ ns) (foldl (group_step d) acc ns)"
proof (induction ns arbitrary: seen acc)
  case Nil
  then show ?case by simp
next
  case (Cons n ns)
  from Cons.IH [OF group_step_ok [OF Cons.prems, of n]] show ?case by simp
qed

lemma mset_concat_filter:
  "mset (concat (filter P gs)) + mset (concat (filter (\<lambda>g. \<not> P g) gs)) = mset (concat gs)"
  by (induction gs) auto

lemma group_parallel_props:
  assumes "group_parallel_ready_nodes d ready = (groups, sequential)"
  shows "mset (concat groups) + mset sequential = mset ready"
    and "\<forall>g\<in>set groups. 1 < length g \<and> (\<exists>r. \<forall>n\<in>set g. find_fork_join_region d n = Some r)"
proof -
  obtain gs seq where f: "foldl (group_step d) ([], []) ready = (gs, seq)" by fastforce
  have "groups_ok d [] ([], [])" by (simp add: groups_ok_def)
  from group_fold_ok [OF this, of ready] have ok: "groups_ok d ready (gs, seq)" by (simp add: f)
  have g: "groups = filter (\<lambda>g. length g > 1) (map snd gs)"
    and s: "sequential = seq @ concat (filter (\<lambda>g. \<not> length g > 1) (map snd gs))"
    using assms by (auto simp: group_parallel_ready_nodes_def f Let_def)
  have "mset (concat groups) + mset sequential = mset (concat (map snd gs)) + mset seq"
    unfolding g s mset_concat_filter [of "\<lambda>g. length g > 1" "map snd gs", symmetric] by simp
  with ok show "mset (concat groups) + mset sequential = mset ready" by (simp add: groups_ok_def)
  show "\<forall>g\<in>set groups. 1 < length g \<and> (\<exists>r. \<forall>n\<in>set g. find_fork_join_region d n = Some r)"
    using ok unfolding g groups_ok_def by fastforce
qed

subsection \<open>Ready nodes\<close>

lemma resolve_ready_Inr:
  "resolve_ready d run nodes = Inr ready \<Longrightarrow>
     ready = map wn_id (filter (\<lambda>n. node_ready d run n = Inr True) nodes) \<and>
     (\<forall>n\<in>set nodes. \<not> isl (node_ready d run n))"
  by (induction d run nodes arbitrary: ready rule: resolve_ready.induct) (auto split: sum.splits if_splits)

lemma resolve_ready_Inl:
  "resolve_ready d run nodes = Inl e \<Longrightarrow> \<exists>n\<in>set nodes. node_ready d run n = Inl e"
  by (induction d run nodes rule: resolve_ready.induct) (auto split: sum.splits)

lemma node_ready_Inl:
  "node_ready d run n = Inl e \<longleftrightarrow>
     wn_id n \<notin> started_node_ids run \<and> wn_id n \<noteq> wd_entry_node_id d \<and> wn_type n = Join \<and>
     join_branch_incoming_edges d n \<noteq> [] \<and> parse_join_config n = Inl e"
  by (cases "parse_join_config n") (auto simp: node_ready_def is_join_ready_def Let_def split: prod.splits)

lemma node_ready_True:
  "node_ready d run n = Inr True \<longleftrightarrow>
     wn_id n \<notin> started_node_ids run \<and>
     (wn_id n = wd_entry_node_id d \<or>
      wn_type n = Join \<and> is_join_ready d run n = Inr True \<or>
      wn_type n \<noteq> Join \<and> incoming_edges d (wn_id n) \<noteq> [] \<and>
        (\<forall>e\<in>set (incoming_edges d (wn_id n)). we_from e \<in> get_resolved_node_ids run) \<and>
        incoming_branch_edges_selected d (incoming_edges d (wn_id n)) run)
      \<and> (wn_id n = wd_entry_node_id d \<or> wn_type n \<noteq> Join \<or> is_join_ready d run n = Inr True)"
  by (auto simp: node_ready_def Let_def)

lemma resolve_ready_nodes_set:
  assumes "resolve_ready_nodes d run = Inr ready"
  shows "m \<in> set ready \<longleftrightarrow> (\<exists>n\<in>set (wd_nodes d). wn_id n = m \<and> node_ready d run n = Inr True)"
  using resolve_ready_Inr [OF assms [unfolded resolve_ready_nodes_def]] by auto

lemma parse_join_config_Inr:
  assumes "parse_join_config n = Inr (policy, k, cancel)"
  shows "policy \<in> {''all'', ''any'', ''count''} \<and> 1 \<le> k \<and> (policy \<noteq> ''count'' \<longrightarrow> k = 1)"
  using assms by (auto simp: parse_join_config_def Let_def split: option.splits pyval.splits if_splits)

subsection \<open>Skipped nodes\<close>

inductive skippable :: "wf_definition \<Rightarrow> string \<Rightarrow> string list \<Rightarrow> wf_run \<Rightarrow> string \<Rightarrow> bool"
  for d router selected run where
    unselected: "e \<in> set (wd_edges d) \<Longrightarrow> we_from e = router \<Longrightarrow> we_id e \<notin> set selected \<Longrightarrow>
      we_to e \<notin> started_node_ids run \<Longrightarrow>
      (\<forall>f\<in>set (wd_edges d). we_from f = router \<and> we_id f \<in> set selected \<longrightarrow> we_to f \<noteq> we_to e) \<Longrightarrow>
      skippable d router selected run (we_to e)"
  | downstream: "n \<in> set (wd_nodes d) \<Longrightarrow> wn_id n \<notin> started_node_ids run \<Longrightarrow>
      incoming_edges d (wn_id n) \<noteq> [] \<Longrightarrow>
      (\<forall>e\<in>set (incoming_edges d (wn_id n)). we_from e \<notin> get_succeeded_node_ids run \<and>
         (we_from e \<in> get_skipped_node_ids run \<or> skippable d router selected run (we_from e))) \<Longrightarrow>
      skippable d router selected run (wn_id n)"

inductive_cases skippableE: "skippable d router selected run n"

text \<open>One pass adds only skippable nodes, and a pass that changes nothing leaves a closed set.\<close>

lemma skip_pass_sound:
  "(\<forall>m\<in>fst st. skippable d r sel run m) \<Longrightarrow> set nodes \<subseteq> set (wd_nodes d) \<Longrightarrow>
   m \<in> fst (skip_pass d run nodes st) \<Longrightarrow> skippable d r sel run m"
proof (induction d run nodes st rule: skip_pass.induct)
  case (1 d run st)
  then show ?case by simp
next
  case (2 d run node rest to_skip changed)
  let ?sources = "map we_from (incoming_edges d (wn_id node))"
  let ?c = "wn_id node \<in> started_node_ids run \<or> wn_id node \<in> to_skip \<or> ?sources = [] \<or>
     \<not> (\<forall>s\<in>set ?sources. s \<in> get_succeeded_node_ids run \<union> get_skipped_node_ids run \<union> to_skip) \<or>
     (\<exists>s\<in>set ?sources. s \<in> get_succeeded_node_ids run)"
  show ?case
  proof (cases ?c)
    case True
    then have e: "skip_pass d run (node # rest) (to_skip, changed) = skip_pass d run rest (to_skip, changed)"
      by (simp only: skip_pass.simps Let_def if_True)
    show ?thesis using "2.IH"(1) [OF refl True] "2.prems" unfolding e by auto
  next
    case False
    then have e: "skip_pass d run (node # rest) (to_skip, changed) =
        skip_pass d run rest (insert (wn_id node) to_skip, True)"
      by (simp only: skip_pass.simps Let_def if_False)
    have "skippable d r sel run (wn_id node)"
      using False "2.prems"(1,2) by (intro downstream) auto
    then show ?thesis using "2.IH"(2) [OF refl False] "2.prems" unfolding e by auto
  qed
qed

lemma skip_pass_unchanged:
  "\<not> snd (skip_pass d run nodes st) \<Longrightarrow> fst (skip_pass d run nodes st) = fst st \<and>
   (\<forall>n\<in>set nodes. wn_id n \<notin> started_node_ids run \<and> incoming_edges d (wn_id n) \<noteq> [] \<and>
      (\<forall>e\<in>set (incoming_edges d (wn_id n)). we_from e \<notin> get_succeeded_node_ids run \<and>
         we_from e \<in> get_skipped_node_ids run \<union> fst st) \<longrightarrow> wn_id n \<in> fst st)"
proof (induction d run nodes st rule: skip_pass.induct)
  case (1 d run st)
  then show ?case by simp
next
  case (2 d run node rest to_skip changed)
  let ?sources = "map we_from (incoming_edges d (wn_id node))"
  let ?c = "wn_id node \<in> started_node_ids run \<or> wn_id node \<in> to_skip \<or> ?sources = [] \<or>
     \<not> (\<forall>s\<in>set ?sources. s \<in> get_succeeded_node_ids run \<union> get_skipped_node_ids run \<union> to_skip) \<or>
     (\<exists>s\<in>set ?sources. s \<in> get_succeeded_node_ids run)"
  have stays: "snd st \<Longrightarrow> snd (skip_pass d run nodes st)" for nodes st
    by (induction d run nodes st rule: skip_pass.induct) (auto simp: Let_def)
  show ?case
  proof (cases ?c)
    case True
    then have e: "skip_pass d run (node # rest) (to_skip, changed) = skip_pass d run rest (to_skip, changed)"
      by (simp only: skip_pass.simps Let_def if_True)
    show ?thesis using "2.IH"(1) [OF refl True] "2.prems" True unfolding e by auto
  next
    case False
    then have e: "skip_pass d run (node # rest) (to_skip, changed) =
        skip_pass d run rest (insert (wn_id node) to_skip, True)"
      by (simp only: skip_pass.simps Let_def if_False)
    show ?thesis using "2.prems" stays [of "(insert (wn_id node) to_skip, True)" rest] unfolding e by simp
  qed
qed

lemma skip_loop_sound:
  "(\<forall>m\<in>S. skippable d r sel run m) \<Longrightarrow> m \<in> skip_loop d run S \<Longrightarrow> skippable d r sel run m"
proof (induction d run S arbitrary: m rule: skip_loop.induct)
  case (1 d run S)
  let ?st = "skip_pass d run (wd_nodes d) (S, False)"
  have sound: "\<forall>m\<in>fst ?st. skippable d r sel run m"
    using "1.prems"(1) skip_pass_sound [of "(S, False)" d r sel run "wd_nodes d"] by simp
  show ?case
  proof (cases "snd ?st")
    case True
    then show ?thesis using "1.IH" [OF refl True sound] "1.prems"(2) by (simp add: skip_loop.simps [of d run S])
  next
    case False
    then show ?thesis using sound "1.prems"(2) by (simp add: skip_loop.simps [of d run S])
  qed
qed

lemma skip_loop_mono: "S \<subseteq> skip_loop d run S"
proof (induction d run S rule: skip_loop.induct)
  case (1 d run S)
  have "S \<subseteq> fst (skip_pass d run (wd_nodes d) (S, False))"
    using skip_pass_mono [of "(S, False)"] by simp
  then show ?case using "1.IH" [OF refl] by (auto simp: skip_loop.simps [of d run S] Let_def)
qed

lemma skip_loop_closed:
  assumes "n \<in> set (wd_nodes d)" "wn_id n \<notin> started_node_ids run" "incoming_edges d (wn_id n) \<noteq> []"
    "\<forall>e\<in>set (incoming_edges d (wn_id n)). we_from e \<notin> get_succeeded_node_ids run \<and>
       we_from e \<in> get_skipped_node_ids run \<union> skip_loop d run S"
  shows "wn_id n \<in> skip_loop d run S"
  using assms
proof (induction d run S rule: skip_loop.induct)
  case (1 d run S)
  let ?st = "skip_pass d run (wd_nodes d) (S, False)"
  show ?case
  proof (cases "snd ?st")
    case True
    then have e: "skip_loop d run S = skip_loop d run (fst ?st)" by (simp add: skip_loop.simps [of d run S])
    show ?thesis using "1.IH" [OF refl True] "1.prems" unfolding e by blast
  next
    case False
    then have e: "skip_loop d run S = fst ?st" by (simp add: skip_loop.simps [of d run S])
    show ?thesis using skip_pass_unchanged [OF False] "1.prems" unfolding e by auto
  qed
qed

lemma initial_skips_iff:
  "m \<in> initial_skips d r sel run \<longleftrightarrow>
     (\<exists>e\<in>set (wd_edges d). we_to e = m \<and> we_from e = r \<and> we_id e \<notin> set sel \<and> m \<notin> started_node_ids run \<and>
        (\<forall>f\<in>set (wd_edges d). we_from f = r \<and> we_id f \<in> set sel \<longrightarrow> we_to f \<noteq> m))"
  unfolding initial_skips_def outgoing_edges_def Let_def by (simp add: image_iff) metis

lemma skip_loop_iff:
  "m \<in> skip_loop d run (initial_skips d r sel run) \<longleftrightarrow> skippable d r sel run m"
proof
  assume "m \<in> skip_loop d run (initial_skips d r sel run)"
  then show "skippable d r sel run m"
  proof (rule skip_loop_sound [rotated])
    show "\<forall>m\<in>initial_skips d r sel run. skippable d r sel run m"
    proof
      fix m
      assume "m \<in> initial_skips d r sel run"
      then obtain e where e: "e \<in> set (wd_edges d)" "we_to e = m" "we_from e = r" "we_id e \<notin> set sel"
          "m \<notin> started_node_ids run"
          "\<forall>f\<in>set (wd_edges d). we_from f = r \<and> we_id f \<in> set sel \<longrightarrow> we_to f \<noteq> m"
        unfolding initial_skips_iff by blast
      then have "skippable d r sel run (we_to e)" by (intro unselected) auto
      with e(2) show "skippable d r sel run m" by simp
    qed
  qed
next
  assume "skippable d r sel run m"
  then show "m \<in> skip_loop d run (initial_skips d r sel run)"
  proof (induction rule: skippable.induct)
    case (unselected e)
    then have "we_to e \<in> initial_skips d r sel run" unfolding initial_skips_iff by blast
    then show ?case using skip_loop_mono by blast
  next
    case (downstream n)
    then show ?case by (intro skip_loop_closed) auto
  qed
qed

lemma skippable_not_started: "skippable d r sel run m \<Longrightarrow> m \<notin> started_node_ids run"
  by (induction rule: skippable.induct) auto

lemma skippable_node: "wf_definition_ok d \<Longrightarrow> skippable d r sel run m \<Longrightarrow> m \<in> node_id_set d"
  by (erule skippableE) (auto simp: node_id_set_def wf_definition_ok_iff)

lemma set_collect_nodes_to_skip:
  assumes "wf_definition_ok d"
  shows "set (collect_nodes_to_skip d r sel run) = {m. skippable d r sel run m}"
    and "sorted_wrt (<) (collect_nodes_to_skip d r sel run)"
proof -
  have S: "skip_loop d run (initial_skips d r sel run) = {m. skippable d r sel run m}"
    using skip_loop_iff by blast
  moreover have "{m. skippable d r sel run m} \<subseteq> node_id_set d" using skippable_node [OF assms] by blast
  moreover have "finite (node_id_set d)" by (simp add: node_id_set_def)
  ultimately have fin: "finite (skip_loop d run (initial_skips d r sel run))" by (metis finite_subset)
  then show "set (collect_nodes_to_skip d r sel run) = {m. skippable d r sel run m}"
    unfolding collect_nodes_to_skip_def S by simp
  show "sorted_wrt (<) (collect_nodes_to_skip d r sel run)"
    unfolding collect_nodes_to_skip_def by simp
qed

subsection \<open>Progress\<close>

text \<open>
  A graph whose only branching is fork and join, with every join waiting for all its branches:
  when nothing runs and nothing is ready, every node is resolved.
\<close>

definition waits_for_all :: "wf_definition \<Rightarrow> wf_node \<Rightarrow> bool" where
  "waits_for_all d n \<longleftrightarrow> join_branch_incoming_edges d n \<noteq> [] \<and>
     (\<exists>k cancel. parse_join_config n = Inr (''all'', k, cancel))"

lemma join_branch_incoming_sub: "set (join_branch_incoming_edges d n) \<subseteq> set (incoming_edges d (wn_id n))"
  by (auto simp: join_branch_incoming_edges_def Let_def split: option.splits pyval.splits)

lemma no_branch_sources:
  assumes "\<forall>n\<in>set (wd_nodes d). wn_type n \<notin> {Router, Approval}"
  shows "branch_sources d es = []"
proof -
  have "filter (\<lambda>e. case node_by_id d (we_from e) of None \<Rightarrow> False
      | Some source \<Rightarrow> wn_type source \<in> {Router, Approval}) es = []"
    using assms by (auto simp: filter_empty_conv dest: node_by_id_Some split: option.splits)
  then show ?thesis unfolding branch_sources_def by simp
qed

lemma resolved_when_nothing_ready:
  assumes reach: "\<forall>m\<in>node_id_set d. (wd_entry_node_id d, m) \<in> (def_edges d)\<^sup>*"
    and no_branch: "\<forall>n\<in>set (wd_nodes d). wn_type n \<notin> {Router, Approval}"
    and joins: "\<forall>n\<in>set (wd_nodes d). wn_type n = Join \<longrightarrow> waits_for_all d n"
    and idle: "wr_current_node_ids run = []" and none: "resolve_ready_nodes d run = Inr []"
    and n: "n \<in> set (wd_nodes d)"
    and preds: "\<forall>e\<in>set (incoming_edges d (wn_id n)). we_from e \<in> get_resolved_node_ids run"
  shows "wn_id n \<in> get_resolved_node_ids run"
proof (rule ccontr)
  assume "wn_id n \<notin> get_resolved_node_ids run"
  then have ns: "wn_id n \<notin> started_node_ids run" using idle by (simp add: started_node_ids_def)
  have "node_ready d run n \<noteq> Inr True" using resolve_ready_nodes_set [OF none, of "wn_id n"] n by auto
  then have ne: "wn_id n \<noteq> wd_entry_node_id d" and nr: "node_ready d run n \<noteq> Inr True"
    using ns by (auto simp: node_ready_def)
  show False
  proof (cases "wn_type n = Join")
    case True
    with joins n obtain k cancel where j: "join_branch_incoming_edges d n \<noteq> []"
        "parse_join_config n = Inr (''all'', k, cancel)" by (auto simp: waits_for_all_def)
    then have "is_join_ready d run n = Inr True"
      using preds join_branch_incoming_sub [of d n] by (auto simp: is_join_ready_def Let_def)
    with nr True ns ne show False by (simp add: node_ready_def)
  next
    case False
    have "wn_id n \<in> node_id_set d" using n by (simp add: node_id_set_def)
    with reach have "(wd_entry_node_id d, wn_id n) \<in> (def_edges d)\<^sup>*" by blast
    with ne obtain p where "(p, wn_id n) \<in> def_edges d" by (metis rtranclE)
    then have "incoming_edges d (wn_id n) \<noteq> []"
      by (auto simp: def_edges_def incoming_edges_def filter_empty_conv)
    moreover have "incoming_branch_edges_selected d (incoming_edges d (wn_id n)) run"
      using no_branch_sources [OF no_branch] by (simp add: incoming_branch_edges_selected_def)
    ultimately show False using nr ns ne False preds by (simp add: node_ready_def Let_def)
  qed
qed

lemma all_resolved_when_nothing_ready:
  assumes ok: "wf_definition_ok d" and ac: "acyclic (def_edges d)"
    and reach: "\<forall>m\<in>node_id_set d. (wd_entry_node_id d, m) \<in> (def_edges d)\<^sup>*"
    and no_branch: "\<forall>n\<in>set (wd_nodes d). wn_type n \<notin> {Router, Approval}"
    and joins: "\<forall>n\<in>set (wd_nodes d). wn_type n = Join \<longrightarrow> waits_for_all d n"
    and idle: "wr_current_node_ids run = []" and none: "resolve_ready_nodes d run = Inr []"
  shows "node_id_set d \<subseteq> get_resolved_node_ids run"
proof
  have "wf (def_edges d)" using finite_def_edges ac by (rule finite_acyclic_wf)
  fix m
  assume "m \<in> node_id_set d"
  with \<open>wf (def_edges d)\<close> show "m \<in> get_resolved_node_ids run"
  proof (induction m rule: wf_induct_rule)
    case (less m)
    then obtain n where n: "n \<in> set (wd_nodes d)" "wn_id n = m" by (auto simp: node_id_set_def)
    have "\<forall>e\<in>set (incoming_edges d m). we_from e \<in> get_resolved_node_ids run"
    proof
      fix e
      assume "e \<in> set (incoming_edges d m)"
      then have e: "(we_from e, m) \<in> def_edges d" by (auto simp: incoming_edges_def def_edges_def)
      then have "we_from e \<in> node_id_set d" using def_edges_nodes [OF ok] by blast
      with e show "we_from e \<in> get_resolved_node_ids run" by (rule less.IH)
    qed
    then show ?case
      using resolved_when_nothing_ready [OF reach no_branch joins idle none n(1)] n(2) by simp
  qed
qed

text \<open>
  With routers that argument fails: a node behind a router that was itself skipped never becomes
  ready, and once another predecessor has succeeded it is not skipped either.
\<close>

lemma blocked_behind_skipped_router:
  assumes r: "node_by_id d r = Some router" "wn_type router \<in> {Router, Approval}"
    and e: "e \<in> set (wd_edges d)" "we_from e = r" "we_to e = wn_id n"
    and skipped: "r \<notin> get_succeeded_node_ids run"
    and n: "wn_type n \<noteq> Join" "wn_id n \<noteq> wd_entry_node_id d"
  shows "node_ready d run n \<noteq> Inr True"
proof -
  have "r \<in> set (branch_sources d (incoming_edges d (wn_id n)))"
    using r e by (auto simp: branch_sources_def incoming_edges_def intro!: rev_image_eqI [of e])
  moreover have "\<not> source_selects run es r" for es
    using skipped by (auto simp: source_selects_def get_succeeded_node_ids_def dict_get_None [THEN iffD2])
  ultimately show ?thesis using n by (auto simp: node_ready_def Let_def incoming_branch_edges_selected_def)
qed

lemma not_skippable_after_success:
  assumes "wf_definition_ok d" "f \<in> set (wd_edges d)" "we_to f = m" "we_from f \<in> get_succeeded_node_ids run"
    and "\<forall>e\<in>set (wd_edges d). we_from e = router \<longrightarrow> we_to e \<noteq> m"
  shows "\<not> skippable d router selected run m"
proof
  assume "skippable d router selected run m"
  then show False
  proof (cases rule: skippable.cases)
    case (unselected e)
    with assms(5) show False by blast
  next
    case (downstream n)
    then have "f \<in> set (incoming_edges d (wn_id n))" using assms(2,3) by (simp add: incoming_edges_def)
    with downstream assms(4) show False by blast
  qed
qed

end
