(* ===== verification/Graph_Properties.thy ===== *)
theory Graph_Properties
  imports Wf_Examples Wf_Approval_Guard Wf_Nodes_Correct Wf_Traversal_Correct
begin

section \<open>Properties of definitions, graphs and nodes\<close>

text \<open>
  What the component theories amount to for a caller: the validation of a definition, the evaluation
  of conditions and rules, the choice of ready and skipped nodes, and the node executors. Each property
  with a hypothesis is followed by its instance at a concrete input of \<open>Wf_Examples\<close>.
\<close>

subsection \<open>Validation of definitions\<close>

text \<open>C4: a definition passes \<open>GraphValidator.validate\<close> exactly when it is accepted: the limits hold,
  plugin nodes are loaded, every node config and edge condition is well formed, the graph is acyclic
  and reachable from its entry, forks and joins are paired, approval nodes have their edges, and every
  walk to a node with a flagged tool crosses an approval node; whatever the order of the set of ids.\<close>

theorem graph_validation_characterised:
  assumes "wf_definition_ok d" and "iterates ids d"
  shows "validate_graph gv ids d = Inr () \<longleftrightarrow> accepted gv d"
  using assms by (rule validate_graph_iff)

theorem graph_validation_characterised_witness:
  "validate_graph hitl_validator [''del'', ''end'', ''ask''] approval_workflow = Inr () \<and>
   accepted hitl_validator approval_workflow"
proof -
  have ok: "wf_definition_ok approval_workflow" by code_simp
  have it: "iterates [''del'', ''end'', ''ask''] approval_workflow" by code_simp
  have v: "validate_graph hitl_validator [''del'', ''end'', ''ask''] approval_workflow = Inr ()" by code_simp
  with graph_validation_characterised [OF ok it, of hitl_validator] show ?thesis by blast
qed

text \<open>C34: in an acyclic graph that is reachable from its entry the forward pass of
  \<open>_compute_approval_protected_nodes\<close> marks a node that is not an approval node as protected exactly
  when every walk from the entry to it crosses an approval node.\<close>

theorem protected_nodes_are_guarded:
  assumes "wf_definition_ok d" and "iterates ids d" and "acyclic (def_edges d)"
    and "\<forall>n\<in>node_id_set d. (wd_entry_node_id d, n) \<in> (def_edges d)\<^sup>*"
    and "n \<in> node_id_set d" and "node_type_of d n \<noteq> Some Approval"
  shows "compute_approval_protected_nodes d ids n = Some True \<longleftrightarrow> guarded d n"
  using assms by (rule protected_iff_guarded)

theorem protected_nodes_are_guarded_witness:
  "compute_approval_protected_nodes approval_workflow [''del'', ''end'', ''ask''] ''del'' = Some True \<and>
   guarded approval_workflow ''del''"
proof -
  let ?ids = "[''del'', ''end'', ''ask'']"
  have ok: "wf_definition_ok approval_workflow" by code_simp
  have it: "iterates ?ids approval_workflow" by code_simp
  have "validate_cycles approval_workflow ?ids = Inr ()" "validate_reachability approval_workflow ?ids = Inr ()"
    by code_simp+
  then have ac: "acyclic (def_edges approval_workflow)"
    and reach: "\<forall>n\<in>node_id_set approval_workflow. (wd_entry_node_id approval_workflow, n) \<in> (def_edges approval_workflow)\<^sup>*"
    using validate_cycles_iff [OF ok it] validate_reachability_iff [OF it] by blast+
  have "''del'' \<in> node_id_set approval_workflow" "node_type_of approval_workflow ''del'' \<noteq> Some Approval"
    by (simp_all add: node_id_set_def node_type_of_def node_by_id_def example_defs)
  moreover have "compute_approval_protected_nodes approval_workflow ?ids ''del'' = Some True" by code_simp
  ultimately show ?thesis using protected_nodes_are_guarded [OF ok it ac reach] by blast
qed

text \<open>The depth-first search of \<open>_validate_cycles\<close> over any order of the nodes finishes without
  raising exactly when the edge relation is acyclic.\<close>

theorem cycle_check_correct:
  assumes "wf_definition_ok d" and "iterates ids d"
  shows "validate_cycles d ids = Inr () \<longleftrightarrow> acyclic (def_edges d)"
  using assms by (rule validate_cycles_iff)

theorem cycle_check_correct_witness:
  "validate_cycles fork_workflow [''j'', ''b'', ''a'', ''f''] = Inr () \<and> acyclic (def_edges fork_workflow)"
proof -
  have "wf_definition_ok fork_workflow" "iterates [''j'', ''b'', ''a'', ''f''] fork_workflow"
    "validate_cycles fork_workflow [''j'', ''b'', ''a'', ''f''] = Inr ()" by code_simp+
  then show ?thesis using cycle_check_correct by blast
qed

text \<open>The stack of \<open>get_fork_join_region_nodes\<close> collects exactly the nodes with a path from the fork
  that never enters the join.\<close>

lemma fork_join_region_correct:
  "get_fork_join_region_nodes d f j = {m. (f, m) \<in> {(a, b) \<in> def_edges d. b \<noteq> j}\<^sup>+}"
  by (rule region_eq)

subsection \<open>Conditions and rules\<close>

text \<open>C30: \<open>validate_condition_shape\<close> accepts a dict exactly when it is the JSON form of a condition, and
  then the evaluator returns the meaning of that condition in every context; only a \<open>contains\<close> leaf with
  a list or object operand can raise instead.\<close>

theorem condition_evaluator_correct:
  "(validate_condition_shape dd = Inr () \<longleftrightarrow> (\<exists>c. denotes dd c)) \<and>
   (\<forall>c. denotes dd c \<longrightarrow> agrees (evaluate dd ctx) c ctx)"
  by (simp add: validate_denotes(1) evaluate_agrees)

theorem condition_evaluator_correct_witness:
  "agrees (evaluate [(''field'', PStr ''x''), (''operator'', PStr ''gt''), (''value'', PInt 2)]
      \<lparr>trigger_input = [], variables = [(''x'', PInt 3)], metadata = []\<rparr>)
    (Leaf ''x'' OpGt (PInt 2)) \<lparr>trigger_input = [], variables = [(''x'', PInt 3)], metadata = []\<rparr> \<and>
   evaluate [(''field'', PStr ''x''), (''operator'', PStr ''gt''), (''value'', PInt 2)]
      \<lparr>trigger_input = [], variables = [(''x'', PInt 3)], metadata = []\<rparr> = Inr True"
proof -
  have "denotes [(''field'', PStr ''x''), (''operator'', PStr ''gt''), (''value'', PInt 2)] (Leaf ''x'' OpGt (PInt 2))"
    by (rule denotes.leaf) (simp_all add: dict_get_def dict_keys_def get_or_None_def op_name_def is_blank_def
        py_strip_def py_isspace_def)
  moreover have "evaluate [(''field'', PStr ''x''), (''operator'', PStr ''gt''), (''value'', PInt 2)]
      \<lparr>trigger_input = [], variables = [(''x'', PInt 3)], metadata = []\<rparr> = Inr True" by code_simp
  ultimately show ?thesis using condition_evaluator_correct by blast
qed


text \<open>The rule engine answers with a matching rule of least priority, the first of them in the
  configured order, with its outcome, name and stages; it answers None exactly when no rule matches.\<close>

theorem engine_decides_first_minimal:
  "(engine_decide search as_text rules c = None \<longleftrightarrow>
      (\<forall>r\<in>set rules. \<not> rule_evaluate search as_text (policy_resolve_field c) (ar_condition r))) \<and>
   (\<forall>dec. engine_decide search as_text rules c = Some dec \<longrightarrow>
      (\<exists>r\<in>set rules. rule_evaluate search as_text (policy_resolve_field c) (ar_condition r) \<and>
         pd_outcome dec = ar_outcome r \<and> pd_matched_rule dec = Some (ar_name r) \<and>
         (\<forall>r'\<in>set rules. rule_evaluate search as_text (policy_resolve_field c) (ar_condition r') \<longrightarrow>
            ar_priority r \<le> ar_priority r')))"
proof (intro conjI allI impI)
  show "engine_decide search as_text rules c = None \<longleftrightarrow>
      (\<forall>r\<in>set rules. \<not> rule_evaluate search as_text (policy_resolve_field c) (ar_condition r))"
    by (simp add: engine_decide_def first_match_None sort_rules_def)
qed (rule engine_decide_minimal)

definition plain_rule :: "string \<Rightarrow> int \<Rightarrow> rule_outcome \<Rightarrow> approval_rule" where
  "plain_rule name prio out = \<lparr>ar_name = name, ar_priority = prio, ar_condition = RAllOf [],
     ar_outcome = out, ar_required_stages = []\<rparr>"

definition call_context :: policy_context where
  "call_context = \<lparr>pc_tool_name = ''t'', pc_tool_category = None, pc_risk_level = None, pc_data_sensitivity = None,
     pc_caller_role = None, pc_workspace = None, pc_tenant = None, pc_environment = None, pc_tool_arguments = [],
     pc_estimated_cost = None\<rparr>"

theorem engine_decides_first_minimal_witness:
  "\<exists>r\<in>{plain_rule ''late'' 9 AutoApprove, plain_rule ''early'' 1 RejectCall}.
     pd_outcome (the (engine_decide (\<lambda>p t s e. False) (\<lambda>v. [])
       [plain_rule ''late'' 9 AutoApprove, plain_rule ''early'' 1 RejectCall] call_context)) = ar_outcome r \<and>
     ar_priority r \<le> 1"
proof -
  let ?rules = "[plain_rule ''late'' 9 AutoApprove, plain_rule ''early'' 1 RejectCall]"
  let ?m = "\<lambda>r. rule_evaluate (\<lambda>p t s e. False) (\<lambda>v. []) (policy_resolve_field call_context) (ar_condition r)"
  let ?dec = "\<lparr>pd_outcome = RejectCall, pd_matched_rule = Some ''early'', pd_required_stages = []\<rparr>"
  have m: "?m (plain_rule ''early'' 1 RejectCall)" by code_simp
  have dec: "engine_decide (\<lambda>p t s e. False) (\<lambda>v. []) ?rules call_context = Some ?dec" by code_simp
  with engine_decides_first_minimal [of "\<lambda>p t s e. False" "\<lambda>v. []" ?rules call_context]
  obtain r where r: "r \<in> set ?rules" "pd_outcome ?dec = ar_outcome r"
    "\<forall>r'\<in>set ?rules. ?m r' \<longrightarrow> ar_priority r \<le> ar_priority r'" by blast
  have "ar_priority (plain_rule ''early'' 1 RejectCall) = 1" by (simp add: plain_rule_def)
  with r(3) m have "ar_priority r \<le> 1" by auto
  with r(1,2) dec show ?thesis by auto
qed

text \<open>When a stretch of a text, no longer than the window overlap, is found by the search in every
  window that contains it, \<open>_regex_matches\<close> finds it: no such match is lost between two windows.\<close>

theorem regex_windows_miss_nothing:
  assumes "\<And>s e. s \<le> a \<Longrightarrow> b \<le> e \<Longrightarrow> e \<le> length body \<Longrightarrow> search pat body s e"
    and "a \<le> b" "b \<le> length body" "b - a \<le> 256" "a < length body"
    and "actual \<noteq> PNone" "as_text actual = body"
  shows "regex_matches search as_text actual pat"
proof -
  have "regex_windows (search pat body) (length body) 0"
    using assms by (intro regex_windows_cover [where a = a and b = b])
      (auto simp: regex_window_overlap_def regex_max_pattern_len_def)
  then show ?thesis using assms(6,7) by (simp add: regex_matches_def Let_def)
qed

theorem regex_windows_miss_nothing_witness:
  "regex_matches (\<lambda>p t s e. s \<le> 4000 \<and> 4200 \<le> e) (\<lambda>v. replicate 5000 CHR ''x'') (PStr ''x'') ''p''"
  by (rule regex_windows_miss_nothing [where a = 4000 and b = 4200 and body = "replicate 5000 CHR ''x''"]) auto

text \<open>C40: \<open>ToolValidator.validate\<close> accepts the arguments of a tool whose schema is an object with a
  property dict and a list of required names exactly when every required name is present and every
  argument is a declared property with a value its type accepts.\<close>

theorem tool_arguments_accepted:
  assumes "dict_get schema ''type'' \<in> {None, Some (PStr ''object'')}"
    and "dict_get schema ''properties'' = Some (PDict props)" and "dict_get schema ''required'' = Some (PList names)"
  shows "tool_validate schema args = Inr None \<longleftrightarrow>
     (\<forall>n\<in>set names. \<exists>s. n = PStr s \<and> s \<in> set (dict_keys args)) \<and>
     (\<forall>(k, v)\<in>set args. \<exists>ps. dict_get props k = Some (PDict ps) \<and> type_accepts v (get_or_None ps ''type''))"
  using assms unfolding check_required_None [symmetric] check_arguments_None [symmetric]
  by (auto simp: tool_validate_def get_or_None_def split: sum.splits option.splits)

theorem tool_arguments_accepted_witness:
  "tool_validate [(''properties'', PDict [(''n'', PDict [(''type'', PStr ''integer'')])]), (''required'', PList [PStr ''n''])]
     [(''n'', PInt 3)] = Inr None \<and> type_accepts (PInt 3) (PStr ''integer'')"
proof -
  let ?schema = "[(''properties'', PDict [(''n'', PDict [(''type'', PStr ''integer'')])]), (''required'', PList [PStr ''n''])]"
  have "tool_validate ?schema [(''n'', PInt 3)] = Inr None" by code_simp
  with tool_arguments_accepted [of ?schema "[(''n'', PDict [(''type'', PStr ''integer'')])]" "[PStr ''n'']" "[(''n'', PInt 3)]"]
  show ?thesis by (simp add: dict_get_def get_or_None_def)
qed

subsection \<open>Routing, forks and joins\<close>

text \<open>The groups run in parallel and the nodes run one after the other are together the ready nodes,
  each once; every parallel group has at least two nodes and lies in one fork region.\<close>

theorem parallel_groups_partition:
  assumes "group_parallel_ready_nodes d ready = (groups, sequential)"
  shows "mset (concat groups) + mset sequential = mset ready \<and>
     (\<forall>g\<in>set groups. 1 < length g \<and> (\<exists>r. \<forall>n\<in>set g. find_fork_join_region d n = Some r))"
  using group_parallel_props [OF assms] by blast

theorem parallel_groups_partition_witness:
  "group_parallel_ready_nodes fork_workflow [''a'', ''b''] = ([[''a'', ''b'']], []) \<and>
   (\<exists>r. find_fork_join_region fork_workflow ''a'' = Some r \<and> find_fork_join_region fork_workflow ''b'' = Some r)"
proof -
  have "group_parallel_ready_nodes fork_workflow [''a'', ''b''] = ([[''a'', ''b'']], [])" by code_simp
  with parallel_groups_partition show ?thesis by fastforce
qed

text \<open>C35: \<open>collect_nodes_to_skip\<close> returns, sorted and without repetition, the least set of nodes not
  started that are targets of unselected edges only, or have all their sources skipped and none succeeded.\<close>

theorem skipped_nodes_least:
  assumes "wf_definition_ok d"
  shows "set (collect_nodes_to_skip d router selected run) = {m. skippable d router selected run m} \<and>
     sorted_wrt (<) (collect_nodes_to_skip d router selected run)"
  using set_collect_nodes_to_skip [OF assms] by blast

definition router_workflow :: wf_definition where
  "router_workflow = plain_definition ''r''
     [plain_node ''r'' Router [], plain_node ''a'' Terminal [], plain_node ''b'' Task [], plain_node ''c'' Terminal []]
     [plain_edge ''1'' ''r'' ''a'', plain_edge ''2'' ''r'' ''b'', plain_edge ''3'' ''b'' ''c'']"

theorem skipped_nodes_least_witness:
  "collect_nodes_to_skip router_workflow ''r'' [''1''] (plain_run [(''r'', PDict [])] [] RunRunning) = [''b'', ''c''] \<and>
   skippable router_workflow ''r'' [''1''] (plain_run [(''r'', PDict [])] [] RunRunning) ''c''"
proof -
  have ok: "wf_definition_ok router_workflow" by code_simp
  have "collect_nodes_to_skip router_workflow ''r'' [''1''] (plain_run [(''r'', PDict [])] [] RunRunning) = [''b'', ''c'']"
    by code_simp
  with skipped_nodes_least [OF ok, of "''r''" "[''1'']" "plain_run [(''r'', PDict [])] [] RunRunning"]
  show ?thesis by auto
qed

text \<open>In an accepted graph without routers and approvals whose joins wait for all branches, a run
  with nothing in progress and nothing ready has every node resolved: the loop never stops early.\<close>

theorem idle_run_is_finished:
  assumes "wf_definition_ok d" and "acyclic (def_edges d)"
    and "\<forall>m\<in>node_id_set d. (wd_entry_node_id d, m) \<in> (def_edges d)\<^sup>*"
    and "\<forall>n\<in>set (wd_nodes d). wn_type n \<notin> {Router, Approval}"
    and "\<forall>n\<in>set (wd_nodes d). wn_type n = Join \<longrightarrow> waits_for_all d n"
    and "wr_current_node_ids run = []" and "resolve_ready_nodes d run = Inr []"
  shows "node_id_set d \<subseteq> get_resolved_node_ids run"
  using assms by (rule all_resolved_when_nothing_ready)

theorem idle_run_is_finished_witness:
  "node_id_set fork_workflow \<subseteq> get_resolved_node_ids
     (plain_run [(''f'', PDict []), (''a'', PDict []), (''b'', PDict []), (''j'', PDict [])] [] RunRunning)"
proof (rule idle_run_is_finished)
  let ?ids = "[''j'', ''b'', ''a'', ''f'']"
  show ok: "wf_definition_ok fork_workflow" by code_simp
  have it: "iterates ?ids fork_workflow" by code_simp
  have "validate_cycles fork_workflow ?ids = Inr ()" "validate_reachability fork_workflow ?ids = Inr ()" by code_simp+
  then show "acyclic (def_edges fork_workflow)"
    "\<forall>m\<in>node_id_set fork_workflow. (wd_entry_node_id fork_workflow, m) \<in> (def_edges fork_workflow)\<^sup>*"
    using validate_cycles_iff [OF ok it] validate_reachability_iff [OF it] by blast+
  show "\<forall>n\<in>set (wd_nodes fork_workflow). wn_type n \<notin> {Router, Approval}" by code_simp
  have "join_branch_incoming_edges fork_workflow (plain_node ''j'' Join [(''fork_node_id'', PStr ''f'')]) \<noteq> []"
    "parse_join_config (plain_node ''j'' Join [(''fork_node_id'', PStr ''f'')]) = Inr (''all'', 1, True)" by code_simp+
  then show "\<forall>n\<in>set (wd_nodes fork_workflow). wn_type n = Join \<longrightarrow> waits_for_all fork_workflow n"
    by (auto simp: waits_for_all_def fork_workflow_def plain_definition_def plain_node_def)
qed code_simp+


definition stuck_workflow :: wf_definition where
  "stuck_workflow = plain_definition ''r''
     [plain_node ''r'' Router [], plain_node ''a'' Terminal [], plain_node ''q'' Router [], plain_node ''n'' Terminal []]
     [plain_edge ''1'' ''r'' ''a'', plain_edge ''2'' ''r'' ''q'', plain_edge ''3'' ''a'' ''n'', plain_edge ''4'' ''q'' ''n'']"

definition stuck_run :: wf_run where
  "stuck_run = (plain_run [(''r'', PDict [(''selected_edge_ids'', PList [PStr ''1''])]), (''a'', PDict [])] [] RunRunning)
     \<lparr>wr_context := \<lparr>trigger_input = [],
        variables = [(''r'', PDict [(''selected_edge_ids'', PList [PStr ''1''])]), (''a'', PDict [])],
        metadata = [(''skipped_node_ids'', PList [PStr ''q''])]\<rparr>\<rparr>"


end
