(* ===== verification/Wf_Safety.thy ===== *)
theory Wf_Safety
  imports Wf_Manager
begin

section \<open>What every task does to a run\<close>

text \<open>
  \<open>run_may_become\<close> is the contract between all writers of a run row: identity, owner, definition, key
  and trigger input are fixed, a cancelled run is final, node outputs and skipped nodes are never
  lost. The theory shows that every operation of the executor and of the manager is safe for this
  contract whatever the other tasks do between its actions, and draws the consequences for any number
  of tasks interleaved in any way.
\<close>

definition run_may_become :: "wf_run \<Rightarrow> wf_run \<Rightarrow> bool" where
  "run_may_become r q \<longleftrightarrow>
     wr_id q = wr_id r \<and> wr_owner_id q = wr_owner_id r \<and> wr_definition_id q = wr_definition_id r \<and>
     wr_idempotency_key q = wr_idempotency_key r \<and> wr_session_id q = wr_session_id r \<and>
     wr_created_at q = wr_created_at r \<and> wr_started_at q = wr_started_at r \<and>
     trigger_input (wr_context q) = trigger_input (wr_context r) \<and>
     wr_status r \<noteq> RunCancelled \<and>
     set (dict_keys (variables (wr_context r))) \<subseteq> set (dict_keys (variables (wr_context q))) \<and>
     set (skipped_list (metadata (wr_context r))) \<subseteq> set (skipped_list (metadata (wr_context q)))"

interpretation runs: versioned_store run_row wr_checkpoint_version run_may_become
  by unfold_locales (auto simp: run_may_become_def)

text \<open>The unique constraint on \<open>(owner_id, workflow_definition_id, idempotency_key)\<close>.\<close>

definition run_key :: "wf_run \<Rightarrow> uuid \<times> uuid \<times> string" where
  "run_key r = (wr_owner_id r, wr_definition_id r, wr_idempotency_key r)"

definition unique_runs :: "wf_world \<Rightarrow> bool" where
  "unique_runs w \<longleftrightarrow> distinct (map run_key (w_runs w))"

definition run_evolves :: "wf_world \<Rightarrow> wf_world \<Rightarrow> bool" where
  "run_evolves w v \<longleftrightarrow> evolves run_row wr_checkpoint_version run_may_become w v \<and>
     (unique_runs w \<longrightarrow> unique_runs v)"

lemma run_evolves_refl: "run_evolves w w"
  by (simp add: run_evolves_def runs.evolves_refl)

lemma run_evolves_reflp: "reflp run_evolves"
  using run_evolves_refl by (rule reflpI)

lemma run_evolves_trans: "run_evolves u v \<Longrightarrow> run_evolves v w \<Longrightarrow> run_evolves u w"
  unfolding run_evolves_def using runs.evolves_trans by blast

lemma run_evolves_transp: "transp run_evolves"
  using run_evolves_trans by (rule transpI)

lemma run_evolves_same: "w_runs v = w_runs w \<Longrightarrow> run_evolves w v"
  unfolding run_evolves_def unique_runs_def
  by (auto simp: run_row_def intro!: runs.evolves_same_rows ext)

lemma unique_runs_update:
  assumes "\<And>r. run_key (f r) = run_key r" and "w_runs v = table_update wr_id i hits f (w_runs w)"
  shows "unique_runs w \<longrightarrow> unique_runs v"
proof -
  have "map run_key (table_update wr_id i hits f rows) = map run_key rows" for rows
    using assms(1) by (simp add: table_update_def)
  then show ?thesis by (simp add: unique_runs_def assms(2))
qed

named_theorems run_safe_intros "programs that keep the contract of run rows"

definition run_safe :: "(wf_world, 'a) prog \<Rightarrow> bool" where
  "run_safe p \<longleftrightarrow> (\<forall>w. safe run_evolves p w)"

lemma run_safe_Ret [run_safe_intros]: "run_safe (Ret a)"
  by (simp add: run_safe_def)

lemma run_safe_bindP [run_safe_intros]: "run_safe p \<Longrightarrow> (\<And>a. run_safe (g a)) \<Longrightarrow> run_safe (bindP p g)"
  unfolding run_safe_def using run_evolves_transp run_evolves_reflp by (blast intro: safe_bindP)

lemma run_safe_bindE [run_safe_intros]: "run_safe p \<Longrightarrow> (\<And>a. run_safe (g a)) \<Longrightarrow> run_safe (bindE p g)"
  unfolding run_safe_def using run_evolves_transp run_evolves_reflp by (blast intro: safe_bindE)

lemma run_safe_if [run_safe_intros]: "(b \<Longrightarrow> run_safe p) \<Longrightarrow> (\<not> b \<Longrightarrow> run_safe q) \<Longrightarrow> run_safe (if b then p else q)"
  by simp

lemma run_safe_option [run_safe_intros]:
  "(x = None \<Longrightarrow> run_safe p) \<Longrightarrow> (\<And>a. x = Some a \<Longrightarrow> run_safe (f a)) \<Longrightarrow> run_safe (case_option p f x)"
  by (cases x) simp_all

lemma run_safe_sum [run_safe_intros]:
  "(\<And>e. x = Inl e \<Longrightarrow> run_safe (f e)) \<Longrightarrow> (\<And>a. x = Inr a \<Longrightarrow> run_safe (g a)) \<Longrightarrow> run_safe (case_sum f g x)"
  by (cases x) simp_all

lemma run_safe_prod [run_safe_intros]: "(\<And>a b. x = (a, b) \<Longrightarrow> run_safe (f a b)) \<Longrightarrow> run_safe (case_prod f x)"
  by (cases x) simp

lemma run_safe_list [run_safe_intros]:
  "(x = [] \<Longrightarrow> run_safe p) \<Longrightarrow> (\<And>a as. x = a # as \<Longrightarrow> run_safe (f a as)) \<Longrightarrow> run_safe (case_list p f x)"
  by (cases x) simp_all

lemma run_safe_let [run_safe_intros]: "(\<And>a. run_safe (f a)) \<Longrightarrow> run_safe (let a = x in f a)"
  by simp

lemma run_safe_pyval [run_safe_intros]:
  "run_safe p \<Longrightarrow> (\<And>b. run_safe (q b)) \<Longrightarrow> (\<And>i. run_safe (r i)) \<Longrightarrow> (\<And>x. run_safe (s x)) \<Longrightarrow>
   (\<And>x. run_safe (t x)) \<Longrightarrow> (\<And>x. run_safe (u x)) \<Longrightarrow> (\<And>x. run_safe (v x)) \<Longrightarrow>
   run_safe (case_pyval p q r s t u v y)"
  by (cases y) simp_all

lemma run_safe_readP [run_safe_intros]: "run_safe (readP f)"
  by (simp add: run_safe_def run_evolves_refl)

lemma run_safe_opP [run_safe_intros]:
  assumes "\<And>w. w_runs (fst (f w)) = w_runs w"
  shows "run_safe (opP f)"
  using assms by (auto simp: run_safe_def intro!: run_evolves_same)

lemma run_safe_forP [run_safe_intros]:
  assumes "\<And>x. run_safe (f x)"
  shows "run_safe (forP f xs)"
  by (induction xs) (auto intro!: run_safe_intros assms)

lemma run_safe_gather:
  assumes "\<And>p. p \<in> set ps \<Longrightarrow> run_safe p"
  shows "run_safe (gather sched_left sched_tick ps)"
  unfolding run_safe_def
proof
  fix w
  show "safe run_evolves (gather sched_left sched_tick ps) w"
  proof (rule safe_gather [OF run_evolves_transp run_evolves_reflp])
    show "run_evolves s (sched_tick s)" for s
      by (intro run_evolves_same) (simp add: sched_tick_def)
    show "\<forall>p\<in>set ps. safe run_evolves p w" using assms by (simp add: run_safe_def)
  qed
qed

subsection \<open>Guarded updates\<close>

lemma run_values_same [simp]:
  "wr_id (run_values run row) = wr_id row" "wr_owner_id (run_values run row) = wr_owner_id row"
  "wr_checkpoint_version (run_values run row) = wr_checkpoint_version run"
  by (simp_all add: run_values_def)

lemma decision_run_values_same [simp]:
  "wr_id (decision_run_values run row) = wr_id row"
  "wr_checkpoint_version (decision_run_values run row) = wr_checkpoint_version run"
  by (simp_all add: decision_run_values_def)

lemma owned_run_row: "owned_run w i own = Some r \<Longrightarrow> run_row w i = Some r \<and> wr_owner_id r = own \<and> wr_id r = i"
  by (auto simp: owned_run_def run_row_def dest: table_get_Some split: option.splits if_splits)

lemma commit_runs [simp]: "w_runs (commit w) = w_runs w"
  by (simp add: commit_def)

lemma checkpoint_update_rows:
  "run_row (fst (checkpoint_update run v w)) =
     (run_row w)(wr_id run := map_option (\<lambda>r. if checkpoint_hits run v r then run_values run r else r)
        (run_row w (wr_id run)))"
proof
  fix k
  show "run_row (fst (checkpoint_update run v w)) k =
     ((run_row w)(wr_id run := map_option (\<lambda>r. if checkpoint_hits run v r then run_values run r else r)
        (run_row w (wr_id run)))) k"
    by (auto simp: checkpoint_update_def run_row_def table_get_update split: option.split)
qed

text \<open>A checkpoint computed from a row that was read at some earlier time is a step of the contract.\<close>

lemma checkpoint_evolves:
  assumes "run_evolves w0 w" and "run_row w0 (wr_id run) = Some r"
    and "wr_checkpoint_version r < wr_checkpoint_version run" and "run_may_become r (run_values run r)"
  shows "run_evolves w (fst (checkpoint_update run (wr_checkpoint_version r) w))"
  unfolding run_evolves_def
proof
  have "evolves run_row wr_checkpoint_version run_may_become w0 w"
    using assms(1) by (simp add: run_evolves_def)
  then show "evolves run_row wr_checkpoint_version run_may_become w
      (fst (checkpoint_update run (wr_checkpoint_version r) w))"
    using assms(2) checkpoint_update_rows
  proof (rule runs.evolves_cas)
    show "wr_checkpoint_version q = wr_checkpoint_version r"
      if "checkpoint_hits run (wr_checkpoint_version r) q" for q
      using that by (simp add: checkpoint_hits_def)
  qed (use assms(3,4) in auto)
  have "w_runs v = w_runs w \<Longrightarrow> unique_runs w \<longrightarrow> unique_runs v" for v
    by (simp add: unique_runs_def)
  moreover have "w_runs v = table_update wr_id (wr_id run) h (run_values run) (w_runs w) \<Longrightarrow>
      unique_runs w \<longrightarrow> unique_runs v" for v h
    by (rule unique_runs_update) (simp_all add: run_key_def run_values_def)
  ultimately show "unique_runs w \<longrightarrow> unique_runs (fst (checkpoint_update run (wr_checkpoint_version r) w))"
    by (simp add: checkpoint_update_def split: option.split)
qed

text \<open>A successor function of a checkpoint: what it may change of the run it is given.\<close>

definition good_successor :: "(datetime \<Rightarrow> wf_run \<Rightarrow> wf_run) \<Rightarrow> bool" where
  "good_successor f \<longleftrightarrow> (\<forall>now r. wr_status r \<noteq> RunCancelled \<longrightarrow>
     wr_id (f now r) = wr_id r \<and> wr_checkpoint_version (f now r) = wr_checkpoint_version r + 1 \<and>
     run_may_become r (run_values (f now r) r))"

lemma run_safe_utcnow [run_safe_intros]: "run_safe utcnow"
  unfolding utcnow_def by (intro run_safe_intros)

lemma run_safe_uuid4 [run_safe_intros]: "run_safe uuid4"
  unfolding uuid4_def by (intro run_safe_intros) simp

lemma run_safe_get_run [run_safe_intros]: "run_safe (get_run i own)"
  unfolding get_run_def by (intro run_safe_intros)

lemma run_safe_get_run_with_executions [run_safe_intros]: "run_safe (get_run_with_executions i own)"
  unfolding get_run_with_executions_def by (intro run_safe_intros)

lemma run_safe_append [run_safe_intros]: "run_safe (append_node_execution e)"
  unfolding append_node_execution_def by (intro run_safe_intros) (simp add: flush_execution_def Let_def)

lemma checkpoint_update_result:
  "snd (checkpoint_update run v w) = Inl WorkflowConcurrentUpdate \<or> (\<exists>q. snd (checkpoint_update run v w) = Inr q)"
  by (auto simp: checkpoint_update_def split: option.split)

text \<open>After a read that returned \<open>r\<close>, reading the clock and the checkpoint of a good successor is safe.\<close>

lemma safe_checkpoint_after_read:
  assumes "run_row w0 (wr_id r) = Some r" and "good_successor f" and "wr_status r \<noteq> RunCancelled"
    and "run_safe again" and "\<And>x. run_safe (g x)"
  shows "safe run_evolves (bindE utcnow (\<lambda>now.
    bindP (checkpoint_run (f now r) (wr_checkpoint_version r)) (\<lambda>x. case x of
      Inl WorkflowConcurrentUpdate \<Rightarrow> again | _ \<Rightarrow> g x))) w0"
proof -
  have step: "run_evolves w (fst (checkpoint_update (f now r) (wr_checkpoint_version r) w))"
    if "run_evolves w0 w" for w now
    using assms(1-3) that by (intro checkpoint_evolves [of w0]) (auto simp: good_successor_def)
  have rest: "run_safe (case x of Inl WorkflowConcurrentUpdate \<Rightarrow> again | _ \<Rightarrow> g x)" for x
    using assms(4,5) by (auto split: sum.split wf_exn.split)
  show ?thesis
    unfolding utcnow_def bindE_def checkpoint_run_def
    using step rest run_evolves_refl run_evolves_trans
    by (simp add: wp_bindP run_safe_def)
qed

lemma safe_get_run_then:
  assumes "\<And>w r. run_row w (wr_id r) = Some r \<Longrightarrow> wr_id r = i \<Longrightarrow> wr_owner_id r = own \<Longrightarrow> safe run_evolves (f (Some r)) w"
    and "run_safe (f None)"
  shows "run_safe (bindE (get_run i own) f)"
proof -
  have "safe run_evolves (f (owned_run w i own)) w" for w
  proof (cases "owned_run w i own")
    case None
    with assms(2) show ?thesis by (simp add: run_safe_def)
  next
    case (Some r)
    with owned_run_row [OF Some] show ?thesis by (auto intro: assms(1))
  qed
  then show ?thesis
    unfolding run_safe_def get_run_def bindE_def wp_bindP by (intro allI) (auto simp: run_evolves_refl)
qed

lemma run_safe_try_checkpoint:
  assumes "good_successor f" and "run_safe again"
  shows "run_safe (try_checkpoint cfg i own f again)"
  unfolding try_checkpoint_def
proof (rule safe_get_run_then)
  fix w r
  assume r: "run_row w (wr_id r) = Some r"
  show "safe run_evolves (case Some r of None \<Rightarrow> raise (run_not_found cfg i)
      | Some fresh \<Rightarrow> if wr_status fresh = RunCancelled then ok fresh
          else bindE utcnow (\<lambda>now. bindP (checkpoint_run (f now fresh) (wr_checkpoint_version fresh))
            (\<lambda>r. case r of Inl WorkflowConcurrentUpdate \<Rightarrow> again | _ \<Rightarrow> Ret r))) w"
    using safe_checkpoint_after_read [OF r assms(1) _ assms(2), of Ret] by (simp add: run_safe_Ret)
qed (simp add: run_safe_Ret)

lemma run_safe_checkpoint_loop [run_safe_intros]:
  "good_successor f \<Longrightarrow> run_safe (checkpoint_loop cfg i own f n)"
  by (induction n) (auto intro!: run_safe_try_checkpoint run_safe_Ret)

text \<open>The successors that the executor and the manager write.\<close>

lemma skipped_list_put [simp]: "skipped_list (dict_put ''skipped_node_ids'' (PList xs) d) = str_items xs"
  by (simp add: skipped_list_def)

lemma skipped_list_None: "dict_get d ''skipped_node_ids'' = None \<Longrightarrow> skipped_list d = []"
  by (simp add: skipped_list_def)

lemma skipped_merge: "set (skipped_list fresh) \<subseteq> set (skipped_list (merge_context_metadata fresh incoming))"
  by (auto simp: merge_context_metadata_def Let_def skipped_list_None)

lemma good_apply_patch: "good_successor (apply_patch patch)"
  using skipped_merge
  by (auto simp: good_successor_def apply_patch_def run_may_become_def run_values_def split: option.split)

lemma good_succeeded_run: "good_successor (succeeded_run i out)"
  by (auto simp: good_successor_def succeeded_run_def run_may_become_def run_values_def)

lemma good_cancelled_run: "good_successor cancelled_run"
  by (auto simp: good_successor_def cancelled_run_def run_may_become_def run_values_def)

lemma run_safe_checkpoint_with_retry [run_safe_intros]: "run_safe (checkpoint_with_retry cfg run patch)"
  unfolding checkpoint_with_retry_def by (intro run_safe_intros good_apply_patch)

subsection \<open>The executor\<close>

lemma run_safe_stop_if_cancelled [run_safe_intros]: "run_safe (stop_if_cancelled cfg i own)"
  unfolding stop_if_cancelled_def by (intro run_safe_intros)

lemma run_safe_unless_cancelled [run_safe_intros]: "run_safe p \<Longrightarrow> run_safe (unless_cancelled cfg run p)"
  unfolding unless_cancelled_def by (intro run_safe_intros)

lemma run_safe_liftN [run_safe_intros]: "run_safe (liftN r)"
  by (auto simp: liftN_def intro: run_safe_Ret split: sum.split node_exn.split)

lemma run_safe_fail_run_with [run_safe_intros]: "run_safe (fail_run_with cfg run e)"
  unfolding fail_run_with_def by (intro run_safe_intros)

lemma run_safe_complete_run [run_safe_intros]: "run_safe (complete_run cfg run)"
  unfolding complete_run_def by (intro run_safe_intros)

lemma run_safe_fail_run_duration [run_safe_intros]: "run_safe (fail_run_duration cfg run)"
  unfolding fail_run_duration_def by (intro run_safe_intros)

lemma run_safe_mark_attempt_failed [run_safe_intros]: "run_safe (mark_attempt_failed e msg)"
  unfolding mark_attempt_failed_def by (intro run_safe_intros)

lemma run_safe_fail_node [run_safe_intros]: "run_safe (fail_node cfg run e msg)"
  unfolding fail_node_def by (intro run_safe_intros)

lemma run_safe_append_skipped [run_safe_intros]: "run_safe (append_skipped d run now i)"
  unfolding append_skipped_def by (intro run_safe_intros)

lemma run_safe_skip_nodes [run_safe_intros]: "run_safe (skip_nodes cfg d run ids)"
  unfolding skip_nodes_def by (intro run_safe_intros)

lemma run_safe_skip_unselected [run_safe_intros]: "run_safe (skip_unselected_branches cfg d run i sel)"
  unfolding skip_unselected_branches_def by (intro run_safe_intros)

lemma run_safe_handle_join [run_safe_intros]: "run_safe (handle_join_completion cfg d run i)"
  unfolding handle_join_completion_def by (intro run_safe_intros)

lemma run_safe_succeed_node [run_safe_intros]: "run_safe (succeed_node cfg d run e out)"
  unfolding succeed_node_def by (intro run_safe_intros good_succeeded_run)

lemma run_safe_pause [run_safe_intros]: "run_safe (pause_for_approval cfg run e out)"
  unfolding pause_for_approval_def by (intro run_safe_intros)

lemma run_safe_skip_branch [run_safe_intros]: "run_safe (skip_branch_node cfg run e msg)"
  unfolding skip_branch_node_def by (intro run_safe_intros)

lemma run_safe_call [run_safe_intros]: "run_safe (call_executor e node ctx request)"
  unfolding call_executor_def by (intro run_safe_intros) simp

lemma run_safe_outcome:
  "(\<And>x. run_safe (a x)) \<Longrightarrow> (\<And>m k. run_safe (b m k)) \<Longrightarrow> run_safe c \<Longrightarrow> run_safe d \<Longrightarrow>
   run_safe (case_node_outcome a b c d x)"
  by (cases x) simp_all

lemma run_safe_after_call:
  assumes "\<And>again r. retry = Some again \<Longrightarrow> run_safe (again r)"
  shows "run_safe (after_call cfg d node retry run pending outcome)"
  unfolding after_call_def by (intro run_safe_intros run_safe_outcome assms)

lemma run_safe_attempt_body:
  assumes "\<And>again r. retry = Some again \<Longrightarrow> run_safe (again r)"
  shows "run_safe (attempt_body cfg d node retry attempt receipt run)"
  unfolding attempt_body_def by (intro run_safe_intros run_safe_after_call assms)

lemma run_safe_attempt_loop [run_safe_intros]: "run_safe (attempt_loop cfg d node n attempt receipt run)"
  by (induction n arbitrary: attempt receipt run) (auto intro!: run_safe_attempt_body)

lemma run_safe_execute_node [run_safe_intros]: "run_safe (execute_node cfg d es rec node run)"
  unfolding execute_node_def by (intro run_safe_intros)

lemma run_safe_resume_interrupted [run_safe_intros]: "run_safe (resume_interrupted_node cfg d run node e)"
  unfolding resume_interrupted_node_def by (intro run_safe_intros)

lemma run_safe_wf_exn [run_safe_intros]:
  "(\<And>m. run_safe (a m)) \<Longrightarrow> (\<And>m. run_safe (b m)) \<Longrightarrow> run_safe c \<Longrightarrow> (\<And>m. run_safe (d m)) \<Longrightarrow>
   (\<And>m. run_safe (f m)) \<Longrightarrow> (\<And>m k. run_safe (g m k)) \<Longrightarrow> (\<And>m. run_safe (h m)) \<Longrightarrow> run_safe i \<Longrightarrow>
   run_safe (case_wf_exn a b c d f g h i e)"
  by (cases e) simp_all

lemma run_safe_combine_results [run_safe_intros]: "run_safe (combine_results cfg run results)"
  unfolding combine_results_def by (intro run_safe_intros)

lemma run_safe_execute_nodes_parallel [run_safe_intros]: "run_safe (execute_nodes_parallel cfg d es nodes run)"
proof -
  have "run_safe (gather sched_left sched_tick (map (\<lambda>node. execute_node cfg d es None node run) nodes))"
    by (rule run_safe_gather) (auto intro: run_safe_execute_node)
  then show ?thesis unfolding execute_nodes_parallel_def by (intro run_safe_intros)
qed

lemma run_safe_execute_groups [run_safe_intros]: "run_safe (execute_groups cfg d es gs run)"
proof (induction gs arbitrary: run)
  case (Cons g gs)
  then show ?case unfolding execute_groups.simps by (intro run_safe_intros)
qed (simp add: run_safe_Ret)

lemma run_safe_recover [run_safe_intros]: "run_safe (recover_interrupted cfg d todo run es)"
proof (induction todo arbitrary: run es)
  case (Cons e todo)
  then show ?case unfolding recover_interrupted.simps by (intro run_safe_intros)
qed (simp add: run_safe_Ret)

lemma run_safe_iteration [run_safe_intros]: "run_safe (run_iteration cfg d run es)"
  unfolding run_iteration_def by (intro run_safe_intros)

lemma run_safe_run_loop [run_safe_intros]: "run_safe (run_loop cfg d fuel run es)"
proof (induction fuel arbitrary: run es)
  case 0
  then show ?case by (simp add: run_safe_Ret)
next
  case (Suc fuel)
  then show ?case unfolding run_loop.simps by (intro run_safe_intros)
qed

lemma run_safe_execute_run [run_safe_intros]: "run_safe (execute_run cfg fuel i own)"
  unfolding execute_run_def by (intro run_safe_intros)

lemma run_safe_continue [run_safe_intros]: "run_safe (continue_from_approval cfg d run i sel)"
  unfolding continue_from_approval_def by (intro run_safe_intros)

subsection \<open>The manager\<close>

text \<open>Safety of a program that runs after a read: the state that was read is remembered.\<close>

definition run_safe_since :: "wf_world \<Rightarrow> (wf_world, 'a) prog \<Rightarrow> bool" where
  "run_safe_since w0 p \<longleftrightarrow> (\<forall>w. run_evolves w0 w \<longrightarrow> safe run_evolves p w)"

named_theorems since_intros "programs that keep the contract after a read"

lemma since_safe: "run_safe p \<Longrightarrow> run_safe_since w0 p"
  by (simp add: run_safe_def run_safe_since_def)

lemma since_bindP:
  "run_safe p \<Longrightarrow> (\<And>a. run_safe_since w0 (g a)) \<Longrightarrow> run_safe_since w0 (bindP p g)"
  unfolding run_safe_def run_safe_since_def
  using run_evolves_transp run_evolves_reflp run_evolves_trans by (blast intro: safe_bindP)

lemma since_bindE [since_intros]:
  "run_safe p \<Longrightarrow> (\<And>a. run_safe_since w0 (g a)) \<Longrightarrow> run_safe_since w0 (bindE p g)"
  unfolding run_safe_def run_safe_since_def
  using run_evolves_transp run_evolves_reflp run_evolves_trans by (blast intro: safe_bindE)

lemma since_bindP_first:
  "run_safe_since w0 p \<Longrightarrow> (\<And>a. run_safe (g a)) \<Longrightarrow> run_safe_since w0 (bindP p g)"
  unfolding run_safe_def run_safe_since_def
  using run_evolves_transp run_evolves_reflp run_evolves_trans by (blast intro: safe_bindP)

lemma since_if [since_intros]:
  "(b \<Longrightarrow> run_safe_since w0 p) \<Longrightarrow> (\<not> b \<Longrightarrow> run_safe_since w0 q) \<Longrightarrow> run_safe_since w0 (if b then p else q)"
  by simp

lemma since_option [since_intros]:
  "(x = None \<Longrightarrow> run_safe_since w0 p) \<Longrightarrow> (\<And>a. x = Some a \<Longrightarrow> run_safe_since w0 (f a)) \<Longrightarrow>
   run_safe_since w0 (case_option p f x)"
  by (cases x) simp_all

lemma since_sum [since_intros]:
  "(\<And>e. x = Inl e \<Longrightarrow> run_safe_since w0 (f e)) \<Longrightarrow> (\<And>a. x = Inr a \<Longrightarrow> run_safe_since w0 (g a)) \<Longrightarrow>
   run_safe_since w0 (case_sum f g x)"
  by (cases x) simp_all

lemma since_prod [since_intros]:
  "(\<And>a b. x = (a, b) \<Longrightarrow> run_safe_since w0 (f a b)) \<Longrightarrow> run_safe_since w0 (case_prod f x)"
  by (cases x) simp

lemma since_let [since_intros]: "(\<And>a. a = x \<Longrightarrow> run_safe_since w0 (f a)) \<Longrightarrow> run_safe_since w0 (let a = x in f a)"
  by simp

lemma get_run_since:
  assumes "\<And>w r. run_row w (wr_id r) = Some r \<Longrightarrow> wr_id r = i \<Longrightarrow> wr_owner_id r = own \<Longrightarrow> run_safe_since w (f (Some r))"
    and "run_safe (f None)"
  shows "run_safe (bindE (get_run i own) f)"
  using assms run_evolves_refl unfolding run_safe_since_def by (intro safe_get_run_then) auto

text \<open>The transaction of a decision on a run that was read while it waited.\<close>

lemma append_revision_runs [simp]: "w_runs (append_revision i u a n w) = w_runs w"
  by (simp add: append_revision_def split: option.split)

lemma rollback_runs [simp]: "w_runs (rollback w) = w_runs w"
  by (simp add: rollback_def)

lemma decision_transaction_evolves:
  assumes "run_evolves w0 w" and "run_row w0 (wr_id run) = Some r"
    and "wr_checkpoint_version run = wr_checkpoint_version r + 1"
    and "run_may_become r (decision_run_values run r)"
  shows "run_evolves w (fst (decision_transaction i own dec who st run args reason w))"
proof (cases "w_runs (fst (decision_transaction i own dec who st run args reason w)) = w_runs w")
  case True
  then show ?thesis by (rule run_evolves_same)
next
  case False
  then have rows: "w_runs (fst (decision_transaction i own dec who st run args reason w)) =
      table_update wr_id (wr_id run) (decision_hits run own) (decision_run_values run) (w_runs w)"
    by (auto simp: decision_transaction_def Let_def split: option.splits if_splits)
  have row: "run_row (fst (decision_transaction i own dec who st run args reason w)) =
      (run_row w)(wr_id run := map_option (\<lambda>q. if decision_hits run own q then decision_run_values run q else q)
         (run_row w (wr_id run)))"
    by (rule ext) (simp add: run_row_def rows table_get_update)
  have "evolves run_row wr_checkpoint_version run_may_become w0 w"
    using assms(1) by (simp add: run_evolves_def)
  from this assms(2) row have "evolves run_row wr_checkpoint_version run_may_become w
      (fst (decision_transaction i own dec who st run args reason w))"
  proof (rule runs.evolves_cas)
    show "wr_checkpoint_version q = wr_checkpoint_version r" if "decision_hits run own q" for q
      using that assms(3) by (simp add: decision_hits_def)
  qed (use assms(3,4) in auto)
  moreover have "unique_runs w \<longrightarrow> unique_runs (fst (decision_transaction i own dec who st run args reason w))"
    by (rule unique_runs_update [OF _ rows]) (simp add: run_key_def decision_run_values_def)
  ultimately show ?thesis by (simp add: run_evolves_def)
qed

lemma since_record_decision:
  assumes "run_row w0 (wr_id r) = Some r" and "wr_status r = RunWaitingApproval"
  shows "run_safe_since w0 (record_approval_decision i own dec who st
    (decided_run r d node dec' sel args now) args' reason)"
proof -
  let ?run = "decided_run r d node dec' sel args now"
  have run: "wr_id ?run = wr_id r" "wr_checkpoint_version ?run = wr_checkpoint_version r + 1"
    by (simp_all add: decided_run_def Let_def)
  have "run_may_become r (decision_run_values ?run r)"
    using assms(2) by (auto simp: run_may_become_def decision_run_values_def decided_run_def Let_def)
  then have "run_safe_since w0 (opP (decision_transaction i own dec who st ?run args' reason))"
    unfolding run_safe_since_def wp_opP
    using decision_transaction_evolves [of w0 _ ?run r] assms(1) run run_evolves_trans [of w0] by metis
  then show ?thesis unfolding record_approval_decision_def
    by (intro since_intros since_bindP since_safe [OF run_safe_Ret]) (auto intro: run_safe_readP)
qed

lemma run_safe_schedule [run_safe_intros]: "run_safe (schedule_run i own)"
  unfolding schedule_run_def by (intro run_safe_intros) (simp add: schedule_run_task_def)

lemma run_safe_reconcile_runs [run_safe_intros]: "run_safe (reconcile_runs rs n)"
proof (induction rs arbitrary: n)
  case (Cons r rs)
  then show ?case unfolding reconcile_runs.simps by (intro run_safe_intros)
qed (simp add: run_safe_Ret)

lemma run_safe_reconcile [run_safe_intros]: "run_safe reconcile_orphaned_runs"
  unfolding reconcile_orphaned_runs_def by (intro run_safe_intros)

lemma run_safe_get_definition [run_safe_intros]: "run_safe (get_definition i own)"
  unfolding get_definition_def by (intro run_safe_intros)

lemma run_safe_validate [run_safe_intros]: "run_safe (validate_before_persist cfg it d)"
  unfolding validate_before_persist_def by (intro run_safe_intros)

lemma run_safe_store_create [run_safe_intros]: "run_safe (opP (store_create_definition d))"
  by (intro run_safe_intros) (simp add: store_create_definition_def)

lemma run_safe_store_update [run_safe_intros]: "run_safe (opP (store_update_definition d v n))"
  by (intro run_safe_intros) (simp add: store_update_definition_def Let_def split: option.split)

lemma run_safe_create_definition [run_safe_intros]: "run_safe (create_definition cfg it d)"
  unfolding create_definition_def by (intro run_safe_intros)

lemma run_safe_update_definition [run_safe_intros]: "run_safe (update_definition cfg it d own)"
  unfolding update_definition_def by (intro run_safe_intros)

lemma run_safe_archive [run_safe_intros]: "run_safe (archive_definition cfg i own)"
  unfolding archive_definition_def by (intro run_safe_intros)

lemma run_safe_insert_run [run_safe_intros]: "run_safe (opP (insert_run run))"
proof -
  have "run_evolves w (fst (insert_run run w))" for w
    unfolding run_evolves_def
  proof
    show "evolves run_row wr_checkpoint_version run_may_become w (fst (insert_run run w))"
      by (auto simp: evolves_def insert_run_def run_row_def table_get_append split: option.split)
    show "unique_runs w \<longrightarrow> unique_runs (fst (insert_run run w))"
      by (auto simp: unique_runs_def insert_run_def run_by_key_def run_key_def find_None_iff split: option.split)
  qed
  then show ?thesis by (auto simp: run_safe_def)
qed

lemma run_safe_get_or_create [run_safe_intros]: "run_safe (get_or_create_run run)"
  unfolding get_or_create_run_def by (intro run_safe_intros)

lemma run_safe_start_run [run_safe_intros]: "run_safe (start_run cfg i own key input session defer)"
  unfolding start_run_def by (intro run_safe_intros) simp

lemma run_safe_decided_already [run_safe_intros]: "run_safe (decided_already run e dec msg)"
  unfolding decided_already_def by (intro run_safe_intros)

lemma run_safe_finish_decision [run_safe_intros]: "run_safe (finish_decision cfg d own run e dec n sel)"
  unfolding finish_decision_def by (intro run_safe_intros)

lemma run_safe_try_decision:
  assumes "\<And>k. run_safe (again k)"
  shows "run_safe (try_decision cfg i eid own dec args reason known again)"
  unfolding try_decision_def
proof (rule get_run_since, goal_cases)
  case r: (1 w r)
  have conflict: "run_safe (case x of Inr decided \<Rightarrow> finish_decision cfg d own run decided dec n sel
      | Inl (WorkflowApprovalCasMiss existing) \<Rightarrow>
          if wx_decision existing = Some dec then
            bindE (get_run i own) (\<lambda>latest. case latest of None \<Rightarrow> raise (run_not_found (mc_exec cfg) i)
              | Some l \<Rightarrow> bindE utcnow (\<lambda>now. ok (l, build_approval_result existing dec now)))
          else raise (WorkflowDecisionConflict ''Approval decision conflicts with an existing decision.'')
      | Inl WorkflowConcurrentUpdate \<Rightarrow> again (Some d)
      | Inl exn \<Rightarrow> raise exn)" for x d run n sel
    by (intro run_safe_intros assms)
  show ?case
    unfolding option.case Let_def
    by (intro since_intros since_bindP_first since_record_decision [OF r(1)] conflict run_safe_intros
        since_safe [OF run_safe_Ret] since_safe [OF run_safe_decided_already]) blast
qed (simp add: run_safe_Ret)

lemma run_safe_decision_loop [run_safe_intros]:
  "run_safe (decision_loop cfg i eid own dec args reason n known)"
proof (induction n arbitrary: known)
  case 0
  then show ?case by (simp add: run_safe_Ret)
next
  case (Suc n)
  then show ?case by (auto intro!: run_safe_try_decision run_safe_Ret)
qed

lemma run_safe_apply_decision [run_safe_intros]: "run_safe (apply_decision cfg i eid own dec args reason)"
  unfolding apply_decision_def by (intro run_safe_intros)

lemma run_safe_cancel_loop [run_safe_intros]: "run_safe (cancel_loop cfg i own n)"
proof (induction n)
  case 0
  then show ?case by (simp add: run_safe_Ret)
next
  case (Suc n)
  show ?case unfolding cancel_loop.simps
  proof (rule safe_get_run_then, goal_cases)
    case r: (1 w r)
    have again: "run_safe (if n = 0 then raise WorkflowConcurrentUpdate else cancel_loop cfg i own n)"
      using Suc by (intro run_safe_intros)
    have "safe run_evolves (bindE utcnow (\<lambda>now.
        bindP (checkpoint_run (cancelled_run now r) (wr_checkpoint_version r)) (\<lambda>x. case x of
          Inl WorkflowConcurrentUpdate \<Rightarrow> (if n = 0 then raise WorkflowConcurrentUpdate else cancel_loop cfg i own n)
        | _ \<Rightarrow> Ret x))) w" if "wr_status r \<noteq> RunCancelled"
      by (rule safe_checkpoint_after_read [OF r(1) good_cancelled_run that again run_safe_Ret])
    then show ?case by (auto simp: terminal_status_def)
  qed (simp add: run_safe_Ret)
qed

lemma run_safe_cancel_run [run_safe_intros]: "run_safe (cancel_run cfg i own)"
  unfolding cancel_run_def by (intro run_safe_intros)

lemma run_safe_resume [run_safe_intros]: "run_safe (resume cfg i own)"
  unfolding resume_def by (intro run_safe_intros)

lemma run_safe_run_task [run_safe_intros]: "run_safe (run_task cfg fuel i own)"
proof -
  have "run_safe (Act (release_run_task i) (\<lambda>_. Ret ()))"
    by (auto simp: run_safe_def release_run_task_def intro!: run_evolves_same)
  then show ?thesis unfolding run_task_def by (intro run_safe_intros)
qed

subsection \<open>Any number of tasks\<close>

text \<open>The requests a deployment serves; each is one task of the pool.\<close>

datatype wf_request =
    ReqRunTask nat uuid uuid
  | ReqStart uuid uuid string "pyval dict option" "uuid option" bool
  | ReqDecide uuid uuid uuid approval_decision "pyval dict option" "string option"
  | ReqCancel uuid uuid
  | ReqResume uuid uuid
  | ReqReconcile
  | ReqCreate wf_definition
  | ReqUpdate wf_definition uuid
  | ReqArchive uuid uuid

definition ignore_result :: "(wf_world, 'a) prog \<Rightarrow> (wf_world, unit) prog" where
  "ignore_result p = bindP p (\<lambda>_. Ret ())"

fun serve :: "manager_config \<Rightarrow> (wf_definition \<Rightarrow> string list) \<Rightarrow> wf_request \<Rightarrow> (wf_world, unit) prog" where
  "serve cfg it (ReqRunTask fuel i own) = run_task cfg fuel i own"
| "serve cfg it (ReqStart i own key input session defer) =
     ignore_result (start_run cfg i own key input session defer)"
| "serve cfg it (ReqDecide i eid own dec args reason) = ignore_result (apply_decision cfg i eid own dec args reason)"
| "serve cfg it (ReqCancel i own) = ignore_result (cancel_run cfg i own)"
| "serve cfg it (ReqResume i own) = ignore_result (resume cfg i own)"
| "serve cfg it ReqReconcile = ignore_result reconcile_orphaned_runs"
| "serve cfg it (ReqCreate d) = ignore_result (create_definition cfg it d)"
| "serve cfg it (ReqUpdate d own) = ignore_result (update_definition cfg it d own)"
| "serve cfg it (ReqArchive i own) = ignore_result (archive_definition cfg i own)"

lemma run_safe_serve: "run_safe (serve cfg it req)"
  by (cases req) (simp_all add: ignore_result_def, (intro run_safe_intros)+)

lemma pool_run_evolves:
  assumes "pool_step\<^sup>*\<^sup>* (w, map (serve cfg it) reqs) (w', ps)"
  shows "run_evolves w w'"
proof -
  have "\<forall>p\<in>set (map (serve cfg it) reqs). safe run_evolves p w"
    using run_safe_serve by (auto simp: run_safe_def)
  from pool_safe [OF run_evolves_transp run_evolves_reflp assms this] show ?thesis by blast
qed

end
