(* ===== verification/Wf_Progress.thy ===== *)
theory Wf_Progress
  imports Wf_Safety
begin

section \<open>Every iteration of the step loop makes progress\<close>

text \<open>
  A node is resolved once its output or its skip mark is in the run row, and by the contract of
  \<open>Wf_Safety\<close> that is for good. The theory shows, for an executor that runs among any other tasks that
  keep the contract, that an iteration of the loop of \<open>execute_run\<close> that goes on with a running run
  has resolved every node it executed; hence the number of unresolved nodes falls with every
  iteration that does not recover an interrupted node.
\<close>

subsection \<open>Postconditions under interference\<close>

text \<open>What holds of a normal result at the end, when the program starts at any time after \<open>w0\<close>.\<close>

definition returns :: "wf_world \<Rightarrow> 'a wf_prog \<Rightarrow> ('a \<Rightarrow> wf_world \<Rightarrow> bool) \<Rightarrow> bool" where
  "returns w0 p C \<longleftrightarrow> (\<forall>w. run_evolves w0 w \<longrightarrow>
     wp run_evolves run_evolves p (\<lambda>r t. run_evolves w0 t \<and> (\<forall>a. r = Inr a \<longrightarrow> C a t)) w)"

named_theorems returns_intros "postconditions of programs"

lemma returnsI:
  assumes "\<And>w. run_evolves w0 w \<Longrightarrow> wp run_evolves run_evolves p (\<lambda>r t. \<forall>a. r = Inr a \<longrightarrow> C a t) w"
  shows "returns w0 p C"
  unfolding returns_def
proof (intro allI impI)
  fix w
  assume w: "run_evolves w0 w"
  show "wp run_evolves run_evolves p (\<lambda>r t. run_evolves w0 t \<and> (\<forall>a. r = Inr a \<longrightarrow> C a t)) w"
    using wp_remember [OF assms [OF w] w run_evolves_transp run_evolves_reflp] by (rule wp_mono) auto
qed

lemma returns_mono: "returns w0 p C \<Longrightarrow> (\<And>a t. run_evolves w0 t \<Longrightarrow> C a t \<Longrightarrow> D a t) \<Longrightarrow> returns w0 p D"
  unfolding returns_def by (blast intro: wp_mono)

lemma returns_safe: "run_safe p \<Longrightarrow> returns w0 p (\<lambda>_ t. run_evolves w0 t)"
proof (rule returnsI)
  fix w
  assume "run_safe p" and w: "run_evolves w0 w"
  then have "safe run_evolves p w" by (simp add: run_safe_def)
  from wp_remember [OF this w run_evolves_transp run_evolves_reflp]
  show "wp run_evolves run_evolves p (\<lambda>r t. \<forall>a. r = Inr a \<longrightarrow> run_evolves w0 t) w"
    by (rule wp_mono) simp
qed

lemma returns_bindE_post:
  assumes "returns w0 p B" and "\<And>a w1. run_evolves w0 w1 \<Longrightarrow> B a w1 \<Longrightarrow> returns w1 (g a) C"
  shows "returns w0 (bindE p g) C"
proof (rule returnsI)
  fix w
  assume w: "run_evolves w0 w"
  with assms(1) have "wp run_evolves run_evolves p (\<lambda>r t. run_evolves w0 t \<and> (\<forall>a. r = Inr a \<longrightarrow> B a t)) w"
    by (simp add: returns_def)
  then show "wp run_evolves run_evolves (bindE p g) (\<lambda>r t. \<forall>a. r = Inr a \<longrightarrow> C a t) w"
    unfolding wp_bindE
  proof (rule wp_mono)
    fix r t
    assume r: "run_evolves w0 t \<and> (\<forall>a. r = Inr a \<longrightarrow> B a t)"
    show "(case r of Inl e \<Rightarrow> \<lambda>t. \<forall>a. Inl e = Inr a \<longrightarrow> C a t
        | Inr a \<Rightarrow> wp run_evolves run_evolves (g a) (\<lambda>r t. \<forall>a. r = Inr a \<longrightarrow> C a t)) t"
    proof (cases r)
      case (Inr a)
      with r have "returns t (g a) C" by (blast intro: assms(2))
      then have "wp run_evolves run_evolves (g a) (\<lambda>r u. run_evolves t u \<and> (\<forall>a. r = Inr a \<longrightarrow> C a u)) t"
        using run_evolves_refl by (simp add: returns_def)
      then have "wp run_evolves run_evolves (g a) (\<lambda>r t. \<forall>a. r = Inr a \<longrightarrow> C a t) t"
        by (rule wp_mono) simp
      with Inr show ?thesis by simp
    qed simp
  qed
qed

lemma returns_bindE:
  assumes "run_safe p" and "\<And>a w1. run_evolves w0 w1 \<Longrightarrow> returns w1 (g a) C"
  shows "returns w0 (bindE p g) C"
  using returns_safe [OF assms(1)] by (rule returns_bindE_post) (rule assms(2))

lemma returns_bindP:
  assumes "run_safe p" and "\<And>a w1. run_evolves w0 w1 \<Longrightarrow> returns w1 (g a) C"
  shows "returns w0 (bindP p g) C"
proof -
  have "bindP p g = bindE (bindP p ok) g" by (simp add: bindE_def bindP_assoc)
  moreover have "run_safe (bindP p ok)" by (intro run_safe_intros assms(1))
  ultimately show ?thesis using assms(2) by (auto intro: returns_bindE)
qed

lemma returns_raise [returns_intros]: "returns w0 (raise e) C"
  by (auto intro: returnsI)

lemma returns_ok: "(\<And>t. run_evolves w0 t \<Longrightarrow> C a t) \<Longrightarrow> returns w0 (ok a) C"
  by (auto intro: returnsI)

lemma returns_if: "(b \<Longrightarrow> returns w0 p C) \<Longrightarrow> (\<not> b \<Longrightarrow> returns w0 q C) \<Longrightarrow> returns w0 (if b then p else q) C"
  by simp

lemma returns_option:
  "(x = None \<Longrightarrow> returns w0 p C) \<Longrightarrow> (\<And>a. x = Some a \<Longrightarrow> returns w0 (f a) C) \<Longrightarrow> returns w0 (case_option p f x) C"
  by (cases x) simp_all

lemma returns_later: "returns w0 p C \<Longrightarrow> run_evolves w0 w1 \<Longrightarrow> returns w1 p C"
proof (rule returnsI)
  fix w
  assume "returns w0 p C" "run_evolves w0 w1" "run_evolves w1 w"
  then have "wp run_evolves run_evolves p (\<lambda>r t. run_evolves w0 t \<and> (\<forall>a. r = Inr a \<longrightarrow> C a t)) w"
    using run_evolves_trans by (auto simp: returns_def)
  then show "wp run_evolves run_evolves p (\<lambda>r t. \<forall>a. r = Inr a \<longrightarrow> C a t) w"
    by (rule wp_mono) simp
qed

subsection \<open>Resolved nodes\<close>

definition resolved_in :: "wf_world \<Rightarrow> uuid \<Rightarrow> string \<Rightarrow> bool" where
  "resolved_in w i n \<longleftrightarrow> (\<exists>q. run_row w i = Some q \<and> n \<in> get_resolved_node_ids q)"

lemma resolved_eq:
  "get_resolved_node_ids r = set (dict_keys (variables (wr_context r))) \<union> set (skipped_list (metadata (wr_context r)))"
  by (auto simp: get_resolved_node_ids_def get_succeeded_node_ids_def get_skipped_node_ids_def skipped_list_def
      split: option.splits pyval.splits)

lemma resolved_may_become: "run_may_become r q \<Longrightarrow> get_resolved_node_ids r \<subseteq> get_resolved_node_ids q"
  by (auto simp: resolved_eq run_may_become_def)

lemma evolves_resolved:
  assumes "run_evolves w v" and "run_row w i = Some r"
  obtains q where "run_row v i = Some q" "get_resolved_node_ids r \<subseteq> get_resolved_node_ids q"
    "wr_owner_id q = wr_owner_id r" "wr_id q = wr_id r"
proof -
  from assms(1) have "evolves run_row wr_checkpoint_version run_may_become w v" by (simp add: run_evolves_def)
  from runs.evolves_row [OF this assms(2)] obtain q where
    q: "run_row v i = Some q" "q = r \<or> wr_checkpoint_version r < wr_checkpoint_version q \<and> run_may_become r q" .
  then have "get_resolved_node_ids r \<subseteq> get_resolved_node_ids q" using resolved_may_become by blast
  with q that show thesis by (auto simp: run_may_become_def)
qed

lemma resolved_in_stable: "resolved_in w i n \<Longrightarrow> run_evolves w v \<Longrightarrow> resolved_in v i n"
  unfolding resolved_in_def by (metis evolves_resolved subsetD)

subsection \<open>Checkpoints\<close>

lemma checkpoint_update_post:
  assumes "run_evolves w0 v" and "run_row w0 (wr_id run) = Some fresh"
    and "snd (checkpoint_update run (wr_checkpoint_version fresh) v) = Inr q"
  shows "q = run_values run fresh \<and>
    run_row (fst (checkpoint_update run (wr_checkpoint_version fresh) v)) (wr_id run) = Some q"
proof -
  from assms(3) obtain row where row: "run_row v (wr_id run) = Some row"
      "checkpoint_hits run (wr_checkpoint_version fresh) row" "q = run_values run row"
    by (auto simp: checkpoint_update_def split: option.splits if_splits)
  have "evolves run_row wr_checkpoint_version run_may_become w0 v" using assms(1) by (simp add: run_evolves_def)
  from runs.same_version [OF this assms(2) row(1)] row(2) have "row = fresh" by (simp add: checkpoint_hits_def)
  with row show ?thesis by (simp add: checkpoint_update_rows)
qed

definition written_by :: "(datetime \<Rightarrow> wf_run \<Rightarrow> wf_run) \<Rightarrow> uuid \<Rightarrow> wf_run \<Rightarrow> wf_world \<Rightarrow> bool" where
  "written_by f i q t \<longleftrightarrow> run_row t i = Some q \<and>
     (wr_status q = RunCancelled \<or>
      (\<exists>now fresh. wr_status fresh \<noteq> RunCancelled \<and> q = run_values (f now fresh) fresh))"

lemma wp_get_run:
  "wp run_evolves run_evolves (bindE (get_run i own) f) Q w \<longleftrightarrow>
     (\<forall>v. run_evolves w v \<longrightarrow> wp run_evolves run_evolves (f (owned_run v i own)) Q v)"
  by (simp add: get_run_def bindE_def readP_def run_evolves_refl)

lemma wp_utcnow:
  "wp run_evolves run_evolves (bindE utcnow f) Q w \<longleftrightarrow>
     (\<forall>v. run_evolves w v \<longrightarrow> wp run_evolves run_evolves (f (w_now v)) Q v)"
  by (simp add: utcnow_def bindE_def readP_def run_evolves_refl)

lemma get_run_returns:
  assumes "\<And>w1 r. run_evolves w0 w1 \<Longrightarrow> run_row w1 i = Some r \<Longrightarrow> wr_id r = i \<Longrightarrow> wr_owner_id r = own \<Longrightarrow>
      wp run_evolves run_evolves (f (Some r)) (\<lambda>r t. \<forall>a. r = Inr a \<longrightarrow> C a t) w1"
    and "\<And>w1. run_evolves w0 w1 \<Longrightarrow> wp run_evolves run_evolves (f None) (\<lambda>r t. \<forall>a. r = Inr a \<longrightarrow> C a t) w1"
  shows "returns w0 (bindE (get_run i own) f) C"
proof (rule returnsI)
  fix w
  assume w: "run_evolves w0 w"
  have "wp run_evolves run_evolves (f (owned_run v i own)) (\<lambda>r t. \<forall>a. r = Inr a \<longrightarrow> C a t) v"
    if "run_evolves w v" for v
  proof -
    have v: "run_evolves w0 v" using w that by (rule run_evolves_trans)
    show ?thesis
    proof (cases "owned_run v i own")
      case None
      show ?thesis unfolding None by (rule assms(2) [OF v])
    next
      case (Some r)
      note r = owned_run_row [OF Some]
      show ?thesis unfolding Some using r by (intro assms(1) [OF v]) auto
    qed
  qed
  then show "wp run_evolves run_evolves (bindE (get_run i own) f) (\<lambda>r t. \<forall>a. r = Inr a \<longrightarrow> C a t) w"
    unfolding wp_get_run by blast
qed

lemma checkpoint_loop_returns:
  assumes "good_successor f"
  shows "returns w0 (checkpoint_loop cfg i own f n) (written_by f i)"
proof (induction n arbitrary: w0)
  case 0
  show ?case by (auto intro: returns_raise)
next
  case (Suc n)
  let ?again = "if n = 0 then raise WorkflowConcurrentUpdate else checkpoint_loop cfg i own f n"
  let ?Q = "\<lambda>r t. \<forall>a. r = Inr a \<longrightarrow> written_by f i a t"
  have again: "wp run_evolves run_evolves ?again ?Q v" for v
  proof -
    have "returns v ?again (written_by f i)" using Suc by (auto intro: returns_raise)
    then show ?thesis using run_evolves_refl unfolding returns_def by (blast intro: wp_mono)
  qed
  show ?case unfolding checkpoint_loop.simps try_checkpoint_def
  proof (rule get_run_returns, goal_cases)
    case r: (1 w1 r)
    show ?case
    proof (cases "wr_status r = RunCancelled")
      case True
      with r show ?thesis by (simp add: written_by_def)
    next
      case False
      have id: "wr_id (f now r) = i" for now using assms False r(3) by (simp add: good_successor_def)
      have ev: "run_evolves v (fst (checkpoint_update (f now r) (wr_checkpoint_version r) v))"
        if "run_evolves w1 v" for v now
        using r(2) id assms False r(3) that
        by (intro checkpoint_evolves [of w1]) (auto simp: good_successor_def)
      have post: "written_by f i q (fst (checkpoint_update (f now r) (wr_checkpoint_version r) v))"
        if "run_evolves w1 v" "snd (checkpoint_update (f now r) (wr_checkpoint_version r) v) = Inr q" for v now q
        using checkpoint_update_post [OF that(1) _ that(2)] r(2) id False by (auto simp: written_by_def)
      have step: "wp run_evolves run_evolves (case x of Inl WorkflowConcurrentUpdate \<Rightarrow> ?again | _ \<Rightarrow> Ret x) ?Q
          (fst (checkpoint_update (f now r) (wr_checkpoint_version r) v))"
        if "run_evolves w1 v" "x = snd (checkpoint_update (f now r) (wr_checkpoint_version r) v)" for v now x
      proof -
        note that' = that
        have q: "written_by f i q (fst (checkpoint_update (f now r) (wr_checkpoint_version r) v))" if "x = Inr q" for q
          using post [OF that'(1)] that'(2) that by simp
        from checkpoint_update_result [of "f now r" "wr_checkpoint_version r" v]
        have "x = Inl WorkflowConcurrentUpdate \<or> (\<exists>q. x = Inr q)" unfolding that(2) .
        then show ?thesis using q again by (elim disjE exE) (simp_all split del: if_split)
      qed
      have "wp run_evolves run_evolves (bindE utcnow (\<lambda>now.
          bindP (checkpoint_run (f now r) (wr_checkpoint_version r)) (\<lambda>x. case x of
             Inl WorkflowConcurrentUpdate \<Rightarrow> ?again | _ \<Rightarrow> Ret x))) ?Q w1"
        unfolding wp_utcnow checkpoint_run_def wp_bindP wp_opP
      proof (intro allI impI conjI)
        fix u v
        assume "run_evolves w1 u" "run_evolves u v"
        then have wv: "run_evolves w1 v" by (rule run_evolves_trans)
        show "run_evolves v (fst (checkpoint_update (f (w_now u) r) (wr_checkpoint_version r) v))" using wv by (rule ev)
        show "wp run_evolves run_evolves
            ((\<lambda>x. case x of Inl WorkflowConcurrentUpdate \<Rightarrow> ?again | _ \<Rightarrow> Ret x)
               (snd (checkpoint_update (f (w_now u) r) (wr_checkpoint_version r) v))) ?Q
            (fst (checkpoint_update (f (w_now u) r) (wr_checkpoint_version r) v))" by (rule step [OF wv refl])
      qed
      with False show ?thesis by simp
    qed
  next
    case 2
    then show ?case by simp
  qed
qed

subsection \<open>The ends of a node\<close>

text \<open>The postcondition of a method that ends a node: the run failed or was cancelled, the node is an
  approval node, or the node is resolved.\<close>

definition ends_node :: "uuid \<Rightarrow> wf_node \<Rightarrow> wf_run \<Rightarrow> wf_world \<Rightarrow> bool" where
  "ends_node i node run t \<longleftrightarrow> wr_id run = i \<and>
     (wr_status run \<in> {RunFailed, RunCancelled} \<or> wn_type node = Approval \<or> resolved_in t i (wn_id node))"

lemma ends_node_stable: "ends_node i n run w \<Longrightarrow> run_evolves w v \<Longrightarrow> ends_node i n run v"
  unfolding ends_node_def using resolved_in_stable by blast

lemma run_values_fields [simp]:
  "wr_status (run_values q r) = wr_status q" "wr_context (run_values q r) = wr_context q"
  by (simp_all add: run_values_def)

lemma get_run_id: "returns w0 (get_run i own) (\<lambda>x t. \<forall>f :: wf_run. x = Some f \<longrightarrow> wr_id f = i)"
proof -
  have "returns w0 (bindE (get_run i own) ok) (\<lambda>x t. \<forall>f :: wf_run. x = Some f \<longrightarrow> wr_id f = i)"
    by (rule get_run_returns) auto
  then show ?thesis by simp
qed

lemma checkpoint_id: "returns w0 (checkpoint_with_retry cfg run patch) (\<lambda>q t. wr_id q = wr_id run)"
  unfolding checkpoint_with_retry_def
  by (rule returns_mono [OF checkpoint_loop_returns [OF good_apply_patch]])
    (auto simp: written_by_def run_row_def dest: table_get_Some)

text \<open>A run of this id in one of these states.\<close>

definition stopped :: "uuid \<Rightarrow> run_status set \<Rightarrow> wf_run \<Rightarrow> wf_world \<Rightarrow> bool" where
  "stopped i sts run t \<longleftrightarrow> wr_id run = i \<and> wr_status run \<in> sts"

lemma patch_status_returns:
  assumes "rp_status patch = Some st" and "wr_id run = i"
  shows "returns w0 (checkpoint_with_retry cfg run patch) (stopped i {st, RunCancelled})"
  unfolding checkpoint_with_retry_def
  by (rule returns_mono [OF checkpoint_loop_returns [OF good_apply_patch]])
    (use assms in \<open>auto simp: written_by_def apply_patch_def stopped_def run_row_def dest: table_get_Some\<close>)

lemma unless_cancelled_returns:
  assumes "\<And>w1. run_evolves w0 w1 \<Longrightarrow> returns w1 p C"
    and "\<And>q t. wr_status q = RunCancelled \<Longrightarrow> wr_id q = wr_id run \<Longrightarrow> C q t"
  shows "returns w0 (unless_cancelled cfg run p) C"
proof -
  have "returns w0 (stop_if_cancelled cfg (wr_id run) (wr_owner_id run))
      (\<lambda>x t. \<forall>q. x = Some q \<longrightarrow> wr_status q = RunCancelled \<and> wr_id q = wr_id run)"
    unfolding stop_if_cancelled_def
  proof (rule returns_bindE_post [OF get_run_id], rule returns_option)
    fix x :: "wf_run option" and fresh w1
    assume "\<forall>f :: wf_run. x = Some f \<longrightarrow> wr_id f = wr_id run" "x = Some fresh"
    then show "returns w1 (ok (if wr_status fresh = RunCancelled then Some fresh else None))
        (\<lambda>x t. \<forall>q. x = Some q \<longrightarrow> wr_status q = RunCancelled \<and> wr_id q = wr_id run)"
      by (intro returns_ok) auto
  qed (rule returns_raise)
  then show ?thesis unfolding unless_cancelled_def
  proof (rule returns_bindE_post)
    fix x :: "wf_run option" and w1
    assume w1: "run_evolves w0 w1" and x: "\<forall>q. x = Some q \<longrightarrow> wr_status q = RunCancelled \<and> wr_id q = wr_id run"
    show "returns w1 (case x of Some fresh \<Rightarrow> ok fresh | None \<Rightarrow> p) C"
      using x assms(1) [OF w1] by (cases x) (simp_all add: returns_ok assms(2))
  qed
qed

lemma fail_node_returns:
  "wr_id run = i \<Longrightarrow> returns w0 (fail_node cfg run e msg) (stopped i {RunFailed, RunCancelled})"
  unfolding fail_node_def
  by (intro unless_cancelled_returns returns_bindE run_safe_intros patch_status_returns)
    (simp_all add: no_patch_def stopped_def)

lemma pause_returns:
  "wr_id run = i \<Longrightarrow> returns w0 (pause_for_approval cfg run e out) (stopped i {RunWaitingApproval, RunCancelled})"
  unfolding pause_for_approval_def
  by (intro unless_cancelled_returns returns_bindE run_safe_intros patch_status_returns)
    (simp_all add: no_patch_def stopped_def)

lemma fail_run_with_returns:
  "wr_id run = i \<Longrightarrow> returns w0 (fail_run_with cfg run msg) (stopped i {RunFailed, RunCancelled})"
  unfolding fail_run_with_def
  by (intro returns_bindE run_safe_intros patch_status_returns) (simp_all add: no_patch_def)

lemma complete_run_returns:
  "wr_id run = i \<Longrightarrow> returns w0 (complete_run cfg run) (stopped i {RunCompleted, RunCancelled})"
  unfolding complete_run_def
  by (intro returns_bindE run_safe_intros patch_status_returns) (simp_all add: no_patch_def)

lemma skip_nodes_id: "wr_id run = i \<Longrightarrow> returns w0 (skip_nodes cfg d run ids) (\<lambda>q t. wr_id q = i)"
proof -
  assume i: "wr_id run = i"
  have "returns w1 (checkpoint_with_retry cfg run patch) (\<lambda>q t. wr_id q = i)" for w1 patch
    using checkpoint_id [of w1 cfg run patch] i by simp
  then have wr: "returns w1 (bindE (forP (append_skipped d run now) ids) (\<lambda>_.
      checkpoint_with_retry cfg run patch)) (\<lambda>q t. wr_id q = i)" for w1 now patch
    by (rule returns_bindE [OF run_safe_forP [OF run_safe_append_skipped]])
  show ?thesis unfolding skip_nodes_def
  proof (rule returns_if)
    show "returns w0 (ok run) (\<lambda>q t. wr_id q = i)" using i by (intro returns_ok)
  qed (rule returns_bindE [OF run_safe_utcnow wr])
qed

lemma unselected_id: "wr_id run = i \<Longrightarrow> returns w0 (skip_unselected_branches cfg d run n sel) (\<lambda>q t. wr_id q = i)"
  unfolding skip_unselected_branches_def by (rule skip_nodes_id)

lemma handle_join_id:
  assumes "wr_id run = i"
  shows "returns w0 (handle_join_completion cfg d run n) (\<lambda>q t. wr_id q = i)"
proof -
  have stay: "returns w1 (ok run) (\<lambda>q t. wr_id q = i)" for w1
    using assms by (intro returns_ok)
  have fork: "returns w1 (case x of
          Some (PStr fork_node_id) \<Rightarrow>
            skip_nodes cfg d run (collect_incomplete_fork_branch_nodes_to_skip d fork_node_id n run)
        | _ \<Rightarrow> ok run) (\<lambda>q t. wr_id q = i)" for x w1
    by (cases x; cases "the x") (simp_all add: stay skip_nodes_id [OF assms])
  show ?thesis unfolding handle_join_completion_def
  proof (intro returns_option returns_if stay returns_bindE [OF run_safe_liftN])
    fix a w1
    show "returns w1 ((\<lambda>(join_policy, count, cancel_remaining).
        if join_policy = ''all'' \<or> \<not> cancel_remaining then ok run
        else (case dict_get (wn_config x) ''fork_node_id'' of
                Some (PStr fork_node_id) \<Rightarrow>
                  skip_nodes cfg d run (collect_incomplete_fork_branch_nodes_to_skip d fork_node_id n run)
              | _ \<Rightarrow> ok run)) a) (\<lambda>q t. wr_id q = i)" for x :: wf_node
      unfolding split_beta by (intro returns_if stay fork)
  qed
qed

lemma returns_conj: "returns w0 p C \<Longrightarrow> returns w0 p D \<Longrightarrow> returns w0 p (\<lambda>a t. C a t \<and> D a t)"
  unfolding returns_def by (blast intro: wp_mono wp_conj)

lemma written_id: "written_by f i q t \<Longrightarrow> wr_id q = i"
  by (auto simp: written_by_def run_row_def dest: table_get_Some)

lemma succeeded_written:
  "written_by (succeeded_run n out) i q t \<Longrightarrow> wr_status q \<noteq> RunCancelled \<Longrightarrow> resolved_in t i n"
  by (auto simp: written_by_def resolved_in_def resolved_eq succeeded_run_def)

text \<open>Whatever a safe continuation returns, what was resolved before it stays resolved.\<close>

lemma resolved_before:
  assumes "resolved_in w0 i (wn_id n)" and "run_safe p" and "returns w0 p (\<lambda>q t. wr_id q = i)"
  shows "returns w0 p (ends_node i n)"
  by (rule returns_mono [OF returns_conj [OF assms(3) returns_safe [OF assms(2)]]])
    (use assms(1) resolved_in_stable in \<open>auto simp: ends_node_def\<close>)

lemma succeed_node_returns:
  assumes n: "wx_node_id e = wn_id n"
  shows "returns w0 (succeed_node cfg d run e out) (ends_node (wr_id run) n)"
  unfolding succeed_node_def
proof (rule unless_cancelled_returns, rule returns_bindE [OF run_safe_utcnow],
    rule returns_bindE [OF run_safe_append], goal_cases)
  case (1 w1 now w2 row w3)
  show ?case
  proof (rule returns_bindE_post [OF checkpoint_loop_returns [OF good_succeeded_run]])
    fix q w4
    assume q: "written_by (succeeded_run (wx_node_id e) out) (wr_id run) q w4"
    then have id: "wr_id q = wr_id run" by (rule written_id)
    show "returns w4 (if wr_status q = RunCancelled then ok q
        else bindE (if wx_node_type e = Router then
              (case dict_get out ''selected_edge_ids'' of
                 Some (PList selected) \<Rightarrow> skip_unselected_branches cfg d q (wx_node_id e) (str_items selected)
               | _ \<Rightarrow> ok q) else ok q)
          (\<lambda>run. if wx_node_type e = Join then handle_join_completion cfg d run (wx_node_id e) else ok run))
      (ends_node (wr_id run) n)"
    proof (rule returns_if)
      show "returns w4 (ok q) (ends_node (wr_id run) n)" if "wr_status q = RunCancelled"
        using that id by (intro returns_ok) (simp add: ends_node_def)
    next
      assume "wr_status q \<noteq> RunCancelled"
      with q have "resolved_in w4 (wr_id run) (wn_id n)" unfolding n by (rule succeeded_written)
      then show "returns w4 (bindE (if wx_node_type e = Router then
              (case dict_get out ''selected_edge_ids'' of
                 Some (PList selected) \<Rightarrow> skip_unselected_branches cfg d q (wx_node_id e) (str_items selected)
               | _ \<Rightarrow> ok q) else ok q)
          (\<lambda>run. if wx_node_type e = Join then handle_join_completion cfg d run (wx_node_id e) else ok run))
        (ends_node (wr_id run) n)"
      proof (rule resolved_before)
        have "returns w4 (case x of Some (PList selected) \<Rightarrow>
              skip_unselected_branches cfg d q (wx_node_id e) (str_items selected)
            | _ \<Rightarrow> ok q) (\<lambda>q t. wr_id q = wr_id run)" for x
          by (cases x; cases "the x") (simp_all add: unselected_id id returns_ok)
        then show "returns w4 (bindE (if wx_node_type e = Router then
              (case dict_get out ''selected_edge_ids'' of
                 Some (PList selected) \<Rightarrow> skip_unselected_branches cfg d q (wx_node_id e) (str_items selected)
               | _ \<Rightarrow> ok q) else ok q)
            (\<lambda>run. if wx_node_type e = Join then handle_join_completion cfg d run (wx_node_id e) else ok run))
          (\<lambda>q t. wr_id q = wr_id run)"
          using id by (intro returns_bindE_post returns_if returns_ok handle_join_id)
      qed (intro run_safe_intros)
    qed
  qed
next
  case 2
  then show ?case by (simp add: ends_node_def)
qed

lemma skip_branch_returns:
  assumes n: "wx_node_id e = wn_id n"
  shows "returns w0 (skip_branch_node cfg run e msg) (ends_node (wr_id run) n)"
  unfolding skip_branch_node_def checkpoint_with_retry_def
proof (rule returns_bindE [OF run_safe_utcnow], rule returns_bindE [OF run_safe_append], goal_cases)
  case (1 now w1 row w2)
  show ?case
  proof (rule returns_bindE_post [OF checkpoint_loop_returns [OF good_apply_patch]])
    let ?f = "apply_patch (no_patch\<lparr>rp_remove_current_node := Some (wx_node_id e)\<rparr>)"
    fix q w3
    assume q: "written_by ?f (wr_id run) q w3"
    then have q_row: "run_row w3 (wr_id run) = Some q" by (simp add: written_by_def)
    let ?skipped = "existing_skipped (metadata (wr_context q))"
    let ?ctx = "(wr_context q)\<lparr>metadata := dict_put ''skipped_node_ids''
        (PList (?skipped @ [PStr (wx_node_id e)])) (metadata (wr_context q))\<rparr>"
    have here: "resolved_in w3 (wr_id run) (wx_node_id e)" if "PStr (wx_node_id e) \<in> set ?skipped"
    proof -
      have "wx_node_id e \<in> set (skipped_list (metadata (wr_context q)))"
        using that by (auto simp: existing_skipped_def skipped_list_def set_str_items split: option.splits pyval.splits)
      with q_row show ?thesis by (auto simp: resolved_in_def resolved_eq)
    qed
    have there: "returns w3 (checkpoint_loop cfg (wr_id q) (wr_owner_id q)
        (apply_patch (no_patch\<lparr>rp_context := Some ?ctx\<rparr>)) max_checkpoint_retries) (ends_node (wr_id run) n)"
    proof (rule returns_mono [OF checkpoint_loop_returns [OF good_apply_patch]])
      fix a t
      assume a: "written_by (apply_patch (no_patch\<lparr>rp_context := Some ?ctx\<rparr>)) (wr_id q) a t"
      have "wr_id q = wr_id run" "wr_id a = wr_id q" using written_id [OF q] written_id [OF a] by simp_all
      moreover have "wx_node_id e \<in> set (skipped_list (metadata (wr_context a)))" if "wr_status a \<noteq> RunCancelled"
        using a that by (auto simp: written_by_def apply_patch_def no_patch_def merge_context_metadata_def Let_def)
      ultimately show "ends_node (wr_id run) n a t"
        using a by (auto simp: ends_node_def resolved_in_def resolved_eq written_by_def n)
    qed
    show "returns w3 (let skipped = ?skipped in
         if PStr (wx_node_id e) \<in> set skipped then ok q
         else checkpoint_loop cfg (wr_id q) (wr_owner_id q) (apply_patch (no_patch\<lparr>rp_context := Some ((wr_context q)
           \<lparr>metadata := dict_put ''skipped_node_ids'' (PList (skipped @ [PStr (wx_node_id e)]))
              (metadata (wr_context q))\<rparr>)\<rparr>)) max_checkpoint_retries) (ends_node (wr_id run) n)"
      unfolding Let_def using there here written_id [OF q]
      by (auto intro!: returns_ok simp: ends_node_def n dest: resolved_in_stable)
  qed
qed

subsection \<open>Executing a node\<close>

lemma ends_if_stopped:
  "returns w0 p (stopped i {RunFailed, RunCancelled}) \<Longrightarrow> returns w0 p (ends_node i n)"
  by (erule returns_mono) (simp add: ends_node_def stopped_def)

lemma after_call_returns:
  assumes again: "\<And>again w1. retry = Some again \<Longrightarrow> run_evolves w0 w1 \<Longrightarrow> returns w1 (again run) (ends_node (wr_id run) node)"
    and safe: "\<And>again r. retry = Some again \<Longrightarrow> run_safe (again r)"
    and n: "wx_node_id pending = wn_id node"
  shows "returns w0 (after_call cfg d node retry run pending outcome) (ends_node (wr_id run) node)"
proof (cases outcome)
  case (NodeOutput out)
  have "returns w1 (pause_for_approval cfg run pending out) (ends_node (wr_id run) node)"
    if "wn_type node = Approval" for w1
    using pause_returns [OF refl] by (rule returns_mono) (simp add: ends_node_def stopped_def that)
  then show ?thesis unfolding NodeOutput after_call_def node_outcome.case
    by (intro unless_cancelled_returns) (auto intro: succeed_node_returns [OF n] simp: ends_node_def)
next
  case (NodeRaises msg code)
  show ?thesis unfolding NodeRaises after_call_def node_outcome.case
  proof (rule returns_bindE_post [OF get_run_id])
    fix fresh :: "wf_run option" and w1
    assume w1: "run_evolves w0 w1" and fresh: "\<forall>f. fresh = Some f \<longrightarrow> wr_id f = wr_id run"
    let ?ignore = "case fresh of None \<Rightarrow> ok False | Some f \<Rightarrow> liftN (should_ignore_branch_failure d f node)"
    have "returns w1 ?ignore (\<lambda>b t. b \<longrightarrow> fresh \<noteq> None)"
      by (cases fresh) (auto intro: returns_ok returns_mono [OF returns_safe [OF run_safe_liftN]])
    then show "returns w1 (bindE ?ignore (\<lambda>ignore.
        if ignore then skip_branch_node cfg (the fresh) pending msg
        else (case retry of
                Some again \<Rightarrow>
                  if is_retryable_node_failure (NodeFailure msg code)
                  then bindE (mark_attempt_failed pending msg) (\<lambda>_. again run)
                  else fail_node cfg run pending msg
              | None \<Rightarrow> fail_node cfg run pending msg))) (ends_node (wr_id run) node)"
    proof (rule returns_bindE_post)
      fix ignore w2
      assume w2: "run_evolves w1 w2" and ig: "ignore \<longrightarrow> fresh \<noteq> None"
      have skip: "returns w2 (skip_branch_node cfg (the fresh) pending msg) (ends_node (wr_id run) node)" if ignore
        using skip_branch_returns [OF n, of w2 cfg "the fresh" msg] ig fresh that by auto
      have fail: "returns w2 (fail_node cfg run pending msg) (ends_node (wr_id run) node)"
        by (rule ends_if_stopped [OF fail_node_returns [OF refl]])
      have retry: "returns w2 (bindE (mark_attempt_failed pending msg) (\<lambda>_. again run)) (ends_node (wr_id run) node)"
        if "retry = Some again" for again
        using w1 w2 that by (intro returns_bindE run_safe_intros assms(1)) (blast intro: run_evolves_trans)+
      show "returns w2 (if ignore then skip_branch_node cfg (the fresh) pending msg
        else (case retry of
                Some again \<Rightarrow>
                  if is_retryable_node_failure (NodeFailure msg code)
                  then bindE (mark_attempt_failed pending msg) (\<lambda>_. again run)
                  else fail_node cfg run pending msg
              | None \<Rightarrow> fail_node cfg run pending msg)) (ends_node (wr_id run) node)"
        using skip fail retry by (intro returns_if returns_option) auto
    qed
  qed
next
  case NodeTimesOut
  have "returns w0 (bindE (mark_attempt_failed pending e) (\<lambda>_. again run)) (ends_node (wr_id run) node)"
    if "retry = Some again" for again e
    using that by (intro returns_bindE run_safe_intros assms(1))
  then show ?thesis unfolding NodeTimesOut after_call_def node_outcome.case Let_def
    by (intro returns_option ends_if_stopped [OF fail_node_returns [OF refl]]) auto
next
  case NodeCrashes
  show ?thesis unfolding NodeCrashes after_call_def node_outcome.case
    by (rule ends_if_stopped [OF fail_node_returns [OF refl]])
qed

lemma attempt_body_returns:
  assumes again: "\<And>again w1 r. retry = Some again \<Longrightarrow> run_evolves w0 w1 \<Longrightarrow> wr_id r = i \<Longrightarrow> returns w1 (again r) (ends_node i node)"
    and safe: "\<And>again r. retry = Some again \<Longrightarrow> run_safe (again r)" and i: "wr_id run = i"
  shows "returns w0 (attempt_body cfg d node retry attempt receipt run) (ends_node i node)"
  unfolding attempt_body_def Let_def
proof (rule unless_cancelled_returns, rule returns_bindE [OF run_safe_utcnow], rule returns_bindE [OF run_safe_uuid4],
    rule returns_bindE [OF run_safe_append], goal_cases)
  case (1 w1 now w2 id w3 row w4)
  then have w4: "run_evolves w0 w4" by (blast intro: run_evolves_trans)
  let ?add = "if wn_id node \<in> set (wr_current_node_ids run) then ok run
      else checkpoint_with_retry cfg run (no_patch\<lparr>rp_add_current_node := Some (wn_id node)\<rparr>)"
  have add: "returns w4 ?add (\<lambda>q t. wr_id q = i)"
    using checkpoint_id [of w4 cfg run] i by (auto intro: returns_ok)
  show ?case
  proof (rule returns_bindE_post [OF add])
    fix run2 :: wf_run and w5
    assume w5: "run_evolves w4 w5" and i2: "wr_id run2 = i"
    let ?pending = "pending_execution id run node attempt receipt now"
    have call: "returns w6 (after_call cfg d node retry run2 ?pending outcome) (ends_node i node)"
      if "run_evolves w5 w6" for w6 outcome
    proof -
      have "run_evolves w0 w6" using w4 w5 that by (blast intro: run_evolves_trans)
      then have "returns w6 (after_call cfg d node retry run2 ?pending outcome) (ends_node (wr_id run2) node)"
        using again safe i2 by (intro after_call_returns) (auto simp: pending_execution_def intro: run_evolves_trans)
      with i2 show ?thesis by simp
    qed
    show "returns w5 (case executor_for cfg (wn_type node) of
        None \<Rightarrow> fail_node cfg run2 ?pending
          (''No node executor registered for type '' @ py_repr (node_type_value (wn_type node)) @ ''.'')
      | Some e \<Rightarrow> bindP (call_executor e node (wr_context run2)
            \<lparr>nr_owner_id = wr_owner_id run2, nr_execution_receipt_id = receipt,
             nr_outgoing_edges = outgoing_edges d (wn_id node)\<rparr>)
          (after_call cfg d node retry run2 ?pending)) (ends_node i node)"
      by (intro returns_option ends_if_stopped [OF fail_node_returns [OF i2]] returns_bindP [OF run_safe_call] call)
  qed
qed (use i in \<open>simp add: ends_node_def\<close>)

lemma attempt_loop_returns:
  "wr_id run = i \<Longrightarrow> returns w0 (attempt_loop cfg d node n attempt receipt run) (ends_node i node)"
proof (induction n arbitrary: attempt receipt run w0)
  case 0
  then show ?case by (auto intro!: attempt_body_returns)
next
  case (Suc n)
  then show ?case by (auto intro!: attempt_body_returns run_safe_attempt_loop)
qed

lemma execute_node_returns: "wr_id run = i \<Longrightarrow> returns w0 (execute_node cfg d es rec node run) (ends_node i node)"
  unfolding execute_node_def Let_def
  by (intro unless_cancelled_returns attempt_loop_returns) (simp_all add: ends_node_def)

subsection \<open>Iterations\<close>

text \<open>A run value that is not newer than its row.\<close>

definition observed :: "wf_world \<Rightarrow> wf_run \<Rightarrow> bool" where
  "observed w run \<longleftrightarrow> (\<exists>q. run_row w (wr_id run) = Some q \<and>
     get_resolved_node_ids run \<subseteq> get_resolved_node_ids q)"

lemma observed_stable: "observed w run \<Longrightarrow> run_evolves w v \<Longrightarrow> observed v run"
  unfolding observed_def by (metis evolves_resolved subset_trans)

lemma observed_resolved: "observed w run \<Longrightarrow> n \<in> get_resolved_node_ids run \<Longrightarrow> resolved_in w (wr_id run) n"
  by (auto simp: observed_def resolved_in_def)

text \<open>\<open>holds_all i S run w\<close>: the run was read, its id is \<open>i\<close> and it has resolved all of \<open>S\<close>.\<close>

definition holds_all :: "uuid \<Rightarrow> string set \<Rightarrow> wf_run \<Rightarrow> wf_world \<Rightarrow> bool" where
  "holds_all i S run w \<longleftrightarrow> wr_id run = i \<and> observed w run \<and> S \<subseteq> get_resolved_node_ids run"

lemma holds_all_stable: "holds_all i S run w \<Longrightarrow> run_evolves w v \<Longrightarrow> holds_all i S run v"
  unfolding holds_all_def using observed_stable by blast

lemma get_run_holds:
  assumes "\<forall>n\<in>S. resolved_in w0 i n"
  shows "returns w0 (get_run i own) (\<lambda>x t. \<forall>run. x = Some run \<longrightarrow> holds_all i S run t)"
proof -
  have "returns w0 (bindE (get_run i own) ok) (\<lambda>x t. \<forall>run. x = Some run \<longrightarrow> holds_all i S run t)"
  proof (rule get_run_returns)
    fix w1 and r :: wf_run
    assume w1: "run_evolves w0 w1" and r: "run_row w1 i = Some r" "wr_id r = i"
    have "\<forall>n\<in>S. resolved_in w1 i n" using assms w1 resolved_in_stable by blast
    then have "holds_all i S r w1" using r by (auto simp: holds_all_def observed_def resolved_in_def)
    then show "wp run_evolves run_evolves (ok (Some r))
        (\<lambda>r t. \<forall>a. r = Inr a \<longrightarrow> (\<forall>run. a = Some run \<longrightarrow> holds_all i S run t)) w1" by simp
  qed simp
  then show ?thesis by simp
qed

lemma refetch_holds:
  assumes "\<forall>n\<in>S. resolved_in w0 i n"
  shows "returns w0 (get_run_with_executions i own) (\<lambda>x t. \<forall>run es. x = Some (run, es) \<longrightarrow> holds_all i S run t)"
proof -
  have e: "get_run_with_executions i own = bindE (get_run i own) (\<lambda>run.
      case run of None \<Rightarrow> ok None | Some r \<Rightarrow> bindP (readP (\<lambda>w. run_executions w i)) (\<lambda>es. ok (Some (r, es))))"
    by (simp add: get_run_with_executions_def get_run_def bindE_def bindP_assoc)
  show ?thesis unfolding e
  proof (rule returns_bindE_post [OF get_run_holds [OF assms]])
    fix found and w1
    assume found: "\<forall>run. found = Some run \<longrightarrow> holds_all i S run w1"
    show "returns w1 (case found of None \<Rightarrow> ok None
        | Some r \<Rightarrow> bindP (readP (\<lambda>w. run_executions w i)) (\<lambda>es. ok (Some (r, es))))
      (\<lambda>x t. \<forall>run es. x = Some (run, es) \<longrightarrow> holds_all i S run t)"
    proof (rule returns_option)
      show "returns w1 (ok None) (\<lambda>x t. \<forall>run es. x = Some (run, es) \<longrightarrow> holds_all i S run t)"
        by (rule returns_ok) simp
      show "returns w1 (bindP (readP (\<lambda>w. run_executions w i)) (\<lambda>es. ok (Some (r, es))))
          (\<lambda>x t. \<forall>run es. x = Some (run, es) \<longrightarrow> holds_all i S run t)" if "found = Some r" for r
      proof (rule returns_bindP [OF run_safe_readP], rule returns_ok)
        fix es w2 t
        assume "run_evolves w1 w2" "run_evolves w2 t"
        then have "run_evolves w1 t" by (rule run_evolves_trans)
        with found that have "holds_all i S r t" using holds_all_stable by blast
        then show "\<forall>run es'. Some (r, es) = Some (run, es') \<longrightarrow> holds_all i S run t" by simp
      qed
    qed
  qed
qed

lemma first_exception_None: "first_exception rs = None \<longleftrightarrow> (\<forall>r\<in>set rs. \<not> isl r)"
  by (induction rs rule: first_exception.induct) auto

lemma first_with_status_None:
  "first_with_status st rs = None \<longleftrightarrow> (\<forall>r. Inr r \<in> set rs \<longrightarrow> wr_status r \<noteq> st)"
  by (induction st rs rule: first_with_status.induct) auto

lemma first_with_status_Some: "first_with_status st rs = Some r \<Longrightarrow> wr_status r = st"
  by (induction st rs rule: first_with_status.induct) (auto split: if_splits)

text \<open>The nodes of a list that are not approval nodes.\<close>

definition work_ids :: "wf_node list \<Rightarrow> string set" where
  "work_ids nodes = wn_id ` {n \<in> set nodes. wn_type n \<noteq> Approval}"

definition node_results :: "uuid \<Rightarrow> wf_node list \<Rightarrow> (wf_exn + wf_run) list \<Rightarrow> wf_world \<Rightarrow> bool" where
  "node_results i nodes results t \<longleftrightarrow>
     list_all2 (\<lambda>r node. \<forall>a. r = Inr a \<longrightarrow> ends_node i node a t) results nodes"

lemma node_results_resolved:
  assumes "node_results i nodes results w" and "first_exception results = None"
    and "first_with_status RunCancelled results = None" "first_with_status RunFailed results = None"
    and "n \<in> work_ids nodes"
  shows "resolved_in w i n"
proof -
  from assms(5) obtain k where k: "k < length nodes" "wn_id (nodes ! k) = n" "wn_type (nodes ! k) \<noteq> Approval"
    by (auto simp: work_ids_def in_set_conv_nth)
  with assms(1) have len: "k < length results"
    and ends: "\<forall>a. results ! k = Inr a \<longrightarrow> ends_node i (nodes ! k) a w"
    by (auto simp: node_results_def list_all2_conv_all_nth)
  then have mem: "results ! k \<in> set results" by simp
  with assms(2) obtain a where a: "results ! k = Inr a"
    by (cases "results ! k") (auto simp: first_exception_None)
  with ends mem assms(3,4) k(2,3) show ?thesis by (auto simp: ends_node_def first_with_status_None)
qed

lemma combine_returns:
  assumes S: "\<forall>n\<in>S. resolved_in w0 (wr_id run) n" and rs: "node_results (wr_id run) nodes results w0"
  shows "returns w0 (combine_results cfg run results)
    (\<lambda>r t. wr_status r = RunRunning \<longrightarrow> holds_all (wr_id run) (S \<union> work_ids nodes) r t)"
proof (cases "first_exception results")
  case (Some e)
  have "returns w0 (fail_run_with cfg run msg)
      (\<lambda>r t. wr_status r = RunRunning \<longrightarrow> holds_all (wr_id run) (S \<union> work_ids nodes) r t)" for msg
    using fail_run_with_returns [OF refl] by (rule returns_mono) (auto simp: stopped_def)
  with Some show ?thesis by (cases e) (auto simp: combine_results_def intro: returns_raise)
next
  case None
  let ?T = "if first_with_status RunCancelled results = None \<and> first_with_status RunFailed results = None
    then S \<union> work_ids nodes else {}"
  have T: "\<forall>n\<in>?T. resolved_in w0 (wr_id run) n"
    using S node_results_resolved [OF rs None] by auto
  show ?thesis unfolding combine_results_def None option.case
  proof (rule returns_bindE_post [OF get_run_holds [OF T]])
    fix latest w1
    assume l: "\<forall>q. latest = Some q \<longrightarrow> holds_all (wr_id run) ?T q w1"
    have stop: "wr_status (settled_run results q) \<noteq> RunRunning"
      if "\<not> (first_with_status RunCancelled results = None \<and> first_with_status RunFailed results = None)" for q
      using that by (auto simp: settled_run_def dest: first_with_status_Some split: option.split)
    show "returns w1 (case latest of None \<Rightarrow> raise (run_not_found cfg (wr_id run))
        | Some l \<Rightarrow> ok (settled_run results l))
      (\<lambda>r t. wr_status r = RunRunning \<longrightarrow> holds_all (wr_id run) (S \<union> work_ids nodes) r t)"
    proof (intro returns_option returns_raise returns_ok impI)
      fix q t
      assume q: "latest = Some q" "run_evolves w1 t" "wr_status (settled_run results q) = RunRunning"
      with stop have none: "first_with_status RunCancelled results = None \<and> first_with_status RunFailed results = None"
        by blast
      then have "settled_run results q = q" by (simp add: settled_run_def)
      moreover have "holds_all (wr_id run) (S \<union> work_ids nodes) q w1" using l q(1) none by simp
      ultimately show "holds_all (wr_id run) (S \<union> work_ids nodes) (settled_run results q) t"
        using holds_all_stable q(2) by simp
    qed
  qed
qed

lemma gather_nodes_returns:
  "wp run_evolves run_evolves
     (gather sched_left sched_tick (map (\<lambda>node. execute_node cfg d es None node run) nodes))
     (\<lambda>rs t. run_evolves w0 t \<and> node_results (wr_id run) nodes rs t) w" if w: "run_evolves w0 w"
proof -
  let ?P = "\<lambda>node r t. \<forall>a. r = Inr a \<longrightarrow> ends_node (wr_id run) node a t"
  have "wp run_evolves run_evolves (execute_node cfg d es None node run) (?P node) w" for node
    using execute_node_returns [OF refl, of w cfg d es None node run] run_evolves_refl [of w]
    unfolding returns_def by (blast intro: wp_mono)
  then have "list_all2 (\<lambda>p P. wp run_evolves run_evolves p P w \<and>
      (\<forall>a s t. P a s \<longrightarrow> run_evolves s t \<longrightarrow> P a t))
      (map (\<lambda>node. execute_node cfg d es None node run) nodes) (map ?P nodes)"
    using ends_node_stable by (simp add: list_all2_conv_all_nth) blast
  from wp_gather [OF run_evolves_transp run_evolves_reflp _ this, of sched_tick sched_left]
  have g: "wp run_evolves run_evolves
      (gather sched_left sched_tick (map (\<lambda>node. execute_node cfg d es None node run) nodes))
      (\<lambda>rs t. list_all2 (\<lambda>r P. P r t) rs (map ?P nodes)) w"
    by (simp add: run_evolves_same sched_tick_def)
  show ?thesis
    using wp_remember [OF g w run_evolves_transp run_evolves_reflp]
    by (rule wp_mono) (simp add: node_results_def list_all2_map2)
qed

lemma parallel_returns:
  assumes S: "\<forall>n\<in>S. resolved_in w0 (wr_id run) n"
  shows "returns w0 (execute_nodes_parallel cfg d es nodes run)
    (\<lambda>r t. wr_status r = RunRunning \<longrightarrow> holds_all (wr_id run) (S \<union> work_ids nodes) r t)"
proof (rule returnsI)
  let ?C = "\<lambda>r t. wr_status r = RunRunning \<longrightarrow> holds_all (wr_id run) (S \<union> work_ids nodes) r t"
  fix w
  assume w: "run_evolves w0 w"
  show "wp run_evolves run_evolves (execute_nodes_parallel cfg d es nodes run)
      (\<lambda>r t. \<forall>a. r = Inr a \<longrightarrow> ?C a t) w"
    unfolding execute_nodes_parallel_def wp_bindP
  proof (rule wp_mono [OF gather_nodes_returns [OF w]])
    fix rs t
    assume t: "run_evolves w0 t \<and> node_results (wr_id run) nodes rs t"
    then have "\<forall>n\<in>S. resolved_in t (wr_id run) n" using S resolved_in_stable by blast
    with t have "returns t (combine_results cfg run rs) ?C" by (blast intro: combine_returns)
    then show "wp run_evolves run_evolves (combine_results cfg run rs) (\<lambda>r t. \<forall>a. r = Inr a \<longrightarrow> ?C a t) t"
      using run_evolves_refl unfolding returns_def by (blast intro: wp_mono)
  qed
qed

lemma groups_return:
  assumes "holds_all i S run w0"
  shows "returns w0 (execute_groups cfg d es groups run)
    (\<lambda>r t. wr_status r = RunRunning \<longrightarrow>
       holds_all i (S \<union> work_ids (map (\<lambda>n. the (node_by_id d n)) (concat groups))) r t)"
  using assms
proof (induction groups arbitrary: run S w0)
  case Nil
  then show ?case by (auto intro!: returns_ok dest: holds_all_stable simp: work_ids_def)
next
  case (Cons g gs)
  let ?nodes = "\<lambda>ns. map (\<lambda>n. the (node_by_id d n)) ns"
  have i: "wr_id run = i" and S: "\<forall>n\<in>S. resolved_in w0 (wr_id run) n"
    using Cons.prems observed_resolved by (auto simp: holds_all_def)
  have all: "S \<union> work_ids (?nodes (concat (g # gs))) =
      (S \<union> work_ids (?nodes g)) \<union> work_ids (?nodes (concat gs))"
    by (auto simp: work_ids_def)
  show ?case unfolding execute_groups.simps all
  proof (rule returns_bindE_post [OF parallel_returns [OF S]])
    fix r w1
    assume r: "wr_status r = RunRunning \<longrightarrow> holds_all (wr_id run) (S \<union> work_ids (?nodes g)) r w1"
    show "returns w1 (if wr_status r \<noteq> RunRunning then ok r else execute_groups cfg d es gs r)
        (\<lambda>r t. wr_status r = RunRunning \<longrightarrow>
           holds_all i ((S \<union> work_ids (?nodes g)) \<union> work_ids (?nodes (concat gs))) r t)"
      using r i by (intro returns_if Cons.IH) (auto intro!: returns_ok)
  qed
qed

text \<open>The nodes that the recovery of interrupted executions re-executes.\<close>

definition recovered_nodes :: "wf_definition \<Rightarrow> wf_execution list \<Rightarrow> wf_node list" where
  "recovered_nodes d es = concat (map (\<lambda>e. case node_by_id d (wx_node_id e) of None \<Rightarrow> [] | Some n \<Rightarrow> [n]) es)"

lemma resume_returns:
  "wr_id run = i \<Longrightarrow> returns w0 (resume_interrupted_node cfg d run node e) (\<lambda>r t. wr_id r = i \<and>
     (wr_status r = RunRunning \<longrightarrow> wn_type node = Approval \<or> resolved_in t i (wn_id node)))"
  (is "_ \<Longrightarrow> returns w0 ?p ?C")
proof -
  assume i: "wr_id run = i"
  have fail: "returns w1 (fail_run_with cfg run msg) ?C" for w1 msg
    using fail_run_with_returns [OF i] by (rule returns_mono) (auto simp: stopped_def)
  have again: "returns w1 (execute_node cfg d es rcp node r) ?C" if "wr_id r = i" for w1 es rcp r
    using execute_node_returns [OF that] by (rule returns_mono) (auto simp: ends_node_def)
  obtain allowed reason where a: "crash_recovery_allowed e (wn_config node) (ec_tool_registry cfg) = (allowed, reason)"
    by fastforce
  have refetch: "returns w1 (get_run_with_executions (wr_id run) (wr_owner_id run))
      (\<lambda>x t. \<forall>run es. x = Some (run, es) \<longrightarrow> holds_all i {} run t)" for w1
    using refetch_holds [of "{}" w1 i] i by simp
  show ?thesis
  proof (cases allowed)
    case False
    then show ?thesis unfolding resume_interrupted_node_def a by (simp add: fail)
  next
    case True
    have rest: "returns w1 (bindE (get_run_with_executions (wr_id run) (wr_owner_id run)) (\<lambda>refreshed.
        (case refreshed of
           None \<Rightarrow> raise (run_not_found cfg (wr_id run))
         | Some (run', all_executions) \<Rightarrow> execute_node cfg d all_executions (Some rcp) node run'))) ?C" for w1 rcp
      using refetch
      by (rule returns_bindE_post)
        (auto intro!: returns_raise again simp: holds_all_def split: option.split)
    have mark: "run_safe (if wx_status e = NodeRunning
        then mark_attempt_failed e execution_interrupted_error else ok ())"
      by (intro run_safe_intros)
    show ?thesis unfolding resume_interrupted_node_def a prod.case Let_def
      using True by (simp only: not_True_eq_False if_False) (intro returns_bindE [OF mark] rest)
  qed
qed

lemma recover_returns:
  assumes "holds_all i S run w0"
  shows "returns w0 (recover_interrupted cfg d todo run es) (\<lambda>(stop, r, es') t.
    \<not> stop \<longrightarrow> holds_all i (S \<union> work_ids (recovered_nodes d todo)) r t)"
  using assms
proof (induction todo arbitrary: run S es w0)
  case Nil
  then show ?case by (auto intro!: returns_ok dest: holds_all_stable simp: work_ids_def recovered_nodes_def)
next
  case (Cons e todo)
  let ?C = "\<lambda>(stop, r, es') t. \<not> stop \<longrightarrow> holds_all i (S \<union> work_ids (recovered_nodes d (e # todo))) r t"
  have i: "wr_id run = i" using Cons.prems by (simp add: holds_all_def)
  have S: "\<forall>n\<in>S. resolved_in w0 i n" using Cons.prems observed_resolved by (auto simp: holds_all_def)
  show ?case
  proof (cases "node_by_id d (wx_node_id e)")
    case None
    have "returns w0 (bindE (fail_run_with cfg run msg) (\<lambda>run. ok (True, run, es))) ?C" for msg
      by (rule returns_bindE [OF run_safe_fail_run_with], rule returns_ok) simp
    with None show ?thesis by simp
  next
    case (Some node)
    let ?S = "S \<union> work_ids [node]"
    have split: "S \<union> work_ids (recovered_nodes d (e # todo)) = ?S \<union> work_ids (recovered_nodes d todo)"
      by (auto simp: work_ids_def recovered_nodes_def Some)
    have "returns w0 (bindE (resume_interrupted_node cfg d run node e) (\<lambda>run.
        if wr_status run \<noteq> RunRunning then ok (True, run, es)
        else bindE (get_run_with_executions (wr_id run) (wr_owner_id run)) (\<lambda>refreshed.
          (case refreshed of
             None \<Rightarrow> raise (run_not_found cfg (wr_id run))
           | Some (run, executions) \<Rightarrow> recover_interrupted cfg d todo run executions)))) ?C"
    proof (rule returns_bindE_post [OF resume_returns [OF i]], rule returns_if)
      fix r w1
      show "returns w1 (ok (True, r, es)) ?C" by (rule returns_ok) simp
      assume w1: "run_evolves w0 w1" and "\<not> wr_status r \<noteq> RunRunning"
        and "wr_id r = i \<and> (wr_status r = RunRunning \<longrightarrow> wn_type node = Approval \<or> resolved_in w1 i (wn_id node))"
      then have r: "wr_id r = i" and n: "wn_type node = Approval \<or> resolved_in w1 i (wn_id node)" by simp_all
      have S': "\<forall>n\<in>?S. resolved_in w1 (wr_id r) n"
        using S w1 resolved_in_stable n r by (auto simp: work_ids_def)
      show "returns w1 (bindE (get_run_with_executions (wr_id r) (wr_owner_id r)) (\<lambda>refreshed.
          (case refreshed of
             None \<Rightarrow> raise (run_not_found cfg (wr_id r))
           | Some (run, executions) \<Rightarrow> recover_interrupted cfg d todo run executions))) ?C"
      proof (rule returns_bindE_post [OF refetch_holds [OF S']], rule returns_option, rule returns_raise)
        fix refreshed :: "(wf_run \<times> wf_execution list) option" and x w2
        assume "\<forall>run es. refreshed = Some (run, es) \<longrightarrow> holds_all (wr_id r) ?S run w2" "refreshed = Some x"
        then have x: "holds_all i ?S (fst x) w2" using r by (cases x) simp
        have "returns w2 (recover_interrupted cfg d todo (fst x) (snd x)) ?C"
          using Cons.IH [OF x] unfolding split by (simp add: Un_assoc)
        then show "returns w2 (case x of (run, executions) \<Rightarrow> recover_interrupted cfg d todo run executions) ?C"
          by (simp add: split_beta)
      qed
    qed
    then show ?thesis by (simp add: Some)
  qed
qed


text \<open>
  The nodes that an iteration hands to \<open>recover_interrupted\<close> or to \<open>execute_groups\<close>; a node that runs
  alone is the subject of \<open>execute_node_returns\<close>.
\<close>

definition batch_nodes :: "wf_definition \<Rightarrow> wf_run \<Rightarrow> wf_execution list \<Rightarrow> wf_node list" where
  "batch_nodes d run es =
     (let interrupted = find_interrupted_executions (wr_current_node_ids run) es in
      if interrupted \<noteq> [] then recovered_nodes d interrupted
      else (case resolve_ready_nodes d run of
              Inl _ \<Rightarrow> []
            | Inr ready \<Rightarrow> map (\<lambda>n. the (node_by_id d n)) (concat (fst (group_parallel_ready_nodes d ready)))))"

lemma liftN_Inr: "liftN (Inr a) = ok a"
  by (simp add: liftN_def)

lemma liftN_raises: "returns w0 (liftN (Inl e)) C"
  by (cases e) (simp_all add: liftN_def returns_raise)

lemma iteration_returns:
  assumes "observed w0 run"
  shows "returns w0 (run_iteration cfg d run es) (\<lambda>(go_on, r, es') t.
     go_on \<longrightarrow> wr_status r = RunRunning \<longrightarrow> wr_id r = wr_id run \<and>
       observed t r \<and> work_ids (batch_nodes d run es) \<subseteq> get_resolved_node_ids r)"
  (is "returns w0 _ ?C")
proof -
  have stop: "returns w1 (ok (False, r, es)) ?C" for w1 r
    by (rule returns_ok) simp
  have holds: "holds_all (wr_id run) {} run w1" if "run_evolves w0 w1" for w1
    using assms that observed_stable by (auto simp: holds_all_def)
  have recover: "returns w1 (bindE (recover_interrupted cfg d todo run es)
        (\<lambda>(stop, run, executions). ok (\<not> stop, run, executions))) ?C"
    if "run_evolves w0 w1" "todo = find_interrupted_executions (wr_current_node_ids run) es" "todo \<noteq> []" for w1 todo
  proof (rule returns_bindE_post [OF recover_returns [OF holds [OF that(1)]]])
    fix a :: "bool \<times> wf_run \<times> wf_execution list" and w2
    assume a: "(\<lambda>(stop, r, es') t. \<not> stop \<longrightarrow>
        holds_all (wr_id run) ({} \<union> work_ids (recovered_nodes d todo)) r t) a w2"
    obtain b r and es2 :: "wf_execution list" where abr: "a = (b, r, es2)" by (metis prod.exhaust)
    have post: "?C (\<not> b, r, es2) t" if "run_evolves w2 t" for t
      using a holds_all_stable [OF _ that] \<open>todo \<noteq> []\<close> \<open>todo = _\<close>
      by (auto simp: abr holds_all_def batch_nodes_def Let_def dest: observed_stable [OF _ that])
    show "returns w2 (case a of (stop, run, executions) \<Rightarrow> ok (\<not> stop, run, executions)) ?C"
      unfolding abr prod.case by (rule returns_ok, unfold prod.case, rule post [unfolded prod.case])
  qed
  have ready: "returns w1 (if ready = [] then
        (if wr_current_node_ids run \<noteq> [] then ok (False, run, es)
         else bindE (complete_run cfg run) (\<lambda>run. ok (False, run, es)))
      else
       (case group_parallel_ready_nodes d ready of
          (g # groups, sequential) \<Rightarrow>
            bindE (execute_groups cfg d es (g # groups) run) (\<lambda>run. ok (True, run, es))
        | ([], node_id # _) \<Rightarrow>
            bindE (execute_node cfg d es None (the (node_by_id d node_id)) run) (\<lambda>run.
            bindE (get_run_with_executions (wr_id run) (wr_owner_id run)) (\<lambda>refreshed.
              (case refreshed of
                 None \<Rightarrow> raise (run_not_found cfg (wr_id run))
               | Some (run, executions) \<Rightarrow> ok (True, run, executions))))
        | ([], []) \<Rightarrow> ok (True, run, es))) ?C"
    if w1: "run_evolves w0 w1" and r: "resolve_ready_nodes d run = Inr ready"
      and i: "find_interrupted_executions (wr_current_node_ids run) es = []" for w1 ready
  proof (rule returns_if)
    show "returns w1 (if wr_current_node_ids run \<noteq> [] then ok (False, run, es)
        else bindE (complete_run cfg run) (\<lambda>run. ok (False, run, es))) ?C"
      by (intro returns_if stop returns_bindE [OF run_safe_complete_run])
  next
    note go = holds [OF w1]
    show "returns w1 (case group_parallel_ready_nodes d ready of
          (g # groups, sequential) \<Rightarrow>
            bindE (execute_groups cfg d es (g # groups) run) (\<lambda>run. ok (True, run, es))
        | ([], node_id # _) \<Rightarrow>
            bindE (execute_node cfg d es None (the (node_by_id d node_id)) run) (\<lambda>run.
            bindE (get_run_with_executions (wr_id run) (wr_owner_id run)) (\<lambda>refreshed.
              (case refreshed of
                 None \<Rightarrow> raise (run_not_found cfg (wr_id run))
               | Some (run, executions) \<Rightarrow> ok (True, run, executions))))
        | ([], []) \<Rightarrow> ok (True, run, es)) ?C"
    proof (cases "group_parallel_ready_nodes d ready")
      case (Pair groups sequential)
      note gs = Pair
      have batch: "batch_nodes d run es = map (\<lambda>n. the (node_by_id d n)) (concat groups)"
        by (simp add: batch_nodes_def i r gs)
      show ?thesis
      proof (cases groups)
        case (Cons g gs')
        have "returns w1 (bindE (execute_groups cfg d es (g # gs') run) (\<lambda>run. ok (True, run, es))) ?C"
        proof (rule returns_bindE_post [OF groups_return [OF go]], rule returns_ok)
          fix q w2 t
          assume "wr_status q = RunRunning \<longrightarrow> holds_all (wr_id run)
              ({} \<union> work_ids (map (\<lambda>n. the (node_by_id d n)) (concat (g # gs')))) q w2" "run_evolves w2 t"
          then show "?C (True, q, es) t"
            using holds_all_stable unfolding batch Cons by (auto simp: holds_all_def dest: observed_stable)
        qed
        then show ?thesis by (simp add: gs Cons)
      next
        case Nil
        have none: "work_ids (batch_nodes d run es) = {}" by (simp add: batch Nil work_ids_def)
        show ?thesis
        proof (cases sequential)
          case Nil
          have "?C (True, run, es) t" if "run_evolves w1 t" for t
            using go that none by (auto simp: holds_all_def dest: observed_stable)
          then show ?thesis by (simp add: gs \<open>groups = []\<close> Nil returns_ok)
        next
          case (Cons n ns)
          have "returns w1 (bindE (execute_node cfg d es None (the (node_by_id d n)) run) (\<lambda>run.
              bindE (get_run_with_executions (wr_id run) (wr_owner_id run)) (\<lambda>refreshed.
              (case refreshed of
                 None \<Rightarrow> raise (run_not_found cfg (wr_id run))
               | Some (run, executions) \<Rightarrow> ok (True, run, executions))))) ?C"
          proof (rule returns_bindE_post [OF execute_node_returns [OF refl]],
              rule returns_bindE_post [OF refetch_holds [of "{}"]], simp, rule returns_option, rule returns_raise)
            fix q w2 refreshed w3 and x :: "wf_run \<times> wf_execution list"
            assume "ends_node (wr_id run) (the (node_by_id d n)) q w2"
              and "\<forall>run es. refreshed = Some (run, es) \<longrightarrow> holds_all (wr_id q) {} run w3" "refreshed = Some x"
            then have x: "holds_all (wr_id run) {} (fst x) w3" by (cases x) (simp add: ends_node_def)
            have post: "?C (True, fst x, snd x) t" if "run_evolves w3 t" for t
              using x that none by (auto simp: holds_all_def dest: observed_stable)
            show "returns w3 (case x of (run, executions) \<Rightarrow> ok (True, run, executions)) ?C"
              unfolding split_beta by (rule returns_ok, unfold fst_conv snd_conv, rule post [unfolded prod.case])
          qed
          then show ?thesis by (simp add: gs \<open>groups = []\<close> Cons)
        qed
      qed
    qed
  qed
  show ?thesis unfolding run_iteration_def Let_def
  proof (rule returns_bindE [OF run_safe_stop_if_cancelled], rule returns_option, rule returns_bindE [OF run_safe_utcnow],
      rule returns_if)
    fix cancelled w1 now w2
    assume w: "run_evolves w0 w1" "run_evolves w1 w2"
    then have w2: "run_evolves w0 w2" by (rule run_evolves_trans)
    show "returns w2 (bindE (fail_run_duration cfg run) (\<lambda>run. ok (False, run, es))) ?C"
      by (rule returns_bindE [OF run_safe_fail_run_duration stop])
    show "returns w2 (if find_interrupted_executions (wr_current_node_ids run) es \<noteq> []
        then bindE (recover_interrupted cfg d (find_interrupted_executions (wr_current_node_ids run) es) run es)
               (\<lambda>(stop, run, executions). ok (\<not> stop, run, executions))
        else bindE (liftN (resolve_ready_nodes d run)) (\<lambda>ready_node_ids.
          if ready_node_ids = [] then
            (if wr_current_node_ids run \<noteq> [] then ok (False, run, es)
             else bindE (complete_run cfg run) (\<lambda>run. ok (False, run, es)))
          else
           (case group_parallel_ready_nodes d ready_node_ids of
              (g # groups, sequential) \<Rightarrow>
                bindE (execute_groups cfg d es (g # groups) run) (\<lambda>run. ok (True, run, es))
            | ([], node_id # _) \<Rightarrow>
                bindE (execute_node cfg d es None (the (node_by_id d node_id)) run) (\<lambda>run.
                bindE (get_run_with_executions (wr_id run) (wr_owner_id run)) (\<lambda>refreshed.
                  (case refreshed of
                     None \<Rightarrow> raise (run_not_found cfg (wr_id run))
                   | Some (run, executions) \<Rightarrow> ok (True, run, executions))))
            | ([], []) \<Rightarrow> ok (True, run, es)))) ?C"
    proof (rule returns_if)
      show "returns w2 (bindE (recover_interrupted cfg d (find_interrupted_executions (wr_current_node_ids run) es) run es)
            (\<lambda>(stop, run, executions). ok (\<not> stop, run, executions))) ?C"
        if "find_interrupted_executions (wr_current_node_ids run) es \<noteq> []"
        by (rule recover [OF w2 refl that])
    next
      assume "\<not> find_interrupted_executions (wr_current_node_ids run) es \<noteq> []"
      then have i: "find_interrupted_executions (wr_current_node_ids run) es = []" by simp
      show "returns w2 (bindE (liftN (resolve_ready_nodes d run)) (\<lambda>ready_node_ids.
          if ready_node_ids = [] then
            (if wr_current_node_ids run \<noteq> [] then ok (False, run, es)
             else bindE (complete_run cfg run) (\<lambda>run. ok (False, run, es)))
          else
           (case group_parallel_ready_nodes d ready_node_ids of
              (g # groups, sequential) \<Rightarrow>
                bindE (execute_groups cfg d es (g # groups) run) (\<lambda>run. ok (True, run, es))
            | ([], node_id # _) \<Rightarrow>
                bindE (execute_node cfg d es None (the (node_by_id d node_id)) run) (\<lambda>run.
                bindE (get_run_with_executions (wr_id run) (wr_owner_id run)) (\<lambda>refreshed.
                  (case refreshed of
                     None \<Rightarrow> raise (run_not_found cfg (wr_id run))
                   | Some (run, executions) \<Rightarrow> ok (True, run, executions))))
            | ([], []) \<Rightarrow> ok (True, run, es)))) ?C"
      proof (cases "resolve_ready_nodes d run")
        case (Inl e)
        show ?thesis unfolding Inl by (rule returns_bindE_post [OF liftN_raises [of _ _ "\<lambda>_ _. False"]]) simp
      next
        case (Inr rs)
        show ?thesis unfolding Inr liftN_Inr bindE_simps by (rule ready [OF w2 Inr i])
      qed
    qed
  qed (rule stop)
qed

end
