(* ===== verification/Wf_Manager_Correct.thy ===== *)
theory Wf_Manager_Correct
  imports Wf_Safety
begin

section \<open>The manager's operations run to their end\<close>

text \<open>
  What \<open>start_run\<close>, \<open>cancel_run\<close>, \<open>apply_decision\<close> and a checkpoint return and leave behind when no other
  task acts in between; \<open>Wf_Safety\<close> says what survives any interleaving.
\<close>

subsection \<open>Execution of the store programs\<close>

named_theorems exec_simps "results of the store's programs"

lemma exec_utcnow [exec_simps]: "exec_prog utcnow w = (w, Inr (w_now w))"
  by (simp add: utcnow_def exec_bindP)

lemma exec_uuid4 [exec_simps]: "exec_prog uuid4 w = (w\<lparr>w_next_uuid := Suc (w_next_uuid w)\<rparr>, Inr (w_next_uuid w))"
  by (simp add: uuid4_def)

lemma exec_get_run [exec_simps]: "exec_prog (get_run i own) w = (w, Inr (owned_run w i own))"
  by (simp add: get_run_def exec_bindP)

lemma exec_get_definition [exec_simps]: "exec_prog (get_definition i own) w = (w, Inr (owned_definition w i own))"
  by (simp add: get_definition_def exec_bindP)

lemma exec_get_run_with_executions [exec_simps]:
  "exec_prog (get_run_with_executions i own) w =
     (w, Inr (map_option (\<lambda>r. (r, run_executions w i)) (owned_run w i own)))"
  by (simp add: get_run_with_executions_def exec_bindP split: option.split)

lemma exec_schedule [exec_simps]: "exec_prog (schedule_run i own) w = (schedule_run_task i own w, Inr ())"
  by (simp add: schedule_run_def)

lemma exec_append [exec_simps]: "exec_prog (append_node_execution e) w = flush_execution e w"
  by (simp add: append_node_execution_def)

lemma exec_checkpoint [exec_simps]: "exec_prog (checkpoint_run run n) w = checkpoint_update run n w"
  by (simp add: checkpoint_run_def)

text \<open>A checkpoint of the row that was just read succeeds and is what a later read returns.\<close>

lemma checkpoint_update_hit:
  assumes "owned_run w i own = Some r" and "wr_id q = i" "wr_owner_id q = own"
  obtains t where "checkpoint_update q (wr_checkpoint_version r) w = (t, Inr (run_values q r))"
    and "owned_run t i own = Some (run_values q r)"
proof -
  note r = owned_run_row [OF assms(1)]
  have hit: "checkpoint_hits q (wr_checkpoint_version r) r" using r assms by (simp add: checkpoint_hits_def)
  let ?t = "commit (w\<lparr>w_runs := table_update wr_id i (checkpoint_hits q (wr_checkpoint_version r)) (run_values q) (w_runs w)\<rparr>)"
  have "checkpoint_update q (wr_checkpoint_version r) w = (?t, Inr (run_values q r))"
    using r hit assms(2) by (simp add: checkpoint_update_def)
  moreover have "owned_run ?t i own = Some (run_values q r)"
    using r hit by (simp add: owned_run_def run_row_def commit_def table_get_update)
  ultimately show thesis by (rule that)
qed

lemma exec_checkpoint_loop:
  assumes "owned_run w i own = Some r" and "wr_status r \<noteq> RunCancelled"
    and "wr_id (f (w_now w) r) = i" "wr_owner_id (f (w_now w) r) = own" and "0 < n"
  obtains t where "exec_prog (checkpoint_loop cfg i own f n) w = (t, Inr (run_values (f (w_now w) r) r))"
    and "owned_run t i own = Some (run_values (f (w_now w) r) r)"
proof -
  obtain m where n: "n = Suc m" using assms(5) gr0_conv_Suc by auto
  from checkpoint_update_hit [OF assms(1,3,4)] obtain t where
    t: "checkpoint_update (f (w_now w) r) (wr_checkpoint_version r) w = (t, Inr (run_values (f (w_now w) r) r))"
      "owned_run t i own = Some (run_values (f (w_now w) r) r)" .
  have "exec_prog (checkpoint_loop cfg i own f n) w = (t, Inr (run_values (f (w_now w) r) r))"
    using assms(1,2) t(1) by (simp add: n try_checkpoint_def exec_bindE exec_bindP exec_simps)
  then show thesis using t(2) by (rule that)
qed

subsection \<open>Starting a run\<close>

lemma start_run_existing:
  assumes key: "normalize_idempotency_key k = Inr k'" and d: "owned_definition w did own = Some d" "wd_status d = Active"
    and input: "validate_identifier_dict_keys (case input of None \<Rightarrow> [] | Some x \<Rightarrow> x) = Inr ()"
    and r: "run_by_key w own did k' = Some r"
  shows "exec_prog (start_run cfg did own k input session defer) w = (w\<lparr>w_next_uuid := Suc (w_next_uuid w)\<rparr>, Inr r)"
  using assms
  by (simp add: start_run_def exec_bindE exec_bindP exec_simps get_or_create_run_def insert_run_def new_run_def
      run_by_key_def Let_def split_beta)

lemma start_run_new:
  fixes session :: "uuid option" and input :: "pyval dict option"
  assumes key: "normalize_idempotency_key k = Inr k'" and d: "owned_definition w did own = Some d" "wd_status d = Active"
    and input: "validate_identifier_dict_keys (case input of None \<Rightarrow> [] | Some x \<Rightarrow> x) = Inr ()"
    and none: "run_by_key w own did k' = None" and fresh: "run_row w (w_next_uuid w) = None"
  defines "run \<equiv> new_run (w_next_uuid w) did own k' session (case input of None \<Rightarrow> [] | Some x \<Rightarrow> x) (w_now w)"
  defines "v \<equiv> w\<lparr>w_next_uuid := Suc (w_next_uuid w), w_runs := w_runs w @ [run]\<rparr>"
  shows "exec_prog (start_run cfg did own k input session defer) w =
    (if defer then v\<lparr>w_deferred := w_deferred w @ [(w_next_uuid w, own)]\<rparr>
     else schedule_run_task (w_next_uuid w) own v, Inr run)"
proof -
  have ins: "insert_run run (w\<lparr>w_next_uuid := Suc (w_next_uuid w)\<rparr>) = (v, Some (w_next_uuid w))"
    using none by (simp add: insert_run_def run_by_key_def run_def v_def new_run_def)
  have row: "run_row v (w_next_uuid w) = Some run"
    using fresh by (simp add: run_row_def v_def table_get_append) (simp add: run_def new_run_def)
  have "w_deferred v = w_deferred w" "wr_id run = w_next_uuid w" by (simp_all add: v_def run_def new_run_def)
  with assms(1-4) ins row show ?thesis
    by (simp add: start_run_def exec_bindE exec_bindP exec_simps get_or_create_run_def Let_def run_def [symmetric])
qed

subsection \<open>Cancelling a run\<close>

lemma cancel_run_exec:
  assumes r: "owned_run w i own = Some r" "wr_status r \<in> {RunRunning, RunWaitingApproval}"
  obtains t q where "exec_prog (cancel_run cfg i own) w = (t, Inr q)" "owned_run t i own = Some q"
    "wr_status q = RunCancelled" "wr_context q = wr_context r"
proof -
  note row = owned_run_row [OF r(1)]
  have "wr_id (cancelled_run (w_now w) r) = i" "wr_owner_id (cancelled_run (w_now w) r) = own"
    using row by (simp_all add: cancelled_run_def)
  from checkpoint_update_hit [OF r(1) this] obtain t where
    t: "checkpoint_update (cancelled_run (w_now w) r) (wr_checkpoint_version r) w =
        (t, Inr (run_values (cancelled_run (w_now w) r) r))"
      "owned_run t i own = Some (run_values (cancelled_run (w_now w) r) r)" .
  obtain m where m: "max_approval_decision_retries = Suc m" by (simp add: max_approval_decision_retries_def)
  have "exec_prog (cancel_run cfg i own) w = (t, Inr (run_values (cancelled_run (w_now w) r) r))"
    using r t(1) by (auto simp: cancel_run_def m exec_bindE exec_bindP exec_simps terminal_status_def)
  then show thesis using t(2) by (rule that) (simp_all add: run_values_def cancelled_run_def)
qed

subsection \<open>Decisions that were made before\<close>

lemma apply_decision_again:
  assumes r: "owned_run w i own = Some r"
    and e: "find (\<lambda>e. wx_id e = eid) (run_executions w i) = Some e" "wx_node_type e = Approval"
    and decided: "wx_decision e = Some dec'" "wr_status r \<noteq> RunWaitingApproval \<or> wx_status e \<noteq> NodeWaitingApproval"
  shows "exec_prog (apply_decision cfg i eid own dec args reason) w =
    (w, if dec = dec' then Inr (r, build_approval_result e dec (w_now w))
        else Inl (WorkflowDecisionConflict ''Approval decision conflicts with an existing decision.''))"
proof -
  obtain m where m: "max_approval_decision_retries = Suc m" by (simp add: max_approval_decision_retries_def)
  have again: "exec_prog (try_decision cfg i eid own dec args' reason' known again) w =
      (w, if dec = dec' then Inr (r, build_approval_result e dec (w_now w))
        else Inl (WorkflowDecisionConflict ''Approval decision conflicts with an existing decision.''))"
    for args' reason' known again
    using assms by (auto simp: try_decision_def exec_bindE exec_bindP exec_simps decided_already_def)
  show ?thesis
    by (cases "mc_hitl_enabled cfg") (simp_all only: apply_decision_def m decision_loop.simps again if_True if_False)
qed

subsection \<open>Pausing\<close>

lemma pause_for_approval_exec:
  assumes r: "owned_run w (wr_id run) (wr_owner_id run) = Some r" and "wr_status r \<noteq> RunCancelled"
  obtains t q where "exec_prog (pause_for_approval cfg run e out) w = (t, Inr q)"
    "owned_run t (wr_id run) (wr_owner_id run) = Some q" "wr_status q = RunWaitingApproval"
proof -
  note row = owned_run_row [OF r]
  let ?e = "e\<lparr>wx_status := NodeWaitingApproval,
     wx_output := Some (dict_put ''approval_requested_at'' (PStr (ec_isoformat cfg (w_now w))) out)\<rparr>"
  let ?f = "apply_patch (no_patch\<lparr>rp_status := Some RunWaitingApproval\<rparr>)"
  obtain w' x where w': "flush_execution ?e w = (w', Inr x)" and runs: "w_runs w' = w_runs w" "w_now w' = w_now w"
    by (simp add: flush_execution_def Let_def)
  have r': "owned_run w' (wr_id run) (wr_owner_id run) = Some r" using r runs by (simp add: owned_run_def run_row_def)
  have "wr_id (?f (w_now w') r) = wr_id run" "wr_owner_id (?f (w_now w') r) = wr_owner_id run"
    using row by (simp_all add: apply_patch_def)
  moreover have "0 < max_checkpoint_retries" by (simp add: max_checkpoint_retries_def)
  ultimately obtain t where t: "exec_prog (checkpoint_loop cfg (wr_id run) (wr_owner_id run) ?f max_checkpoint_retries) w' =
      (t, Inr (run_values (?f (w_now w') r) r))"
    "owned_run t (wr_id run) (wr_owner_id run) = Some (run_values (?f (w_now w') r) r)"
    using exec_checkpoint_loop [OF r' assms(2)] by metis
  have "exec_prog (pause_for_approval cfg run e out) w = (t, Inr (run_values (?f (w_now w') r) r))"
    using r assms(2) w' t(1)
    by (simp add: pause_for_approval_def unless_cancelled_def stop_if_cancelled_def exec_bindE exec_simps
        checkpoint_with_retry_def)
  then show thesis using t(2) by (rule that) (simp add: run_values_def apply_patch_def no_patch_def)
qed

end
