(* ===== verification/Run_Properties.thy ===== *)
theory Run_Properties
  imports Wf_Examples Wf_Nodes_Correct Wf_Retry Wf_Progress Wf_Manager_Correct
begin

section \<open>Properties of node executions and runs\<close>

text \<open>
  What the node executors, the retry and recovery rules, the executor and the manager guarantee. The
  statements over \<open>pool_step\<close> hold for any number of requests interleaved at every action; the
  statements over \<open>exec_prog\<close> are about one request that runs to its end.
\<close>

definition example_exec_config :: exec_config where
  "example_exec_config = \<lparr>ec_executors = (\<lambda>t. Some (\<lambda>n node ctx req. NodeOutput [])), ec_retry_settings = None,
     ec_tool_registry = None, ec_max_run_duration_minutes = 60, ec_uuid_str = py_str_nat, ec_isoformat = (\<lambda>t. [])\<rparr>"

definition example_manager :: manager_config where
  "example_manager = \<lparr>mc_exec = example_exec_config, mc_validator = hitl_validator, mc_hitl_enabled = True,
     mc_hitl_max_reason_length = 2000, mc_parse_isoformat = (\<lambda>s. Some 0)\<rparr>"

subsection \<open>Interleaved requests\<close>

text \<open>C2: whatever requests are served concurrently and however their actions are interleaved, a run that
  is cancelled stays exactly as it is.\<close>

theorem cancelled_run_is_final:
  assumes "pool_step\<^sup>*\<^sup>* (w, map (serve cfg it) reqs) (w', ps)" and "run_row w i = Some r" and "wr_status r = RunCancelled"
  shows "run_row w' i = Some r"
proof -
  from pool_run_evolves [OF assms(1)] have "evolves run_row wr_checkpoint_version run_may_become w w'"
    by (simp add: run_evolves_def)
  then show ?thesis using assms(2) by (rule runs.final_row) (use assms(3) in \<open>auto simp: run_may_become_def\<close>)
qed

definition cancelled_world :: wf_world where
  "cancelled_world = plain_world [fork_workflow] [plain_run [] [] RunCancelled]"

lemma serve_cancel_first:
  "\<exists>k. serve example_manager it (ReqCancel i own) = Act (\<lambda>s. s) k"
proof -
  obtain m where m: "max_approval_decision_retries = Suc m" by (simp add: max_approval_decision_retries_def)
  show ?thesis
    by (simp add: ignore_result_def cancel_run_def m get_run_def readP_def bindE_def)
qed

theorem cancelled_run_is_final_witness:
  "\<exists>ps. pool_step\<^sup>*\<^sup>* (cancelled_world, map (serve example_manager (\<lambda>d. [])) [ReqCancel 3 1]) (cancelled_world, ps) \<and>
     run_row cancelled_world 3 = Some (plain_run [] [] RunCancelled)"
proof -
  obtain k where k: "serve example_manager (\<lambda>d. []) (ReqCancel 3 1) = Act (\<lambda>s. s) k"
    using serve_cancel_first by blast
  from pool_first_step [OF this, of cancelled_world]
  have p: "pool_step\<^sup>*\<^sup>* (cancelled_world, map (serve example_manager (\<lambda>d. [])) [ReqCancel 3 1]) (cancelled_world, [k cancelled_world])"
    by simp
  moreover have "run_row cancelled_world 3 = Some (plain_run [] [] RunCancelled)" by code_simp
  ultimately show ?thesis
    using cancelled_run_is_final [OF p, of 3 "plain_run [] [] RunCancelled"] by (auto simp: plain_run_def)
qed



text \<open>C22: under any interleaving of requests no two runs ever have the same owner, definition and
  idempotency key, when this holds at the start.\<close>

theorem idempotency_keys_stay_unique:
  assumes "pool_step\<^sup>*\<^sup>* (w, map (serve cfg it) reqs) (w', ps)" and "unique_runs w"
  shows "unique_runs w'"
  using pool_run_evolves [OF assms(1)] assms(2) by (simp add: run_evolves_def)

theorem idempotency_keys_stay_unique_witness:
  "\<exists>ps. pool_step\<^sup>*\<^sup>* (cancelled_world, map (serve example_manager (\<lambda>d. [])) [ReqCancel 3 1]) (cancelled_world, ps) \<and>
     unique_runs cancelled_world"
proof -
  obtain k where k: "serve example_manager (\<lambda>d. []) (ReqCancel 3 1) = Act (\<lambda>s. s) k"
    using serve_cancel_first by blast
  from pool_first_step [OF this, of cancelled_world]
  have p: "pool_step\<^sup>*\<^sup>* (cancelled_world, map (serve example_manager (\<lambda>d. [])) [ReqCancel 3 1]) (cancelled_world, [k cancelled_world])"
    by simp
  have "unique_runs cancelled_world" by code_simp
  with idempotency_keys_stay_unique [OF p] p show ?thesis by blast
qed

subsection \<open>The step loop\<close>

lemma work_ids_simps:
  "work_ids [] = {}"
  "work_ids (n # ns) = (if wn_type n = Approval then {} else {wn_id n}) \<union> work_ids ns"
  by (auto simp: work_ids_def)

text \<open>C23: executing a node, with retries, among any other tasks ends with a failed or cancelled run, at an
  approval node, or with the node's output or skip mark in the run row.\<close>

theorem node_execution_resolves:
  assumes "wr_id run = i"
  shows "returns w0 (execute_node cfg d es receipt node run) (ends_node i node)"
  using assms by (rule execute_node_returns)

theorem node_execution_resolves_witness:
  "returns (plain_world [fork_workflow] [plain_run [] [] RunRunning])
     (execute_node example_exec_config fork_workflow [] None (plain_node ''f'' Fork []) (plain_run [] [] RunRunning))
     (ends_node 3 (plain_node ''f'' Fork []))"
  by (rule node_execution_resolves) (simp add: plain_run_def)

text \<open>C5: an iteration of the step loop that goes on with a running run, among any other tasks, returns a
  run in which every node that it recovered or ran in parallel, approval nodes apart, is resolved.\<close>

theorem iteration_makes_progress:
  assumes "observed w0 run"
  shows "returns w0 (run_iteration cfg d run es) (\<lambda>(go_on, r, es') t.
     go_on \<longrightarrow> wr_status r = RunRunning \<longrightarrow> wr_id r = wr_id run \<and>
       observed t r \<and> work_ids (batch_nodes d run es) \<subseteq> get_resolved_node_ids r)"
  using assms by (rule iteration_returns)

theorem iteration_makes_progress_witness:
  "returns (plain_world [fork_workflow] [plain_run [(''f'', PDict [])] [] RunRunning])
     (run_iteration example_exec_config fork_workflow (plain_run [(''f'', PDict [])] [] RunRunning) [])
     (\<lambda>(go_on, r, es') t. go_on \<longrightarrow> wr_status r = RunRunning \<longrightarrow> {''a'', ''b''} \<subseteq> get_resolved_node_ids r)"
proof -
  let ?w = "plain_world [fork_workflow] [plain_run [(''f'', PDict [])] [] RunRunning]"
  let ?r = "plain_run [(''f'', PDict [])] [] RunRunning"
  have "run_row ?w (wr_id ?r) = Some ?r" by code_simp
  then have o: "observed ?w ?r" by (simp add: observed_def)
  have "batch_nodes fork_workflow ?r [] = [plain_node ''a'' Terminal [], plain_node ''b'' Terminal []]" by code_simp
  then have "work_ids (batch_nodes fork_workflow ?r []) = {''a'', ''b''}"
    by (auto simp: work_ids_simps plain_node_def)
  with iteration_makes_progress [OF o, of example_exec_config fork_workflow "[]"]
  show ?thesis by (auto elim!: returns_mono)
qed

text \<open>Of two checkpoints computed from the same version of a run only the first succeeds: a successful
  checkpoint writes exactly its values over the row it was computed from, even if other tasks acted since.\<close>

theorem checkpoint_overwrites_only_what_it_read:
  assumes "run_evolves w0 v" and "run_row w0 (wr_id run) = Some fresh"
    and "snd (checkpoint_update run (wr_checkpoint_version fresh) v) = Inr q"
  shows "run_row v (wr_id run) = Some fresh \<and> q = run_values run fresh \<and>
    run_row (fst (checkpoint_update run (wr_checkpoint_version fresh) v)) (wr_id run) = Some q"
proof -
  have "evolves run_row wr_checkpoint_version run_may_become w0 v" using assms(1) by (simp add: run_evolves_def)
  moreover from assms(3) obtain row where "run_row v (wr_id run) = Some row"
      "wr_checkpoint_version row = wr_checkpoint_version fresh"
    by (auto simp: checkpoint_update_def checkpoint_hits_def split: option.splits if_splits)
  ultimately have "run_row v (wr_id run) = Some fresh" using runs.same_version [OF _ assms(2)] by blast
  then show ?thesis using checkpoint_update_post [OF assms] by blast
qed

theorem checkpoint_overwrites_only_what_it_read_witness:
  "let w = plain_world [] [plain_run [] [] RunRunning];
       q = (plain_run [(''n'', PNone)] [] RunRunning)\<lparr>wr_checkpoint_version := 1\<rparr> in
   run_row (fst (checkpoint_update q 0 w)) 3 = Some q"
proof -
  let ?w = "plain_world [] [plain_run [] [] RunRunning]"
  let ?q = "(plain_run [(''n'', PNone)] [] RunRunning)\<lparr>wr_checkpoint_version := 1\<rparr>"
  have row: "run_row ?w (wr_id ?q) = Some (plain_run [] [] RunRunning)" by code_simp
  have "snd (checkpoint_update ?q (wr_checkpoint_version (plain_run [] [] RunRunning)) ?w) = Inr ?q" by code_simp
  from checkpoint_overwrites_only_what_it_read [OF run_evolves_refl row this]
  show ?thesis by (simp add: plain_run_def)
qed


subsection \<open>The manager\<close>

text \<open>C21: starting a run of an active definition with a new idempotency key creates one running run and one
  background task; starting it again with a key that differs only in surrounding blanks, whatever the
  input, returns the same run and creates neither a run nor a task.\<close>

theorem start_run_twice_starts_once:
  fixes session session' :: "uuid option" and input input' :: "pyval dict option"
  assumes key: "normalize_idempotency_key k = Inr key" "normalize_idempotency_key k' = Inr key"
    and d: "owned_definition w did own = Some d" "wd_status d = Active"
    and inputs: "validate_identifier_dict_keys (case input of None \<Rightarrow> [] | Some x \<Rightarrow> x) = Inr ()"
      "validate_identifier_dict_keys (case input' of None \<Rightarrow> [] | Some x \<Rightarrow> x) = Inr ()"
    and new: "run_by_key w own did key = None" "run_row w (w_next_uuid w) = None"
  shows "\<exists>w1 w2 r. exec_prog (start_run cfg did own k input session False) w = (w1, Inr r) \<and>
     w_runs w1 = w_runs w @ [r] \<and> wr_status r = RunRunning \<and> w_tasks w1 = w_tasks w @ [(wr_id r, own)] \<and>
     exec_prog (start_run cfg did own k' input' session' False) w1 = (w2, Inr r) \<and>
     w_runs w2 = w_runs w1 \<and> w_tasks w2 = w_tasks w1"
proof -
  let ?r = "new_run (w_next_uuid w) did own key session (case input of None \<Rightarrow> [] | Some x \<Rightarrow> x) (w_now w)"
  let ?w1 = "schedule_run_task (w_next_uuid w) own
    (w\<lparr>w_next_uuid := Suc (w_next_uuid w), w_runs := w_runs w @ [?r]\<rparr>)"
  have first: "exec_prog (start_run cfg did own k input session False) w = (?w1, Inr ?r)"
    using start_run_new [OF key(1) d inputs(1) new] by simp
  have d1: "owned_definition ?w1 did own = Some d"
    using d(1) by (simp add: owned_definition_def schedule_run_task_def)
  have r1: "run_by_key ?w1 own did key = Some ?r"
    using new(1) by (simp add: run_by_key_def schedule_run_task_def find_append) (simp add: new_run_def)
  from start_run_existing [OF key(2) d1 d(2) inputs(2) r1] first show ?thesis
    by (auto simp: schedule_run_task_def new_run_def intro!: exI)
qed

theorem start_run_twice_starts_once_witness:
  "\<exists>w1 w2 r. exec_prog (start_run example_manager 7 1 ''k'' None None False) (plain_world [fork_workflow] []) = (w1, Inr r) \<and>
     w_runs w1 = [r] \<and> w_tasks w1 = [(wr_id r, 1)] \<and>
     exec_prog (start_run example_manager 7 1 '' k'' (Some [(''x'', PInt 1)]) None False) w1 = (w2, Inr r) \<and>
     w_runs w2 = [r] \<and> w_tasks w2 = [(wr_id r, 1)]"
proof -
  let ?w = "plain_world [fork_workflow] []"
  have "normalize_idempotency_key ''k'' = Inr ''k''" "normalize_idempotency_key '' k'' = Inr ''k''"
    "owned_definition ?w 7 1 = Some fork_workflow" "wd_status fork_workflow = Active"
    "validate_identifier_dict_keys (case None of None \<Rightarrow> [] | Some x \<Rightarrow> x) = Inr ()"
    "validate_identifier_dict_keys (case Some [(''x'', PInt 1)] of None \<Rightarrow> [] | Some x \<Rightarrow> x) = Inr ()"
    "run_by_key ?w 1 7 ''k'' = None" "run_row ?w (w_next_uuid ?w) = None" by code_simp+
  from start_run_twice_starts_once [OF this, of example_manager None None]
  show ?thesis by (auto simp: plain_world_def)
qed

text \<open>Cancelling a running or waiting run succeeds at once when no other task interferes: the row is
  cancelled and keeps its context; cancelling it again returns it unchanged.\<close>

theorem cancel_run_cancels:
  assumes "owned_run w i own = Some r" and "wr_status r \<in> {RunRunning, RunWaitingApproval}"
  shows "\<exists>t q. exec_prog (cancel_run cfg i own) w = (t, Inr q) \<and> owned_run t i own = Some q \<and>
     wr_status q = RunCancelled \<and> wr_context q = wr_context r \<and> exec_prog (cancel_run cfg i own) t = (t, Inr q)"
proof -
  from cancel_run_exec [OF assms] obtain t q where
    q: "exec_prog (cancel_run cfg i own) w = (t, Inr q)" "owned_run t i own = Some q"
      "wr_status q = RunCancelled" "wr_context q = wr_context r" .
  obtain m where m: "max_approval_decision_retries = Suc m" by (simp add: max_approval_decision_retries_def)
  have "exec_prog (cancel_run cfg i own) t = (t, Inr q)"
    using q(2,3) by (simp add: cancel_run_def m exec_bindE exec_simps terminal_status_def)
  with q show ?thesis by blast
qed

theorem cancel_run_cancels_witness:
  "\<exists>t q. exec_prog (cancel_run example_manager 3 1) (plain_world [] [plain_run [] [] RunWaitingApproval]) = (t, Inr q) \<and>
     wr_status q = RunCancelled"
proof -
  have "owned_run (plain_world [] [plain_run [] [] RunWaitingApproval]) 3 1 = Some (plain_run [] [] RunWaitingApproval)"
    by code_simp
  from cancel_run_cancels [OF this, of example_manager] show ?thesis by (auto simp: plain_run_def)
qed

text \<open>A decision on an approval that was decided before changes nothing: the same decision returns the
  recorded result, a different one is refused as a conflict.\<close>

theorem decision_is_idempotent:
  assumes "owned_run w i own = Some r" and "find (\<lambda>e. wx_id e = eid) (run_executions w i) = Some e"
    and "wx_node_type e = Approval" and "wx_decision e = Some dec'"
    and "wr_status r \<noteq> RunWaitingApproval \<or> wx_status e \<noteq> NodeWaitingApproval"
  shows "exec_prog (apply_decision cfg i eid own dec args reason) w =
    (w, if dec = dec' then Inr (r, build_approval_result e dec (w_now w))
        else Inl (WorkflowDecisionConflict ''Approval decision conflicts with an existing decision.''))"
  using assms by (rule apply_decision_again)

definition decided_execution :: wf_execution where
  "decided_execution = \<lparr>wx_id = 9, wx_run_id = 3, wx_node_id = ''ask'', wx_node_type = Approval, wx_attempt = 1,
     wx_status = NodeSucceeded, wx_input = [], wx_output = None, wx_error = None, wx_decided_by = Some 1,
     wx_decided_at = Some 5, wx_decision = Some Approved, wx_edited_arguments = None, wx_reason = None,
     wx_started_at = Some 0, wx_completed_at = Some 5\<rparr>"

theorem decision_is_idempotent_witness:
  "let w = (plain_world [approval_workflow] [plain_run [] [] RunRunning])\<lparr>w_execs := [decided_execution]\<rparr> in
   exec_prog (apply_decision example_manager 3 9 1 Rejected None None) w =
     (w, Inl (WorkflowDecisionConflict ''Approval decision conflicts with an existing decision.''))"
proof -
  let ?w = "(plain_world [approval_workflow] [plain_run [] [] RunRunning])\<lparr>w_execs := [decided_execution]\<rparr>"
  have "owned_run ?w 3 1 = Some (plain_run [] [] RunRunning)"
    "find (\<lambda>e. wx_id e = 9) (run_executions ?w 3) = Some decided_execution"
    by (simp_all add: decided_execution_def run_executions_def visible_executions_def owned_run_def run_row_def
        table_get_def plain_world_def plain_run_def)
  from decision_is_idempotent [OF this, of Approved example_manager Rejected None None]
  show ?thesis by (simp add: decided_execution_def plain_run_def Let_def)
qed

text \<open>C37: pausing at an approval node writes \<open>waiting_approval\<close> over any status but \<open>cancelled\<close>: a run that a
  parallel branch has failed, or that was completed, waits for an approval again.\<close>

theorem pause_overwrites_failed_runs:
  assumes "owned_run w (wr_id run) (wr_owner_id run) = Some r" and "wr_status r \<noteq> RunCancelled"
  shows "\<exists>t q. exec_prog (pause_for_approval cfg run e out) w = (t, Inr q) \<and>
    owned_run t (wr_id run) (wr_owner_id run) = Some q \<and> wr_status q = RunWaitingApproval"
  using pause_for_approval_exec [OF assms] by metis

theorem pause_overwrites_failed_runs_witness:
  "\<exists>t q. exec_prog (pause_for_approval example_exec_config (plain_run [] [] RunRunning) decided_execution [])
       (plain_world [approval_workflow] [plain_run [] [] RunFailed]) = (t, Inr q) \<and> wr_status q = RunWaitingApproval"
proof -
  have "owned_run (plain_world [approval_workflow] [plain_run [] [] RunFailed])
      (wr_id (plain_run [] [] RunRunning)) (wr_owner_id (plain_run [] [] RunRunning)) = Some (plain_run [] [] RunFailed)"
    by code_simp
  moreover have "wr_status (plain_run [] [] RunFailed) \<noteq> RunCancelled" by (simp add: plain_run_def)
  ultimately show ?thesis using pause_overwrites_failed_runs by blast
qed

subsection \<open>Retries and recovery\<close>

text \<open>C38: a node's retry policy makes the calls 0 to n with n at most the configured retries, sleeps the
  backoff delays between them, returns the outcome of the last call, and stops exactly at the first
  success, the first failure that is not retryable, or the last attempt.\<close>

theorem retry_policy_correct:
  "\<exists>n calls. policy_run policy operation jitter =
     (Some (operation n), [0..<Suc n],
      map (\<lambda>i. backoff_delay i (base_delay_seconds policy) (jitter i)) [0..<n], calls) \<and>
     n \<le> max_retries policy \<and>
     retry_spec operation is_retryable_node_failure (max_attempts policy) 0 n"
  by (rule policy_run_spec)

text \<open>Crash recovery re-executes only nodes without side effects or tasks whose tool is aware of
  execution receipts; a model call, an agent, an approval or a plugin node is never repeated.\<close>

theorem crash_recovery_is_safe:
  assumes "fst (crash_recovery_allowed execution config registry)"
  shows "wx_node_type execution \<in> {Router, Fork, Join, Terminal} \<or>
    (wx_node_type execution = Task \<and> (\<exists>reg name tool. registry = Some reg \<and> dict_get reg name = Some tool \<and>
       rt_receipt_aware tool))"
  using assms by (rule crash_recovery_side_effects)

theorem crash_recovery_is_safe_witness:
  "fst (crash_recovery_allowed (decided_execution\<lparr>wx_node_type := Task\<rparr>) [(''tool_name'', PStr ''delete'')]
     (Some [(''delete'', delete_tool)])) \<and>
   (\<exists>reg name tool. Some [(''delete'', delete_tool)] = Some reg \<and> dict_get reg name = Some tool \<and> rt_receipt_aware tool)"
proof -
  have a: "fst (crash_recovery_allowed (decided_execution\<lparr>wx_node_type := Task\<rparr>) [(''tool_name'', PStr ''delete'')]
     (Some [(''delete'', delete_tool)]))" by code_simp
  from crash_recovery_is_safe [OF a] a show ?thesis by (simp add: decided_execution_def)
qed

text \<open>An execution found interrupted is a running one of a node in progress and the latest attempt of that
  node, and the next attempt number is above every earlier attempt.\<close>

lemma interrupted_executions_are_latest:
  assumes "e \<in> set (find_interrupted_executions current es)"
  shows "e \<in> set es \<and> wx_node_id e \<in> set current \<and> wx_status e = NodeRunning \<and>
     (\<forall>x\<in>set es. wx_node_id x = wx_node_id e \<longrightarrow>
        wx_attempt x \<le> wx_attempt e \<and> wx_attempt x < next_attempt_number es (wx_node_id e))"
  using find_interrupted_mem [OF assms] next_attempt_fresh by blast

lemma interrupted_executions_are_latest_witness:
  "let e = decided_execution\<lparr>wx_status := NodeRunning, wx_attempt := 2\<rparr>; es = [decided_execution, e] in
   e \<in> set (find_interrupted_executions [''ask''] es) \<and> wx_attempt decided_execution < next_attempt_number es ''ask''"
proof -
  let ?e = "decided_execution\<lparr>wx_status := NodeRunning, wx_attempt := 2\<rparr>"
  have "find_interrupted_executions [''ask''] [decided_execution, ?e] = [?e]" by code_simp
  then have e: "?e \<in> set (find_interrupted_executions [''ask''] [decided_execution, ?e])" by simp
  from interrupted_executions_are_latest [OF e] e show ?thesis by (simp add: decided_execution_def Let_def)
qed

subsection \<open>Node executors\<close>

text \<open>A router over edges with well formed conditions that cannot raise selects, in the order of the
  definition, all edges whose condition holds, or in exclusive mode the first of them.\<close>

theorem router_selects_matching_edges:
  assumes "\<forall>(e, a)\<in>set ps. edge_denotes e a" and "nr_outgoing_edges request = map fst ps"
    and "dict_get (wn_config node) ''routing_mode'' \<in> {None, Some (PStr ''exclusive''), Some (PStr ''all_matching'')}"
    and "matching_ids ctx ps \<noteq> []"
  shows "router_execute node ctx request = Inr [(''selected_edge_ids'', PList (map PStr
    (if dict_get (wn_config node) ''routing_mode'' = Some (PStr ''all_matching'')
     then matching_ids ctx ps else [hd (matching_ids ctx ps)])))]"
  using assms by (rule router_selects)

theorem router_selects_matching_edges_witness:
  "router_execute (plain_node ''r'' Router []) \<lparr>trigger_input = [], variables = [], metadata = []\<rparr>
     \<lparr>nr_owner_id = 1, nr_execution_receipt_id = [], nr_outgoing_edges = [plain_edge ''1'' ''r'' ''a'', plain_edge ''2'' ''r'' ''b'']\<rparr>
   = Inr [(''selected_edge_ids'', PList [PStr ''1''])]"
proof -
  let ?ctx = "\<lparr>trigger_input = [], variables = [], metadata = []\<rparr> :: wf_context"
  let ?ps = "[(plain_edge ''1'' ''r'' ''a'', None), (plain_edge ''2'' ''r'' ''b'', None)]"
  have m: "matching_ids ?ctx ?ps = [''1'', ''2'']" by (simp add: matching_ids_def plain_edge_def)
  have "\<forall>(e, a)\<in>set ?ps. edge_denotes e a" by (simp add: edge_denotes_def plain_edge_def)
  from router_selects_matching_edges [OF this, of
      "\<lparr>nr_owner_id = 1, nr_execution_receipt_id = [], nr_outgoing_edges = map fst ?ps\<rparr>" "plain_node ''r'' Router []" ?ctx] m
  show ?thesis by (simp add: plain_node_def dict_get_def)
qed

text \<open>C39: a join after its fork merges exactly the outputs of the fork's branch targets that are present in the
  run's variables, and reports the fork, the policy and the number of completed branches.\<close>

theorem join_merges_branch_outputs:
  assumes "fork_execute m fork ctx0 request = Inr out"
    and "dict_get (variables ctx) (wn_id fork) = Some (PDict out)"
    and "dict_get (wn_config node) ''fork_node_id'' = Some (PStr (wn_id fork))" "\<not> is_blank (wn_id fork)"
    and "parse_join_config node = Inr (policy, k, cancel)"
  shows "\<exists>merged j. join_execute node ctx = Inr
       [(''fork_node_id'', PStr (wn_id fork)), (''join_policy'', PStr policy), (''count'', PInt k),
        (''cancel_remaining'', PBool cancel), (''merged_branch_outputs'', PDict merged),
        (''completed_branch_count'', PInt (int (length merged)))] \<and>
     dict_get (wn_config fork) ''join_node_id'' = Some (PStr j) \<and>
     (\<forall>b. dict_get merged b =
        (if \<exists>e\<in>set (nr_outgoing_edges request). we_to e = b \<and> b \<noteq> j then dict_get (variables ctx) b else None))"
  using assms by (rule join_after_fork)

theorem join_merges_branch_outputs_witness:
  "let fork = plain_node ''f'' Fork [(''join_node_id'', PStr ''j'')];
       out = [(''join_node_id'', PStr ''j''), (''branch_node_ids'', PList [PStr ''a'']), (''branch_count'', PInt 1)];
       ctx = \<lparr>trigger_input = [], variables = [(''f'', PDict out), (''a'', PInt 5)], metadata = []\<rparr> in
   \<exists>merged. join_execute (plain_node ''j'' Join [(''fork_node_id'', PStr ''f'')]) ctx = Inr
       [(''fork_node_id'', PStr ''f''), (''join_policy'', PStr ''all''), (''count'', PInt 1),
        (''cancel_remaining'', PBool True), (''merged_branch_outputs'', PDict merged),
        (''completed_branch_count'', PInt (int (length merged)))] \<and> dict_get merged ''a'' = Some (PInt 5)"
proof -
  let ?out = "[(''join_node_id'', PStr ''j''), (''branch_node_ids'', PList [PStr ''a'']), (''branch_count'', PInt 1)]"
  let ?ctx = "\<lparr>trigger_input = [], variables = [(''f'', PDict ?out), (''a'', PInt 5)], metadata = []\<rparr>"
  let ?fork = "plain_node ''f'' Fork [(''join_node_id'', PStr ''j'')]"
  let ?req = "\<lparr>nr_owner_id = 1, nr_execution_receipt_id = [], nr_outgoing_edges = [plain_edge ''1'' ''f'' ''a'']\<rparr>"
  have "fork_execute 8 ?fork ?ctx ?req = Inr ?out" "dict_get (variables ?ctx) (wn_id ?fork) = Some (PDict ?out)"
    "dict_get (wn_config (plain_node ''j'' Join [(''fork_node_id'', PStr ''f'')])) ''fork_node_id'' = Some (PStr (wn_id ?fork))"
    "\<not> is_blank (wn_id ?fork)"
    "parse_join_config (plain_node ''j'' Join [(''fork_node_id'', PStr ''f'')]) = Inr (''all'', 1, True)" by code_simp+
  from join_merges_branch_outputs [OF this] show ?thesis
    by (auto simp: plain_node_def plain_edge_def dict_get_def Let_def)
qed

text \<open>The placeholder syntax of task templates round trips: any path of identifier segments written as
  \<open>{{a.b.c}}\<close> is recognised and split back into its segments.\<close>

lemma placeholder_round_trip:
  assumes "segs \<noteq> []" "\<forall>s\<in>set segs. s \<noteq> [] \<and> list_all identifier_char s"
  shows "placeholder_path (''{{'' @ dotted segs @ ''}}'') = Some (dotted segs) \<and> py_split CHR ''.'' (dotted segs) = segs"
  using placeholder_roundtrip [OF assms] assms identifier_not_special
  by (auto intro!: py_split_dotted simp: list_all_iff)

lemma placeholder_round_trip_witness:
  "placeholder_path ''{{trigger_input.x}}'' = Some ''trigger_input.x'' \<and>
   py_split CHR ''.'' ''trigger_input.x'' = [''trigger_input'', ''x'']"
proof -
  have "\<forall>s\<in>set [''trigger_input'', ''x'']. s \<noteq> [] \<and> list_all identifier_char s" by code_simp
  from placeholder_round_trip [OF _ this] show ?thesis by simp
qed

end
