(* ===== verification/Job_Queue.thy ===== *)
theory Job_Queue
  imports Versioned_Store Py_Value
begin

section \<open>The background job queue\<close>

text \<open>
  \<open>ai/jobs/models.py\<close>, \<open>queue.py\<close>, \<open>schedule_store.py\<close>, \<open>registry.py\<close> and \<open>retry.py\<close>: the tables of jobs and
  schedules and the operations of their stores, each database transaction one operation on the state
  \<open>jobs_world\<close>. \<open>now()\<close> and \<open>datetime.now\<close> read \<open>jw_now\<close>, \<open>uuid4()\<close> takes \<open>jw_next_uuid\<close>. The constraints that an
  INSERT may violate (primary key, the partial unique index on idempotency keys, the foreign key to
  schedules) are those of the migrations. Rows that concurrent transactions have locked
  (\<open>FOR UPDATE SKIP LOCKED\<close>) are an argument of \<open>claim_due\<close>. Metrics have no effect on the state.
\<close>

datatype job_status = JobQueued | JobRunning | JobSucceeded | JobFailed | JobDeadLetter | JobCancelled

datatype schedule_status = ScheduleEnabled | ScheduleDisabled

record job_result =
  jr_summary :: string
  jr_counts :: "int dict"
  jr_ref_id :: "string option"

definition job_result_dump :: "job_result \<Rightarrow> pyval dict" where
  "job_result_dump r =
     [(''summary'', PStr (jr_summary r)),
      (''counts'', PDict (map (\<lambda>(k, v). (k, PInt v)) (jr_counts r))),
      (''ref_id'', case jr_ref_id r of None \<Rightarrow> PNone | Some s \<Rightarrow> PStr s)]"

record background_job =
  bj_id :: uuid
  bj_job_type :: string
  bj_status :: job_status
  bj_payload :: "pyval dict"
  bj_result :: "pyval dict option"
  bj_attempt_count :: int
  bj_max_attempts :: int
  bj_version :: nat
  bj_run_at :: datetime
  bj_locked_by :: "string option"
  bj_locked_at :: "datetime option"
  bj_last_error :: "string option"
  bj_idempotency_key :: "string option"
  bj_schedule_id :: "uuid option"
  bj_created_at :: datetime
  bj_updated_at :: datetime
  bj_started_at :: "datetime option"
  bj_finished_at :: "datetime option"

record job_schedule =
  js_id :: uuid
  js_name :: string
  js_job_type :: string
  js_payload :: "pyval dict"
  js_interval_seconds :: int
  js_next_run_at :: datetime
  js_version :: nat
  js_status :: schedule_status
  js_created_at :: datetime
  js_updated_at :: datetime

datatype constraint = PkBackgroundJobs | UqIdempotencyKey | FkScheduleId | UqScheduleName | PkSchedules

datatype job_exn =
    JobConcurrency uuid nat
  | JobHandlerNotFound string
  | JobIntegrity constraint
  | JobValue string
  | JobZeroDivision
  | JobOutOfFuel

record jobs_world =
  jw_jobs :: "background_job list"
  jw_schedules :: "job_schedule list"
  jw_now :: datetime
  jw_next_uuid :: uuid
  jw_calls :: nat
  jw_tick :: nat
  jw_sched :: "nat \<Rightarrow> bool"

type_synonym 'a job_op = "jobs_world \<Rightarrow> jobs_world \<times> (job_exn + 'a)"
type_synonym 'a job_prog = "(jobs_world, job_exn + 'a) prog"

subsection \<open>Errors and retries\<close>

definition truncate_error :: "string \<Rightarrow> string" where
  "truncate_error err = (if length err \<le> 2000 then err else take (2000 - 3) err @ ''...'')"

definition is_idempotency_key_violation :: "job_exn \<Rightarrow> bool" where
  "is_idempotency_key_violation exc \<longleftrightarrow> exc = JobIntegrity UqIdempotencyKey"

definition compute_backoff_seconds :: "int \<Rightarrow> rat \<Rightarrow> rat \<Rightarrow> job_exn + rat" where
  "compute_backoff_seconds attempt_count base cap =
     (if attempt_count < 0 then Inl (JobValue ''attempt_count must be non-negative.'')
      else if base < 0 then Inl (JobValue ''base must be non-negative.'')
      else if cap < 0 then Inl (JobValue ''cap must be non-negative.'')
      else Inr (min (base * 2 ^ nat attempt_count) cap))"

subsection \<open>Jobs\<close>

definition job_row :: "jobs_world \<Rightarrow> uuid \<Rightarrow> background_job option" where
  "job_row w i = table_get bj_id (jw_jobs w) i"

definition fetch_by_idempotency_key :: "jobs_world \<Rightarrow> string \<Rightarrow> background_job option" where
  "fetch_by_idempotency_key w key = find (\<lambda>j. bj_idempotency_key j = Some key) (jw_jobs w)"

definition new_job ::
    "uuid \<Rightarrow> datetime \<Rightarrow> string \<Rightarrow> pyval dict \<Rightarrow> datetime \<Rightarrow> int \<Rightarrow> string option \<Rightarrow> uuid option \<Rightarrow> background_job" where
  "new_job i now job_type payload run_at max_attempts key schedule_id =
     \<lparr>bj_id = i, bj_job_type = job_type, bj_status = JobQueued, bj_payload = payload, bj_result = None,
      bj_attempt_count = 0, bj_max_attempts = max_attempts, bj_version = 1, bj_run_at = run_at,
      bj_locked_by = None, bj_locked_at = None, bj_last_error = None, bj_idempotency_key = key,
      bj_schedule_id = schedule_id, bj_created_at = now, bj_updated_at = now, bj_started_at = None,
      bj_finished_at = None\<rparr>"

definition insert_job :: "background_job \<Rightarrow> background_job job_op" where
  "insert_job j w =
     (if bj_id j \<in> bj_id ` set (jw_jobs w) then (w, Inl (JobIntegrity PkBackgroundJobs))
      else if bj_idempotency_key j \<noteq> None \<and> bj_idempotency_key j \<in> bj_idempotency_key ` set (jw_jobs w)
        then (w, Inl (JobIntegrity UqIdempotencyKey))
      else if bj_schedule_id j \<noteq> None \<and> bj_schedule_id j \<notin> Some ` js_id ` set (jw_schedules w)
        then (w, Inl (JobIntegrity FkScheduleId))
      else (w\<lparr>jw_jobs := jw_jobs w @ [j]\<rparr>, Inr j))"

text \<open>The result says whether a row was inserted (\<open>newly_enqueued\<close>).\<close>

definition enqueue_in_transaction ::
    "string \<Rightarrow> pyval dict \<Rightarrow> datetime \<Rightarrow> int \<Rightarrow> string option \<Rightarrow> uuid option \<Rightarrow> (background_job \<times> bool) job_op" where
  "enqueue_in_transaction job_type payload run_at max_attempts key schedule_id w =
     (let w1 = w\<lparr>jw_next_uuid := Suc (jw_next_uuid w)\<rparr>;
          j = new_job (jw_next_uuid w) (jw_now w) job_type payload run_at max_attempts key schedule_id in
      (case insert_job j w1 of
         (w2, Inr row) \<Rightarrow> (w2, Inr (row, True))
       | (w2, Inl exc) \<Rightarrow>
           (case key of
              None \<Rightarrow> (w2, Inl exc)
            | Some k \<Rightarrow>
                if \<not> is_idempotency_key_violation exc then (w2, Inl exc)
                else (case fetch_by_idempotency_key w2 k of
                        None \<Rightarrow> (w2, Inl exc)
                      | Some existing \<Rightarrow> (w2, Inr (existing, False))))))"

definition enqueue ::
    "int \<Rightarrow> string \<Rightarrow> pyval dict \<Rightarrow> datetime option \<Rightarrow> int option \<Rightarrow> string option \<Rightarrow> uuid option \<Rightarrow>
     background_job job_prog" where
  "enqueue default_max_attempts job_type payload run_at max_attempts key schedule_id =
     bindP (readP jw_now) (\<lambda>now.
     bindP (opP (enqueue_in_transaction job_type payload (case run_at of None \<Rightarrow> now | Some t \<Rightarrow> t)
              (case max_attempts of None \<Rightarrow> default_max_attempts | Some m \<Rightarrow> m) key schedule_id)) (\<lambda>r.
       (case r of
          Inr (j, newly_enqueued) \<Rightarrow> ok j
        | Inl exc \<Rightarrow>
            (case key of
               None \<Rightarrow> raise exc
             | Some k \<Rightarrow>
                 if \<not> is_idempotency_key_violation exc then raise exc
                 else bindP (readP (\<lambda>w. fetch_by_idempotency_key w k)) (\<lambda>existing.
                   (case existing of None \<Rightarrow> raise exc | Some j \<Rightarrow> ok j))))))"

text \<open>\<open>locked_at < now() - lease\<close> is not true of a row whose \<open>locked_at\<close> is NULL.\<close>

definition lease_expired :: "datetime \<Rightarrow> int \<Rightarrow> background_job \<Rightarrow> bool" where
  "lease_expired now lease_seconds j \<longleftrightarrow>
     bj_status j = JobRunning \<and>
     (case bj_locked_at j of None \<Rightarrow> False | Some t \<Rightarrow> t < now - seconds lease_seconds)"

definition out_of_attempts :: "datetime \<Rightarrow> background_job \<Rightarrow> background_job" where
  "out_of_attempts now j = j\<lparr>bj_status := JobDeadLetter,
     bj_last_error := (case bj_last_error j of
        None \<Rightarrow> Some ''Lease expired with no remaining attempts'' | Some err \<Rightarrow> Some err),
     bj_finished_at := Some now, bj_locked_by := None, bj_locked_at := None, bj_updated_at := now,
     bj_version := bj_version j + 1\<rparr>"

definition claimed_by :: "string \<Rightarrow> datetime \<Rightarrow> background_job \<Rightarrow> background_job" where
  "claimed_by worker_id now j = j\<lparr>bj_status := JobRunning, bj_locked_by := Some worker_id,
     bj_locked_at := Some now, bj_attempt_count := bj_attempt_count j + 1,
     bj_started_at := (case bj_started_at j of None \<Rightarrow> Some now | Some t \<Rightarrow> Some t),
     bj_updated_at := now, bj_version := bj_version j + 1\<rparr>"

definition claimable :: "datetime \<Rightarrow> int \<Rightarrow> background_job \<Rightarrow> bool" where
  "claimable now lease_seconds j \<longleftrightarrow>
     (bj_status j = JobQueued \<and> bj_run_at j \<le> now) \<or>
     (lease_expired now lease_seconds j \<and> bj_attempt_count j < bj_max_attempts j)"

definition bury_expired :: "int \<Rightarrow> jobs_world \<Rightarrow> jobs_world" where
  "bury_expired lease_seconds w = w\<lparr>jw_jobs := map (\<lambda>j.
     if lease_expired (jw_now w) lease_seconds j \<and> bj_max_attempts j \<le> bj_attempt_count j
     then out_of_attempts (jw_now w) j else j) (jw_jobs w)\<rparr>"

definition picked_ids :: "nat \<Rightarrow> int \<Rightarrow> uuid list \<Rightarrow> jobs_world \<Rightarrow> uuid list" where
  "picked_ids batch_size lease_seconds locked w =
     take batch_size (map bj_id (sort_key bj_run_at
       (filter (\<lambda>j. claimable (jw_now w) lease_seconds j \<and> bj_id j \<notin> set locked) (jw_jobs w))))"

definition claim_ids :: "string \<Rightarrow> uuid list \<Rightarrow> jobs_world \<Rightarrow> jobs_world" where
  "claim_ids worker_id ids w = w\<lparr>jw_jobs := map (\<lambda>j.
     if bj_id j \<in> set ids then claimed_by worker_id (jw_now w) j else j) (jw_jobs w)\<rparr>"

definition claim_due ::
    "string \<Rightarrow> nat \<Rightarrow> int \<Rightarrow> uuid list \<Rightarrow> jobs_world \<Rightarrow> jobs_world \<times> background_job list" where
  "claim_due worker_id batch_size lease_seconds locked w =
     (let w1 = bury_expired lease_seconds w;
          ids = picked_ids batch_size lease_seconds locked w1;
          w2 = claim_ids worker_id ids w1 in
      (w2, filter (\<lambda>j. bj_id j \<in> set ids) (jw_jobs w2)))"

definition update_with_version ::
    "uuid \<Rightarrow> nat \<Rightarrow> (background_job \<Rightarrow> background_job) \<Rightarrow> background_job job_op" where
  "update_with_version job_id expected_version set_clause w =
     (let hits = (\<lambda>j. bj_version j = expected_version \<and> bj_status j = JobRunning);
          upd = (\<lambda>j. (set_clause j)\<lparr>bj_version := bj_version j + 1\<rparr>) in
      (case find (\<lambda>j. bj_id j = job_id \<and> hits j) (jw_jobs w) of
         None \<Rightarrow> (w, Inl (JobConcurrency job_id expected_version))
       | Some j \<Rightarrow> (w\<lparr>jw_jobs := table_update bj_id job_id hits upd (jw_jobs w)\<rparr>, Inr (upd j))))"

definition succeeded_with :: "job_result \<Rightarrow> datetime \<Rightarrow> background_job \<Rightarrow> background_job" where
  "succeeded_with r now j = j\<lparr>bj_status := JobSucceeded, bj_result := Some (job_result_dump r),
     bj_finished_at := Some now, bj_locked_by := None, bj_locked_at := None, bj_updated_at := now\<rparr>"

definition buried :: "string \<Rightarrow> datetime \<Rightarrow> background_job \<Rightarrow> background_job" where
  "buried err now j = j\<lparr>bj_status := JobDeadLetter, bj_last_error := Some err,
     bj_finished_at := Some now, bj_locked_by := None, bj_locked_at := None, bj_updated_at := now\<rparr>"

definition requeued_at :: "string \<Rightarrow> datetime \<Rightarrow> datetime \<Rightarrow> background_job \<Rightarrow> background_job" where
  "requeued_at err retry_at now j = j\<lparr>bj_status := JobQueued, bj_last_error := Some err,
     bj_run_at := retry_at, bj_locked_by := None, bj_locked_at := None, bj_updated_at := now\<rparr>"

definition complete_job :: "uuid \<Rightarrow> job_result \<Rightarrow> nat \<Rightarrow> background_job job_op" where
  "complete_job job_id r expected_version w =
     update_with_version job_id expected_version (succeeded_with r (jw_now w)) w"

definition fail_job ::
    "uuid \<Rightarrow> string \<Rightarrow> nat \<Rightarrow> datetime option \<Rightarrow> bool \<Rightarrow> background_job job_op" where
  "fail_job job_id err expected_version retry_at dead_letter w =
     (if dead_letter
      then update_with_version job_id expected_version (buried (truncate_error err) (jw_now w)) w
      else (case retry_at of
              None \<Rightarrow> (w, Inl (JobValue ''retry_at is required when dead_letter is false.''))
            | Some t \<Rightarrow>
                update_with_version job_id expected_version (requeued_at (truncate_error err) t (jw_now w)) w))"

definition cancelled_at :: "datetime \<Rightarrow> background_job \<Rightarrow> background_job" where
  "cancelled_at now j = j\<lparr>bj_status := JobCancelled, bj_finished_at := Some now, bj_updated_at := now,
     bj_version := bj_version j + 1\<rparr>"

text \<open>An \<open>UPDATE .. WHERE id = i AND .. RETURNING *\<close> that yields the row it wrote, if any.\<close>

definition update_job ::
    "uuid \<Rightarrow> (background_job \<Rightarrow> bool) \<Rightarrow> (background_job \<Rightarrow> background_job) \<Rightarrow>
     jobs_world \<Rightarrow> jobs_world \<times> background_job option" where
  "update_job i hits upd w =
     (w\<lparr>jw_jobs := table_update bj_id i hits upd (jw_jobs w)\<rparr>,
      map_option upd (find (\<lambda>j. bj_id j = i \<and> hits j) (jw_jobs w)))"

definition cancel_job :: "uuid \<Rightarrow> nat \<Rightarrow> jobs_world \<Rightarrow> jobs_world \<times> background_job option" where
  "cancel_job job_id expected_version w =
     update_job job_id (\<lambda>j. bj_version j = expected_version \<and> bj_status j = JobQueued)
       (cancelled_at (jw_now w)) w"

definition retried_at :: "datetime \<Rightarrow> background_job \<Rightarrow> background_job" where
  "retried_at now j = j\<lparr>bj_status := JobQueued, bj_attempt_count := 0, bj_run_at := now,
     bj_last_error := None, bj_result := None, bj_finished_at := None, bj_locked_by := None,
     bj_locked_at := None, bj_started_at := None, bj_updated_at := now, bj_version := bj_version j + 1\<rparr>"

definition retry_dead_letter :: "uuid \<Rightarrow> jobs_world \<Rightarrow> jobs_world \<times> background_job option" where
  "retry_dead_letter job_id w =
     update_job job_id (\<lambda>j. bj_status j = JobDeadLetter) (retried_at (jw_now w)) w"

definition list_jobs ::
    "jobs_world \<Rightarrow> job_status option \<Rightarrow> string option \<Rightarrow> nat \<Rightarrow> nat \<Rightarrow> background_job list" where
  "list_jobs w status job_type limit offset =
     take limit (drop offset (sort_key (\<lambda>j. - bj_created_at j)
       (filter (\<lambda>j. (\<forall>s. status = Some s \<longrightarrow> bj_status j = s) \<and>
                    (\<forall>t. job_type = Some t \<longrightarrow> bj_job_type j = t)) (jw_jobs w))))"

definition count_pending :: "jobs_world \<Rightarrow> nat" where
  "count_pending w = length (filter (\<lambda>j. bj_status j \<in> {JobQueued, JobRunning}) (jw_jobs w))"

definition count_dead_letter :: "jobs_world \<Rightarrow> nat" where
  "count_dead_letter w = length (filter (\<lambda>j. bj_status j = JobDeadLetter) (jw_jobs w))"

subsection \<open>Schedules\<close>

definition list_due :: "jobs_world \<Rightarrow> datetime \<Rightarrow> job_schedule list" where
  "list_due w now = sort_key js_next_run_at
     (filter (\<lambda>s. js_status s = ScheduleEnabled \<and> js_next_run_at s \<le> now) (jw_schedules w))"

definition list_all_schedules :: "jobs_world \<Rightarrow> job_schedule list" where
  "list_all_schedules w = sort_key js_name (jw_schedules w)"

definition schedule_row :: "jobs_world \<Rightarrow> uuid \<Rightarrow> job_schedule option" where
  "schedule_row w i = table_get js_id (jw_schedules w) i"

definition get_by_name :: "jobs_world \<Rightarrow> string \<Rightarrow> job_schedule option" where
  "get_by_name w n = find (\<lambda>s. js_name s = n) (jw_schedules w)"

definition update_schedule ::
    "uuid \<Rightarrow> nat \<Rightarrow> (job_schedule \<Rightarrow> job_schedule) \<Rightarrow> jobs_world \<Rightarrow> jobs_world \<times> job_schedule option" where
  "update_schedule i expected_version set_clause w =
     (let hits = (\<lambda>s. js_version s = expected_version);
          upd = (\<lambda>s. (set_clause s)\<lparr>js_updated_at := jw_now w, js_version := js_version s + 1\<rparr>) in
      (w\<lparr>jw_schedules := table_update js_id i hits upd (jw_schedules w)\<rparr>,
       map_option upd (find (\<lambda>s. js_id s = i \<and> hits s) (jw_schedules w))))"

definition advance_in_transaction ::
    "uuid \<Rightarrow> nat \<Rightarrow> datetime \<Rightarrow> jobs_world \<Rightarrow> jobs_world \<times> job_schedule option" where
  "advance_in_transaction i expected_version next_run_at w =
     update_schedule i expected_version (\<lambda>s. s\<lparr>js_next_run_at := next_run_at\<rparr>) w"

definition set_schedule_status ::
    "uuid \<Rightarrow> nat \<Rightarrow> schedule_status \<Rightarrow> jobs_world \<Rightarrow> jobs_world \<times> job_schedule option" where
  "set_schedule_status i expected_version status w =
     update_schedule i expected_version (\<lambda>s. s\<lparr>js_status := status\<rparr>) w"

definition insert_schedule ::
    "string \<Rightarrow> string \<Rightarrow> pyval dict \<Rightarrow> int \<Rightarrow> datetime \<Rightarrow> schedule_status \<Rightarrow> job_schedule job_op" where
  "insert_schedule n job_type payload interval_seconds next_run_at status w =
     (let i = jw_next_uuid w; w1 = w\<lparr>jw_next_uuid := Suc i\<rparr>;
          s = \<lparr>js_id = i, js_name = n, js_job_type = job_type, js_payload = payload,
               js_interval_seconds = interval_seconds, js_next_run_at = next_run_at, js_version = 1,
               js_status = status, js_created_at = jw_now w, js_updated_at = jw_now w\<rparr> in
      if i \<in> js_id ` set (jw_schedules w) then (w1, Inl (JobIntegrity PkSchedules))
      else if n \<in> js_name ` set (jw_schedules w) then (w1, Inl (JobIntegrity UqScheduleName))
      else (w1\<lparr>jw_schedules := jw_schedules w @ [s]\<rparr>, Inr s))"

end
