(* ===== verification/Job_Worker.thy ===== *)
theory Job_Worker
  imports Job_Queue Wf_Model
begin

section \<open>Job worker, scheduler and retention\<close>

text \<open>
  \<open>ai/jobs/worker.py\<close>, \<open>scheduler.py\<close> and the loops of \<open>handlers/workflow_retention.py\<close>,
  \<open>handlers/scheduled_eval.py\<close> and \<open>handlers/security_audit_retention.py\<close>, as programs over the queue. A
  handler is a parameter: what its n-th call did with a job. The polling loops are their bodies
  (\<open>poll_once\<close>, \<open>tick_once\<close>) with the shutdown flag as an argument; the batches of a \<open>while True\<close> loop have fuel.
  Spans and logging have no effect.
\<close>

datatype handler_outcome =
    HandlerReturned job_result
  | HandlerNonRetryable string
  | HandlerTimedOut
  | HandlerRaised string string

type_synonym job_handler = "nat \<Rightarrow> background_job \<Rightarrow> handler_outcome"

record worker_config =
  jc_handlers :: "job_handler dict"
  jc_worker_id :: string
  jc_batch_size :: nat
  jc_lease_seconds :: int
  jc_handler_timeout :: nat
  jc_base_delay :: rat
  jc_max_delay :: rat
  jc_default_max_attempts :: int
  jc_isoformat :: "datetime \<Rightarrow> string"

definition register_handler :: "string \<Rightarrow> job_handler \<Rightarrow> job_handler dict \<Rightarrow> job_handler dict" where
  "register_handler job_type handler handlers = dict_put job_type handler handlers"

definition resolve_handler :: "job_handler dict \<Rightarrow> string \<Rightarrow> job_exn + job_handler" where
  "resolve_handler handlers job_type =
     (case dict_get handlers job_type of
        None \<Rightarrow> Inl (JobHandlerNotFound (''No handler registered for job_type '' @ [CHR 0x27] @ job_type @ [CHR 0x27] @ ''.''))
      | Some handler \<Rightarrow> Inr handler)"

text \<open>\<open>timedelta(seconds=x)\<close> rounds to microseconds, ties to even.\<close>

definition round_half_even :: "rat \<Rightarrow> int" where
  "round_half_even x =
     (let f = \<lfloor>x\<rfloor>; d = x - of_int f in
      if d < 1 / 2 then f else if d > 1 / 2 then f + 1 else if even f then f else f + 1)"

definition timedelta_seconds :: "rat \<Rightarrow> int" where
  "timedelta_seconds x = round_half_even (x * 1000000)"

subsection \<open>Dispatch\<close>

definition dead_letter :: "background_job \<Rightarrow> string \<Rightarrow> unit job_prog" where
  "dead_letter job err =
     bindE (opP (fail_job (bj_id job) err (bj_version job) None True)) (\<lambda>_. ok ())"

definition handle_failure :: "worker_config \<Rightarrow> background_job \<Rightarrow> string \<Rightarrow> job_status job_prog" where
  "handle_failure cfg job err =
     (if bj_max_attempts job \<le> bj_attempt_count job
      then bindE (dead_letter job err) (\<lambda>_. ok JobDeadLetter)
      else (case compute_backoff_seconds (bj_attempt_count job - 1) (jc_base_delay cfg) (jc_max_delay cfg) of
              Inl exc \<Rightarrow> raise exc
            | Inr delay \<Rightarrow>
                bindP (readP jw_now) (\<lambda>now.
                bindE (opP (fail_job (bj_id job) err (bj_version job)
                         (Some (now + timedelta_seconds delay)) False)) (\<lambda>_.
                ok JobQueued))))"

definition format_handler_error :: "string \<Rightarrow> string \<Rightarrow> string" where
  "format_handler_error type_name msg = type_name @ '': '' @ msg"

definition call_handler :: "job_handler \<Rightarrow> background_job \<Rightarrow> (jobs_world, handler_outcome) prog" where
  "call_handler handler job =
     opP (\<lambda>w. (w\<lparr>jw_calls := Suc (jw_calls w)\<rparr>, handler (jw_calls w) job))"

definition dispatch :: "worker_config \<Rightarrow> background_job \<Rightarrow> job_status job_prog" where
  "dispatch cfg job =
     (case resolve_handler (jc_handlers cfg) (bj_job_type job) of
        Inl exc \<Rightarrow>
          bindE (dead_letter job (case exc of JobHandlerNotFound msg \<Rightarrow> msg | _ \<Rightarrow> [])) (\<lambda>_.
          ok JobDeadLetter)
      | Inr handler \<Rightarrow>
          bindP (call_handler handler job) (\<lambda>outcome.
            (case outcome of
               HandlerNonRetryable msg \<Rightarrow> bindE (dead_letter job msg) (\<lambda>_. ok JobDeadLetter)
             | HandlerTimedOut \<Rightarrow>
                 handle_failure cfg job (''TimeoutError: handler exceeded ''
                   @ py_str_nat (jc_handler_timeout cfg) @ ''s'')
             | HandlerRaised type_name msg \<Rightarrow> handle_failure cfg job (format_handler_error type_name msg)
             | HandlerReturned r \<Rightarrow>
                 bindE (opP (complete_job (bj_id job) r (bj_version job))) (\<lambda>_.
                 ok JobSucceeded))))"

definition jobs_sched_left :: "jobs_world \<Rightarrow> bool" where
  "jobs_sched_left w = jw_sched w (jw_tick w)"

definition jobs_sched_tick :: "jobs_world \<Rightarrow> jobs_world" where
  "jobs_sched_tick w = w\<lparr>jw_tick := Suc (jw_tick w)\<rparr>"

text \<open>\<open>asyncio.gather(.., return_exceptions=True)\<close>: the results are only logged.\<close>

definition poll_once :: "worker_config \<Rightarrow> bool \<Rightarrow> uuid list \<Rightarrow> (job_exn + job_status) list job_prog" where
  "poll_once cfg shutdown locked =
     (if shutdown then ok []
      else bindP (opP (claim_due (jc_worker_id cfg) (jc_batch_size cfg) (jc_lease_seconds cfg) locked)) (\<lambda>claimed.
        if claimed = [] then ok []
        else bindP (gather jobs_sched_left jobs_sched_tick (map (dispatch cfg) claimed)) ok))"

subsection \<open>The scheduler\<close>

definition compute_advanced_next_run_at :: "datetime \<Rightarrow> int \<Rightarrow> datetime \<Rightarrow> job_exn + datetime" where
  "compute_advanced_next_run_at current_next_run_at interval_seconds now =
     (if interval_seconds = 0 then Inl JobZeroDivision
      else (let intervals_to_skip = max 1 ((now - current_next_run_at) div seconds interval_seconds + 1) in
            Inr (current_next_run_at + seconds (interval_seconds * intervals_to_skip))))"

definition tick_key :: "worker_config \<Rightarrow> job_schedule \<Rightarrow> string" where
  "tick_key cfg s = js_name s @ '':'' @ jc_isoformat cfg (js_next_run_at s)"

definition tick_payload :: "job_schedule \<Rightarrow> pyval dict" where
  "tick_payload s =
     (if ''version'' \<in> set (dict_keys (js_payload s)) then js_payload s
      else dict_put ''version'' (PInt 1) (js_payload s))"

text \<open>
  Insert and advance in one transaction; when the schedule has moved on, both are rolled back (the
  UUID that was drawn is gone) and the tick does nothing.
\<close>

definition tick_transaction :: "worker_config \<Rightarrow> job_schedule \<Rightarrow> datetime \<Rightarrow> datetime \<Rightarrow> bool job_op" where
  "tick_transaction cfg s now next_run_at w =
     (let rolled_back = w\<lparr>jw_next_uuid := Suc (jw_next_uuid w)\<rparr> in
      (case enqueue_in_transaction (js_job_type s) (tick_payload s) now (jc_default_max_attempts cfg)
              (Some (tick_key cfg s)) (Some (js_id s)) w of
         (w1, Inl exc) \<Rightarrow> (rolled_back, Inl exc)
       | (w1, Inr (j, newly_enqueued)) \<Rightarrow>
           (case advance_in_transaction (js_id s) (js_version s) next_run_at w1 of
              (w2, None) \<Rightarrow> (rolled_back, Inr False)
            | (w2, Some row) \<Rightarrow> (w2, Inr newly_enqueued))))"

definition process_schedule :: "worker_config \<Rightarrow> datetime \<Rightarrow> job_schedule \<Rightarrow> bool job_prog" where
  "process_schedule cfg now s =
     (case compute_advanced_next_run_at (js_next_run_at s) (js_interval_seconds s) now of
        Inl exc \<Rightarrow> raise exc
      | Inr next_run_at \<Rightarrow> opP (tick_transaction cfg s now next_run_at))"

definition tick_once :: "worker_config \<Rightarrow> bool \<Rightarrow> (job_exn + bool) list job_prog" where
  "tick_once cfg shutdown =
     (if shutdown then ok []
      else bindP (readP jw_now) (\<lambda>now.
           bindP (readP (\<lambda>w. list_due w now)) (\<lambda>due.
             if due = [] then ok []
             else bindP (gather jobs_sched_left jobs_sched_tick (map (process_schedule cfg now) due)) ok)))"

text \<open>
  \<open>reconcile_evaluation_schedule_status\<close> and \<open>reconcile_security_audit_retention_schedule_status\<close> are the
  same loop with another name and flag: five attempts to set the status by compare and set.
\<close>

fun reconcile_schedule_status :: "nat \<Rightarrow> string \<Rightarrow> schedule_status \<Rightarrow> unit job_prog" where
  "reconcile_schedule_status 0 schedule_name desired = ok ()"
| "reconcile_schedule_status (Suc attempts) schedule_name desired =
     bindP (readP (\<lambda>w. get_by_name w schedule_name)) (\<lambda>schedule.
       (case schedule of
          None \<Rightarrow> ok ()
        | Some s \<Rightarrow>
            if js_status s = desired then ok ()
            else bindP (opP (set_schedule_status (js_id s) (js_version s) desired)) (\<lambda>updated.
              (case updated of
                 Some _ \<Rightarrow> ok ()
               | None \<Rightarrow> reconcile_schedule_status attempts schedule_name desired))))"

definition desired_status :: "bool \<Rightarrow> schedule_status" where
  "desired_status enabled = (if enabled then ScheduleEnabled else ScheduleDisabled)"

definition reconcile_max_attempts :: nat where
  "reconcile_max_attempts = 5"

definition reconcile_evaluation_schedule_status :: "bool \<Rightarrow> unit job_prog" where
  "reconcile_evaluation_schedule_status enabled =
     reconcile_schedule_status reconcile_max_attempts ''scheduled-evaluation-run'' (desired_status enabled)"

definition reconcile_security_audit_retention_schedule_status :: "bool \<Rightarrow> bool \<Rightarrow> unit job_prog" where
  "reconcile_security_audit_retention_schedule_status governance audit_log =
     reconcile_schedule_status reconcile_max_attempts ''security-audit-retention-cleanup''
       (desired_status (governance \<and> audit_log))"

subsection \<open>Retention\<close>

text \<open>\<open>DELETE .. WHERE id IN (SELECT .. LIMIT n)\<close>: at most \<open>n\<close> of the rows that qualify.\<close>

fun delete_batch :: "('r \<Rightarrow> bool) \<Rightarrow> nat \<Rightarrow> 'r list \<Rightarrow> 'r list \<times> nat" where
  "delete_batch qualifies n [] = ([], 0)"
| "delete_batch qualifies n (r # rows) =
     (if qualifies r \<and> 0 < n
      then (let (kept, deleted) = delete_batch qualifies (n - 1) rows in (kept, Suc deleted))
      else (let (kept, deleted) = delete_batch qualifies n rows in (r # kept, deleted)))"

definition job_expired :: "datetime \<Rightarrow> uuid \<Rightarrow> background_job \<Rightarrow> bool" where
  "job_expired cutoff exclude_job_id j \<longleftrightarrow>
     bj_status j \<in> {JobSucceeded, JobFailed, JobDeadLetter, JobCancelled} \<and> bj_updated_at j < cutoff \<and>
     bj_id j \<noteq> exclude_job_id"

definition run_expired :: "datetime \<Rightarrow> wf_run \<Rightarrow> bool" where
  "run_expired cutoff r \<longleftrightarrow>
     wr_status r \<in> {RunCompleted, RunFailed, RunCancelled} \<and> wr_updated_at r < cutoff"

definition delete_background_jobs_batch :: "datetime \<Rightarrow> nat \<Rightarrow> uuid \<Rightarrow> jobs_world \<Rightarrow> jobs_world \<times> nat" where
  "delete_background_jobs_batch cutoff batch_size exclude_job_id w =
     (let (kept, deleted) = delete_batch (job_expired cutoff exclude_job_id) batch_size (jw_jobs w) in
      (w\<lparr>jw_jobs := kept\<rparr>, deleted))"

fun purge_jobs :: "nat \<Rightarrow> datetime \<Rightarrow> nat \<Rightarrow> uuid \<Rightarrow> nat \<Rightarrow> nat job_prog" where
  "purge_jobs 0 cutoff batch_size exclude_job_id so_far = raise JobOutOfFuel"
| "purge_jobs (Suc fuel) cutoff batch_size exclude_job_id so_far =
     bindP (opP (delete_background_jobs_batch cutoff batch_size exclude_job_id)) (\<lambda>deleted.
       if deleted = 0 then ok so_far
       else purge_jobs fuel cutoff batch_size exclude_job_id (so_far + deleted))"

definition delete_batch_size :: nat where
  "delete_batch_size = 500"

text \<open>
  The part of \<open>workflow_run_retention_cleanup\<close> that works on the queue's own table; it runs with the job
  that asked for it excluded.
\<close>

definition cleanup_jobs :: "nat \<Rightarrow> bool \<Rightarrow> int \<Rightarrow> background_job \<Rightarrow> nat job_prog" where
  "cleanup_jobs fuel background_jobs_enabled retention_days job =
     (if \<not> background_jobs_enabled then ok 0
      else bindP (readP jw_now) (\<lambda>now.
        purge_jobs fuel (now - days retention_days) delete_batch_size (bj_id job) 0))"

text \<open>The same loop on the table of runs.\<close>

fun purge_rows :: "nat \<Rightarrow> ('r \<Rightarrow> bool) \<Rightarrow> nat \<Rightarrow> nat \<Rightarrow> 'r list \<Rightarrow> ('r list \<times> nat) option" where
  "purge_rows 0 qualifies batch_size so_far rows = None"
| "purge_rows (Suc fuel) qualifies batch_size so_far rows =
     (let (kept, deleted) = delete_batch qualifies batch_size rows in
      if deleted = 0 then Some (kept, so_far)
      else purge_rows fuel qualifies batch_size (so_far + deleted) kept)"

definition cleanup_runs :: "nat \<Rightarrow> datetime \<Rightarrow> int \<Rightarrow> wf_run list \<Rightarrow> (wf_run list \<times> nat) option" where
  "cleanup_runs fuel now retention_days runs =
     purge_rows fuel (run_expired (now - days retention_days)) delete_batch_size 0 runs"

end
