(* ===== verification/Job_Safety.thy ===== *)
theory Job_Safety
  imports Job_Worker "HOL-Library.Sublist"
begin

section \<open>What every task does to the job queue\<close>

text \<open>
  \<open>job_ok\<close> is the invariant of a job row, \<open>job_may_become\<close> the contract between its writers. Every
  operation of the queue keeps both, except that putting a job back with \<open>fail\<close> is only safe for a
  caller that has read the row with an attempt left: the worker knows this from its claim, and the
  version it passes makes sure that the row is still the one it claimed. The locale \<open>purging_store\<close> is
  interpreted on the table of jobs and carries that argument through any interleaving.
\<close>

definition is_finished :: "job_status \<Rightarrow> bool" where
  "is_finished s \<longleftrightarrow> s \<in> {JobSucceeded, JobFailed, JobDeadLetter, JobCancelled}"

definition job_ok :: "background_job \<Rightarrow> bool" where
  "job_ok j \<longleftrightarrow>
     0 < bj_max_attempts j \<and> 0 \<le> bj_attempt_count j \<and> bj_attempt_count j \<le> bj_max_attempts j \<and>
     (bj_locked_at j \<noteq> None \<longleftrightarrow> bj_status j = JobRunning) \<and>
     (bj_locked_by j \<noteq> None \<longleftrightarrow> bj_status j = JobRunning) \<and>
     (bj_finished_at j \<noteq> None \<longleftrightarrow> is_finished (bj_status j)) \<and>
     (bj_result j \<noteq> None \<longrightarrow> bj_status j = JobSucceeded) \<and>
     (bj_status j = JobRunning \<longrightarrow> 0 < bj_attempt_count j \<and> bj_started_at j \<noteq> None) \<and>
     (bj_status j = JobQueued \<longrightarrow> bj_attempt_count j < bj_max_attempts j)"

definition job_may_become :: "background_job \<Rightarrow> background_job \<Rightarrow> bool" where
  "job_may_become a b \<longleftrightarrow>
     bj_id b = bj_id a \<and> bj_job_type b = bj_job_type a \<and> bj_payload b = bj_payload a \<and>
     bj_max_attempts b = bj_max_attempts a \<and> bj_idempotency_key b = bj_idempotency_key a \<and>
     bj_schedule_id b = bj_schedule_id a \<and> bj_created_at b = bj_created_at a \<and>
     bj_status a \<notin> {JobSucceeded, JobCancelled}"

definition used_keys :: "background_job list \<Rightarrow> string option list" where
  "used_keys js = filter (\<lambda>k. k \<noteq> None) (map bj_idempotency_key js)"

definition jobs_ok :: "jobs_world \<Rightarrow> bool" where
  "jobs_ok w \<longleftrightarrow> distinct (map bj_id (jw_jobs w)) \<and> distinct (used_keys (jw_jobs w)) \<and>
     (\<forall>j\<in>set (jw_jobs w). bj_id j < jw_next_uuid w \<and> job_ok j)"

lemma job_row_mem: "job_row w i = Some j \<Longrightarrow> j \<in> set (jw_jobs w) \<and> bj_id j = i"
  unfolding job_row_def by (rule table_get_Some)

interpretation jobs: purging_store job_row bj_version job_may_become jw_next_uuid jobs_ok
proof
  show "job_may_become a c" if "job_may_become a b" "job_may_become b c" for a b c
    using that by (auto simp: job_may_become_def)
  show "k < jw_next_uuid s" if "jobs_ok s" "job_row s k = Some r" for s k r
    using that by (auto simp: jobs_ok_def dest: job_row_mem)
qed

definition jobs_evolve :: "jobs_world \<Rightarrow> jobs_world \<Rightarrow> bool" where
  "jobs_evolve = persists job_row bj_version job_may_become jw_next_uuid jobs_ok"

lemmas jobs_evolve_rel = jobs.persists_reflp [folded jobs_evolve_def] jobs.persists_transp [folded jobs_evolve_def]
lemmas jobs_evolve_facts = jobs.persists_refl [folded jobs_evolve_def] jobs.persists_trans [folded jobs_evolve_def]
lemmas jobs_evolve_row = jobs.persists_row [folded jobs_evolve_def]
lemmas jobs_evolve_same_version = jobs.persists_same_version [folded jobs_evolve_def]
lemmas jobs_evolve_final = jobs.persists_final [folded jobs_evolve_def]
lemmas jobs_evolve_inv = jobs.persists_inv [folded jobs_evolve_def]

subsection \<open>Changes of the table\<close>

lemma table_get_map:
  "(\<And>r. r \<in> set rows \<Longrightarrow> key (f r) = key r) \<Longrightarrow>
   table_get key (map f rows) k = map_option f (table_get key rows k)"
  by (induction rows) (auto simp: table_get_def)

lemma jobs_evolve_mapped:
  assumes "jw_jobs v = map (\<lambda>j. if hits j then upd j else j) (jw_jobs w)"
    and "jw_next_uuid w \<le> jw_next_uuid v"
    and "\<And>j. jobs_ok w \<Longrightarrow> j \<in> set (jw_jobs w) \<Longrightarrow> hits j \<Longrightarrow>
      bj_version j < bj_version (upd j) \<and> job_may_become j (upd j) \<and> job_ok (upd j)"
  shows "jobs_evolve w v"
  unfolding jobs_evolve_def
proof (rule jobs.persists_step [OF _ assms(2)])
  let ?f = "\<lambda>j. if hits j then upd j else j"
  assume w: "jobs_ok w"
  have same: "bj_id (?f j) = bj_id j" "bj_idempotency_key (?f j) = bj_idempotency_key j" if "j \<in> set (jw_jobs w)" for j
    using assms(3) [OF w that] by (auto simp: job_may_become_def)
  have ids: "map bj_id (map ?f (jw_jobs w)) = map bj_id (jw_jobs w)"
    and keys: "map bj_idempotency_key (map ?f (jw_jobs w)) = map bj_idempotency_key (jw_jobs w)"
    unfolding map_map by (auto simp: same intro!: map_cong)
  have "bj_id (?f j) < jw_next_uuid v" "job_ok (?f j)" if j: "j \<in> set (jw_jobs w)" for j
  proof -
    from w j have "bj_id j < jw_next_uuid w" "job_ok j" by (simp_all add: jobs_ok_def)
    then show "bj_id (?f j) < jw_next_uuid v" "job_ok (?f j)"
      using assms(2) assms(3) [OF w j] same(1) [OF j] by auto
  qed
  then have "\<forall>j\<in>set (map ?f (jw_jobs w)). bj_id j < jw_next_uuid v \<and> job_ok j"
    unfolding set_map by blast
  with w show "jobs_ok v"
    unfolding jobs_ok_def used_keys_def assms(1) ids keys by blast
  show "\<exists>r. job_row w k = Some r \<and> (q = r \<or> bj_version r < bj_version q \<and> job_may_become r q)"
    if "job_row v k = Some q" for k q
  proof -
    have "job_row v k = map_option ?f (job_row w k)"
      unfolding job_row_def assms(1) by (rule table_get_map) (rule same(1))
    with that obtain r where r: "job_row w k = Some r" and q: "q = ?f r" by auto
    with assms(3) [OF w, of r] show ?thesis by (auto dest: job_row_mem)
  qed
qed

lemma jobs_evolve_same: "jw_jobs v = jw_jobs w \<Longrightarrow> jw_next_uuid w \<le> jw_next_uuid v \<Longrightarrow> jobs_evolve w v"
  by (rule jobs_evolve_mapped [where hits = "\<lambda>_. False" and upd = id]) simp_all

lemma jobs_evolve_appended:
  assumes "jw_jobs v = jw_jobs w @ [j]" and "bj_id j = jw_next_uuid w" and "jw_next_uuid v = Suc (jw_next_uuid w)"
    and "bj_idempotency_key j = None \<or> bj_idempotency_key j \<notin> bj_idempotency_key ` set (jw_jobs w)" and "job_ok j"
  shows "jobs_evolve w v"
  unfolding jobs_evolve_def
proof (rule jobs.persists_step)
  show "jw_next_uuid w \<le> jw_next_uuid v" by (simp add: assms(3))
  assume w: "jobs_ok w"
  then have "bj_id j \<notin> bj_id ` set (jw_jobs w)" using assms(2) by (auto simp: jobs_ok_def)
  with w assms(3-5) show "jobs_ok v" by (auto simp: jobs_ok_def assms(1,2) used_keys_def)
  show "\<exists>r. job_row w k = Some r \<and> (q = r \<or> bj_version r < bj_version q \<and> job_may_become r q)"
    if "k < jw_next_uuid w" "job_row v k = Some q" for k q
    using that assms(1,2) by (auto simp: job_row_def table_get_append split: option.splits if_splits)
qed

lemma subseq_delete_batch: "subseq (fst (delete_batch P n rows)) rows"
  by (induction P n rows rule: delete_batch.induct) (auto split: prod.splits if_splits)

lemma set_delete_batch: "set (fst (delete_batch P n rows)) \<subseteq> set rows"
  using subseq_delete_batch by (metis set_nths_subset subseq_conv_nths)

lemma subseq_distinct: "subseq xs ys \<Longrightarrow> distinct ys \<Longrightarrow> distinct xs"
  by (metis distinct_nthsI subseq_conv_nths)

lemma jobs_evolve_deleted:
  assumes "jw_jobs v = fst (delete_batch P n (jw_jobs w))" and "jw_next_uuid v = jw_next_uuid w"
  shows "jobs_evolve w v"
  unfolding jobs_evolve_def
proof (rule jobs.persists_step)
  show "jw_next_uuid w \<le> jw_next_uuid v" by (simp add: assms(2))
  assume w: "jobs_ok w"
  moreover have "distinct (map f (fst (delete_batch P n rows)))" if "distinct (map f rows)" for f rows
    using that by (rule subseq_distinct [OF subseq_map [OF subseq_delete_batch]])
  moreover have "distinct (used_keys (fst (delete_batch P n rows)))" if "distinct (used_keys rows)" for rows
    unfolding used_keys_def
    by (rule subseq_distinct [OF subseq_filter [OF subseq_map [OF subseq_delete_batch]]])
      (rule that [unfolded used_keys_def])
  ultimately show "jobs_ok v"
    using set_delete_batch [of P n "jw_jobs w"] unfolding jobs_ok_def assms by blast
  show "\<exists>r. job_row w k = Some r \<and> (q = r \<or> bj_version r < bj_version q \<and> job_may_become r q)"
    if "job_row v k = Some q" for k q
  proof -
    from job_row_mem [OF that] have q: "q \<in> set (jw_jobs w)" "bj_id q = k"
      using set_delete_batch [of P n "jw_jobs w"] by (auto simp: assms(1))
    have "table_get bj_id (jw_jobs w) (bj_id q) = Some q"
      using w q(1) by (intro table_get_unique) (auto simp: jobs_ok_def)
    with q(2) show ?thesis by (simp add: job_row_def)
  qed
qed

subsection \<open>Situations that last\<close>

text \<open>\<open>held job\<close>: the row of \<open>job\<close> was exactly \<open>job\<close> at some earlier, valid state.\<close>

definition held :: "background_job \<Rightarrow> jobs_world \<Rightarrow> bool" where
  "held job w \<longleftrightarrow> (\<exists>s. jobs_ok s \<and> job_row s (bj_id job) = Some job \<and> jobs_evolve s w)"

interpretation queue: stable_situation jobs_evolve jobs_ok
  by unfold_locales (auto intro: jobs_evolve_rel jobs_evolve_inv)

interpretation claim: stable_situation jobs_evolve "held job" for job
  by unfold_locales (auto simp: held_def intro: jobs_evolve_rel jobs_evolve_facts(2))

lemma held_jobs_ok: "held job w \<Longrightarrow> jobs_ok w"
  using jobs_evolve_inv by (auto simp: held_def)

lemma held_now: "jobs_ok w \<Longrightarrow> job_row w (bj_id job) = Some job \<Longrightarrow> held job w"
  using jobs_evolve_facts(1) by (auto simp: held_def)

lemma held_job_ok: "held job w \<Longrightarrow> job_ok job"
  by (auto simp: held_def jobs_ok_def dest!: job_row_mem)

text \<open>Fencing: a row with the version of the claim is the row that was claimed.\<close>

lemma held_same:
  assumes "held job w" and "q \<in> set (jw_jobs w)" and "bj_id q = bj_id job" and "bj_version q = bj_version job"
  shows "q = job"
proof -
  from assms(1) obtain s where s: "jobs_ok s" "job_row s (bj_id job) = Some job" "jobs_evolve s w"
    unfolding held_def by blast
  from held_jobs_ok [OF assms(1)] assms(2) have "table_get bj_id (jw_jobs w) (bj_id q) = Some q"
    by (intro table_get_unique) (auto simp: jobs_ok_def)
  then have "job_row w (bj_id job) = Some q" using assms(3) by (simp add: job_row_def)
  from jobs_evolve_same_version [OF s(3,1,2) this assms(4)] show ?thesis .
qed

subsection \<open>Operations of the queue\<close>

lemma insert_job_effect: "insert_job j w = (v, r) \<Longrightarrow>
    (case r of Inl exc \<Rightarrow> v = w
     | Inr row \<Rightarrow> row = j \<and> jw_jobs v = jw_jobs w @ [j] \<and> jw_next_uuid v = jw_next_uuid w \<and>
         jw_schedules v = jw_schedules w \<and>
         (bj_idempotency_key j = None \<or> bj_idempotency_key j \<notin> bj_idempotency_key ` set (jw_jobs w)))"
  by (auto simp: insert_job_def split: if_splits)

lemma new_job_ok: "0 < max_attempts \<Longrightarrow> job_ok (new_job i now t p due_at max_attempts k sid)"
  by (simp add: job_ok_def new_job_def is_finished_def)

lemma enqueue_in_transaction_evolve:
  assumes "0 < max_attempts"
  shows "jobs_evolve w (fst (enqueue_in_transaction t p due_at max_attempts k sid w))"
proof -
  let ?j = "new_job (jw_next_uuid w) (jw_now w) t p due_at max_attempts k sid"
  let ?w = "w\<lparr>jw_next_uuid := Suc (jw_next_uuid w)\<rparr>"
  obtain v r where i: "insert_job ?j ?w = (v, r)" by fastforce
  have e: "fst (enqueue_in_transaction t p due_at max_attempts k sid w) = v"
    using i by (auto simp: enqueue_in_transaction_def split: sum.splits option.splits)
  show ?thesis
  proof (cases r)
    case (Inl exc)
    with insert_job_effect [OF i] show ?thesis unfolding e by (intro jobs_evolve_same) simp_all
  next
    case (Inr row)
    with insert_job_effect [OF i] show ?thesis
      unfolding e by (intro jobs_evolve_appended [where j = ?j]) (simp_all add: new_job_ok assms, simp add: new_job_def)
  qed
qed

named_theorems job_updates "what the SET clauses of the queue write"

lemmas [job_updates] = out_of_attempts_def claimed_by_def succeeded_with_def buried_def requeued_at_def
  cancelled_at_def retried_at_def job_may_become_def job_ok_def is_finished_def claimable_def lease_expired_def

lemma bury_expired_evolve: "jobs_evolve w (bury_expired lease w)"
  by (rule jobs_evolve_mapped [where
        hits = "\<lambda>j. lease_expired (jw_now w) lease j \<and> bj_max_attempts j \<le> bj_attempt_count j"])
    (auto simp: bury_expired_def jobs_ok_def job_updates)

lemma picked_claimable:
  assumes "jobs_ok w" and "j \<in> set (jw_jobs w)" and "bj_id j \<in> set (picked_ids n lease locked w)"
  shows "claimable (jw_now w) lease j"
proof -
  from assms(3) obtain i where i: "i \<in> set (jw_jobs w)" "bj_id i = bj_id j" "claimable (jw_now w) lease i"
    by (auto simp: picked_ids_def dest!: in_set_takeD)
  with assms(1,2) have "i = j" by (auto simp: jobs_ok_def distinct_map inj_on_def)
  with i show ?thesis by simp
qed

lemma claim_ids_evolve: "jobs_evolve w (claim_ids worker_id (picked_ids n lease locked w) w)"
proof (rule jobs_evolve_mapped [where hits = "\<lambda>j. bj_id j \<in> set (picked_ids n lease locked w)"
        and upd = "claimed_by worker_id (jw_now w)"])
  fix j
  assume w: "jobs_ok w" "j \<in> set (jw_jobs w)" and hit: "bj_id j \<in> set (picked_ids n lease locked w)"
  from picked_claimable [OF w hit] w
  show "bj_version j < bj_version (claimed_by worker_id (jw_now w) j) \<and>
      job_may_become j (claimed_by worker_id (jw_now w) j) \<and> job_ok (claimed_by worker_id (jw_now w) j)"
    by (auto simp: jobs_ok_def job_updates split: option.split)
qed (simp_all add: claim_ids_def)

lemma claim_due_fst: "fst (claim_due worker_id n lease locked w) =
    claim_ids worker_id (picked_ids n lease locked (bury_expired lease w)) (bury_expired lease w)"
  by (simp add: claim_due_def Let_def)

lemma claim_due_evolve: "jobs_evolve w (fst (claim_due worker_id n lease locked w))"
  unfolding claim_due_fst using bury_expired_evolve claim_ids_evolve by (rule jobs_evolve_facts(2))

lemma update_job_evolve:
  assumes "\<And>j. jobs_ok w \<Longrightarrow> j \<in> set (jw_jobs w) \<Longrightarrow> bj_id j = i \<Longrightarrow> hits j \<Longrightarrow>
      bj_version j < bj_version (upd j) \<and> job_may_become j (upd j) \<and> job_ok (upd j)"
  shows "jobs_evolve w (fst (update_job i hits upd w))"
  by (rule jobs_evolve_mapped [where hits = "\<lambda>j. bj_id j = i \<and> hits j" and upd = upd])
    (simp_all add: update_job_def table_update_def assms)

lemma cancel_job_evolve: "jobs_evolve w (fst (cancel_job i v w))"
  unfolding cancel_job_def by (rule update_job_evolve) (auto simp: jobs_ok_def job_updates)

lemma retry_dead_letter_evolve: "jobs_evolve w (fst (retry_dead_letter i w))"
  unfolding retry_dead_letter_def by (rule update_job_evolve) (auto simp: jobs_ok_def job_updates)

lemma update_with_version_evolve:
  assumes "held job w"
    and "bj_status job = JobRunning \<Longrightarrow> job_may_become job (f job)"
    and "bj_status job = JobRunning \<Longrightarrow> job_ok (f job)"
  shows "jobs_evolve w (fst (update_with_version (bj_id job) (bj_version job) f w))"
proof (cases "find (\<lambda>j. bj_id j = bj_id job \<and> bj_version j = bj_version job \<and> bj_status j = JobRunning) (jw_jobs w)")
  case None
  then show ?thesis by (simp add: update_with_version_def jobs_evolve_facts(1))
next
  case (Some j)
  show ?thesis
  proof (rule jobs_evolve_mapped [where
        hits = "\<lambda>j. bj_id j = bj_id job \<and> bj_version j = bj_version job \<and> bj_status j = JobRunning"
        and upd = "\<lambda>j. (f j)\<lparr>bj_version := bj_version j + 1\<rparr>"])
    fix j
    assume "j \<in> set (jw_jobs w)"
      and "bj_id j = bj_id job \<and> bj_version j = bj_version job \<and> bj_status j = JobRunning"
    with held_same [OF assms(1)] have "j = job" "bj_status job = JobRunning" by auto
    with assms(2,3) show "bj_version j < bj_version ((f j)\<lparr>bj_version := bj_version j + 1\<rparr>) \<and>
        job_may_become j ((f j)\<lparr>bj_version := bj_version j + 1\<rparr>) \<and> job_ok ((f j)\<lparr>bj_version := bj_version j + 1\<rparr>)"
      by (simp add: job_may_become_def job_ok_def)
  qed (simp_all add: update_with_version_def table_update_def Some)
qed

lemma complete_job_evolve:
  "held job w \<Longrightarrow> jobs_evolve w (fst (complete_job (bj_id job) r (bj_version job) w))"
  unfolding complete_job_def
  by (rule update_with_version_evolve) (auto dest!: held_job_ok simp: job_updates)

lemma bury_job_evolve:
  "held job w \<Longrightarrow> jobs_evolve w (fst (fail_job (bj_id job) err (bj_version job) due_at True w))"
  unfolding fail_job_def
  by (simp, rule update_with_version_evolve) (auto dest!: held_job_ok simp: job_updates)

lemma requeue_job_evolve:
  "held job w \<Longrightarrow> bj_attempt_count job < bj_max_attempts job \<Longrightarrow>
   jobs_evolve w (fst (fail_job (bj_id job) err (bj_version job) (Some due_at) False w))"
  unfolding fail_job_def
  by (simp, rule update_with_version_evolve) (auto dest!: held_job_ok simp: job_updates)

lemma update_schedule_jobs [simp]:
  "jw_jobs (fst (update_schedule i v f w)) = jw_jobs w"
  "jw_next_uuid (fst (update_schedule i v f w)) = jw_next_uuid w"
  by (simp_all add: update_schedule_def Let_def)

lemma tick_transaction_evolve:
  assumes "0 < jc_default_max_attempts cfg"
  shows "jobs_evolve w (fst (tick_transaction cfg s now due_at w))"
proof -
  let ?enq = "enqueue_in_transaction (js_job_type s) (tick_payload s) now (jc_default_max_attempts cfg)
      (Some (tick_key cfg s)) (Some (js_id s)) w"
  have rolled: "jobs_evolve w (w\<lparr>jw_next_uuid := Suc (jw_next_uuid w)\<rparr>)" by (intro jobs_evolve_same) simp_all
  from enqueue_in_transaction_evolve [OF assms] have enq: "jobs_evolve w (fst ?enq)" .
  obtain w1 r where e: "?enq = (w1, r)" by fastforce
  obtain w2 adv where a: "advance_in_transaction (js_id s) (js_version s) due_at w1 = (w2, adv)" by fastforce
  have "jobs_evolve w1 w2"
  proof (rule jobs_evolve_same)
    have "w2 = fst (advance_in_transaction (js_id s) (js_version s) due_at w1)" using a by simp
    then show "jw_jobs w2 = jw_jobs w1" "jw_next_uuid w1 \<le> jw_next_uuid w2"
      by (simp_all add: advance_in_transaction_def)
  qed
  with enq have "jobs_evolve w w2" unfolding e by (auto intro: jobs_evolve_facts(2))
  with rolled show ?thesis
    by (auto simp: tick_transaction_def Let_def e a split: sum.splits option.splits)
qed

subsection \<open>Tasks\<close>

lemma dead_letter_safe: "safe_when jobs_evolve (held job) (dead_letter job err)"
  unfolding dead_letter_def by (intro claim.bindE claim.opP safe_when_intros bury_job_evolve)

lemma handle_failure_safe: "safe_when jobs_evolve (held job) (handle_failure cfg job err)"
  unfolding handle_failure_def
  by (intro safe_when_intros claim.bindE claim.bindP claim.readP claim.opP dead_letter_safe requeue_job_evolve) simp_all

lemma call_handler_safe: "safe_when jobs_evolve (held job) (call_handler handler job)"
  unfolding call_handler_def by (rule claim.opP) (simp add: jobs_evolve_same)

lemma safe_when_outcome:
  "(\<And>r. x = HandlerReturned r \<Longrightarrow> safe_when E P (f r)) \<Longrightarrow> (\<And>m. x = HandlerNonRetryable m \<Longrightarrow> safe_when E P (g m)) \<Longrightarrow>
   (x = HandlerTimedOut \<Longrightarrow> safe_when E P h) \<Longrightarrow> (\<And>t m. x = HandlerRaised t m \<Longrightarrow> safe_when E P (k t m)) \<Longrightarrow>
   safe_when E P (case_handler_outcome f g h k x)"
  by (cases x) simp_all

lemma dispatch_safe: "safe_when jobs_evolve (held job) (dispatch cfg job)"
  unfolding dispatch_def
  by (intro safe_when_intros safe_when_outcome claim.bindE claim.bindP claim.opP dead_letter_safe call_handler_safe
      handle_failure_safe complete_job_evolve)

lemma sched_tick_evolve: "jobs_evolve w (jobs_sched_tick w)"
  by (rule jobs_evolve_same) (simp_all add: jobs_sched_tick_def)

lemma claimed_held:
  assumes "jobs_ok w" and "j \<in> set (snd (claim_due worker_id n lease locked w))"
  shows "held j (fst (claim_due worker_id n lease locked w))"
proof (rule held_now)
  let ?v = "fst (claim_due worker_id n lease locked w)"
  show v: "jobs_ok ?v" using assms(1) claim_due_evolve jobs_evolve_inv by blast
  have "j \<in> set (jw_jobs ?v)" using assms(2) by (auto simp: claim_due_def Let_def)
  then show "job_row ?v (bj_id j) = Some j"
    using v unfolding job_row_def by (intro table_get_unique) (simp_all add: jobs_ok_def)
qed

lemma poll_once_safe: "safe_when jobs_evolve jobs_ok (poll_once cfg shutdown locked)"
  unfolding poll_once_def
proof (intro safe_when_if safe_when_Ret queue.opP_bindP claim_due_evolve)
  fix w
  let ?c = "claim_due (jc_worker_id cfg) (jc_batch_size cfg) (jc_lease_seconds cfg) locked w"
  assume w: "jobs_ok w"
  have "safe jobs_evolve (gather jobs_sched_left jobs_sched_tick (map (dispatch cfg) (snd ?c))) (fst ?c)"
  proof (rule safe_gather [OF jobs_evolve_rel(2,1) sched_tick_evolve], safe)
    fix p
    assume "p \<in> set (map (dispatch cfg) (snd ?c))"
    then obtain j where "j \<in> set (snd ?c)" "p = dispatch cfg j" by auto
    then show "safe jobs_evolve p (fst ?c)"
      using safe_whenD [OF dispatch_safe] claimed_held [OF w] by blast
  qed
  then show "safe jobs_evolve (if snd ?c = [] then ok []
      else bindP (gather jobs_sched_left jobs_sched_tick (map (dispatch cfg) (snd ?c))) ok) (fst ?c)"
    by (auto intro!: safe_bindP jobs_evolve_rel)
qed

lemma process_schedule_safe:
  "0 < jc_default_max_attempts cfg \<Longrightarrow> safe_when jobs_evolve jobs_ok (process_schedule cfg now s)"
  unfolding process_schedule_def by (intro safe_when_intros queue.opP tick_transaction_evolve)

lemma tick_once_safe:
  "0 < jc_default_max_attempts cfg \<Longrightarrow> safe_when jobs_evolve jobs_ok (tick_once cfg shutdown)"
  unfolding tick_once_def
  by (intro safe_when_intros queue.bindP queue.readP queue.gather sched_tick_evolve)
    (auto intro: process_schedule_safe)

lemma enqueue_safe:
  assumes "0 < default_max" and "max_attempts = None \<or> 0 < the max_attempts"
  shows "safe_when jobs_evolve jobs_ok (enqueue default_max t p at_time max_attempts k sid)"
  unfolding enqueue_def using assms
  by (intro queue.bindP queue.readP queue.opP safe_when_intros enqueue_in_transaction_evolve)
    (auto split: option.split)

lemma reconcile_safe: "safe_when jobs_evolve jobs_ok (reconcile_schedule_status n schedule_name desired)"
proof (induction n)
  case 0
  show ?case by (simp add: safe_when_Ret)
next
  case (Suc n)
  then show ?case
    unfolding reconcile_schedule_status.simps
    by (intro safe_when_intros queue.bindP queue.readP queue.opP) (simp_all add: set_schedule_status_def jobs_evolve_same)
qed

lemma purge_jobs_safe: "safe_when jobs_evolve jobs_ok (purge_jobs fuel cutoff n i so_far)"
proof (induction fuel arbitrary: so_far)
  case 0
  show ?case by (simp add: safe_when_Ret)
next
  case (Suc fuel)
  have "jobs_evolve w (fst (delete_background_jobs_batch cutoff n i w))" for w
    by (rule jobs_evolve_deleted [where P = "job_expired cutoff i" and n = n])
      (simp_all add: delete_background_jobs_batch_def split: prod.split)
  with Suc show ?case
    unfolding purge_jobs.simps by (intro safe_when_intros queue.bindP queue.opP)
qed

lemma cleanup_jobs_safe: "safe_when jobs_evolve jobs_ok (cleanup_jobs fuel enabled retention job)"
  unfolding cleanup_jobs_def by (intro safe_when_intros queue.bindP queue.readP purge_jobs_safe)

subsection \<open>Any number of workers, schedulers and callers\<close>

datatype job_request =
    ReqEnqueue string "pyval dict" "datetime option" "int option" "string option" "uuid option"
  | ReqPoll bool "uuid list"
  | ReqTick bool
  | ReqCancelJob uuid nat
  | ReqRetryJob uuid
  | ReqCleanup nat bool int background_job
  | ReqReconcile nat string schedule_status
  | ReqTimePasses nat

fun good_request :: "job_request \<Rightarrow> bool" where
  "good_request (ReqEnqueue t p due max_attempts k sid) = (case max_attempts of None \<Rightarrow> True | Some m \<Rightarrow> 0 < m)"
| "good_request _ = True"

definition finished :: "(jobs_world, 'a) prog \<Rightarrow> (jobs_world, unit) prog" where
  "finished p = bindP p (\<lambda>_. Ret ())"

fun serve_job :: "worker_config \<Rightarrow> job_request \<Rightarrow> (jobs_world, unit) prog" where
  "serve_job cfg (ReqEnqueue t p due max_attempts k sid) =
     finished (enqueue (jc_default_max_attempts cfg) t p due max_attempts k sid)"
| "serve_job cfg (ReqPoll shutdown locked) = finished (poll_once cfg shutdown locked)"
| "serve_job cfg (ReqTick shutdown) = finished (tick_once cfg shutdown)"
| "serve_job cfg (ReqCancelJob i v) = finished (opP (cancel_job i v))"
| "serve_job cfg (ReqRetryJob i) = finished (opP (retry_dead_letter i))"
| "serve_job cfg (ReqCleanup fuel enabled retention job) = finished (cleanup_jobs fuel enabled retention job)"
| "serve_job cfg (ReqReconcile n schedule_name desired) = finished (reconcile_schedule_status n schedule_name desired)"
| "serve_job cfg (ReqTimePasses d) = finished (opP (\<lambda>w. (w\<lparr>jw_now := jw_now w + int d\<rparr>, ())))"

lemma finished_safe: "safe_when jobs_evolve jobs_ok p \<Longrightarrow> safe_when jobs_evolve jobs_ok (finished p)"
  unfolding finished_def by (intro queue.bindP safe_when_Ret)

lemma serve_job_safe:
  assumes "0 < jc_default_max_attempts cfg" and "good_request req"
  shows "safe_when jobs_evolve jobs_ok (serve_job cfg req)"
  using assms
  by (cases req)
    (auto intro!: finished_safe enqueue_safe poll_once_safe tick_once_safe cleanup_jobs_safe reconcile_safe
      queue.opP cancel_job_evolve retry_dead_letter_evolve jobs_evolve_same split: option.splits)

lemma jobs_pool:
  assumes "pool_step\<^sup>*\<^sup>* (w, map (serve_job cfg) reqs) (w', ps)" and "jobs_ok w"
    and "0 < jc_default_max_attempts cfg" and "\<forall>req\<in>set reqs. good_request req"
  shows "jobs_evolve w w'"
proof (rule queue.pool [OF assms(1,2)])
  fix p
  assume "p \<in> set (map (serve_job cfg) reqs)"
  then show "safe_when jobs_evolve jobs_ok p" using assms(3,4) by (auto intro: serve_job_safe)
qed

end
