(* ===== verification/Job_Correct.thy ===== *)
theory Job_Correct
  imports Job_Safety "HOL-Library.Multiset"
begin

section \<open>What the operations of the job queue do\<close>

text \<open>
  Claims take the earliest due jobs; the scheduler's next time lies after now on the schedule's grid; a
  tick is done once; the retention loop deletes exactly the rows that qualify; a dispatch ends in the
  status its handler's outcome calls for.
\<close>

subsection \<open>Claims\<close>

lemma filter_map_unchanged:
  assumes "\<And>x. x \<in> set xs \<Longrightarrow> f x = x \<or> (\<not> P x \<and> \<not> P (f x))"
  shows "filter P (map f xs) = filter P xs"
  using assms
proof (induction xs)
  case (Cons x xs)
  from Cons.prems [of x] have "(f x = x) \<or> (\<not> P x \<and> \<not> P (f x))" by simp
  moreover have "filter P (map f xs) = filter P xs" using Cons by simp
  ultimately show ?case by (elim disjE) simp_all
qed simp

lemma buried_not_claimable: "\<not> claimable now lease (out_of_attempts now j)"
  by (simp add: claimable_def lease_expired_def out_of_attempts_def)

lemma jobs_bury: "jw_jobs (bury_expired lease w) = map (\<lambda>j.
     if lease_expired (jw_now w) lease j \<and> bj_max_attempts j \<le> bj_attempt_count j
     then out_of_attempts (jw_now w) j else j) (jw_jobs w)"
  and now_bury: "jw_now (bury_expired lease w) = jw_now w"
  by (simp_all add: bury_expired_def)

lemma picked_ids_bury: "picked_ids n lease locked (bury_expired lease w) = picked_ids n lease locked w"
proof -
  have "filter (\<lambda>j. claimable (jw_now w) lease j \<and> bj_id j \<notin> set locked) (jw_jobs (bury_expired lease w)) =
      filter (\<lambda>j. claimable (jw_now w) lease j \<and> bj_id j \<notin> set locked) (jw_jobs w)"
    unfolding jobs_bury
    by (rule filter_map_unchanged) (auto simp: buried_not_claimable, auto simp: claimable_def lease_expired_def)
  then show ?thesis by (simp add: picked_ids_def now_bury)
qed

lemma claim_due_snd:
  assumes "jobs_ok w"
  shows "snd (claim_due worker_id n lease locked w) =
    map (claimed_by worker_id (jw_now w)) (filter (\<lambda>j. bj_id j \<in> set (picked_ids n lease locked w)) (jw_jobs w))"
proof -
  let ?ids = "picked_ids n lease locked w"
  let ?b = "\<lambda>j. if lease_expired (jw_now w) lease j \<and> bj_max_attempts j \<le> bj_attempt_count j
     then out_of_attempts (jw_now w) j else j"
  have same: "?b j = j" if "j \<in> set (jw_jobs w)" "bj_id j \<in> set ?ids" for j
    using picked_claimable [OF assms that] by (auto simp: claimable_def lease_expired_def)
  have id: "bj_id (?b j) = bj_id j" for j by (simp add: out_of_attempts_def)
  have cl: "bj_id (claimed_by worker_id now j) = bj_id j" for now j by (simp add: claimed_by_def)
  have "filter (\<lambda>j. bj_id j \<in> set ?ids) (map (\<lambda>j. if bj_id j \<in> set ?ids then claimed_by worker_id (jw_now w) j else j) (map ?b xs)) =
      map (claimed_by worker_id (jw_now w)) (filter (\<lambda>j. bj_id j \<in> set ?ids) xs)"
    if "set xs \<subseteq> set (jw_jobs w)" for xs
    using that by (induction xs) (auto simp: same id cl)
  from this [OF subset_refl] show ?thesis
    by (simp only: claim_due_def Let_def picked_ids_bury snd_conv claim_ids_def jobs_bury now_bury) simp
qed

lemma sorted_take_le:
  assumes "sorted (map f xs)" and "x \<in> set (take n xs)" and "y \<in> set xs" and "y \<notin> set (take n xs)"
  shows "f x \<le> f y"
proof -
  have "y \<in> set (drop n xs)" using assms(3,4) by (metis append_take_drop_id Un_iff set_append)
  moreover have "sorted (map f (take n xs) @ map f (drop n xs))"
    using assms(1) by (metis append_take_drop_id map_append)
  ultimately show ?thesis using assms(2) by (auto simp: sorted_append)
qed

lemma picked_take:
  assumes "jobs_ok w"
  shows "set (filter (\<lambda>j. bj_id j \<in> set (picked_ids n lease locked w)) (jw_jobs w)) =
      set (take n (sort_key bj_run_at
        (filter (\<lambda>j. claimable (jw_now w) lease j \<and> bj_id j \<notin> set locked) (jw_jobs w))))"
    (is "?l = set (take n ?s)")
proof -
  have "set (take n ?s) \<subseteq> set (jw_jobs w)" by (auto dest!: in_set_takeD)
  moreover have "picked_ids n lease locked w = map bj_id (take n ?s)"
    by (simp add: picked_ids_def take_map)
  moreover have "inj_on bj_id (set (jw_jobs w))"
    using assms by (simp add: jobs_ok_def distinct_map)
  ultimately show ?thesis by (auto dest: inj_onD)
qed

lemma claim_due_picks:
  fixes lease :: int and locked :: "uuid list"
  assumes "jobs_ok w"
  defines "due \<equiv> {j \<in> set (jw_jobs w). claimable (jw_now w) lease j \<and> bj_id j \<notin> set locked}"
  obtains picked where "snd (claim_due worker_id n lease locked w) = map (claimed_by worker_id (jw_now w)) picked"
    and "distinct picked" and "set picked \<subseteq> due" and "length picked \<le> n"
    and "\<And>j p. j \<in> due \<Longrightarrow> j \<notin> set picked \<Longrightarrow> p \<in> set picked \<Longrightarrow> bj_run_at p \<le> bj_run_at j"
    and "\<And>j. j \<in> due \<Longrightarrow> j \<notin> set picked \<Longrightarrow> length picked = n"
proof -
  let ?s = "sort_key bj_run_at (filter (\<lambda>j. claimable (jw_now w) lease j \<and> bj_id j \<notin> set locked) (jw_jobs w))"
  let ?p = "filter (\<lambda>j. bj_id j \<in> set (picked_ids n lease locked w)) (jw_jobs w)"
  have set_p: "set ?p = set (take n ?s)" by (rule picked_take [OF assms(1)])
  have s: "set ?s = due" by (auto simp: due_def)
  have "distinct (jw_jobs w)" using assms(1) by (simp add: jobs_ok_def distinct_map)
  then have d: "distinct ?p" "distinct (take n ?s)" by simp_all
  then have len: "length ?p = length (take n ?s)" using set_p by (metis distinct_card)
  show ?thesis
  proof (rule that [OF claim_due_snd [OF assms(1)] d(1)])
    show "set ?p \<subseteq> due" unfolding set_p using s by (auto dest: in_set_takeD)
    show "length ?p \<le> n" unfolding len by simp
    show "bj_run_at p \<le> bj_run_at j" if "j \<in> due" "j \<notin> set ?p" "p \<in> set ?p" for j p
      using that unfolding set_p s [symmetric] by (intro sorted_take_le [of bj_run_at ?s p n j]) auto
    show "length ?p = n" if "j \<in> due" "j \<notin> set ?p" for j
    proof (rule ccontr)
      assume "length ?p \<noteq> n"
      then have "take n ?s = ?s" unfolding len by simp
      with that show False unfolding set_p s [symmetric] by simp
    qed
  qed
qed

subsection \<open>The scheduler\<close>

lemma advanced_next_run:
  assumes "0 < interval"
  shows "\<exists>k\<ge>1. compute_advanced_next_run_at current interval now = Inr (current + k * seconds interval) \<and>
     now < current + k * seconds interval \<and>
     (current \<le> now \<longrightarrow> current + k * seconds interval \<le> now + seconds interval)"
proof -
  let ?q = "(now - current) div seconds interval"
  let ?k = "max 1 (?q + 1)"
  have p: "0 < seconds interval" using assms by (simp add: seconds_def)
  have eq: "compute_advanced_next_run_at current interval now = Inr (current + ?k * seconds interval)"
    using assms by (simp add: compute_advanced_next_run_at_def Let_def seconds_def mult.commute)
  have split: "now - current = ?q * seconds interval + (now - current) mod seconds interval" by simp
  have rem: "0 \<le> (now - current) mod seconds interval" "(now - current) mod seconds interval < seconds interval"
    using p by simp_all
  have "now - current < (?q + 1) * seconds interval" using split rem(2) unfolding distrib_right mult_1 by linarith
  also have "\<dots> \<le> ?k * seconds interval" using p by (intro mult_right_mono) auto
  finally have "now < current + ?k * seconds interval" by simp
  moreover have "current + ?k * seconds interval \<le> now + seconds interval" if "current \<le> now"
  proof -
    have "0 \<le> ?q" using that p by (simp add: pos_imp_zdiv_nonneg_iff)
    then have k: "?k = ?q + 1" by simp
    show ?thesis unfolding k using split rem(1) unfolding distrib_right mult_1 by linarith
  qed
  ultimately show ?thesis using eq by (intro exI [of _ ?k]) simp
qed

text \<open>A tick that finds its schedule unchanged advances it; the transaction never raises.\<close>

definition schedules_ok :: "jobs_world \<Rightarrow> bool" where
  "schedules_ok w \<longleftrightarrow> distinct (map js_id (jw_schedules w))"

lemma fetch_key_Some:
  "Some k \<in> bj_idempotency_key ` set (jw_jobs w) \<Longrightarrow>
   \<exists>j. fetch_by_idempotency_key w k = Some j \<and> j \<in> set (jw_jobs w) \<and> bj_idempotency_key j = Some k"
proof -
  assume "Some k \<in> bj_idempotency_key ` set (jw_jobs w)"
  then obtain x where "x \<in> set (jw_jobs w)" "bj_idempotency_key x = Some k" by auto
  then have "fetch_by_idempotency_key w k \<noteq> None" by (auto simp: fetch_by_idempotency_key_def find_None_iff)
  then obtain j where "fetch_by_idempotency_key w k = Some j" by blast
  then show ?thesis by (auto simp: fetch_by_idempotency_key_def dest: find_Some_iff_mem)
qed

lemma enqueue_in_transaction_key:
  assumes "jobs_ok w" and "sid \<in> js_id ` set (jw_schedules w)"
    and "enqueue_in_transaction t p due m (Some k) (Some sid) w = (v, r)"
  shows "\<exists>j. r = Inr (j, Some k \<notin> bj_idempotency_key ` set (jw_jobs w)) \<and> bj_idempotency_key j = Some k \<and>
    v = w\<lparr>jw_next_uuid := Suc (jw_next_uuid w),
      jw_jobs := jw_jobs w @ (if Some k \<in> bj_idempotency_key ` set (jw_jobs w) then [] else [j])\<rparr>"
proof -
  have id: "jw_next_uuid w \<notin> bj_id ` set (jw_jobs w)" using assms(1) by (auto simp: jobs_ok_def)
  show ?thesis
  proof (cases "Some k \<in> bj_idempotency_key ` set (jw_jobs w)")
    case True
    then obtain j where j: "fetch_by_idempotency_key (w\<lparr>jw_next_uuid := Suc (jw_next_uuid w)\<rparr>) k = Some j"
        "bj_idempotency_key j = Some k"
      using fetch_key_Some [of k "w\<lparr>jw_next_uuid := Suc (jw_next_uuid w)\<rparr>"] by auto
    have "insert_job (new_job (jw_next_uuid w) (jw_now w) t p due m (Some k) (Some sid))
        (w\<lparr>jw_next_uuid := Suc (jw_next_uuid w)\<rparr>) =
        (w\<lparr>jw_next_uuid := Suc (jw_next_uuid w)\<rparr>, Inl (JobIntegrity UqIdempotencyKey))"
      using True id by (simp add: insert_job_def new_job_def)
    then show ?thesis
      using assms(3) True j by (auto simp: enqueue_in_transaction_def Let_def is_idempotency_key_violation_def)
  next
    case False
    have "insert_job (new_job (jw_next_uuid w) (jw_now w) t p due m (Some k) (Some sid))
        (w\<lparr>jw_next_uuid := Suc (jw_next_uuid w)\<rparr>) =
        (w\<lparr>jw_next_uuid := Suc (jw_next_uuid w),
           jw_jobs := jw_jobs w @ [new_job (jw_next_uuid w) (jw_now w) t p due m (Some k) (Some sid)]\<rparr>,
         Inr (new_job (jw_next_uuid w) (jw_now w) t p due m (Some k) (Some sid)))"
      using False id assms(2) by (auto simp: insert_job_def new_job_def)
    then show ?thesis
      using assms(3) False by (auto simp: enqueue_in_transaction_def Let_def new_job_def)
  qed
qed

lemma advance_hit:
  assumes "schedules_ok w" and "schedule_row w (js_id s) = Some s"
  shows "advance_in_transaction (js_id s) (js_version s) due w =
    (w\<lparr>jw_schedules := table_update js_id (js_id s) (\<lambda>x. js_version x = js_version s)
        (\<lambda>x. x\<lparr>js_next_run_at := due, js_updated_at := jw_now w, js_version := js_version x + 1\<rparr>) (jw_schedules w)\<rparr>,
     Some (s\<lparr>js_next_run_at := due, js_updated_at := jw_now w, js_version := js_version s + 1\<rparr>))"
proof -
  from assms(2) have s: "s \<in> set (jw_schedules w)"
    unfolding schedule_row_def by (auto dest: table_get_Some)
  have "find (\<lambda>x. js_id x = js_id s \<and> js_version x = js_version s) (jw_schedules w) = Some s"
  proof (cases "find (\<lambda>x. js_id x = js_id s \<and> js_version x = js_version s) (jw_schedules w)")
    case None
    with s show ?thesis by (auto simp: find_None_iff)
  next
    case (Some x)
    then have "x \<in> set (jw_schedules w)" "js_id x = js_id s" by (auto dest: find_Some_iff_mem)
    with s assms(1) have "x = s" by (auto simp: schedules_ok_def distinct_map inj_on_def)
    with Some show ?thesis by simp
  qed
  then show ?thesis by (simp add: advance_in_transaction_def update_schedule_def Let_def)
qed

lemma advance_miss:
  assumes "\<And>x. x \<in> set (jw_schedules w) \<Longrightarrow> js_id x = i \<Longrightarrow> js_version x \<noteq> v"
  shows "snd (advance_in_transaction i v due w) = None"
  using assms by (auto simp: advance_in_transaction_def update_schedule_def Let_def find_None_iff)

lemma table_update_hits:
  "x \<in> set (table_update key k hits upd rows) \<Longrightarrow>
   (x \<in> set rows \<and> \<not> (key x = k \<and> hits x)) \<or> (\<exists>r\<in>set rows. key r = k \<and> hits r \<and> x = upd r)"
  by (auto simp: table_update_def)

subsection \<open>Retention\<close>

lemma delete_batch_spec:
  "delete_batch P n rows = (kept, deleted) \<Longrightarrow>
   filter (\<lambda>r. \<not> P r) kept = filter (\<lambda>r. \<not> P r) rows \<and>
   length (filter P rows) = length (filter P kept) + deleted \<and>
   (deleted = 0 \<longleftrightarrow> n = 0 \<or> filter P rows = []) \<and> (deleted = 0 \<longrightarrow> kept = rows)"
proof (induction P n rows arbitrary: kept deleted rule: delete_batch.induct)
  case (2 P n r rows)
  show ?case
  proof (cases "P r \<and> 0 < n")
    case True
    obtain k d where kd: "delete_batch P (n - 1) rows = (k, d)" by fastforce
    with "2.prems" True have "kept = k" "deleted = Suc d" by simp_all
    with "2.IH"(1) [OF True kd] True show ?thesis by auto
  next
    case False
    obtain k d where kd: "delete_batch P n rows = (k, d)" by fastforce
    with "2.prems" False have e: "kept = r # k" "deleted = d" by auto
    note ih = "2.IH"(2) [OF False kd]
    show ?thesis
    proof (cases "P r")
      case True
      with False have n: "n = 0" by simp
      with ih have "d = 0" by blast
      with ih have "k = rows" by blast
      then show ?thesis using n by (simp add: e \<open>d = 0\<close>)
    next
      case False
      with ih show ?thesis by (simp add: e)
    qed
  qed
qed simp

lemma filter_not_all: "filter P rows = [] \<Longrightarrow> filter (\<lambda>r. \<not> P r) rows = rows"
  by (induction rows) (auto split: if_splits)

lemma purge_jobs_exec:
  assumes "length (filter (job_expired cutoff i) (jw_jobs w)) < fuel" and "0 < n"
  shows "exec_prog (purge_jobs fuel cutoff n i so_far) w =
    (w\<lparr>jw_jobs := filter (\<lambda>j. \<not> job_expired cutoff i j) (jw_jobs w)\<rparr>,
     Inr (so_far + length (filter (job_expired cutoff i) (jw_jobs w))))"
  using assms(1)
proof (induction fuel arbitrary: w so_far)
  case 0
  then show ?case by simp
next
  case (Suc fuel)
  obtain kept deleted where d: "delete_batch (job_expired cutoff i) n (jw_jobs w) = (kept, deleted)" by fastforce
  note spec = delete_batch_spec [OF d]
  have b: "delete_background_jobs_batch cutoff n i w = (w\<lparr>jw_jobs := kept\<rparr>, deleted)"
    by (simp add: delete_background_jobs_batch_def d)
  show ?case
  proof (cases "deleted = 0")
    case True
    with spec assms(2) have "filter (job_expired cutoff i) (jw_jobs w) = []" "kept = jw_jobs w" by auto
    with True show ?thesis by (simp add: exec_bindP b filter_not_all)
  next
    case False
    with spec Suc.prems have "length (filter (job_expired cutoff i) kept) < fuel" by simp
    with Suc.IH [of "w\<lparr>jw_jobs := kept\<rparr>" "so_far + deleted"] False spec
    show ?thesis by (simp add: exec_bindP b)
  qed
qed

subsection \<open>Dispatch\<close>

lemma update_with_version_hit:
  assumes "jobs_ok w" and "job_row w (bj_id job) = Some job" and "bj_status job = JobRunning"
    and "\<And>j. bj_id (f j) = bj_id j"
  shows "\<exists>v. update_with_version (bj_id job) (bj_version job) f w =
      (v, Inr ((f job)\<lparr>bj_version := bj_version job + 1\<rparr>)) \<and>
    job_row v (bj_id job) = Some ((f job)\<lparr>bj_version := bj_version job + 1\<rparr>)"
proof -
  let ?hits = "\<lambda>j. bj_version j = bj_version job \<and> bj_status j = JobRunning"
  let ?upd = "\<lambda>j. (f j)\<lparr>bj_version := bj_version j + 1\<rparr>"
  have job: "job \<in> set (jw_jobs w)" using assms(2) by (auto dest: job_row_mem)
  have "find (\<lambda>j. bj_id j = bj_id job \<and> ?hits j) (jw_jobs w) = Some job"
  proof (cases "find (\<lambda>j. bj_id j = bj_id job \<and> ?hits j) (jw_jobs w)")
    case None
    with job assms(3) show ?thesis by (auto simp: find_None_iff)
  next
    case (Some j)
    then have "j \<in> set (jw_jobs w)" "bj_id j = bj_id job" by (auto dest: find_Some_iff_mem)
    with job assms(1) have "j = job" by (auto simp: jobs_ok_def distinct_map inj_on_def)
    with Some show ?thesis by simp
  qed
  moreover have "table_get bj_id (table_update bj_id (bj_id job) ?hits ?upd (jw_jobs w)) (bj_id job) = Some (?upd job)"
    using assms(2,3) by (subst table_get_update) (simp_all add: assms(4) job_row_def)
  ultimately show ?thesis by (simp add: update_with_version_def job_row_def)
qed

lemma complete_job_hit:
  assumes "jobs_ok w" and "job_row w (bj_id job) = Some job" and "bj_status job = JobRunning"
  shows "\<exists>v j. complete_job (bj_id job) r (bj_version job) w = (v, Inr j) \<and> job_row v (bj_id job) = Some j \<and>
    bj_status j = JobSucceeded \<and> bj_result j = Some (job_result_dump r) \<and> bj_version j = bj_version job + 1"
  using update_with_version_hit [OF assms, of "succeeded_with r (jw_now w)"]
  by (auto simp: complete_job_def succeeded_with_def)

lemma bury_job_hit:
  assumes "jobs_ok w" and "job_row w (bj_id job) = Some job" and "bj_status job = JobRunning"
  shows "\<exists>v j. fail_job (bj_id job) err (bj_version job) due True w = (v, Inr j) \<and> job_row v (bj_id job) = Some j \<and>
    bj_status j = JobDeadLetter \<and> bj_last_error j = Some (truncate_error err) \<and> bj_version j = bj_version job + 1"
  using update_with_version_hit [OF assms, of "buried (truncate_error err) (jw_now w)"]
  by (auto simp: fail_job_def buried_def)

lemma requeue_job_hit:
  assumes "jobs_ok w" and "job_row w (bj_id job) = Some job" and "bj_status job = JobRunning"
  shows "\<exists>v j. fail_job (bj_id job) err (bj_version job) (Some due) False w = (v, Inr j) \<and>
    job_row v (bj_id job) = Some j \<and> bj_status j = JobQueued \<and> bj_run_at j = due \<and>
    bj_last_error j = Some (truncate_error err) \<and> bj_version j = bj_version job + 1"
  using update_with_version_hit [OF assms, of "requeued_at (truncate_error err) due (jw_now w)"]
  by (auto simp: fail_job_def requeued_at_def)

lemma dead_letter_hit:
  assumes "jobs_ok w" and "job_row w (bj_id job) = Some job" and "bj_status job = JobRunning"
  shows "\<exists>v j. exec_prog (dead_letter job err) w = (v, Inr ()) \<and> job_row v (bj_id job) = Some j \<and>
    bj_status j = JobDeadLetter \<and> bj_version j = bj_version job + 1"
proof -
  obtain v j where "fail_job (bj_id job) err (bj_version job) None True w = (v, Inr j)"
    "job_row v (bj_id job) = Some j" "bj_status j = JobDeadLetter" "bj_version j = bj_version job + 1"
    using bury_job_hit [OF assms, of err None] by blast
  then show ?thesis by (auto simp: dead_letter_def exec_bindE)
qed

lemma backoff_ok:
  assumes "0 < attempt" and "0 \<le> base" and "0 \<le> cap"
  shows "\<exists>delay. compute_backoff_seconds (attempt - 1) base cap = Inr delay \<and> 0 \<le> delay \<and> delay \<le> cap"
  using assms by (simp add: compute_backoff_seconds_def)

text \<open>What becomes of a job after an attempt that failed in a way that may be retried.\<close>

definition failed_attempt :: "worker_config \<Rightarrow> datetime \<Rightarrow> background_job \<Rightarrow> background_job \<Rightarrow> bool" where
  "failed_attempt cfg now job j \<longleftrightarrow>
     (if bj_max_attempts job \<le> bj_attempt_count job then bj_status j = JobDeadLetter
      else bj_status j = JobQueued \<and>
        (\<exists>delay\<le>jc_max_delay cfg. 0 \<le> delay \<and> bj_run_at j = now + timedelta_seconds delay))"

lemma handle_failure_hit:
  assumes "jobs_ok w" and "job_row w (bj_id job) = Some job" and "bj_status job = JobRunning"
    and "0 \<le> jc_base_delay cfg" and "0 \<le> jc_max_delay cfg"
  shows "\<exists>v j. exec_prog (handle_failure cfg job err) w = (v, Inr (bj_status j)) \<and>
    job_row v (bj_id job) = Some j \<and> failed_attempt cfg (jw_now w) job j \<and> bj_version j = bj_version job + 1"
proof (cases "bj_max_attempts job \<le> bj_attempt_count job")
  case True
  obtain v j where "exec_prog (dead_letter job err) w = (v, Inr ())" "job_row v (bj_id job) = Some j"
    "bj_status j = JobDeadLetter" "bj_version j = bj_version job + 1"
    using dead_letter_hit [OF assms(1-3)] by blast
  with True show ?thesis by (auto simp: handle_failure_def exec_bindE failed_attempt_def)
next
  case False
  from assms(1,2) have "job_ok job" by (auto simp: jobs_ok_def dest!: job_row_mem)
  with assms(3) have "0 < bj_attempt_count job" by (simp add: job_ok_def)
  then obtain delay where delay: "compute_backoff_seconds (bj_attempt_count job - 1) (jc_base_delay cfg) (jc_max_delay cfg)
      = Inr delay" "0 \<le> delay" "delay \<le> jc_max_delay cfg"
    using backoff_ok assms(4,5) by blast
  obtain v j where "fail_job (bj_id job) err (bj_version job) (Some (jw_now w + timedelta_seconds delay)) False w = (v, Inr j)"
    and j: "job_row v (bj_id job) = Some j" "bj_status j = JobQueued" "bj_run_at j = jw_now w + timedelta_seconds delay"
      "bj_version j = bj_version job + 1"
    using requeue_job_hit [OF assms(1-3), of err "jw_now w + timedelta_seconds delay"] by blast
  then have "exec_prog (handle_failure cfg job err) w = (v, Inr JobQueued)"
    using False delay(1) by (simp add: handle_failure_def exec_bindE exec_bindP)
  moreover have "failed_attempt cfg (jw_now w) job j"
    using False j delay by (auto simp: failed_attempt_def)
  ultimately show ?thesis using j by auto
qed

end
