(* ===== verification/Job_Properties.thy ===== *)
theory Job_Properties
  imports Job_Correct
begin

section \<open>Properties of the job queue\<close>

text \<open>
  The statements over \<open>pool_step\<close> hold for any number of workers, schedulers, callers of the queue and
  retention jobs interleaved at every action, with the clock moving in between; \<open>good_request\<close> only asks
  that no caller enqueues a job without attempts (the settings require at least one).
\<close>

definition example_worker :: worker_config where
  "example_worker = \<lparr>jc_handlers = [(''ping'', \<lambda>n job. if n = 0 then HandlerTimedOut else HandlerReturned
       \<lparr>jr_summary = ''ok'', jr_counts = [], jr_ref_id = None\<rparr>)], jc_worker_id = ''w'', jc_batch_size = 1,
     jc_lease_seconds = 900, jc_handler_timeout = 600, jc_base_delay = 5, jc_max_delay = 300,
     jc_default_max_attempts = 3, jc_isoformat = (\<lambda>t. py_str_nat (nat t))\<rparr>"

definition plain_job :: "uuid \<Rightarrow> datetime \<Rightarrow> background_job" where
  "plain_job i due = new_job i 0 ''ping'' [] due 3 None None"

definition running_job :: "uuid \<Rightarrow> background_job" where
  "running_job i = claimed_by ''w'' 1 (plain_job i 0)"

definition plain_schedule :: job_schedule where
  "plain_schedule = \<lparr>js_id = 9, js_name = ''sweep'', js_job_type = ''ping'', js_payload = [],
     js_interval_seconds = 60, js_next_run_at = 0, js_version = 1, js_status = ScheduleEnabled,
     js_created_at = 0, js_updated_at = 0\<rparr>"

definition plain_jobs :: "background_job list \<Rightarrow> jobs_world" where
  "plain_jobs js = \<lparr>jw_jobs = js, jw_schedules = [plain_schedule], jw_now = 100, jw_next_uuid = 50, jw_calls = 0,
     jw_tick = 0, jw_sched = (\<lambda>n. True)\<rparr>"

lemmas job_example_defs = example_worker_def plain_job_def running_job_def plain_schedule_def plain_jobs_def new_job_def

lemma time_passes_step:
  "pool_step\<^sup>*\<^sup>* (w, map (serve_job cfg) [ReqTimePasses d])
     (w\<lparr>jw_now := jw_now w + int d\<rparr>, [Ret ()])"
  using pool_first_step [of "serve_job cfg (ReqTimePasses d)" "\<lambda>w. w\<lparr>jw_now := jw_now w + int d\<rparr>" "\<lambda>_. Ret ()" w]
  by (simp add: finished_def opP_def)

lemma cancel_step:
  "pool_step\<^sup>*\<^sup>* (w, map (serve_job cfg) [ReqCancelJob i v]) (fst (cancel_job i v w), [Ret ()])"
  using pool_first_step [of "serve_job cfg (ReqCancelJob i v)" "\<lambda>w. fst (cancel_job i v w)" "\<lambda>_. Ret ()" w]
  by (simp add: finished_def opP_def)

subsection \<open>Any interleaving\<close>

text \<open>C6: whatever workers, schedulers, callers and retention jobs do, and however their actions interleave,
  job ids and idempotency keys stay unique, no job is ever attempted more often than its limit allows, a
  queued job has an attempt left, a job is locked exactly while it runs and has a finish time exactly when
  it is finished.\<close>

theorem job_invariants_are_kept:
  assumes "pool_step\<^sup>*\<^sup>* (w, map (serve_job cfg) reqs) (w', ps)" and "jobs_ok w"
    and "0 < jc_default_max_attempts cfg" and "\<forall>req\<in>set reqs. good_request req"
  shows "jobs_ok w'"
  using jobs_pool [OF assms] assms(2) by (rule jobs_evolve_inv)

theorem job_invariants_are_kept_witness:
  "jobs_ok (plain_jobs [plain_job 1 0]\<lparr>jw_now := 105\<rparr>)"
proof -
  have ok: "jobs_ok (plain_jobs [plain_job 1 0])"
    by (simp add: job_example_defs jobs_ok_def used_keys_def job_ok_def is_finished_def)
  have "jobs_ok (plain_jobs [plain_job 1 0]\<lparr>jw_now := jw_now (plain_jobs [plain_job 1 0]) + int 5\<rparr>)"
    by (rule job_invariants_are_kept [OF time_passes_step ok, where cfg = example_worker])
      (simp_all add: example_worker_def)
  then show ?thesis by (simp add: plain_jobs_def)
qed

text \<open>C26: a job that succeeded or was cancelled is never claimed, retried or changed again; at most it is
  deleted.\<close>

theorem finished_jobs_are_final:
  assumes "pool_step\<^sup>*\<^sup>* (w, map (serve_job cfg) reqs) (w', ps)" and "jobs_ok w"
    and "0 < jc_default_max_attempts cfg" and "\<forall>req\<in>set reqs. good_request req"
    and "job_row w i = Some j" and "bj_status j = JobSucceeded \<or> bj_status j = JobCancelled"
  shows "job_row w' i = None \<or> job_row w' i = Some j"
proof -
  have "\<not> job_may_become j q" for q using assms(6) by (auto simp: job_may_become_def)
  with jobs_evolve_final [OF jobs_pool [OF assms(1-4)] assms(2,5)] show ?thesis .
qed

theorem finished_jobs_are_final_witness:
  "(let w = fst (cancel_job 1 1 (plain_jobs [plain_job 1 0])) in
     job_row (w\<lparr>jw_now := 105\<rparr>) 1 = None \<or> job_row (w\<lparr>jw_now := 105\<rparr>) 1 = job_row w 1)"
proof -
  let ?w = "fst (cancel_job 1 1 (plain_jobs [plain_job 1 0]))"
  have ok: "jobs_ok ?w"
    by (simp add: job_example_defs jobs_ok_def used_keys_def job_ok_def is_finished_def cancel_job_def update_job_def
        table_update_def cancelled_at_def)
  have row: "job_row ?w 1 = Some (cancelled_at 100 (plain_job 1 0))"
    by (simp add: job_example_defs cancel_job_def update_job_def table_update_def job_row_def table_get_def cancelled_at_def)
  have "job_row (?w\<lparr>jw_now := jw_now ?w + int 5\<rparr>) 1 = None \<or>
      job_row (?w\<lparr>jw_now := jw_now ?w + int 5\<rparr>) 1 = Some (cancelled_at 100 (plain_job 1 0))"
    by (rule finished_jobs_are_final [OF time_passes_step ok _ _ row, where cfg = example_worker])
      (simp_all add: example_worker_def cancelled_at_def)
  moreover have "jw_now ?w = 100" by (simp add: plain_jobs_def cancel_job_def update_job_def)
  ultimately show ?thesis using row by (simp add: Let_def)
qed

text \<open>C13: a worker whose claim was lost (the row it claimed has changed or is gone, for instance because
  its lease ran out and another worker took the job) can write no outcome: completing and failing with the
  version of the claim raise \<open>JobConcurrencyError\<close> and change nothing.\<close>

theorem lost_claim_writes_nothing:
  assumes "pool_step\<^sup>*\<^sup>* (w, map (serve_job cfg) reqs) (w', ps)" and "jobs_ok w"
    and "0 < jc_default_max_attempts cfg" and "\<forall>req\<in>set reqs. good_request req"
    and "job_row w i = Some job" and "job_row w' i \<noteq> Some job"
  shows "complete_job i r (bj_version job) w' = (w', Inl (JobConcurrency i (bj_version job))) \<and>
    fail_job i err (bj_version job) due True w' = (w', Inl (JobConcurrency i (bj_version job))) \<and>
    fail_job i err (bj_version job) (Some t) False w' = (w', Inl (JobConcurrency i (bj_version job)))"
proof -
  from assms(5) have id: "bj_id job = i" by (auto dest: job_row_mem)
  have w': "jobs_ok w'" using jobs_pool [OF assms(1-4)] assms(2) by (rule jobs_evolve_inv)
  have held: "held job w'" using assms(2,5) jobs_pool [OF assms(1-4)] by (auto simp: held_def id)
  have "\<not> (bj_id q = i \<and> bj_version q = bj_version job \<and> bj_status q = JobRunning)" if "q \<in> set (jw_jobs w')" for q
  proof
    assume q: "bj_id q = i \<and> bj_version q = bj_version job \<and> bj_status q = JobRunning"
    with held_same [OF held that] have "q = job" by (simp add: id)
    moreover have "table_get bj_id (jw_jobs w') (bj_id q) = Some q"
      using w' that by (intro table_get_unique) (simp_all add: jobs_ok_def)
    ultimately show False using assms(6) q by (simp add: job_row_def)
  qed
  then have "update_with_version i (bj_version job) f w' = (w', Inl (JobConcurrency i (bj_version job)))" for f
    by (simp add: update_with_version_def find_None_iff [THEN iffD2])
  then show ?thesis by (simp add: complete_job_def fail_job_def)
qed

theorem lost_claim_writes_nothing_witness:
  "(let w = fst (cancel_job 1 1 (plain_jobs [plain_job 1 0])) in
     complete_job 1 \<lparr>jr_summary = [], jr_counts = [], jr_ref_id = None\<rparr> 1 w = (w, Inl (JobConcurrency 1 1)))"
proof -
  have ok: "jobs_ok (plain_jobs [plain_job 1 0])"
    by (simp add: job_example_defs jobs_ok_def used_keys_def job_ok_def is_finished_def)
  have row: "job_row (plain_jobs [plain_job 1 0]) 1 = Some (plain_job 1 0)"
    by (simp add: job_example_defs job_row_def table_get_def)
  have changed: "job_row (fst (cancel_job 1 1 (plain_jobs [plain_job 1 0]))) 1 \<noteq> Some (plain_job 1 0)"
    by (simp add: job_example_defs cancel_job_def update_job_def table_update_def job_row_def table_get_def cancelled_at_def)
  from lost_claim_writes_nothing [OF cancel_step ok _ _ row changed, where cfg = example_worker]
  show ?thesis by (simp add: example_worker_def plain_job_def new_job_def Let_def)
qed

subsection \<open>Claims, dispatch, ticks and retention\<close>

text \<open>C25: a claim takes at most a batch of jobs, each of them due or running past its lease with an attempt
  left and not locked by another transaction, marks them as running for this worker with one more attempt,
  and passes over a job that could be claimed only when the batch is full of jobs that were due no later.\<close>

theorem claim_takes_earliest_due_jobs:
  assumes "jobs_ok w"
  shows "\<exists>picked. snd (claim_due worker_id n lease locked w) = map (claimed_by worker_id (jw_now w)) picked \<and>
    distinct picked \<and> length picked \<le> n \<and>
    set picked \<subseteq> {j \<in> set (jw_jobs w). claimable (jw_now w) lease j \<and> bj_id j \<notin> set locked} \<and>
    (\<forall>j\<in>set (jw_jobs w). claimable (jw_now w) lease j \<and> bj_id j \<notin> set locked \<and> j \<notin> set picked \<longrightarrow>
       length picked = n \<and> (\<forall>p\<in>set picked. bj_run_at p \<le> bj_run_at j))"
  by (rule claim_due_picks [OF assms, of worker_id n lease locked]) (intro exI conjI, assumption+, blast)

theorem claim_takes_earliest_due_jobs_witness:
  "\<exists>picked. snd (claim_due ''w'' 1 900 [] (plain_jobs [plain_job 1 7, plain_job 2 3])) =
     map (claimed_by ''w'' 100) picked \<and> length picked \<le> 1"
proof -
  have ok: "jobs_ok (plain_jobs [plain_job 1 7, plain_job 2 3])"
    by (simp add: job_example_defs jobs_ok_def used_keys_def job_ok_def is_finished_def)
  have "jw_now (plain_jobs [plain_job 1 7, plain_job 2 3]) = 100" by (simp add: plain_jobs_def)
  with claim_takes_earliest_due_jobs [OF ok, of "''w''" 1 900 "[]"] show ?thesis by auto
qed

text \<open>C17: a worker that dispatches a job it has claimed leaves it succeeded when the handler returned, in the
  dead letters when no handler is registered, when the handler refused to be retried or when the attempts
  are used up, and otherwise queued again after a delay between 0 and the configured maximum.\<close>

theorem dispatch_follows_outcome:
  assumes "jobs_ok w" and "job_row w (bj_id job) = Some job" and "bj_status job = JobRunning"
    and "0 \<le> jc_base_delay cfg" and "0 \<le> jc_max_delay cfg"
  shows "\<exists>v j. exec_prog (dispatch cfg job) w = (v, Inr (bj_status j)) \<and> job_row v (bj_id job) = Some j \<and>
    bj_version j = bj_version job + 1 \<and>
    (case dict_get (jc_handlers cfg) (bj_job_type job) of
       None \<Rightarrow> bj_status j = JobDeadLetter
     | Some handler \<Rightarrow>
         (case handler (jw_calls w) job of
            HandlerReturned r \<Rightarrow> bj_status j = JobSucceeded \<and> bj_result j = Some (job_result_dump r)
          | HandlerNonRetryable msg \<Rightarrow> bj_status j = JobDeadLetter
          | HandlerTimedOut \<Rightarrow> failed_attempt cfg (jw_now w) job j
          | HandlerRaised type_name msg \<Rightarrow> failed_attempt cfg (jw_now w) job j))"
proof (cases "dict_get (jc_handlers cfg) (bj_job_type job)")
  case None
  obtain exc where exc: "resolve_handler (jc_handlers cfg) (bj_job_type job) = Inl exc"
    using None by (simp add: resolve_handler_def)
  obtain v j where "exec_prog (dead_letter job (case exc of JobHandlerNotFound msg \<Rightarrow> msg | _ \<Rightarrow> [])) w = (v, Inr ())"
    "job_row v (bj_id job) = Some j" "bj_status j = JobDeadLetter" "bj_version j = bj_version job + 1"
    using dead_letter_hit [OF assms(1-3)] by blast
  then show ?thesis using None exc by (auto simp: dispatch_def exec_bindE)
next
  case (Some handler)
  let ?w = "w\<lparr>jw_calls := Suc (jw_calls w)\<rparr>"
  have ok: "jobs_ok ?w" "job_row ?w (bj_id job) = Some job"
    using assms(1,2) by (simp_all add: jobs_ok_def job_row_def)
  have call: "exec_prog (bindP (call_handler handler job) g) w = exec_prog (g (handler (jw_calls w) job)) ?w" for g
    by (simp add: call_handler_def exec_bindP)
  show ?thesis
  proof (cases "handler (jw_calls w) job")
    case (HandlerReturned r)
    with complete_job_hit [OF ok assms(3), of r] Some show ?thesis
      by (auto simp: dispatch_def resolve_handler_def call exec_bindE)
  next
    case (HandlerNonRetryable msg)
    with dead_letter_hit [OF ok assms(3), of msg] Some show ?thesis
      by (auto simp: dispatch_def resolve_handler_def call exec_bindE)
  next
    case HandlerTimedOut
    with handle_failure_hit [OF ok assms(3-5)] Some show ?thesis
      by (fastforce simp: dispatch_def resolve_handler_def call)
  next
    case (HandlerRaised type_name msg)
    with handle_failure_hit [OF ok assms(3-5)] Some show ?thesis
      by (fastforce simp: dispatch_def resolve_handler_def call)
  qed
qed

theorem dispatch_follows_outcome_witness:
  "\<exists>v j. exec_prog (dispatch example_worker (running_job 1)) (plain_jobs [running_job 1]) = (v, Inr (bj_status j)) \<and>
     failed_attempt example_worker 100 (running_job 1) j"
proof -
  have ok: "jobs_ok (plain_jobs [running_job 1])"
    by (simp add: job_example_defs jobs_ok_def used_keys_def job_ok_def is_finished_def claimed_by_def)
  have row: "job_row (plain_jobs [running_job 1]) (bj_id (running_job 1)) = Some (running_job 1)"
    by (simp add: job_example_defs job_row_def table_get_def claimed_by_def)
  have "bj_status (running_job 1) = JobRunning" "0 \<le> jc_base_delay example_worker" "0 \<le> jc_max_delay example_worker"
    "jw_now (plain_jobs [running_job 1]) = 100" "jw_calls (plain_jobs [running_job 1]) = 0"
    "bj_job_type (running_job 1) = ''ping''"
    by (simp_all add: job_example_defs claimed_by_def)
  moreover have "dict_get (jc_handlers example_worker) ''ping'' = Some (\<lambda>n job. if n = 0 then HandlerTimedOut
      else HandlerReturned \<lparr>jr_summary = ''ok'', jr_counts = [], jr_ref_id = None\<rparr>)"
    by (simp add: example_worker_def dict_get_def)
  ultimately show ?thesis using dispatch_follows_outcome [OF ok row, of example_worker] by auto
qed

text \<open>The next run of a schedule lies strictly after now, a whole number of intervals (at least one) after
  the last one, and for a schedule that is due at most one interval after now.\<close>

theorem next_run_is_next_grid_point:
  assumes "0 < interval"
  shows "\<exists>k\<ge>1. compute_advanced_next_run_at current interval now = Inr (current + k * seconds interval) \<and>
     now < current + k * seconds interval \<and>
     (current \<le> now \<longrightarrow> current + k * seconds interval \<le> now + seconds interval)"
  using assms by (rule advanced_next_run)

theorem next_run_is_next_grid_point_witness:
  "\<exists>k\<ge>1. compute_advanced_next_run_at 0 60 250000000 = Inr (k * 60000000) \<and> 250000000 < k * 60000000 \<and>
     k * 60000000 \<le> (310000000 :: int)"
  using next_run_is_next_grid_point [of 60 0 250000000] by (simp add: seconds_def)

text \<open>Two schedulers that read the same due schedule fire it once: the first tick enqueues the job of the
  tick (unless it is there already) and advances the schedule, the second leaves jobs and schedules as they are.\<close>

theorem tick_fires_once:
  assumes "jobs_ok w" and "schedules_ok w" and "schedule_row w (js_id s) = Some s"
    and "tick_transaction cfg s now next_run_at w = (w1, r)"
    and "tick_transaction cfg s now' next_run_at' w1 = (w2, r')" and "0 < jc_default_max_attempts cfg"
  shows "r = Inr (Some (tick_key cfg s) \<notin> bj_idempotency_key ` set (jw_jobs w)) \<and>
    Some (tick_key cfg s) \<in> bj_idempotency_key ` set (jw_jobs w1) \<and>
    schedule_row w1 (js_id s) = Some (s\<lparr>js_next_run_at := next_run_at, js_updated_at := jw_now w, js_version := js_version s + 1\<rparr>) \<and>
    r' = Inr False \<and> jw_jobs w2 = jw_jobs w1 \<and> jw_schedules w2 = jw_schedules w1"
proof -
  let ?key = "tick_key cfg s"
  let ?upd = "\<lambda>x. x\<lparr>js_next_run_at := next_run_at, js_updated_at := jw_now w, js_version := js_version x + 1\<rparr>"
  let ?hits = "\<lambda>x. js_version x = js_version s"
  from assms(3) have s: "s \<in> set (jw_schedules w)" unfolding schedule_row_def by (auto dest: table_get_Some)
  then have sid: "js_id s \<in> js_id ` set (jw_schedules w)" by simp
  obtain v e where v: "enqueue_in_transaction (js_job_type s) (tick_payload s) now (jc_default_max_attempts cfg)
      (Some ?key) (Some (js_id s)) w = (v, e)" by fastforce
  from enqueue_in_transaction_key [OF assms(1) sid v] obtain j where
    e: "e = Inr (j, Some ?key \<notin> bj_idempotency_key ` set (jw_jobs w))" and key: "bj_idempotency_key j = Some ?key"
    and v': "v = w\<lparr>jw_next_uuid := Suc (jw_next_uuid w),
      jw_jobs := jw_jobs w @ (if Some ?key \<in> bj_idempotency_key ` set (jw_jobs w) then [] else [j])\<rparr>" by blast
  have "schedules_ok v" "schedule_row v (js_id s) = Some s" using assms(2,3) by (simp_all add: v' schedules_ok_def schedule_row_def)
  from advance_hit [OF this, of next_run_at] v e assms(4) have w1: "w1 = v\<lparr>jw_schedules :=
      table_update js_id (js_id s) ?hits ?upd (jw_schedules w)\<rparr>"
    and r: "r = Inr (Some ?key \<notin> bj_idempotency_key ` set (jw_jobs w))"
    by (simp_all add: tick_transaction_def v')
  have in1: "Some ?key \<in> bj_idempotency_key ` set (jw_jobs w1)" using key by (force simp: w1 v')
  have row1: "schedule_row w1 (js_id s) = Some (?upd s)"
    using assms(3) by (simp add: w1 schedule_row_def table_get_update)
  have sid1: "js_id s \<in> js_id ` set (jw_schedules w1)"
    using row1 table_get_None [of js_id "jw_schedules w1" "js_id s"] by (auto simp: schedule_row_def)
  have miss: "js_version x \<noteq> js_version s" if "x \<in> set (jw_schedules w1)" "js_id x = js_id s" for x
    using that by (auto simp: w1 v' dest!: table_update_hits)
  have "jobs_ok w1"
    using tick_transaction_evolve [OF assms(6), of w s now next_run_at] jobs_evolve_inv [OF _ assms(1)] assms(4) by simp
  obtain v2 e2 where enq: "enqueue_in_transaction (js_job_type s) (tick_payload s) now' (jc_default_max_attempts cfg)
      (Some ?key) (Some (js_id s)) w1 = (v2, e2)" by fastforce
  from enqueue_in_transaction_key [OF \<open>jobs_ok w1\<close> sid1 enq] in1 obtain j2 where
    v2: "e2 = Inr (j2, False)" "jw_jobs v2 = jw_jobs w1" "jw_schedules v2 = jw_schedules w1" by auto
  have "snd (advance_in_transaction (js_id s) (js_version s) next_run_at' v2) = None"
    using miss by (intro advance_miss) (simp add: v2(3))
  then obtain v3 where "advance_in_transaction (js_id s) (js_version s) next_run_at' v2 = (v3, None)"
    by (cases "advance_in_transaction (js_id s) (js_version s) next_run_at' v2") simp
  with assms(5) enq v2(1) have "r' = Inr False" "jw_jobs w2 = jw_jobs w1" "jw_schedules w2 = jw_schedules w1"
    by (auto simp: tick_transaction_def)
  with r in1 row1 show ?thesis by blast
qed

theorem tick_fires_once_witness:
  "(let (w1, r) = tick_transaction example_worker plain_schedule 100 200 (plain_jobs []);
        (w2, r') = tick_transaction example_worker plain_schedule 150 250 w1 in
     r = Inr True \<and> r' = Inr False \<and> jw_jobs w2 = jw_jobs w1)"
proof -
  let ?w = "plain_jobs []"
  obtain w1 r where 1: "tick_transaction example_worker plain_schedule 100 200 ?w = (w1, r)" by fastforce
  obtain w2 r' where 2: "tick_transaction example_worker plain_schedule 150 250 w1 = (w2, r')" by fastforce
  have "jobs_ok ?w" "schedules_ok ?w" "schedule_row ?w (js_id plain_schedule) = Some plain_schedule" "jw_jobs ?w = []"
    by (simp_all add: job_example_defs jobs_ok_def used_keys_def schedules_ok_def schedule_row_def table_get_def)
  moreover have "0 < jc_default_max_attempts example_worker" by (simp add: example_worker_def)
  ultimately show ?thesis using tick_fires_once [OF _ _ _ 1 2] by (simp add: 1 2)
qed

text \<open>C33: the retention loop over the job table ends and has deleted exactly the finished jobs older than the
  retention period, all of them, whatever the number of batches this takes; it never deletes the job on
  whose behalf it runs.\<close>

theorem retention_deletes_exactly_the_expired:
  assumes "length (jw_jobs w) < fuel"
  shows "exec_prog (cleanup_jobs fuel True retention_days job) w =
    (w\<lparr>jw_jobs := filter (\<lambda>j. \<not> job_expired (jw_now w - days retention_days) (bj_id job) j) (jw_jobs w)\<rparr>,
     Inr (length (filter (job_expired (jw_now w - days retention_days) (bj_id job)) (jw_jobs w))))"
proof -
  have "length (filter (job_expired (jw_now w - days retention_days) (bj_id job)) (jw_jobs w)) < fuel"
    using assms length_filter_le le_less_trans by blast
  then show ?thesis
    by (simp add: cleanup_jobs_def exec_bindP purge_jobs_exec delete_batch_size_def)
qed

theorem retention_deletes_exactly_the_expired_witness:
  "snd (exec_prog (cleanup_jobs 3 True 0 (plain_job 1 0)) (plain_jobs [cancelled_at 5 (plain_job 2 0), plain_job 1 0])) = Inr 1"
proof -
  let ?w = "plain_jobs [cancelled_at 5 (plain_job 2 0), plain_job 1 0]"
  have "length (jw_jobs ?w) < 3" by (simp add: plain_jobs_def)
  from retention_deletes_exactly_the_expired [OF this, of 0 "plain_job 1 0"]
  show ?thesis by (simp add: job_example_defs cancelled_at_def job_expired_def days_def seconds_def)
qed

end
