(* ===== verification/Guardrails.thy ===== *)
theory Guardrails
  imports Rules
begin

section \<open>Guardrails\<close>

text \<open>
  \<open>ai/security/guardrails/models.py\<close> and \<open>engine.py\<close>: rules over a piece of content, of which the strongest
  matching one decides, the earliest by priority among equally strong. Actions are ordered by their
  strength. The redaction of the evidence snippet is a parameter; telemetry has no effect.
\<close>

datatype guardrail_action = GuardAllow | GuardFlag | GuardBlock

fun action_strength :: "guardrail_action \<Rightarrow> nat" where
  "action_strength GuardAllow = 0"
| "action_strength GuardFlag = 1"
| "action_strength GuardBlock = 2"

lemma action_strength_inject: "action_strength a = action_strength b \<longleftrightarrow> a = b"
  by (cases a; cases b) simp_all

instantiation guardrail_action :: linorder
begin

definition less_eq_guardrail_action :: "guardrail_action \<Rightarrow> guardrail_action \<Rightarrow> bool" where
  "a \<le> b \<longleftrightarrow> action_strength a \<le> action_strength b"

definition less_guardrail_action :: "guardrail_action \<Rightarrow> guardrail_action \<Rightarrow> bool" where
  "a < b \<longleftrightarrow> action_strength a < action_strength b"

instance
  by standard (auto simp: less_eq_guardrail_action_def less_guardrail_action_def action_strength_inject)

end

record guardrail_rule =
  gr_id :: string
  gr_version :: nat
  gr_priority :: int
  gr_condition :: rule_condition
  gr_action :: guardrail_action

record guardrail_context =
  gx_content_text :: string
  gx_source :: string
  gx_tool_name :: "string option"
  gx_document_id :: "string option"
  gx_mcp_server :: "string option"
  gx_caller_role :: "string option"

record guardrail_verdict =
  gv_action :: guardrail_action
  gv_matched_rule_id :: "string option"
  gv_matched_rule_version :: "nat option"
  gv_evidence_snippet :: "string option"

text \<open>Attributes of the model object other than its fields are not modelled and read as None.\<close>

definition guardrail_resolve_field :: "guardrail_context \<Rightarrow> string \<Rightarrow> pyval" where
  "guardrail_resolve_field c field =
     (if field = ''content_text'' then PStr (gx_content_text c)
      else if field = ''source'' then PStr (gx_source c)
      else if field = ''tool_name'' then opt_str (gx_tool_name c)
      else if field = ''document_id'' then opt_str (gx_document_id c)
      else if field = ''mcp_server'' then opt_str (gx_mcp_server c)
      else if field = ''caller_role'' then opt_str (gx_caller_role c)
      else PNone)"

record guardrail_engine =
  ge_rules :: "guardrail_rule list"
  ge_default_mode :: guardrail_action
  ge_search :: "string \<Rightarrow> string \<Rightarrow> nat \<Rightarrow> nat \<Rightarrow> bool"
  ge_as_text :: "pyval \<Rightarrow> string"
  ge_redact :: "string \<Rightarrow> string"

text \<open>A rule that flags takes the engine's default mode.\<close>

definition effective_action :: "guardrail_action \<Rightarrow> guardrail_rule \<Rightarrow> guardrail_action" where
  "effective_action default_mode rule = (if gr_action rule = GuardFlag then default_mode else gr_action rule)"

fun select_rule ::
    "(guardrail_rule \<Rightarrow> bool) \<Rightarrow> guardrail_action \<Rightarrow> (guardrail_rule \<times> guardrail_action) option \<Rightarrow>
     guardrail_rule list \<Rightarrow> (guardrail_rule \<times> guardrail_action) option" where
  "select_rule matches default_mode selected [] = selected"
| "select_rule matches default_mode selected (rule # rules) =
     (if \<not> matches rule then select_rule matches default_mode selected rules
      else (let action = effective_action default_mode rule in
            select_rule matches default_mode
              (case selected of
                 None \<Rightarrow> Some (rule, action)
               | Some (r, a) \<Rightarrow> if action_strength action > action_strength a then Some (rule, action) else selected)
              rules))"

definition guardrail_matches :: "guardrail_engine \<Rightarrow> guardrail_context \<Rightarrow> guardrail_rule \<Rightarrow> bool" where
  "guardrail_matches engine c rule \<longleftrightarrow>
     rule_evaluate (ge_search engine) (ge_as_text engine) (guardrail_resolve_field c) (gr_condition rule)"

definition guardrail_evaluate :: "guardrail_engine \<Rightarrow> guardrail_context \<Rightarrow> guardrail_verdict" where
  "guardrail_evaluate engine c =
     (case select_rule (guardrail_matches engine c) (ge_default_mode engine) None (sort_key gr_priority (ge_rules engine)) of
        None \<Rightarrow> \<lparr>gv_action = GuardAllow, gv_matched_rule_id = None, gv_matched_rule_version = None,
                 gv_evidence_snippet = None\<rparr>
      | Some (rule, action) \<Rightarrow>
          \<lparr>gv_action = action, gv_matched_rule_id = Some (gr_id rule), gv_matched_rule_version = Some (gr_version rule),
           gv_evidence_snippet = Some (ge_redact engine (take 160 (gx_content_text c)))\<rparr>)"

subsection \<open>The strongest matching rule decides\<close>

lemma select_rule_max:
  assumes "select_rule m d selected rules = Some (r, a)"
    and "\<And>q b. selected = Some (q, b) \<Longrightarrow> b = effective_action d q"
  shows "a = effective_action d r \<and> (selected = Some (r, a) \<or> (r \<in> set rules \<and> m r)) \<and>
    (\<forall>q\<in>set rules. m q \<longrightarrow> effective_action d q \<le> a) \<and> (\<forall>q b. selected = Some (q, b) \<longrightarrow> b \<le> a)"
  using assms
proof (induction m d selected rules rule: select_rule.induct)
  case (2 m d selected rule rules)
  show ?case
  proof (cases "m rule")
    case False
    then have "select_rule m d selected rules = Some (r, a)" using "2.prems"(1) by simp
    from "2.IH"(1) [OF False this "2.prems"(2)] False show ?thesis by auto
  next
    case True
    let ?act = "effective_action d rule"
    let ?sel = "case selected of None \<Rightarrow> Some (rule, ?act)
      | Some (q, b) \<Rightarrow> if action_strength ?act > action_strength b then Some (rule, ?act) else selected"
    have sel: "select_rule m d ?sel rules = Some (r, a)" using "2.prems"(1) True by (simp add: Let_def)
    have eff: "b = effective_action d q" if "?sel = Some (q, b)" for q b
      using that "2.prems"(2) by (auto split: option.splits prod.splits if_splits)
    have ih: "a = effective_action d r \<and> (?sel = Some (r, a) \<or> (r \<in> set rules \<and> m r)) \<and>
        (\<forall>q\<in>set rules. m q \<longrightarrow> effective_action d q \<le> a) \<and> (\<forall>q b. ?sel = Some (q, b) \<longrightarrow> b \<le> a)"
      using "2.IH"(2) [OF _ refl sel] True eff by blast
    show ?thesis
    proof (cases selected)
      case None
      with ih True show ?thesis by auto
    next
      case (Some p)
      obtain q b where p: "p = (q, b)" by (cases p)
      show ?thesis
      proof (cases "action_strength ?act > action_strength b")
        case True
        then have sel': "?sel = Some (rule, ?act)" by (simp add: Some p)
        with ih have "?act \<le> a" by blast
        moreover have "b \<le> ?act" using True by (simp add: less_eq_guardrail_action_def)
        ultimately show ?thesis using ih sel' \<open>m rule\<close> by (auto simp: Some p)
      next
        case False
        then have sel': "?sel = Some (q, b)" by (simp add: Some p)
        with ih have "b \<le> a" by blast
        moreover have "?act \<le> b" using False by (simp add: less_eq_guardrail_action_def)
        ultimately show ?thesis using ih sel' by (auto simp: Some p)
      qed
    qed
  qed
qed simp

lemma select_rule_None: "select_rule m d selected rules = None \<longleftrightarrow> selected = None \<and> (\<forall>q\<in>set rules. \<not> m q)"
  by (induction m d selected rules rule: select_rule.induct) (auto simp: Let_def split: option.splits)

lemma guardrail_strongest:
  "gv_action (guardrail_evaluate engine c) =
     (let matching = filter (guardrail_matches engine c) (ge_rules engine) in
      if matching = [] then GuardAllow
      else Max (set (map (effective_action (ge_default_mode engine)) matching)))"
proof (cases "filter (guardrail_matches engine c) (ge_rules engine) = []")
  case True
  then have "select_rule (guardrail_matches engine c) (ge_default_mode engine) None (sort_key gr_priority (ge_rules engine)) = None"
    by (simp add: select_rule_None filter_empty_conv)
  with True show ?thesis by (simp add: guardrail_evaluate_def)
next
  case False
  then have "select_rule (guardrail_matches engine c) (ge_default_mode engine) None (sort_key gr_priority (ge_rules engine)) \<noteq> None"
    by (auto simp: select_rule_None filter_empty_conv)
  then obtain r a where sel: "select_rule (guardrail_matches engine c) (ge_default_mode engine) None
      (sort_key gr_priority (ge_rules engine)) = Some (r, a)" by auto
  from select_rule_max [OF sel] have "r \<in> set (ge_rules engine)" "guardrail_matches engine c r"
    "a = effective_action (ge_default_mode engine) r"
    "\<forall>q\<in>set (ge_rules engine). guardrail_matches engine c q \<longrightarrow> effective_action (ge_default_mode engine) q \<le> a" by auto
  then have "Max (set (map (effective_action (ge_default_mode engine)) (filter (guardrail_matches engine c) (ge_rules engine)))) = a"
    by (intro Max_eqI) auto
  with False sel show ?thesis by (simp add: guardrail_evaluate_def)
qed

end
