(* ===== verification/Rate_Limit.thy ===== *)
theory Rate_Limit
  imports Prog Py_Value
begin

section \<open>The sliding-window rate limiter\<close>

text \<open>
  \<open>middleware/rate_limit.py\<close>: the in-memory limiter, the classification of callers and the middleware. A
  bucket is the list of admission times, oldest first (a deque). \<open>check\<close> has no suspension point once it
  holds the uncontended lock, so it is one action. Token decoding, hashing and the lookup of a role are
  parameters; times are rationals (\<open>time.monotonic\<close>). Below, the limiter is proved equivalent to one that
  keeps the whole history and counts the admissions of the last 60 seconds.
\<close>

datatype rate_error = IndexError | RoleLookupFailed

record rl_world =
  rl_events :: "string \<Rightarrow> rat list"
  rl_role_cache :: "uuid \<Rightarrow> (rat \<times> string) option"
  rl_now :: rat

definition window_seconds :: rat where
  "window_seconds = 60"

text \<open>\<open>popleft\<close> while the oldest time is outside the window.\<close>

fun drop_expired :: "rat \<Rightarrow> rat list \<Rightarrow> rat list" where
  "drop_expired window_start [] = []"
| "drop_expired window_start (t # ts) = (if t \<le> window_start then drop_expired window_start ts else t # ts)"

definition retry_after :: "rat \<Rightarrow> rat \<Rightarrow> int" where
  "retry_after now oldest = max 1 \<lceil>window_seconds - (now - oldest)\<rceil>"

text \<open>With a limit below 1 and no admission left, \<open>timestamps[0]\<close> raises.\<close>

definition check_bucket :: "rat list \<Rightarrow> int \<Rightarrow> rat \<Rightarrow> rat list \<times> (rate_error + int option)" where
  "check_bucket timestamps limit now =
     (let kept = drop_expired (now - window_seconds) timestamps in
      if limit \<le> int (length kept)
      then (kept, case kept of [] \<Rightarrow> Inl IndexError | oldest # _ \<Rightarrow> Inr (Some (retry_after now oldest)))
      else (kept @ [now], Inr None))"

definition check :: "string \<Rightarrow> int \<Rightarrow> rl_world \<Rightarrow> rl_world \<times> (rate_error + int option)" where
  "check bucket_key limit w =
     (let (ts, r) = check_bucket (rl_events w bucket_key) limit (rl_now w) in
      (w\<lparr>rl_events := (rl_events w)(bucket_key := ts)\<rparr>, r))"

definition reset_rate_limiter :: "rl_world \<Rightarrow> rl_world" where
  "reset_rate_limiter w = w\<lparr>rl_events := (\<lambda>_. []), rl_role_cache := (\<lambda>_. None)\<rparr>"

subsection \<open>Callers and the middleware\<close>

datatype caller_tier = Authenticated | Anonymous

record rate_identity =
  ri_tier :: caller_tier
  ri_bucket_key :: string
  ri_user_id :: "uuid option"

record http_request =
  hr_path :: string
  hr_authorization :: "string option"
  hr_guest_token :: "string option"
  hr_client_host :: "string option"

record rate_config =
  rc_decode_token :: "string \<Rightarrow> uuid option"
  rc_hash_token :: "string \<Rightarrow> string"
  rc_hash_ip :: "string \<Rightarrow> string"
  rc_str_uuid :: "uuid \<Rightarrow> string"
  rc_authenticated_per_minute :: int
  rc_anonymous_per_minute :: int
  rc_extensions_enabled :: bool
  rc_multipliers :: "rat dict"
  rc_cache_ttl :: rat
  rc_load_role :: "uuid \<Rightarrow> string option"

definition extract_bearer_token :: "string option \<Rightarrow> string option" where
  "extract_bearer_token header =
     (case header of
        None \<Rightarrow> None
      | Some h \<Rightarrow>
          (let scheme = takeWhile (\<lambda>c. c \<noteq> CHR '' '') h;
               token = drop 1 (dropWhile (\<lambda>c. c \<noteq> CHR '' '') h) in
           if h = [] \<or> py_lower scheme \<noteq> ''bearer'' \<or> is_blank token then None else Some (py_strip token)))"

definition anonymous_identity :: "rate_config \<Rightarrow> http_request \<Rightarrow> rate_identity" where
  "anonymous_identity cfg req =
     (case hr_guest_token req of
        Some (c # cs) \<Rightarrow>
          \<lparr>ri_tier = Anonymous, ri_bucket_key = ''guest:'' @ rc_hash_token cfg (c # cs), ri_user_id = None\<rparr>
      | _ \<Rightarrow>
          (let ip = (case hr_client_host req of Some (c # cs) \<Rightarrow> c # cs | _ \<Rightarrow> ''unknown'') in
           \<lparr>ri_tier = Anonymous, ri_bucket_key = ''ip:'' @ rc_hash_ip cfg ip, ri_user_id = None\<rparr>))"

definition resolve_rate_limit_identity :: "rate_config \<Rightarrow> http_request \<Rightarrow> rate_identity" where
  "resolve_rate_limit_identity cfg req =
     (case extract_bearer_token (hr_authorization req) of
        None \<Rightarrow> anonymous_identity cfg req
      | Some bearer \<Rightarrow>
          (case rc_decode_token cfg bearer of
             None \<Rightarrow> anonymous_identity cfg req
           | Some user_id \<Rightarrow>
               \<lparr>ri_tier = Authenticated, ri_bucket_key = ''auth:'' @ rc_str_uuid cfg user_id,
                ri_user_id = Some user_id\<rparr>))"

definition cached_role :: "rat \<Rightarrow> uuid \<Rightarrow> rl_world \<Rightarrow> string option" where
  "cached_role ttl user_id w =
     (if ttl > 0
      then (case rl_role_cache w user_id of
              Some (cached_at, role) \<Rightarrow> if rl_now w - cached_at < ttl then Some role else None
            | None \<Rightarrow> None)
      else None)"

text \<open>Double-checked: the cache is read again once the lock is held.\<close>

definition get_rate_limit_role :: "rate_config \<Rightarrow> uuid \<Rightarrow> (rl_world, rate_error + string) prog" where
  "get_rate_limit_role cfg user_id =
     bindP (readP (cached_role (rc_cache_ttl cfg) user_id)) (\<lambda>cached.
       (case cached of
          Some role \<Rightarrow> ok role
        | None \<Rightarrow>
            bindP (readP (cached_role (rc_cache_ttl cfg) user_id)) (\<lambda>cached.
              (case cached of
                 Some role \<Rightarrow> ok role
               | None \<Rightarrow>
                   (case rc_load_role cfg user_id of
                      None \<Rightarrow> raise RoleLookupFailed
                    | Some role \<Rightarrow>
                        if rc_cache_ttl cfg > 0
                        then opP (\<lambda>w. (w\<lparr>rl_role_cache := (rl_role_cache w)(user_id \<mapsto> (rl_now w, role))\<rparr>, Inr role))
                        else ok role)))))"

definition exempt_paths :: "string list" where
  "exempt_paths = [''/api/health'', ''/api/health/ready'']"

definition scaled_limit :: "rate_config \<Rightarrow> int \<Rightarrow> string \<Rightarrow> int" where
  "scaled_limit cfg limit role =
     (let multiplier = (case dict_get (rc_multipliers cfg) role of None \<Rightarrow> 1 | Some m \<Rightarrow> m) in
      max 1 \<lfloor>of_int limit * max multiplier 0\<rfloor>)"

text \<open>The result is the retry-after of a 429 response, or \<open>None\<close> when the request is passed on.\<close>

definition rate_limit_middleware :: "rate_config \<Rightarrow> http_request \<Rightarrow> (rl_world, rate_error + int option) prog" where
  "rate_limit_middleware cfg req =
     (if hr_path req \<in> set exempt_paths then ok None
      else (let identity = resolve_rate_limit_identity cfg req;
                limit = (if ri_tier identity = Authenticated then rc_authenticated_per_minute cfg
                         else rc_anonymous_per_minute cfg) in
            (case ri_user_id identity of
               None \<Rightarrow> opP (check (ri_bucket_key identity) limit)
             | Some user_id \<Rightarrow>
                 if \<not> rc_extensions_enabled cfg then opP (check (ri_bucket_key identity) limit)
                 else bindP (get_rate_limit_role cfg user_id) (\<lambda>r.
                   let role = (case r of Inl _ \<Rightarrow> ''member'' | Inr role \<Rightarrow> role) in
                   opP (check (ri_bucket_key identity) (scaled_limit cfg limit role))))))"

subsection \<open>The limiter keeps a window of the history\<close>

text \<open>The reference keeps every admission of a bucket and counts those of the last 60 seconds.\<close>

definition in_window :: "rat \<Rightarrow> rat \<Rightarrow> bool" where
  "in_window now t \<longleftrightarrow> now - window_seconds < t"

definition reference_check :: "rat list \<Rightarrow> int \<Rightarrow> rat \<Rightarrow> rat list \<times> (rate_error + int option)" where
  "reference_check history limit now =
     (let recent = filter (in_window now) history in
      if int (length recent) < limit then (history @ [now], Inr None)
      else (history, case recent of [] \<Rightarrow> Inl IndexError | oldest # _ \<Rightarrow> Inr (Some (retry_after now oldest))))"

text \<open>\<open>bucket_abs m ts h\<close>: \<open>ts\<close> is what a bucket with admissions \<open>h\<close> holds after a check at time \<open>m\<close> at the latest.\<close>

definition bucket_abs :: "rat \<Rightarrow> rat list \<Rightarrow> rat list \<Rightarrow> bool" where
  "bucket_abs m ts history \<longleftrightarrow> sorted history \<and> (\<forall>t\<in>set history. t \<le> m) \<and>
     (\<exists>old. history = old @ ts \<and> (\<forall>t\<in>set old. \<not> in_window m t))"

lemma drop_expired_filter: "sorted ts \<Longrightarrow> drop_expired (now - window_seconds) ts = filter (in_window now) ts"
proof (induction ts)
  case (Cons t ts)
  show ?case
  proof (cases "t \<le> now - window_seconds")
    case False
    with Cons.prems have "\<forall>u\<in>set ts. in_window now u" by (fastforce simp: in_window_def)
    with False show ?thesis by (simp add: in_window_def)
  qed (use Cons in \<open>simp add: in_window_def\<close>)
qed simp

lemma drop_expired_dropWhile: "drop_expired (now - window_seconds) ts = dropWhile (\<lambda>t. \<not> in_window now t) ts"
  by (induction ts) (simp_all add: in_window_def not_less)

lemma bucket_abs_window:
  assumes "bucket_abs m ts history" and "m \<le> now"
  shows "drop_expired (now - window_seconds) ts = filter (in_window now) history"
proof -
  from assms(1) obtain old where h: "history = old @ ts" "sorted history" "\<forall>t\<in>set old. \<not> in_window m t"
    by (auto simp: bucket_abs_def)
  have "filter (in_window now) old = []" using h(3) assms(2) by (fastforce simp: in_window_def filter_empty_conv)
  moreover have "sorted ts" using h(1,2) by (simp add: sorted_append)
  ultimately show ?thesis using drop_expired_filter [of ts now] h(1) by simp
qed

lemma sorted_window_split:
  assumes "sorted history"
  shows "\<exists>old. history = old @ filter (in_window now) history \<and> (\<forall>t\<in>set old. \<not> in_window now t)"
proof -
  have "takeWhile (\<lambda>t. \<not> in_window now t) history @ dropWhile (\<lambda>t. \<not> in_window now t) history = history" by simp
  moreover have "dropWhile (\<lambda>t. \<not> in_window now t) history = filter (in_window now) history"
    using drop_expired_filter [OF assms] by (simp only: drop_expired_dropWhile)
  ultimately show ?thesis by (metis set_takeWhileD)
qed

text \<open>One check of the limiter is one check of the reference.\<close>

lemma check_refines:
  assumes "bucket_abs m ts history" and "m \<le> now"
  shows "snd (check_bucket ts limit now) = snd (reference_check history limit now)"
    and "bucket_abs now (fst (check_bucket ts limit now)) (fst (reference_check history limit now))"
proof -
  let ?k = "filter (in_window now) history"
  note w = bucket_abs_window [OF assms]
  show "snd (check_bucket ts limit now) = snd (reference_check history limit now)"
    by (simp add: check_bucket_def reference_check_def w Let_def)
  from assms(1) have s: "sorted history" "\<forall>t\<in>set history. t \<le> m" by (auto simp: bucket_abs_def)
  from sorted_window_split [OF s(1), of now] obtain old where
    old: "history = old @ ?k" "\<forall>t\<in>set old. \<not> in_window now t" by blast
  have le: "\<forall>t\<in>set history. t \<le> now" using s(2) assms(2) by auto
  have "bucket_abs now ?k history" using s(1) le old by (auto simp: bucket_abs_def)
  moreover have "bucket_abs now (?k @ [now]) (history @ [now])"
    unfolding bucket_abs_def
  proof (intro conjI exI [of _ old])
    show "sorted (history @ [now])" using s(1) le by (simp add: sorted_append)
    show "\<forall>t\<in>set (history @ [now]). t \<le> now" using le by simp
    show "history @ [now] = old @ ?k @ [now]" using old(1) by simp
  qed (use old(2) in simp)
  ultimately show "bucket_abs now (fst (check_bucket ts limit now)) (fst (reference_check history limit now))"
    by (simp add: check_bucket_def reference_check_def w Let_def)
qed

subsection \<open>Sequences of requests\<close>

text \<open>A request is a bucket, a limit and the time of the check.\<close>

type_synonym rate_request = "string \<times> int \<times> rat"

fun run_checks :: "rl_world \<Rightarrow> rate_request list \<Rightarrow> (rate_error + int option) list" where
  "run_checks w [] = []"
| "run_checks w ((bucket, limit, now) # reqs) =
     (let (v, r) = check bucket limit (w\<lparr>rl_now := now\<rparr>) in r # run_checks v reqs)"

fun run_reference :: "(string \<Rightarrow> rat list) \<Rightarrow> rate_request list \<Rightarrow> (rate_error + int option) list" where
  "run_reference h [] = []"
| "run_reference h ((bucket, limit, now) # reqs) =
     (let (g, r) = reference_check (h bucket) limit now in r # run_reference (h(bucket := g)) reqs)"

fun times_ascend :: "rat \<Rightarrow> rate_request list \<Rightarrow> bool" where
  "times_ascend m [] = True"
| "times_ascend m ((bucket, limit, now) # reqs) = (m \<le> now \<and> times_ascend now reqs)"

lemma bucket_abs_later: "bucket_abs m ts h \<Longrightarrow> m \<le> n \<Longrightarrow> bucket_abs n ts h"
  by (fastforce simp: bucket_abs_def in_window_def)

lemma run_checks_reference:
  assumes "\<And>b. bucket_abs m (rl_events w b) (h b)" and "times_ascend m reqs"
  shows "run_checks w reqs = run_reference h reqs"
  using assms
proof (induction reqs arbitrary: m w h)
  case (Cons req reqs)
  obtain bucket limit now where req: "req = (bucket, limit, now)" by (cases req)
  with Cons.prems(2) have now: "m \<le> now" "times_ascend now reqs" by simp_all
  let ?c = "check_bucket (rl_events w bucket) limit now"
  let ?r = "reference_check (h bucket) limit now"
  note refines = check_refines [OF Cons.prems(1) [of bucket] now(1), of limit]
  have "run_checks (w\<lparr>rl_now := now, rl_events := (rl_events w)(bucket := fst ?c)\<rparr>) reqs =
      run_reference (h(bucket := fst ?r)) reqs"
  proof (rule Cons.IH [OF _ now(2)])
    show "bucket_abs now (rl_events (w\<lparr>rl_now := now, rl_events := (rl_events w)(bucket := fst ?c)\<rparr>) b)
        ((h(bucket := fst ?r)) b)" for b
      using refines(2) bucket_abs_later [OF Cons.prems(1) [of b] now(1)] by simp
  qed
  with refines(1) show ?case by (simp add: req check_def split_beta Let_def)
qed simp

text \<open>The admissions of a bucket over a sequence of requests.\<close>

fun admissions :: "rl_world \<Rightarrow> string \<Rightarrow> rate_request list \<Rightarrow> rat list" where
  "admissions w b [] = []"
| "admissions w b ((bucket, limit, now) # reqs) =
     (let (v, r) = check bucket limit (w\<lparr>rl_now := now\<rparr>) in
      (if bucket = b \<and> r = Inr None then [now] else []) @ admissions v b reqs)"

definition window_count :: "rat list \<Rightarrow> rat \<Rightarrow> nat" where
  "window_count ts now = length (filter (\<lambda>t. in_window now t \<and> t \<le> now) ts)"

lemma length_filter_mono: "(\<And>x. P x \<Longrightarrow> Q x) \<Longrightarrow> length (filter P xs) \<le> length (filter Q xs)"
  by (induction xs) auto

lemma reference_bound:
  assumes "\<forall>now. int (window_count h now) \<le> limit" and "\<forall>t\<in>set h. t \<le> n"
    and "int (length (filter (in_window n) h)) < limit"
  shows "\<forall>now. int (window_count (h @ [n]) now) \<le> limit"
proof
  fix now
  show "int (window_count (h @ [n]) now) \<le> limit"
  proof (cases "in_window now n \<and> n \<le> now")
    case True
    have "length (filter (\<lambda>t. in_window now t \<and> t \<le> now) h) \<le> length (filter (in_window n) h)"
      using True by (intro length_filter_mono) (auto simp: in_window_def)
    with True assms(3) show ?thesis by (simp add: window_count_def)
  next
    case False
    with assms(1) show ?thesis by (auto simp: window_count_def)
  qed
qed

lemma admissions_bound:
  assumes "bucket_abs m (rl_events w b) h" and "\<And>c. bucket_abs m (rl_events w c) (g c)" and "times_ascend m reqs"
    and "\<forall>now. int (window_count h now) \<le> limit"
    and "\<forall>(bucket, l, now)\<in>set reqs. bucket = b \<longrightarrow> l \<le> limit"
  shows "int (window_count (h @ admissions w b reqs) now) \<le> limit"
  using assms
proof (induction reqs arbitrary: m w h g)
  case (Cons req reqs)
  obtain bucket l n where req: "req = (bucket, l, n)" by (cases req)
  with Cons.prems(3) have n: "m \<le> n" "times_ascend n reqs" by simp_all
  let ?c = "check_bucket (rl_events w bucket) l n"
  let ?v = "w\<lparr>rl_now := n, rl_events := (rl_events w)(bucket := fst ?c)\<rparr>"
  let ?g = "g(bucket := fst (reference_check (g bucket) l n))"
  let ?h = "if bucket = b \<and> snd ?c = Inr None then h @ [n] else h"
  have step: "check bucket l (w\<lparr>rl_now := n\<rparr>) = (?v, snd ?c)" by (simp add: check_def split_beta Let_def)
  have g: "bucket_abs n (rl_events ?v c) (?g c)" for c
    using check_refines(2) [OF Cons.prems(2) n(1)] bucket_abs_later [OF Cons.prems(2) n(1)] by simp
  have hb: "bucket_abs n (rl_events ?v b) ?h \<and> (\<forall>now. int (window_count ?h now) \<le> limit)"
  proof (cases "bucket = b")
    case True
    have l: "l \<le> limit" using Cons.prems(5) req True by simp
    note refines = check_refines [OF Cons.prems(1) n(1), of l]
    have "fst (reference_check h l n) = ?h"
      using refines(1) True by (auto simp: reference_check_def Let_def split: list.splits if_splits)
    moreover have "int (length (filter (in_window n) h)) < limit" if "snd ?c = Inr None"
      using that refines(1) True l by (auto simp: reference_check_def Let_def split: list.splits if_splits)
    moreover have "\<forall>t\<in>set h. t \<le> n" using Cons.prems(1) n(1) by (auto simp: bucket_abs_def)
    ultimately show ?thesis
      using refines(2) True reference_bound [OF Cons.prems(4)] Cons.prems(4) by auto
  next
    case False
    then show ?thesis using bucket_abs_later [OF Cons.prems(1) n(1)] Cons.prems(4) by simp
  qed
  have "int (window_count (?h @ admissions ?v b reqs) now) \<le> limit"
    by (rule Cons.IH [OF _ g n(2)]) (use hb Cons.prems(5) in auto)
  moreover have "h @ admissions w b (req # reqs) = ?h @ admissions ?v b reqs"
    by (simp only: req admissions.simps step Let_def prod.case) auto
  ultimately show ?case by (simp only:)
qed simp

text \<open>A caller that waits as long as it is told to is admitted.\<close>

lemma retry_admitted:
  assumes "sorted ts" and "\<forall>t\<in>set ts. t \<le> now" and "int (length ts) \<le> limit" and "1 \<le> limit"
    and "snd (check_bucket ts limit now) = Inr (Some r)"
  shows "snd (check_bucket (fst (check_bucket ts limit now)) limit (now + of_int r)) = Inr None"
proof -
  let ?k = "drop_expired (now - window_seconds) ts"
  have k: "?k = filter (in_window now) ts" using assms(1) by (rule drop_expired_filter)
  from assms(5) obtain oldest rest where kept: "?k = oldest # rest" and r: "r = retry_after now oldest"
    and full: "limit \<le> int (length ?k)"
    by (auto simp: check_bucket_def Let_def split: if_splits list.splits)
  have "window_seconds - (now - oldest) \<le> of_int r"
    unfolding r retry_after_def using le_of_int_ceiling [of "window_seconds - (now - oldest)"]
    by (simp add: max_def)
  then have "oldest \<le> now + of_int r - window_seconds" by simp
  then have "length (drop_expired (now + of_int r - window_seconds) (oldest # rest)) \<le> length rest"
  proof -
    have "length (drop_expired a xs) \<le> length xs" for a and xs :: "rat list" by (induction xs) auto
    then show ?thesis using \<open>oldest \<le> now + of_int r - window_seconds\<close> by simp
  qed
  moreover have "length (oldest # rest) \<le> length ts" unfolding kept [symmetric] k by simp
  ultimately have "int (length (drop_expired (now + of_int r - window_seconds) (oldest # rest))) < limit"
    using assms(3) by simp
  moreover have "fst (check_bucket ts limit now) = oldest # rest" using kept full by (simp add: check_bucket_def)
  ultimately show ?thesis by (simp add: check_bucket_def)
qed

end
