(* ===== verification/Quotas.thy ===== *)
theory Quotas
  imports Prog
begin

section \<open>Daily quotas\<close>

text \<open>
  \<open>ai/security/quotas/store.py\<close>, the guest and upload counters of \<open>db/identity.py\<close> and
  \<open>services/quota_service.py\<close>. A counter table maps its key to the row's count. An upsert
  (\<open>INSERT .. ON CONFLICT DO UPDATE .. WHERE .. RETURNING\<close>) is one action; days are integers.
  The locale \<open>daily_counter\<close> is what callers of a reserving counter rely on; both reserving stores
  provide it.
\<close>

record quota_world =
  qw_usage :: "string \<times> string \<times> int \<Rightarrow> int option"
  qw_guest :: "uuid \<times> int \<Rightarrow> (int \<times> int) option"
  qw_upload :: "uuid \<times> int \<Rightarrow> int option"
  qw_today :: int

datatype quota_exn = QuotaExceeded | UploadQuotaExceeded

type_synonym 'a quota_prog = "(quota_world, quota_exn + 'a) prog"

text \<open>An absent row counts as 0 (\<open>value or 0\<close>).\<close>

definition count_or_zero :: "int option \<Rightarrow> int" where
  "count_or_zero v = (case v of None \<Rightarrow> 0 | Some n \<Rightarrow> n)"

definition upsert_below :: "int option \<Rightarrow> int \<Rightarrow> int option \<times> bool" where
  "upsert_below row limit =
     (case row of
        None \<Rightarrow> (Some 1, True)
      | Some n \<Rightarrow> if n < limit then (Some (n + 1), True) else (Some n, False))"

subsection \<open>Usage quotas\<close>

definition get_count :: "string \<Rightarrow> string \<Rightarrow> int \<Rightarrow> quota_world \<Rightarrow> int" where
  "get_count subject_id quota_type day w = count_or_zero (qw_usage w (subject_id, quota_type, day))"

definition check_and_increment ::
    "string \<Rightarrow> string \<Rightarrow> int \<Rightarrow> int \<Rightarrow> quota_world \<Rightarrow> quota_world \<times> bool" where
  "check_and_increment subject_id quota_type limit day w =
     (if limit < 1 then (w, False)
      else (let key = (subject_id, quota_type, day);
                (row, granted) = upsert_below (qw_usage w key) limit in
            (w\<lparr>qw_usage := (qw_usage w)(key := row)\<rparr>, granted)))"

definition check_daily_usage_quota :: "string \<Rightarrow> string \<Rightarrow> int option \<Rightarrow> (quota_world, bool) prog" where
  "check_daily_usage_quota subject_id quota_type limit =
     (case limit of
        None \<Rightarrow> Ret True
      | Some l \<Rightarrow>
          bindP (readP qw_today) (\<lambda>day. opP (check_and_increment subject_id quota_type l day)))"

subsection \<open>Guest messages and uploads\<close>

definition get_message_count :: "uuid \<Rightarrow> int \<Rightarrow> quota_world \<Rightarrow> int" where
  "get_message_count guest_id day w = count_or_zero (map_option fst (qw_guest w (guest_id, day)))"

definition increment_guest :: "uuid \<Rightarrow> int \<Rightarrow> int \<Rightarrow> quota_world \<Rightarrow> quota_world" where
  "increment_guest guest_id day tokens w = w\<lparr>qw_guest := (qw_guest w)((guest_id, day) \<mapsto>
     (case qw_guest w (guest_id, day) of
        None \<Rightarrow> (1, tokens)
      | Some (messages, spent) \<Rightarrow> (messages + 1, spent + tokens)))\<rparr>"

definition get_upload_count :: "uuid \<Rightarrow> int \<Rightarrow> quota_world \<Rightarrow> int" where
  "get_upload_count user_id day w = count_or_zero (qw_upload w (user_id, day))"

definition try_reserve :: "uuid \<Rightarrow> int \<Rightarrow> int \<Rightarrow> quota_world \<Rightarrow> quota_world \<times> bool" where
  "try_reserve user_id day quota w =
     (let (row, granted) = upsert_below (qw_upload w (user_id, day)) quota in
      (w\<lparr>qw_upload := (qw_upload w)((user_id, day) := row)\<rparr>, granted))"

definition release :: "uuid \<Rightarrow> int \<Rightarrow> quota_world \<Rightarrow> quota_world" where
  "release user_id day w = w\<lparr>qw_upload := (qw_upload w)((user_id, day) :=
     map_option (\<lambda>n. if n > 0 then n - 1 else n) (qw_upload w (user_id, day)))\<rparr>"

subsection \<open>The quota service\<close>

record quota_config =
  qc_guest_daily_message_quota :: int
  qc_demo_mode_strict :: bool
  qc_daily_upload_quota :: "int option"
  qc_has_upload_store :: bool

definition effective_upload_quota :: "quota_config \<Rightarrow> int option" where
  "effective_upload_quota cfg =
     (if qc_demo_mode_strict cfg
      then Some (case qc_daily_upload_quota cfg of None \<Rightarrow> 20 | Some q \<Rightarrow> q)
      else qc_daily_upload_quota cfg)"

definition check_guest :: "quota_config \<Rightarrow> uuid \<Rightarrow> unit quota_prog" where
  "check_guest cfg guest_id =
     bindP (readP (\<lambda>w. get_message_count guest_id (qw_today w) w)) (\<lambda>n.
       if n \<ge> qc_guest_daily_message_quota cfg then raise QuotaExceeded else ok ())"

definition record_guest :: "uuid \<Rightarrow> int \<Rightarrow> unit quota_prog" where
  "record_guest guest_id tokens = opP (\<lambda>w. (increment_guest guest_id (qw_today w) tokens w, Inr ()))"

definition remaining :: "quota_config \<Rightarrow> uuid \<Rightarrow> quota_world \<Rightarrow> int" where
  "remaining cfg guest_id w =
     max 0 (qc_guest_daily_message_quota cfg - get_message_count guest_id (qw_today w) w)"

definition reserve_upload :: "quota_config \<Rightarrow> uuid \<Rightarrow> unit quota_prog" where
  "reserve_upload cfg user_id =
     (case effective_upload_quota cfg of
        None \<Rightarrow> ok ()
      | Some quota \<Rightarrow>
          if \<not> qc_has_upload_store cfg then ok ()
          else bindP (opP (\<lambda>w. try_reserve user_id (qw_today w) quota w)) (\<lambda>reserved.
            if reserved then ok ()
            else bindP (readP (\<lambda>w. get_upload_count user_id (qw_today w) w)) (\<lambda>_.
              raise UploadQuotaExceeded)))"

definition release_upload :: "quota_config \<Rightarrow> uuid \<Rightarrow> unit quota_prog" where
  "release_upload cfg user_id =
     (if effective_upload_quota cfg = None \<or> \<not> qc_has_upload_store cfg then ok ()
      else opP (\<lambda>w. (release user_id (qw_today w) w, Inr ())))"

subsection \<open>What a reserving counter promises\<close>

locale daily_counter =
  fixes reserve :: "'k \<Rightarrow> int \<Rightarrow> 's \<Rightarrow> 's \<times> bool"
    and used :: "'s \<Rightarrow> 'k \<Rightarrow> int"
  assumes granted: "1 \<le> limit \<Longrightarrow> snd (reserve k limit s) \<longleftrightarrow> used s k < limit"
    and used_after: "1 \<le> limit \<Longrightarrow>
      used (fst (reserve k limit s)) k' = used s k' + (if k' = k \<and> used s k < limit then 1 else 0)"
begin

text \<open>Reservations in any order, for any keys; the result counts those granted to \<open>k\<close>.\<close>

primrec grants :: "'k \<Rightarrow> ('k \<times> int) list \<Rightarrow> 's \<Rightarrow> 's \<times> int" where
  "grants k [] s = (s, 0)"
| "grants k (r # rs) s =
     (let (t, g) = reserve (fst r) (snd r) s; (u, n) = grants k rs t in
      (u, n + (if fst r = k \<and> g then 1 else 0)))"

lemma grants_used:
  "\<forall>r\<in>set rs. 1 \<le> snd r \<Longrightarrow> used (fst (grants k rs s)) k = used s k + snd (grants k rs s)"
proof (induction rs arbitrary: s)
  case (Cons r rs)
  then have "1 \<le> snd r" by simp
  with Cons granted [of "snd r" "fst r" s] used_after [of "snd r" "fst r" s k] show ?case
    by (auto simp: split_beta Let_def)
qed simp

lemma grants_within_limit:
  assumes "\<forall>r\<in>set rs. 1 \<le> snd r" and "\<forall>r\<in>set rs. fst r = k \<longrightarrow> snd r \<le> limit" and "used s k \<le> limit"
  shows "used s k + snd (grants k rs s) \<le> limit"
  using assms
proof (induction rs arbitrary: s)
  case (Cons r rs)
  let ?t = "fst (reserve (fst r) (snd r) s)"
  from Cons.prems have r: "1 \<le> snd r" "fst r = k \<longrightarrow> snd r \<le> limit" by simp_all
  note used = used_after [OF r(1), of "fst r" s k] and g = granted [OF r(1), of "fst r" s]
  have "used ?t k \<le> limit" using used r(2) Cons.prems(3) by auto
  with Cons.IH [of ?t] Cons.prems(1,2) have "used ?t k + snd (grants k rs ?t) \<le> limit" by simp
  with used g show ?case by (auto simp: split_beta Let_def split: if_splits)
qed simp

lemma grants_exact:
  assumes "1 \<le> limit" and "0 \<le> used s k" and "used s k \<le> limit"
  shows "snd (grants k (replicate n (k, limit)) s) = min (int n) (limit - used s k)"
  using assms(2,3)
proof (induction n arbitrary: s)
  case (Suc n)
  let ?t = "fst (reserve k limit s)"
  note used = used_after [OF assms(1), of k s k] and g = granted [OF assms(1), of k s]
  have "snd (grants k (replicate n (k, limit)) ?t) = min (int n) (limit - used ?t k)"
    by (rule Suc.IH) (use used Suc.prems in auto)
  with used g Suc.prems show ?case by (auto simp: split_beta Let_def)
qed simp

end

locale releasable_counter = daily_counter reserve used
  for reserve :: "'k \<Rightarrow> int \<Rightarrow> 's \<Rightarrow> 's \<times> bool" and used :: "'s \<Rightarrow> 'k \<Rightarrow> int" +
  fixes give_back :: "'k \<Rightarrow> 's \<Rightarrow> 's"
  assumes used_given_back: "used (give_back k s) k' = (if k' = k then max (min 0 (used s k)) (used s k - 1) else used s k')"
begin

lemma give_back_undoes:
  assumes "1 \<le> limit" and "snd (reserve k limit s)" and "0 \<le> used s k"
  shows "used (give_back k (fst (reserve k limit s))) k' = used s k'"
  using used_given_back [of k "fst (reserve k limit s)" k'] used_after [OF assms(1), of k s k'] used_after [OF assms(1), of k s k]
    granted [OF assms(1), of k s] assms(2,3) by auto

end

lemma upsert_below_granted: "1 \<le> limit \<Longrightarrow> snd (upsert_below row limit) \<longleftrightarrow> count_or_zero row < limit"
  by (auto simp: upsert_below_def count_or_zero_def split: option.split)

lemma upsert_below_count: "1 \<le> limit \<Longrightarrow>
    count_or_zero (fst (upsert_below row limit)) = count_or_zero row + (if count_or_zero row < limit then 1 else 0)"
  by (auto simp: upsert_below_def count_or_zero_def split: option.split)

definition usage_reserve :: "string \<times> string \<times> int \<Rightarrow> int \<Rightarrow> quota_world \<Rightarrow> quota_world \<times> bool" where
  "usage_reserve = (\<lambda>(subject_id, quota_type, day) limit w. check_and_increment subject_id quota_type limit day w)"

definition usage_used :: "quota_world \<Rightarrow> string \<times> string \<times> int \<Rightarrow> int" where
  "usage_used w = (\<lambda>(subject_id, quota_type, day). get_count subject_id quota_type day w)"

interpretation usage: daily_counter usage_reserve usage_used
proof
  fix limit :: int and k k' :: "string \<times> string \<times> int" and s
  assume l: "1 \<le> limit"
  obtain a b c where k: "k = (a, b, c)" by (cases k) auto
  obtain a' b' c' where k': "k' = (a', b', c')" by (cases k') auto
  show "snd (usage_reserve k limit s) \<longleftrightarrow> usage_used s k < limit"
    using upsert_below_granted [OF l, of "qw_usage s k"] l
    by (simp add: usage_reserve_def usage_used_def check_and_increment_def get_count_def k split_beta Let_def)
  show "usage_used (fst (usage_reserve k limit s)) k' = usage_used s k' + (if k' = k \<and> usage_used s k < limit then 1 else 0)"
    using upsert_below_count [OF l, of "qw_usage s k"] l
    by (auto simp: usage_reserve_def usage_used_def check_and_increment_def get_count_def k k' split_beta Let_def)
qed

definition upload_reserve :: "uuid \<times> int \<Rightarrow> int \<Rightarrow> quota_world \<Rightarrow> quota_world \<times> bool" where
  "upload_reserve = (\<lambda>(user_id, day) quota w. try_reserve user_id day quota w)"

definition upload_used :: "quota_world \<Rightarrow> uuid \<times> int \<Rightarrow> int" where
  "upload_used w = (\<lambda>(user_id, day). get_upload_count user_id day w)"

definition upload_release :: "uuid \<times> int \<Rightarrow> quota_world \<Rightarrow> quota_world" where
  "upload_release = (\<lambda>(user_id, day) w. release user_id day w)"

interpretation uploads: releasable_counter upload_reserve upload_used upload_release
proof
  fix limit :: int and k k' :: "uuid \<times> int" and s
  obtain a b where k: "k = (a, b)" by (cases k) auto
  obtain a' b' where k': "k' = (a', b')" by (cases k') auto
  note defs = upload_reserve_def upload_used_def upload_release_def try_reserve_def get_upload_count_def release_def
    count_or_zero_def k k' split_beta Let_def
  show "snd (upload_reserve k limit s) \<longleftrightarrow> upload_used s k < limit" if "1 \<le> limit"
    using upsert_below_granted [OF that, of "qw_upload s k"] by (simp add: defs)
  show "upload_used (fst (upload_reserve k limit s)) k' =
      upload_used s k' + (if k' = k \<and> upload_used s k < limit then 1 else 0)" if "1 \<le> limit"
    using upsert_below_count [OF that, of "qw_upload s k"] by (auto simp: defs)
  show "upload_used (upload_release k s) k' =
      (if k' = k then max (min 0 (upload_used s k)) (upload_used s k - 1) else upload_used s k')"
    by (auto simp: defs split: option.split)
qed

subsection \<open>Guest messages are checked, not reserved\<close>

text \<open>
  \<open>check\<close> reads the counter and \<open>record\<close> adds to it later, so two requests of a guest may both pass the
  check: the quota bounds what one request after another can do, not what concurrent ones can.
\<close>

definition guest_message :: "quota_config \<Rightarrow> uuid \<Rightarrow> int \<Rightarrow> unit quota_prog" where
  "guest_message cfg guest_id tokens = bindE (check_guest cfg guest_id) (\<lambda>_. record_guest guest_id tokens)"

lemma guest_message_alone:
  "exec_prog (guest_message cfg guest_id tokens) w =
    (if get_message_count guest_id (qw_today w) w < qc_guest_daily_message_quota cfg
     then (increment_guest guest_id (qw_today w) tokens w, Inr ()) else (w, Inl QuotaExceeded))"
  by (simp add: guest_message_def check_guest_def record_guest_def exec_bindE exec_bindP)

lemma guest_messages_race:
  assumes "qc_guest_daily_message_quota cfg = 1" and "qw_guest w (g, qw_today w) = None"
  shows "\<exists>w' ps. pool_step\<^sup>*\<^sup>* (w, [guest_message cfg g 0, guest_message cfg g 0]) (w', ps) \<and>
    ps = [ok (), ok ()] \<and> get_message_count g (qw_today w') w' = 2"
proof -
  let ?n = "\<lambda>w. get_message_count g (qw_today w) w"
  let ?rec = "\<lambda>w. increment_guest g (qw_today w) 0 w"
  have m: "guest_message cfg g 0 = Act (\<lambda>w. w) (\<lambda>w. if ?n w \<ge> 1 then raise QuotaExceeded
      else Act ?rec (\<lambda>w. ok ()))"
    using assms(1) by (auto simp: guest_message_def check_guest_def record_guest_def readP_def opP_def bindE_def)
  have n: "?n w = 0" using assms(2) by (simp add: get_message_count_def count_or_zero_def)
  let ?p = "guest_message cfg g 0" and ?q = "Act ?rec (\<lambda>w. ok ()) :: unit quota_prog"
  have 1: "pool_step (w, [?p, ?p]) (w, [?q, ?p])"
    using pool_step.intros [of 0 "[?p, ?p]", OF _ _, of "\<lambda>w. w" _ w] m n by fastforce
  have 2: "pool_step (w, [?q, ?p]) (w, [?q, ?q])"
    using pool_step.intros [of 1 "[?q, ?p]", OF _ _, of "\<lambda>w. w" _ w] m n by fastforce
  have 3: "pool_step (w, [?q, ?q]) (?rec w, [ok (), ?q])"
    using pool_step.intros [of 0 "[?q, ?q]" ?rec "\<lambda>w. ok ()" w] by simp
  have 4: "pool_step (?rec w, [ok (), ?q]) (?rec (?rec w), [ok (), ok ()])"
    using pool_step.intros [of 1 "[ok (), ?q]" ?rec "\<lambda>w. ok ()" "?rec w"] by simp
  have "get_message_count g (qw_today (?rec (?rec w))) (?rec (?rec w)) = 2"
    using assms(2) by (simp add: get_message_count_def increment_guest_def count_or_zero_def)
  with 1 2 3 4 show ?thesis by (meson converse_rtranclp_into_rtranclp rtranclp.rtrancl_refl)
qed

end
