(* ===== verification/Rbac.thy ===== *)
theory Rbac
  imports Prog Py_Value
begin

section \<open>Roles and permissions\<close>

text \<open>
  \<open>ai/security/rbac/permissions.py\<close>, \<open>service.py\<close> and \<open>store.py\<close>. The tables are the names of the roles
  and the pairs of user and role name (the store joins role ids to names). An actor without a user id
  and no actor at all are both \<open>None\<close>, as the service treats them alike. The permission cache with its
  generations is part of the state; a service made for one request is the case where no other task
  uses it. The second check of \<open>revoke_role\<close> for the last owner holds the advisory lock until the
  transaction ends, so check and DELETE are one action; the first check, which other tasks may
  overtake here, is only a read. Auditing has no effect on the state; the service
  has a store.
\<close>

datatype permission_key =
    PermAll | RbacManage | AuditView | PolicyView | JobsViewAll | JobsRetry | ApprovalsDecideAll
  | ToolsExecute | ToolsExecuteDestructive | PluginsManage | WorkflowViewAll | McpManage

fun permission_value :: "permission_key \<Rightarrow> string" where
  "permission_value PermAll = ''*''"
| "permission_value RbacManage = ''rbac:manage''"
| "permission_value AuditView = ''audit:view''"
| "permission_value PolicyView = ''policy:view''"
| "permission_value JobsViewAll = ''jobs:view_all''"
| "permission_value JobsRetry = ''jobs:retry''"
| "permission_value ApprovalsDecideAll = ''approvals:decide_all''"
| "permission_value ToolsExecute = ''tools:execute''"
| "permission_value ToolsExecuteDestructive = ''tools:execute:destructive''"
| "permission_value PluginsManage = ''plugins:manage''"
| "permission_value WorkflowViewAll = ''workflow:view_all''"
| "permission_value McpManage = ''mcp:manage''"

definition default_role_permissions :: "(string \<times> permission_key list) list" where
  "default_role_permissions =
     [(''member'', [ToolsExecute]),
      (''operator'', [ToolsExecute, ToolsExecuteDestructive, JobsViewAll, JobsRetry, PolicyView, AuditView]),
      (''admin'', [ToolsExecute, ToolsExecuteDestructive, JobsViewAll, JobsRetry, PolicyView, AuditView,
         RbacManage, ApprovalsDecideAll]),
      (''owner'', [PermAll, RbacManage, AuditView, PolicyView, JobsViewAll, JobsRetry, ApprovalsDecideAll,
         ToolsExecute, ToolsExecuteDestructive, PluginsManage, WorkflowViewAll, McpManage])]"

definition role_permissions :: "string \<Rightarrow> string set" where
  "role_permissions role =
     (case map_of default_role_permissions role of
        None \<Rightarrow> {}
      | Some keys \<Rightarrow> set (map permission_value keys))"

datatype rbac_exn = PermissionDenied string | RoleNotFound string

record rbac_world =
  rb_roles :: "string list"
  rb_assignments :: "(uuid \<times> string) list"
  rb_users :: "(uuid \<times> string) list"
  rb_cache :: "uuid \<Rightarrow> (rat \<times> string set) option"
  rb_generation :: "uuid \<Rightarrow> nat"
  rb_now :: rat

type_synonym 'a rbac_prog = "(rbac_world, rbac_exn + 'a) prog"

subsection \<open>The store\<close>

definition get_role_by_name :: "rbac_world \<Rightarrow> string \<Rightarrow> string option" where
  "get_role_by_name w n = find (\<lambda>r. r = py_lower n) (rb_roles w)"

text \<open>\<open>sorted({..})\<close>\<close>

definition get_user_roles :: "rbac_world \<Rightarrow> uuid \<Rightarrow> string list" where
  "get_user_roles w user_id = sort (remdups (map snd (filter (\<lambda>(u, r). u = user_id) (rb_assignments w))))"

definition get_user_roles_bulk :: "rbac_world \<Rightarrow> uuid list \<Rightarrow> (uuid \<times> string list) list" where
  "get_user_roles_bulk w user_ids =
     map (\<lambda>u. (u, sort (map snd (filter (\<lambda>(v, r). v = u) (rb_assignments w))))) (rev (remdups (rev user_ids)))"

definition store_assign_role :: "uuid \<Rightarrow> string \<Rightarrow> rbac_world \<Rightarrow> rbac_world \<times> bool" where
  "store_assign_role user_id role_name w =
     (case get_role_by_name w role_name of
        None \<Rightarrow> (w, False)
      | Some role \<Rightarrow>
          if (user_id, role) \<in> set (rb_assignments w) then (w, False)
          else (w\<lparr>rb_assignments := rb_assignments w @ [(user_id, role)]\<rparr>, True))"

definition store_revoke_role :: "uuid \<Rightarrow> string \<Rightarrow> rbac_world \<Rightarrow> rbac_world \<times> bool" where
  "store_revoke_role user_id role_name w =
     (case get_role_by_name w role_name of
        None \<Rightarrow> (w, False)
      | Some role \<Rightarrow>
          (w\<lparr>rb_assignments := filter (\<lambda>a. a \<noteq> (user_id, role)) (rb_assignments w)\<rparr>,
           (user_id, role) \<in> set (rb_assignments w)))"

definition bootstrap_one :: "string \<Rightarrow> rbac_world \<Rightarrow> rbac_world \<times> bool" where
  "bootstrap_one email w =
     (case get_role_by_name w ''owner'' of
        None \<Rightarrow> (w, False)
      | Some role \<Rightarrow>
          (case find (\<lambda>(u, e). py_lower e = py_lower (py_strip email)) (rb_users w) of
             None \<Rightarrow> (w, False)
           | Some (u, e) \<Rightarrow>
               if (u, role) \<in> set (rb_assignments w) then (w, False)
               else (w\<lparr>rb_assignments := rb_assignments w @ [(u, role)]\<rparr>, True)))"

fun store_bootstrap_admins :: "string list \<Rightarrow> int \<Rightarrow> int rbac_prog" where
  "store_bootstrap_admins [] granted = ok granted"
| "store_bootstrap_admins (email # emails) granted =
     bindP (opP (bootstrap_one email)) (\<lambda>g. store_bootstrap_admins emails (if g then granted + 1 else granted))"

definition final_owners :: "rbac_world \<Rightarrow> uuid set" where
  "final_owners w = fst ` set (filter (\<lambda>(u, r). py_lower r = ''owner'') (rb_assignments w))"

definition is_final_owner :: "uuid \<Rightarrow> rbac_world \<Rightarrow> bool" where
  "is_final_owner user_id w \<longleftrightarrow> user_id \<in> final_owners w \<and> card (final_owners w) = 1"

subsection \<open>Who may manage roles\<close>

definition role_priority :: "string \<Rightarrow> int" where
  "role_priority role = (case map_of [(''member'', 0), (''operator'', 1), (''admin'', 2), (''owner'', 3)] role of
     None \<Rightarrow> 0 | Some p \<Rightarrow> p)"

definition list_role_names :: "rbac_world \<Rightarrow> uuid \<Rightarrow> string list" where
  "list_role_names w user_id = map py_lower (get_user_roles w user_id)"

definition actor_level :: "string list \<Rightarrow> int" where
  "actor_level roles = foldl max 0 (map role_priority roles)"

datatype role_operation = AssignRole | RevokeRole

definition self_check :: "uuid \<Rightarrow> uuid \<Rightarrow> string \<Rightarrow> role_operation \<Rightarrow> string list \<Rightarrow> rbac_exn + unit" where
  "self_check actor target role_name operation actor_roles =
     (if actor \<noteq> target then Inr ()
      else if operation = AssignRole \<and> role_priority (py_lower role_name) > actor_level actor_roles
        then Inl (PermissionDenied (''Cannot elevate self to '' @ [CHR 0x27] @ role_name @ [CHR 0x27] @ ''.''))
      else if operation = RevokeRole \<and> actor_level actor_roles > 0
        then Inl (PermissionDenied (''Cannot revoke your own '' @ [CHR 0x27] @ role_name @ [CHR 0x27] @ '' role.''))
      else Inr ())"

definition ensure_role_management_is_allowed ::
    "uuid option \<Rightarrow> uuid \<Rightarrow> string \<Rightarrow> role_operation \<Rightarrow> unit rbac_prog" where
  "ensure_role_management_is_allowed actor target role_name operation =
     (case actor of
        None \<Rightarrow> ok ()
      | Some a \<Rightarrow>
          bindP (readP (\<lambda>w. list_role_names w a)) (\<lambda>actor_roles.
          bindP (readP (\<lambda>w. list_role_names w target)) (\<lambda>target_roles.
          (case self_check a target role_name operation actor_roles of
             Inl exc \<Rightarrow> raise exc
           | Inr _ \<Rightarrow>
               if ''owner'' \<in> set actor_roles
               then (if operation = RevokeRole \<and> py_lower role_name = ''owner''
                     then bindP (readP (is_final_owner target)) (\<lambda>final.
                       if final then raise (PermissionDenied ''owner'') else ok ())
                     else ok ())
               else if ''admin'' \<in> set actor_roles
               then (if py_lower role_name = ''owner'' \<or> ''owner'' \<in> set target_roles
                     then raise (PermissionDenied ''owner'') else ok ())
               else raise (PermissionDenied ''rbac:manage'')))))"

definition normalize_role :: "string \<Rightarrow> string" where
  "normalize_role role_name = py_lower (py_strip role_name)"

definition invalidate :: "uuid \<Rightarrow> rbac_world \<Rightarrow> rbac_world" where
  "invalidate user_id w = w\<lparr>rb_generation := (rb_generation w)(user_id := Suc (rb_generation w user_id)),
     rb_cache := (rb_cache w)(user_id := None)\<rparr>"

definition invalidate_if :: "bool \<Rightarrow> uuid \<Rightarrow> bool rbac_prog" where
  "invalidate_if changed user_id =
     (if changed then opP (\<lambda>w. (invalidate user_id w, Inr True)) else ok False)"

definition assign_role :: "uuid option \<Rightarrow> uuid \<Rightarrow> string \<Rightarrow> bool rbac_prog" where
  "assign_role actor user_id role_name =
     (let normalized = normalize_role role_name in
      bindE (ensure_role_management_is_allowed actor user_id normalized AssignRole) (\<lambda>_.
      bindP (readP (\<lambda>w. get_role_by_name w normalized)) (\<lambda>role.
        (case role of
           None \<Rightarrow> raise (RoleNotFound role_name)
         | Some _ \<Rightarrow>
             bindP (opP (store_assign_role user_id normalized)) (\<lambda>assigned.
             invalidate_if assigned user_id)))))"

text \<open>The check for the last owner and the DELETE, under the advisory lock.\<close>

definition guarded_revoke :: "uuid \<Rightarrow> string \<Rightarrow> rbac_world \<Rightarrow> rbac_world \<times> (rbac_exn + bool)" where
  "guarded_revoke user_id normalized w =
     (if normalized = ''owner'' \<and> is_final_owner user_id w then (w, Inl (PermissionDenied ''owner''))
      else (let (v, revoked) = store_revoke_role user_id normalized w in (v, Inr revoked)))"

definition revoke_role :: "uuid option \<Rightarrow> uuid \<Rightarrow> string \<Rightarrow> bool rbac_prog" where
  "revoke_role actor user_id role_name =
     (let normalized = normalize_role role_name in
      if normalized = ''member'' then raise (PermissionDenied ''member'')
      else bindE (ensure_role_management_is_allowed actor user_id normalized RevokeRole) (\<lambda>_.
           bindP (readP (\<lambda>w. get_role_by_name w normalized)) (\<lambda>role.
             (case role of
                None \<Rightarrow> raise (RoleNotFound role_name)
              | Some _ \<Rightarrow>
                  bindE (opP (guarded_revoke user_id normalized)) (\<lambda>revoked.
                  invalidate_if revoked user_id)))))"

definition bootstrap_admins :: "string list \<Rightarrow> int rbac_prog" where
  "bootstrap_admins emails =
     (let normalized = map (\<lambda>e. py_lower (py_strip e)) (filter (\<lambda>e. \<not> is_blank e) emails) in
      if normalized = [] then ok 0 else store_bootstrap_admins normalized 0)"

subsection \<open>Permissions\<close>

definition permissions_of_roles :: "string set \<Rightarrow> string set" where
  "permissions_of_roles roles =
     (\<Union>r\<in>insert ''member'' roles. role_permissions r) \<union> (if ''owner'' \<in> roles then {''*''} else {})"

definition cached_permissions :: "rat \<Rightarrow> uuid \<Rightarrow> rbac_world \<Rightarrow> string set option" where
  "cached_permissions ttl user_id w =
     (if ttl > 0
      then (case rb_cache w user_id of
              Some (cached_at, permissions) \<Rightarrow> if rb_now w - cached_at < ttl then Some permissions else None
            | None \<Rightarrow> None)
      else None)"

definition store_permissions ::
    "rat \<Rightarrow> uuid \<Rightarrow> nat \<Rightarrow> string set \<Rightarrow> rbac_world \<Rightarrow> rbac_world \<times> (rbac_exn + string set)" where
  "store_permissions ttl user_id generation permissions w =
     (if ttl > 0 \<and> rb_generation w user_id = generation
      then (w\<lparr>rb_cache := (rb_cache w)(user_id \<mapsto> (rb_now w, permissions))\<rparr>, Inr permissions)
      else (w, Inr permissions))"

text \<open>The generation is read in the same step as the cache (no suspension in between).\<close>

definition get_permissions :: "rat \<Rightarrow> uuid option \<Rightarrow> string set rbac_prog" where
  "get_permissions ttl user_id =
     (case user_id of
        None \<Rightarrow> ok {}
      | Some u \<Rightarrow>
          bindP (readP (\<lambda>w. (cached_permissions ttl u w, rb_generation w u))) (\<lambda>(cached, generation).
            (case cached of
               Some permissions \<Rightarrow> ok permissions
             | None \<Rightarrow>
                 bindP (readP (\<lambda>w. set (get_user_roles w u))) (\<lambda>roles.
                 opP (store_permissions ttl u generation (permissions_of_roles roles))))))"

record authorization_decision =
  ad_allowed :: bool
  ad_permission_key :: string
  ad_matched_role :: "string option"
  ad_matched_permission :: "string option"

definition denied :: "string \<Rightarrow> authorization_decision" where
  "denied permission =
     \<lparr>ad_allowed = False, ad_permission_key = permission, ad_matched_role = None, ad_matched_permission = None\<rparr>"

definition matched_role :: "string \<Rightarrow> string list \<Rightarrow> string" where
  "matched_role permission roles =
     (case find (\<lambda>r. permission \<in> role_permissions r) roles of None \<Rightarrow> ''member'' | Some r \<Rightarrow> r)"

definition authorize :: "rat \<Rightarrow> uuid option \<Rightarrow> string \<Rightarrow> authorization_decision rbac_prog" where
  "authorize ttl user_id permission =
     (case user_id of
        None \<Rightarrow> ok (denied permission)
      | Some u \<Rightarrow>
          bindE (get_permissions ttl (Some u)) (\<lambda>permissions.
          bindP (readP (\<lambda>w. get_user_roles w u)) (\<lambda>roles.
            if ''*'' \<in> permissions
            then ok \<lparr>ad_allowed = True, ad_permission_key = permission,
                   ad_matched_role = Some (if ''owner'' \<in> set roles then ''owner'' else ''member''),
                   ad_matched_permission = Some ''*''\<rparr>
            else if permission \<in> permissions
            then ok \<lparr>ad_allowed = True, ad_permission_key = permission,
                   ad_matched_role = Some (matched_role permission roles), ad_matched_permission = Some permission\<rparr>
            else ok (denied permission))))"

definition has_permission :: "rat \<Rightarrow> uuid option \<Rightarrow> string \<Rightarrow> bool rbac_prog" where
  "has_permission ttl user_id permission =
     bindE (authorize ttl user_id permission) (\<lambda>d. ok (ad_allowed d))"

definition get_highest_priority_role :: "string list \<Rightarrow> string" where
  "get_highest_priority_role roles =
     (case find (\<lambda>r. r \<in> insert ''member'' (set roles)) [''owner'', ''admin'', ''operator'', ''member''] of
        None \<Rightarrow> ''member'' | Some r \<Rightarrow> r)"

definition highest_role :: "uuid \<Rightarrow> string rbac_prog" where
  "highest_role user_id = bindP (readP (\<lambda>w. get_user_roles w user_id)) (\<lambda>roles. ok (get_highest_priority_role roles))"

text \<open>The first three arguments are the caller's \<open>kind\<close>, \<open>is_authenticated\<close> and \<open>user_id\<close>.\<close>

definition resolve_caller_role ::
    "string \<Rightarrow> bool \<Rightarrow> uuid option \<Rightarrow> bool \<Rightarrow> bool \<Rightarrow> string option rbac_prog" where
  "resolve_caller_role kind is_authenticated user_id has_rbac enforcement_enabled =
     (if \<not> enforcement_enabled then ok (Some kind)
      else (case user_id of
              None \<Rightarrow> ok None
            | Some u \<Rightarrow>
                if \<not> is_authenticated then ok None
                else if \<not> has_rbac then ok (Some ''member'')
                else bindE (highest_role u) (\<lambda>r. ok (Some r))))"

end
