(* ===== verification/Rbac_Correct.thy ===== *)
theory Rbac_Correct
  imports Rbac
begin

section \<open>What the role service guarantees\<close>

text \<open>
  The highest role of a user is the maximum in the order of the platform's roles; \<open>authorize\<close> grants
  exactly the permissions of the user's roles; and, for any number of concurrent requests, the last owner
  stays, only owners change the set of owners, and users without a managing role change nothing.
\<close>

subsection \<open>The order of roles\<close>

datatype role_rank = RankMember | RankOperator | RankAdmin | RankOwner

fun rank_name :: "role_rank \<Rightarrow> string" where
  "rank_name RankMember = ''member''"
| "rank_name RankOperator = ''operator''"
| "rank_name RankAdmin = ''admin''"
| "rank_name RankOwner = ''owner''"

lemma rank_priority_inject: "role_priority (rank_name a) = role_priority (rank_name b) \<longleftrightarrow> a = b"
  by (cases a; cases b) (simp_all add: role_priority_def)

instantiation role_rank :: linorder
begin

definition less_eq_role_rank :: "role_rank \<Rightarrow> role_rank \<Rightarrow> bool" where
  "a \<le> b \<longleftrightarrow> role_priority (rank_name a) \<le> role_priority (rank_name b)"

definition less_role_rank :: "role_rank \<Rightarrow> role_rank \<Rightarrow> bool" where
  "a < b \<longleftrightarrow> role_priority (rank_name a) < role_priority (rank_name b)"

instance
  by standard (auto simp: less_eq_role_rank_def less_role_rank_def rank_priority_inject)

end

lemma rank_order [simp]:
  "RankMember \<le> a" "RankOperator \<le> a \<longleftrightarrow> a \<noteq> RankMember" "RankAdmin \<le> a \<longleftrightarrow> a \<in> {RankAdmin, RankOwner}"
  "RankOwner \<le> a \<longleftrightarrow> a = RankOwner"
  by (cases a; simp add: less_eq_role_rank_def role_priority_def)+

definition ranks :: "string list \<Rightarrow> role_rank set" where
  "ranks roles = insert RankMember {a. rank_name a \<in> set roles}"

lemma finite_ranks: "finite (ranks roles)"
proof -
  have "ranks roles \<subseteq> {RankMember, RankOperator, RankAdmin, RankOwner}"
    by (auto intro: role_rank.exhaust)
  then show ?thesis by (rule finite_subset) simp
qed

lemma highest_priority_role_max: "get_highest_priority_role roles = rank_name (Max (ranks roles))"
proof -
  have max: "Max (ranks roles) = a" if "a \<in> ranks roles" "\<And>b. b \<in> ranks roles \<Longrightarrow> b \<le> a" for a
    using that finite_ranks by (simp add: Max_eqI)
  have le: "b \<le> a" if "b \<in> ranks roles" "\<And>c. c \<in> ranks roles \<Longrightarrow> c \<noteq> b \<or> b \<le> a" for a b using that by blast
  consider "''owner'' \<in> set roles" | "''owner'' \<notin> set roles" "''admin'' \<in> set roles"
    | "''owner'' \<notin> set roles" "''admin'' \<notin> set roles" "''operator'' \<in> set roles"
    | "''owner'' \<notin> set roles" "''admin'' \<notin> set roles" "''operator'' \<notin> set roles" by blast
  then show ?thesis
  proof cases
    case 1
    have "Max (ranks roles) = RankOwner"
    proof (rule max)
      show "RankOwner \<in> ranks roles" using 1 by (simp add: ranks_def)
      show "b \<le> RankOwner" for b by (cases b) simp_all
    qed
    with 1 show ?thesis by (simp add: get_highest_priority_role_def)
  next
    case 2
    have "Max (ranks roles) = RankAdmin"
    proof (rule max)
      show "RankAdmin \<in> ranks roles" using 2 by (simp add: ranks_def)
      show "b \<le> RankAdmin" if "b \<in> ranks roles" for b using that 2 by (cases b) (auto simp: ranks_def)
    qed
    with 2 show ?thesis by (simp add: get_highest_priority_role_def)
  next
    case 3
    have "Max (ranks roles) = RankOperator"
    proof (rule max)
      show "RankOperator \<in> ranks roles" using 3 by (simp add: ranks_def)
      show "b \<le> RankOperator" if "b \<in> ranks roles" for b using that 3 by (cases b) (auto simp: ranks_def)
    qed
    with 3 show ?thesis by (simp add: get_highest_priority_role_def)
  next
    case 4
    have "Max (ranks roles) = RankMember"
    proof (rule max)
      show "RankMember \<in> ranks roles" by (simp add: ranks_def)
      show "b \<le> RankMember" if "b \<in> ranks roles" for b using that 4 by (cases b) (auto simp: ranks_def)
    qed
    with 4 show ?thesis by (simp add: get_highest_priority_role_def)
  qed
qed

subsection \<open>Authorization\<close>

lemma set_get_user_roles: "set (get_user_roles w u) = {r. (u, r) \<in> set (rb_assignments w)}"
  by (auto simp: get_user_roles_def) force

lemma owner_permissions: "r = ''owner'' \<longleftrightarrow> ''*'' \<in> role_permissions r"
  by (auto simp: role_permissions_def default_role_permissions_def)

lemma wildcard_permissions: "''*'' \<in> permissions_of_roles roles \<longleftrightarrow> ''owner'' \<in> roles"
proof -
  have "''*'' \<in> (\<Union>r\<in>insert ''member'' roles. role_permissions r) \<longleftrightarrow> ''owner'' \<in> roles"
    unfolding UN_iff owner_permissions [symmetric] by auto
  then show ?thesis by (auto simp: permissions_of_roles_def)
qed

lemma get_user_roles_cong: "rb_assignments v = rb_assignments w \<Longrightarrow> get_user_roles v u = get_user_roles w u"
  by (simp add: get_user_roles_def)

text \<open>The cache of a user is empty, expired or up to date.\<close>

definition cache_fresh :: "rat \<Rightarrow> uuid \<Rightarrow> rbac_world \<Rightarrow> bool" where
  "cache_fresh ttl u w \<longleftrightarrow>
     cached_permissions ttl u w \<in> {None, Some (permissions_of_roles (set (get_user_roles w u)))}"

lemma get_permissions_exec:
  assumes "cache_fresh ttl u w"
  shows "\<exists>v. exec_prog (get_permissions ttl (Some u)) w = (v, Inr (permissions_of_roles (set (get_user_roles w u)))) \<and>
    rb_assignments v = rb_assignments w \<and> cache_fresh ttl u v"
proof (cases "cached_permissions ttl u w")
  case None
  let ?ps = "permissions_of_roles (set (get_user_roles w u))"
  have "exec_prog (get_permissions ttl (Some u)) w = store_permissions ttl u (rb_generation w u) ?ps w"
    using None by (simp add: get_permissions_def exec_bindP)
  moreover have "cache_fresh ttl u (fst (store_permissions ttl u (rb_generation w u) ?ps w))"
    using None by (auto simp: cache_fresh_def store_permissions_def cached_permissions_def get_user_roles_def)
  ultimately show ?thesis by (simp add: store_permissions_def split: if_splits)
next
  case (Some ps)
  with assms show ?thesis by (simp add: get_permissions_def exec_bindP cache_fresh_def)
qed

text \<open>What a user may do by the roles in the table.\<close>

definition may :: "rbac_world \<Rightarrow> uuid \<Rightarrow> string \<Rightarrow> bool" where
  "may w u permission \<longleftrightarrow> ''owner'' \<in> set (get_user_roles w u) \<or>
     (\<exists>r\<in>insert ''member'' (set (get_user_roles w u)). permission \<in> role_permissions r)"

lemma authorize_exec:
  assumes "cache_fresh ttl u w"
  shows "\<exists>v d. exec_prog (authorize ttl (Some u) permission) w = (v, Inr d) \<and> (ad_allowed d \<longleftrightarrow> may w u permission) \<and>
    rb_assignments v = rb_assignments w \<and> cache_fresh ttl u v"
proof -
  obtain v where v: "exec_prog (get_permissions ttl (Some u)) w = (v, Inr (permissions_of_roles (set (get_user_roles w u))))"
    "rb_assignments v = rb_assignments w" "cache_fresh ttl u v"
    using get_permissions_exec [OF assms] by blast
  have "may w u permission \<longleftrightarrow> ''*'' \<in> permissions_of_roles (set (get_user_roles w u)) \<or>
      permission \<in> permissions_of_roles (set (get_user_roles w u))"
    unfolding wildcard_permissions may_def by (auto simp: permissions_of_roles_def split: if_splits)
  with v show ?thesis
    by (auto simp: authorize_def exec_bindE exec_bindP denied_def)
qed

lemma has_permission_exec:
  assumes "cache_fresh ttl u w"
  shows "\<exists>v. exec_prog (has_permission ttl (Some u) permission) w = (v, Inr (may w u permission)) \<and>
    rb_assignments v = rb_assignments w \<and> cache_fresh ttl u v"
  using authorize_exec [OF assms, of permission] by (auto simp: has_permission_def exec_bindE)

subsection \<open>Requests\<close>

datatype rbac_request =
    ReqAssign "uuid option" uuid string
  | ReqRevoke "uuid option" uuid string
  | ReqAuthorize rat "uuid option" string
  | ReqBootstrap "string list"

definition settled :: "('s, 'a) prog \<Rightarrow> ('s, unit) prog" where
  "settled p = bindP p (\<lambda>_. Ret ())"

fun serve_rbac :: "rbac_request \<Rightarrow> (rbac_world, unit) prog" where
  "serve_rbac (ReqAssign actor u r) = settled (assign_role actor u r)"
| "serve_rbac (ReqRevoke actor u r) = settled (revoke_role actor u r)"
| "serve_rbac (ReqAuthorize ttl u p) = settled (authorize ttl u p)"
| "serve_rbac (ReqBootstrap emails) = settled (bootstrap_admins emails)"

lemma py_lower_idem [simp]: "py_lower (py_lower s) = py_lower s"
  by (auto simp: py_lower_def Let_def)

lemma normalize_lower [simp]: "py_lower (normalize_role r) = normalize_role r"
  by (simp add: normalize_role_def)

lemma get_role_lower: "get_role_by_name w n = Some r \<Longrightarrow> r = py_lower n"
  by (auto simp: get_role_by_name_def dest: find_Some_iff_mem)

lemma store_permissions_assignments [simp]:
  "rb_assignments (fst (store_permissions ttl u g ps w)) = rb_assignments w"
  by (simp add: store_permissions_def)

lemma invalidate_assignments [simp]: "rb_assignments (invalidate u w) = rb_assignments w"
  by (simp add: invalidate_def)

subsection \<open>The last owner\<close>

definition keeps_an_owner :: "rbac_world \<Rightarrow> rbac_world \<Rightarrow> bool" where
  "keeps_an_owner w v \<longleftrightarrow> (final_owners w \<noteq> {} \<longrightarrow> final_owners v \<noteq> {})"

interpretation owner: stable_situation keeps_an_owner "\<lambda>_. True"
  by unfold_locales (auto simp: keeps_an_owner_def intro!: transpI reflpI)

lemma final_owners_cong: "rb_assignments v = rb_assignments w \<Longrightarrow> final_owners v = final_owners w"
  by (simp add: final_owners_def)

lemma final_owners_mono: "set (rb_assignments w) \<subseteq> set (rb_assignments v) \<Longrightarrow> final_owners w \<subseteq> final_owners v"
  by (auto simp: final_owners_def)

lemma keeps_an_owner_grow: "set (rb_assignments w) \<subseteq> set (rb_assignments v) \<Longrightarrow> keeps_an_owner w v"
  using final_owners_mono [of w v] by (auto simp: keeps_an_owner_def)

lemma store_assign_grows: "set (rb_assignments w) \<subseteq> set (rb_assignments (fst (store_assign_role u r w)))"
  by (auto simp: store_assign_role_def split: option.splits)

lemma bootstrap_grows: "set (rb_assignments w) \<subseteq> set (rb_assignments (fst (bootstrap_one e w)))"
  by (auto simp: bootstrap_one_def split: option.splits prod.splits)

lemma final_owners_revoke:
  "py_lower n = n \<Longrightarrow> final_owners w - {u} \<subseteq> final_owners (fst (store_revoke_role u n w)) \<and>
   (n \<noteq> ''owner'' \<longrightarrow> final_owners (fst (store_revoke_role u n w)) = final_owners w) \<and>
   (u \<notin> final_owners w \<longrightarrow> final_owners (fst (store_revoke_role u n w)) = final_owners w)"
  by (auto simp: final_owners_def store_revoke_role_def image_iff split: option.split dest!: get_role_lower)

lemma guarded_revoke_keeps:
  assumes "py_lower n = n"
  shows "keeps_an_owner w (fst (guarded_revoke u n w))"
proof (cases "n = ''owner'' \<and> is_final_owner u w")
  case True
  then show ?thesis by (simp add: guarded_revoke_def keeps_an_owner_def)
next
  case False
  have fst: "fst (guarded_revoke u n w) = fst (store_revoke_role u n w)"
    using False by (auto simp: guarded_revoke_def split_beta)
  show ?thesis
  proof (cases "n = ''owner'' \<and> u \<in> final_owners w")
    case True
    with False have "card (final_owners w) \<noteq> 1" by (simp add: is_final_owner_def)
    then have "final_owners w \<noteq> {u}" by auto
    with True have "final_owners w - {u} \<noteq> {}" by blast
    with final_owners_revoke [OF assms, of w u] show ?thesis by (auto simp: keeps_an_owner_def fst)
  next
    case False
    with final_owners_revoke [OF assms, of w u] show ?thesis by (auto simp: keeps_an_owner_def fst)
  qed
qed

lemma ensure_safe: "safe_when keeps_an_owner (\<lambda>_. True) (ensure_role_management_is_allowed actor u r op)"
  unfolding ensure_role_management_is_allowed_def
  by (intro safe_when_intros owner.bindP owner.readP)

lemma invalidate_if_safe: "safe_when keeps_an_owner (\<lambda>_. True) (invalidate_if b u)"
  unfolding invalidate_if_def
  by (intro safe_when_intros owner.opP) (simp add: keeps_an_owner_grow)

lemma store_bootstrap_safe: "safe_when keeps_an_owner (\<lambda>_. True) (store_bootstrap_admins emails n)"
proof (induction emails arbitrary: n)
  case (Cons e es)
  show ?case unfolding store_bootstrap_admins.simps
    by (intro owner.bindP owner.opP keeps_an_owner_grow bootstrap_grows Cons)
qed (simp add: safe_when_Ret)

lemma authorize_safe: "safe_when keeps_an_owner (\<lambda>_. True) (authorize ttl u p)"
  unfolding authorize_def get_permissions_def
  by (intro safe_when_intros owner.bindE owner.bindP owner.readP owner.opP) (simp add: keeps_an_owner_grow)

lemma serve_rbac_safe: "safe_when keeps_an_owner (\<lambda>_. True) (serve_rbac req)"
proof (cases req)
  case (ReqAssign actor u r)
  then show ?thesis
    unfolding ReqAssign serve_rbac.simps settled_def assign_role_def Let_def
    by (intro safe_when_intros owner.bindE owner.bindP owner.readP owner.opP ensure_safe invalidate_if_safe
        keeps_an_owner_grow store_assign_grows)
next
  case (ReqRevoke actor u r)
  then show ?thesis
    unfolding ReqRevoke serve_rbac.simps settled_def revoke_role_def Let_def
    by (intro safe_when_intros owner.bindE owner.bindP owner.readP owner.opP ensure_safe invalidate_if_safe
        guarded_revoke_keeps) simp
next
  case (ReqAuthorize ttl u p)
  then show ?thesis by (simp add: settled_def) (intro owner.bindP authorize_safe safe_when_Ret)
next
  case (ReqBootstrap emails)
  then show ?thesis
    by (simp add: settled_def bootstrap_admins_def Let_def)
      (intro conjI impI owner.bindP store_bootstrap_safe safe_when_intros)
qed

lemma owner_pool:
  assumes "pool_step\<^sup>*\<^sup>* (w, map serve_rbac reqs) (w', ps)"
  shows "keeps_an_owner w w'"
  by (rule owner.pool [OF assms]) (auto intro: serve_rbac_safe)

subsection \<open>Who changes what\<close>

text \<open>Once the check has passed an actor that is no owner, the role is not that of owners and the actor was an admin.\<close>

lemma ensure_wp:
  assumes "reflp E" and "transp E" and "\<And>t. E s t \<Longrightarrow> ''owner'' \<notin> set (list_role_names t a)"
  shows "wp E E (ensure_role_management_is_allowed (Some a) u r op)
    (\<lambda>x t. E s t \<and> (x = Inr () \<longrightarrow> py_lower r \<noteq> ''owner'' \<and> (\<exists>v. E s v \<and> ''admin'' \<in> set (list_role_names v a)))) s"
proof -
  have tr: "E s t \<Longrightarrow> E t v \<Longrightarrow> E s v" for t v using assms(2) by (blast dest: transpD)
  show ?thesis
    using assms(3) tr reflpD [OF assms(1)]
    by (auto simp: ensure_role_management_is_allowed_def wp_bindP split: sum.split)
qed

definition managers :: "rbac_world \<Rightarrow> uuid set" where
  "managers w = {u. \<exists>r. (u, r) \<in> set (rb_assignments w) \<and> py_lower r \<in> {''owner'', ''admin''}}"

lemma owner_role_iff: "''owner'' \<in> set (list_role_names w a) \<longleftrightarrow> a \<in> final_owners w"
  by (force simp: list_role_names_def set_get_user_roles final_owners_def)

lemma manager_role_iff:
  "''owner'' \<in> set (list_role_names w a) \<or> ''admin'' \<in> set (list_role_names w a) \<longleftrightarrow> a \<in> managers w"
  by (force simp: list_role_names_def set_get_user_roles managers_def)

text \<open>Requests on behalf of a user; who that is; which requests the theorems below admit.\<close>

fun request_of :: "uuid set \<Rightarrow> rbac_request \<Rightarrow> bool" where
  "request_of actors (ReqAssign actor u r) \<longleftrightarrow> (\<exists>a\<in>actors. actor = Some a)"
| "request_of actors (ReqRevoke actor u r) \<longleftrightarrow> (\<exists>a\<in>actors. actor = Some a)"
| "request_of actors (ReqAuthorize ttl u p) \<longleftrightarrow> True"
| "request_of actors (ReqBootstrap emails) \<longleftrightarrow> False"

definition same_owners :: "rbac_world \<Rightarrow> rbac_world \<Rightarrow> bool" where
  "same_owners w v \<longleftrightarrow> final_owners v = final_owners w"

definition same_assignments :: "rbac_world \<Rightarrow> rbac_world \<Rightarrow> bool" where
  "same_assignments w v \<longleftrightarrow> rb_assignments v = rb_assignments w"

interpretation not_owners: stable_situation same_owners "\<lambda>w. actors \<inter> final_owners w = {}" for actors
  by unfold_locales (auto simp: same_owners_def intro!: transpI reflpI)

interpretation not_managers: stable_situation same_assignments "\<lambda>w. actors \<inter> managers w = {}" for actors
  by unfold_locales (auto simp: same_assignments_def managers_def intro!: transpI reflpI)

lemma same_owners_cong: "rb_assignments v = rb_assignments w \<Longrightarrow> same_owners w v"
  by (simp add: same_owners_def final_owners_def)

lemma store_assign_same_owners:
  "py_lower n = n \<Longrightarrow> n \<noteq> ''owner'' \<Longrightarrow> same_owners w (fst (store_assign_role u n w))"
  by (auto simp: same_owners_def final_owners_def store_assign_role_def split: option.split dest!: get_role_lower)

lemma guarded_revoke_same_owners:
  "py_lower n = n \<Longrightarrow> n \<noteq> ''owner'' \<Longrightarrow> same_owners w (fst (guarded_revoke u n w))"
  using final_owners_revoke [of n w u] by (simp add: same_owners_def guarded_revoke_def split_beta)

text \<open>What follows the check, given that the role is not that of owners.\<close>

lemma assign_rest_same_owners:
  assumes "py_lower n = n" and "n \<noteq> ''owner''"
  shows "safe same_owners (bindP (readP (\<lambda>w. get_role_by_name w n)) (\<lambda>role. (case role of
      None \<Rightarrow> raise exc | Some _ \<Rightarrow> bindP (opP (store_assign_role u n)) (\<lambda>b. invalidate_if b u)))) s"
  unfolding invalidate_if_def
  by (rule safe_whenD [where P = "\<lambda>w. {} \<inter> final_owners w = {}"],
      intro safe_when_intros not_owners.bindP not_owners.readP not_owners.opP store_assign_same_owners [OF assms])
    (simp_all add: same_owners_cong)

lemma revoke_rest_same_owners:
  assumes "py_lower n = n" and "n \<noteq> ''owner''"
  shows "safe same_owners (bindP (readP (\<lambda>w. get_role_by_name w n)) (\<lambda>role. (case role of
      None \<Rightarrow> raise exc | Some _ \<Rightarrow> bindE (opP (guarded_revoke u n)) (\<lambda>b. invalidate_if b u)))) s"
  unfolding invalidate_if_def
  by (rule safe_whenD [where P = "\<lambda>w. {} \<inter> final_owners w = {}"],
      intro safe_when_intros not_owners.bindE not_owners.bindP not_owners.readP not_owners.opP
        guarded_revoke_same_owners [OF assms])
    (simp_all add: same_owners_cong)

lemma ensure_not_owner:
  assumes "a \<notin> final_owners s" and "\<And>t. py_lower r \<noteq> ''owner'' \<Longrightarrow> safe same_owners p t"
  shows "safe same_owners (bindE (ensure_role_management_is_allowed (Some a) u r op) (\<lambda>_. p)) s"
proof -
  have rel: "reflp same_owners" "transp same_owners" by (auto simp: same_owners_def intro!: reflpI transpI)
  have "''owner'' \<notin> set (list_role_names t a)" if "same_owners s t" for t
    using that assms(1) by (simp add: owner_role_iff same_owners_def)
  from ensure_wp [OF rel this] show ?thesis
    by (rule wp_bindE_I [OF wp_mono]) (use assms(2) in \<open>auto split: sum.split\<close>)
qed

lemma ensure_not_manager:
  assumes "a \<notin> managers s"
  shows "safe same_assignments (bindE (ensure_role_management_is_allowed (Some a) u r op) p) s"
proof -
  have rel: "reflp same_assignments" "transp same_assignments"
    by (auto simp: same_assignments_def intro!: reflpI transpI)
  have no: "''owner'' \<notin> set (list_role_names t a)" "''admin'' \<notin> set (list_role_names t a)" if "same_assignments s t" for t
  proof -
    have "managers t = managers s" using that by (simp add: same_assignments_def managers_def)
    then show "''owner'' \<notin> set (list_role_names t a)" "''admin'' \<notin> set (list_role_names t a)"
      using assms manager_role_iff [of t a] by auto
  qed
  from ensure_wp [OF rel no(1)] show ?thesis
    by (rule wp_bindE_I [OF wp_mono]) (use no(2) in \<open>auto split: sum.split\<close>)
qed

lemma settled_safe: "safe_when E P p \<Longrightarrow> safe_when E P (settled p)"
  by (auto simp: safe_when_def settled_def wp_bindP elim!: wp_mono)

lemma serve_not_owner:
  assumes "request_of actors req"
  shows "safe_when same_owners (\<lambda>w. actors \<inter> final_owners w = {}) (serve_rbac req)"
proof (cases req)
  case (ReqAssign actor u r)
  with assms obtain a where a: "a \<in> actors" "actor = Some a" by auto
  have "safe same_owners (assign_role (Some a) u r) s" if "actors \<inter> final_owners s = {}" for s
    unfolding assign_role_def Let_def
    by (rule ensure_not_owner, use that a(1) in blast, rule assign_rest_same_owners) simp_all
  then show ?thesis unfolding ReqAssign a(2) serve_rbac.simps by (intro settled_safe) (simp add: safe_when_def)
next
  case (ReqRevoke actor u r)
  with assms obtain a where a: "a \<in> actors" "actor = Some a" by auto
  have "safe same_owners (revoke_role (Some a) u r) s" if "actors \<inter> final_owners s = {}" for s
  proof (cases "normalize_role r = ''member''")
    case False
    have "safe same_owners (bindE (ensure_role_management_is_allowed (Some a) u (normalize_role r) RevokeRole) (\<lambda>_.
        bindP (readP (\<lambda>w. get_role_by_name w (normalize_role r))) (\<lambda>role. (case role of None \<Rightarrow> raise (RoleNotFound r)
          | Some _ \<Rightarrow> bindE (opP (guarded_revoke u (normalize_role r))) (\<lambda>b. invalidate_if b u))))) s"
      by (rule ensure_not_owner, use that a(1) in blast, rule revoke_rest_same_owners) simp_all
    with False show ?thesis by (simp add: revoke_role_def Let_def)
  qed (simp add: revoke_role_def)
  then show ?thesis unfolding ReqRevoke a(2) serve_rbac.simps by (intro settled_safe) (simp add: safe_when_def)
next
  case (ReqAuthorize ttl u p)
  have "safe_when same_owners (\<lambda>w. actors \<inter> final_owners w = {}) (authorize ttl u p)"
    unfolding authorize_def get_permissions_def
    by (intro safe_when_intros not_owners.bindE not_owners.bindP not_owners.readP not_owners.opP)
      (simp add: same_owners_cong)
  then show ?thesis unfolding ReqAuthorize serve_rbac.simps by (rule settled_safe)
qed (use assms in simp)

lemma serve_not_manager:
  assumes "request_of actors req"
  shows "safe_when same_assignments (\<lambda>w. actors \<inter> managers w = {}) (serve_rbac req)"
proof (cases req)
  case (ReqAssign actor u r)
  with assms obtain a where a: "a \<in> actors" "actor = Some a" by auto
  have "safe same_assignments (assign_role (Some a) u r) s" if "actors \<inter> managers s = {}" for s
    unfolding assign_role_def Let_def using ensure_not_manager that a(1) by blast
  then show ?thesis unfolding ReqAssign a(2) serve_rbac.simps by (intro settled_safe) (simp add: safe_when_def)
next
  case (ReqRevoke actor u r)
  with assms obtain a where a: "a \<in> actors" "actor = Some a" by auto
  have "safe same_assignments (revoke_role (Some a) u r) s" if "actors \<inter> managers s = {}" for s
  proof (cases "normalize_role r = ''member''")
    case False
    have "a \<notin> managers s" using that a(1) by blast
    from ensure_not_manager [OF this] False show ?thesis by (simp add: revoke_role_def Let_def)
  qed (simp add: revoke_role_def)
  then show ?thesis unfolding ReqRevoke a(2) serve_rbac.simps by (intro settled_safe) (simp add: safe_when_def)
next
  case (ReqAuthorize ttl u p)
  have "safe_when same_assignments (\<lambda>w. actors \<inter> managers w = {}) (authorize ttl u p)"
    unfolding authorize_def get_permissions_def
    by (intro safe_when_intros not_managers.bindE not_managers.bindP not_managers.readP not_managers.opP)
      (simp add: same_assignments_def)
  then show ?thesis unfolding ReqAuthorize serve_rbac.simps by (rule settled_safe)
qed (use assms in simp)

lemma owners_pool:
  assumes "pool_step\<^sup>*\<^sup>* (w, map serve_rbac reqs) (w', ps)" and "\<forall>req\<in>set reqs. request_of actors req"
    and "actors \<inter> final_owners w = {}"
  shows "final_owners w' = final_owners w"
  using not_owners.pool [OF assms(1,3)] serve_not_owner assms(2) by (auto simp: same_owners_def)

lemma assignments_pool:
  assumes "pool_step\<^sup>*\<^sup>* (w, map serve_rbac reqs) (w', ps)" and "\<forall>req\<in>set reqs. request_of actors req"
    and "actors \<inter> managers w = {}"
  shows "rb_assignments w' = rb_assignments w"
  using not_managers.pool [OF assms(1,3)] serve_not_manager assms(2) by (auto simp: same_assignments_def)

end
