(* ===== verification/Tool_Executor.thy ===== *)
theory Tool_Executor
  imports Guardrails Rate_Limit Quotas Rbac_Correct
begin

section \<open>The tool executor and its gates\<close>

text \<open>
  \<open>ai/tools/executor.py\<close>, \<open>ai/tools/authorizer.py\<close> and \<open>ai/mcp/permissions.py\<close>: a tool call passes the registry,
  argument validation, authorization (with the role service), the MCP allowlists, the guardrails, the
  daily quota and the rate limit before its handler runs. The state holds the states of these components
  and the handler calls made so far; each component's program runs on its part (\<open>zoom\<close>). What a handler
  does on its n-th call, the text of validation messages and the serialization of arguments are
  parameters. Auditing, spans and logging have no effect on this state.
\<close>

record tool_result =
  tr_success :: bool
  tr_data :: pyval
  tr_error :: "string option"
  tr_error_code :: "string option"
  tr_metadata :: "pyval dict"

record tool_call =
  tl_name :: string
  tl_arguments :: "pyval dict"
  tl_call_id :: "string option"
  tl_thought_signature :: "string option"

record tool_context =
  tc_kind :: string
  tc_user_id :: "uuid option"

datatype tool_outcome = ToolReturned tool_result | ToolTimedOut | ToolRaised

record tool_handler =
  th_normalize :: "(pyval dict \<Rightarrow> pyval) option"
  th_server_name :: "string option"
  th_tool_name :: "string option"
  th_execute :: "nat \<Rightarrow> pyval dict \<Rightarrow> tool_outcome"

record mcp_policy =
  mp_allowed_servers :: "string list"
  mp_allowed_tools :: "string list dict"

record tool_config =
  xc_registry :: tool_registry
  xc_handler :: "string \<Rightarrow> tool_handler option"
  xc_message :: "validation_error \<Rightarrow> string"
  xc_has_rbac :: bool
  xc_governance_enabled :: bool
  xc_enforcement_enabled :: bool
  xc_cache_ttl :: rat
  xc_mcp_policy :: "mcp_policy option"
  xc_guardrails :: "guardrail_engine option"
  xc_serialize :: "pyval dict \<Rightarrow> string"
  xc_rate_extensions :: bool
  xc_daily_quota :: "int option"
  xc_per_minute :: int
  xc_str_uuid :: "uuid \<Rightarrow> string"

record tool_world =
  xw_rbac :: rbac_world
  xw_rate :: rl_world
  xw_quota :: quota_world
  xw_calls :: "(string \<times> pyval dict) list"
  xw_latency_ms :: int

datatype tool_exn = RateLimitExceeded string "int option" | ToolTypeError | ToolRbacError rbac_exn | ToolRateError rate_error

type_synonym 'a tool_prog = "(tool_world, tool_exn + 'a) prog"

definition put_rbac :: "rbac_world \<Rightarrow> tool_world \<Rightarrow> tool_world" where
  "put_rbac s w = w\<lparr>xw_rbac := s\<rparr>"

definition put_rate :: "rl_world \<Rightarrow> tool_world \<Rightarrow> tool_world" where
  "put_rate s w = w\<lparr>xw_rate := s\<rparr>"

definition put_quota :: "quota_world \<Rightarrow> tool_world \<Rightarrow> tool_world" where
  "put_quota s w = w\<lparr>xw_quota := s\<rparr>"

interpretation rbac_part: substate xw_rbac put_rbac
  by unfold_locales (simp_all add: put_rbac_def)

interpretation rate_part: substate xw_rate put_rate
  by unfold_locales (simp_all add: put_rate_def)

interpretation quota_part: substate xw_quota put_quota
  by unfold_locales (simp_all add: put_quota_def)

subsection \<open>MCP allowlists\<close>

definition quoted :: "string \<Rightarrow> string" where
  "quoted s = [CHR 0x27] @ s @ [CHR 0x27]"

definition authorize_server :: "mcp_policy \<Rightarrow> string \<Rightarrow> string option" where
  "authorize_server policy server_name =
     (if mp_allowed_servers policy = [] then None
      else if server_name \<notin> set (mp_allowed_servers policy)
        then Some (''MCP server '' @ quoted server_name @ '' is not in the allowed servers list'')
      else None)"

definition authorize_tool :: "mcp_policy \<Rightarrow> string \<Rightarrow> string \<Rightarrow> string option" where
  "authorize_tool policy server_name tool_name =
     (case authorize_server policy server_name of
        Some err \<Rightarrow> Some err
      | None \<Rightarrow>
          if mp_allowed_tools policy = [] then None
          else (case dict_get (mp_allowed_tools policy) server_name of
                  None \<Rightarrow> None
                | Some allowed \<Rightarrow>
                    if ''*'' \<in> set allowed then None
                    else if tool_name \<notin> set allowed
                      then Some (''MCP tool '' @ quoted tool_name @ '' from server '' @ quoted server_name
                                 @ '' is not in the allowed tools list'')
                    else None))"

definition check_mcp_permissions :: "mcp_policy \<Rightarrow> tool_handler \<Rightarrow> string option" where
  "check_mcp_permissions policy handler =
     (case th_server_name handler of
        None \<Rightarrow> None
      | Some server_name \<Rightarrow>
          (case th_tool_name handler of
             None \<Rightarrow> None
           | Some tool_name \<Rightarrow> authorize_tool policy server_name tool_name))"

subsection \<open>The authorizer\<close>

definition is_destructive :: "tool_definition \<Rightarrow> bool" where
  "is_destructive tool \<longleftrightarrow> td_risk_level tool = Some ''high'' \<or> td_category tool = Some ''destructive''"

definition rbac_enforced :: "tool_config \<Rightarrow> bool" where
  "rbac_enforced cfg \<longleftrightarrow> xc_has_rbac cfg \<and> xc_governance_enabled cfg \<and> xc_enforcement_enabled cfg"

definition lift_error :: "('e \<Rightarrow> 'f) \<Rightarrow> ('s, 'e + 'a) prog \<Rightarrow> ('s, 'f + 'a) prog" where
  "lift_error h p = bindP p (\<lambda>r. case r of Inl e \<Rightarrow> raise (h e) | Inr a \<Rightarrow> ok a)"

definition rbac_authorize :: "tool_config \<Rightarrow> uuid option \<Rightarrow> permission_key \<Rightarrow> bool tool_prog" where
  "rbac_authorize cfg user_id permission =
     lift_error ToolRbacError
       (zoom xw_rbac put_rbac (has_permission (xc_cache_ttl cfg) user_id (permission_value permission)))"

definition authorizer :: "tool_config \<Rightarrow> tool_definition \<Rightarrow> tool_context \<Rightarrow> string option tool_prog" where
  "authorizer cfg tool ctx =
     (if tc_kind ctx \<noteq> ''user'' then ok (Some ''Tool invocation requires an authenticated user'')
      else if \<not> rbac_enforced cfg then ok None
      else bindE (rbac_authorize cfg (tc_user_id ctx) ToolsExecute) (\<lambda>allowed.
        if \<not> allowed
        then ok (Some (''Tool invocation requires the '' @ quoted ''tools:execute'' @ '' permission''))
        else if is_destructive tool
        then bindE (rbac_authorize cfg (tc_user_id ctx) ToolsExecuteDestructive) (\<lambda>allowed.
          if \<not> allowed
          then ok (Some (''Destructive tool invocation requires the '' @ quoted ''tools:execute:destructive''
                         @ '' permission''))
          else ok None)
        else ok None))"

subsection \<open>The executor\<close>

definition failure_result :: "string \<Rightarrow> string \<Rightarrow> tool_result" where
  "failure_result err code =
     \<lparr>tr_success = False, tr_data = PNone, tr_error = Some err, tr_error_code = Some code, tr_metadata = []\<rparr>"

definition finalize :: "tool_call \<Rightarrow> tool_result \<Rightarrow> tool_result tool_prog" where
  "finalize call r =
     bindP (readP xw_latency_ms) (\<lambda>latency_ms.
       let md = dict_put ''latency_ms'' (PInt latency_ms)
                  (dict_put ''tool_name'' (PStr (tl_name call)) (tr_metadata r)) in
       ok (r\<lparr>tr_metadata := (case tl_call_id call of None \<Rightarrow> md | Some c \<Rightarrow> dict_put ''call_id'' (PStr c) md)\<rparr>))"

definition normalize_handler_arguments :: "tool_handler \<Rightarrow> pyval dict \<Rightarrow> pyval dict" where
  "normalize_handler_arguments handler arguments =
     (case th_normalize handler of
        None \<Rightarrow> arguments
      | Some f \<Rightarrow> (case f arguments of PDict d \<Rightarrow> d | _ \<Rightarrow> arguments))"

definition call_handler :: "tool_handler \<Rightarrow> string \<Rightarrow> pyval dict \<Rightarrow> (tool_world, tool_outcome) prog" where
  "call_handler handler tool_name arguments =
     opP (\<lambda>w. (w\<lparr>xw_calls := xw_calls w @ [(tool_name, arguments)]\<rparr>,
               th_execute handler (length (xw_calls w)) arguments))"

definition run_handler :: "tool_handler \<Rightarrow> tool_call \<Rightarrow> pyval dict \<Rightarrow> tool_result tool_prog" where
  "run_handler handler call arguments =
     bindP (call_handler handler (tl_name call) arguments) (\<lambda>outcome.
       (case outcome of
          ToolTimedOut \<Rightarrow> finalize call (failure_result ''Tool execution timed out'' ''timeout'')
        | ToolRaised \<Rightarrow> finalize call (failure_result ''Tool execution failed'' ''handler_error'')
        | ToolReturned r \<Rightarrow>
            if \<not> tr_success r then finalize call r
            else finalize call (r\<lparr>tr_metadata :=
                   (if ''tool_name'' \<in> set (dict_keys (tr_metadata r)) then tr_metadata r
                    else dict_put ''tool_name'' (PStr (tl_name call)) (tr_metadata r))\<rparr>)))"

text \<open>Quota and rate limit; \<open>None\<close> when neither applies or both admit the call.\<close>

definition throttle :: "tool_config \<Rightarrow> tool_context \<Rightarrow> unit tool_prog" where
  "throttle cfg ctx =
     (case tc_user_id ctx of
        None \<Rightarrow> ok ()
      | Some user_id \<Rightarrow>
          if \<not> xc_rate_extensions cfg then ok ()
          else bindP (zoom xw_quota put_quota
                        (check_daily_usage_quota (xc_str_uuid cfg user_id) ''tool'' (xc_daily_quota cfg))) (\<lambda>daily_allowed.
            if \<not> daily_allowed
            then raise (RateLimitExceeded ''Daily tool invocation quota exceeded.'' None)
            else bindE (lift_error ToolRateError (zoom xw_rate put_rate
                          (opP (check (''tool:'' @ xc_str_uuid cfg user_id) (xc_per_minute cfg))))) (\<lambda>retry_after.
              (case retry_after of
                 None \<Rightarrow> ok ()
               | Some r \<Rightarrow> raise (RateLimitExceeded ''Tool invocation rate limit exceeded.'' (Some r))))))"

definition guardrail_gate :: "tool_config \<Rightarrow> string \<Rightarrow> pyval dict \<Rightarrow> tool_result option" where
  "guardrail_gate cfg tool_name arguments =
     (case xc_guardrails cfg of
        None \<Rightarrow> None
      | Some engine \<Rightarrow>
          (let verdict = guardrail_evaluate engine
                 \<lparr>gx_content_text = xc_serialize cfg arguments, gx_source = ''tool_argument'',
                  gx_tool_name = Some tool_name, gx_document_id = None, gx_mcp_server = None,
                  gx_caller_role = None\<rparr> in
           if gv_action verdict = GuardBlock
           then Some ((failure_result ''Tool arguments blocked by security policy'' ''guardrail_blocked'')
             \<lparr>tr_metadata := [(''rule_id'', opt_str (gv_matched_rule_id verdict)),
               (''rule_version'', case gv_matched_rule_version verdict of None \<Rightarrow> PNone | Some v \<Rightarrow> PInt (int v))]\<rparr>)
           else None))"

definition mcp_gate :: "tool_config \<Rightarrow> tool_handler \<Rightarrow> string option" where
  "mcp_gate cfg handler =
     (case xc_mcp_policy cfg of None \<Rightarrow> None | Some policy \<Rightarrow> check_mcp_permissions policy handler)"

definition execute_tool :: "tool_config \<Rightarrow> tool_call \<Rightarrow> tool_context \<Rightarrow> tool_result tool_prog" where
  "execute_tool cfg call ctx =
     (case registry_get (xc_registry cfg) (tl_name call) of
        None \<Rightarrow> finalize call (failure_result (''Tool '' @ quoted (tl_name call) @ '' is not registered'') ''not_found'')
      | Some tool \<Rightarrow>
     (case xc_handler cfg (tl_name call) of
        None \<Rightarrow> finalize call (failure_result (''Handler for tool '' @ quoted (tl_name call)
                  @ '' is not registered'') ''not_found'')
      | Some handler \<Rightarrow>
     (let arguments = normalize_handler_arguments handler (tl_arguments call) in
     (case tool_validate (td_parameters tool) arguments of
        Inl _ \<Rightarrow> raise ToolTypeError
      | Inr (Some err) \<Rightarrow> finalize call (failure_result (xc_message cfg err) ''validation_error'')
      | Inr None \<Rightarrow>
     bindE (authorizer cfg tool ctx) (\<lambda>auth_error.
     (case auth_error of
        Some err \<Rightarrow> finalize call (failure_result err ''forbidden'')
      | None \<Rightarrow>
     (case mcp_gate cfg handler of
        Some err \<Rightarrow> finalize call (failure_result err ''forbidden'')
      | None \<Rightarrow>
     (case guardrail_gate cfg (tl_name call) arguments of
        Some blocked \<Rightarrow> finalize call blocked
      | None \<Rightarrow>
     bindE (throttle cfg ctx) (\<lambda>_. run_handler handler call arguments)))))))))"

subsection \<open>No handler runs before every gate has passed\<close>

lemma exec_finalize: "\<exists>r'. exec_prog (finalize call r) w = (w, Inr r') \<and> tr_success r' = tr_success r \<and>
    tr_error_code r' = tr_error_code r"
  by (simp add: finalize_def exec_bindP Let_def)

lemma put_calls [simp]:
  "xw_calls (put_rbac s w) = xw_calls w" "xw_calls (put_rate s' w) = xw_calls w" "xw_calls (put_quota s'' w) = xw_calls w"
  by (simp_all add: put_rbac_def put_rate_def put_quota_def)

lemma rbac_authorize_exec:
  assumes "cache_fresh (xc_cache_ttl cfg) u (xw_rbac w)"
  shows "\<exists>s. exec_prog (rbac_authorize cfg (Some u) p) w = (put_rbac s w, Inr (may (xw_rbac w) u (permission_value p))) \<and>
    rb_assignments s = rb_assignments (xw_rbac w) \<and> cache_fresh (xc_cache_ttl cfg) u s"
proof -
  obtain s where "exec_prog (has_permission (xc_cache_ttl cfg) (Some u) (permission_value p)) (xw_rbac w) =
      (s, Inr (may (xw_rbac w) u (permission_value p)))" "rb_assignments s = rb_assignments (xw_rbac w)"
    "cache_fresh (xc_cache_ttl cfg) u s"
    using has_permission_exec [OF assms] by blast
  then show ?thesis
    by (intro exI [of _ s]) (simp add: rbac_authorize_def lift_error_def exec_bindP rbac_part.exec_zoom)
qed

lemma rbac_authorize_guest: "exec_prog (rbac_authorize cfg None p) w = (w, Inr False)"
  by (simp add: rbac_authorize_def lift_error_def exec_bindP rbac_part.exec_zoom has_permission_def authorize_def
      denied_def put_rbac_def)

lemma may_cong: "rb_assignments s = rb_assignments w \<Longrightarrow> may s u p = may w u p"
  by (simp add: may_def get_user_roles_def)

definition authorized :: "tool_config \<Rightarrow> tool_world \<Rightarrow> tool_definition \<Rightarrow> tool_context \<Rightarrow> bool" where
  "authorized cfg w tool ctx \<longleftrightarrow> tc_kind ctx = ''user'' \<and>
     (rbac_enforced cfg \<longrightarrow> (\<exists>u. tc_user_id ctx = Some u \<and> may (xw_rbac w) u ''tools:execute'' \<and>
        (is_destructive tool \<longrightarrow> may (xw_rbac w) u ''tools:execute:destructive'')))"

lemma authorizer_exec:
  assumes "\<And>u. tc_user_id ctx = Some u \<Longrightarrow> cache_fresh (xc_cache_ttl cfg) u (xw_rbac w)"
  shows "\<exists>v r. exec_prog (authorizer cfg tool ctx) w = (v, Inr r) \<and> xw_calls v = xw_calls w \<and>
    (r = None \<longleftrightarrow> authorized cfg w tool ctx)"
proof (cases "tc_kind ctx = ''user'' \<and> rbac_enforced cfg")
  case False
  then show ?thesis by (auto simp: authorizer_def authorized_def)
next
  case True
  show ?thesis
  proof (cases "tc_user_id ctx")
    case None
    with True show ?thesis by (simp add: authorizer_def authorized_def exec_bindE rbac_authorize_guest)
  next
    case (Some u)
    obtain s where s: "exec_prog (rbac_authorize cfg (Some u) ToolsExecute) w =
        (put_rbac s w, Inr (may (xw_rbac w) u ''tools:execute''))" "rb_assignments s = rb_assignments (xw_rbac w)"
      "cache_fresh (xc_cache_ttl cfg) u s"
      using rbac_authorize_exec [OF assms [OF Some], of ToolsExecute] by auto
    then have "cache_fresh (xc_cache_ttl cfg) u (xw_rbac (put_rbac s w))" by (simp add: rbac_part.get_put)
    then obtain s' where s': "exec_prog (rbac_authorize cfg (Some u) ToolsExecuteDestructive) (put_rbac s w) =
        (put_rbac s' (put_rbac s w), Inr (may s u ''tools:execute:destructive''))"
      using rbac_authorize_exec [of cfg u "put_rbac s w" ToolsExecuteDestructive] by (auto simp: rbac_part.get_put)
    from s s' may_cong [OF s(2)] True Some show ?thesis
      by (simp add: authorizer_def authorized_def exec_bindE)
  qed
qed

lemma throttle_calls: "xw_calls (fst (exec_prog (throttle cfg ctx) w)) = xw_calls w"
  by (simp add: throttle_def lift_error_def exec_bindP exec_bindE rate_part.exec_zoom quota_part.exec_zoom split_beta Let_def
      split: option.split sum.split)

lemma run_handler_exec:
  "\<exists>r. exec_prog (run_handler handler call arguments) w =
     (w\<lparr>xw_calls := xw_calls w @ [(tl_name call, arguments)]\<rparr>, Inr r)"
  by (auto simp: run_handler_def call_handler_def exec_bindP finalize_def Let_def split: tool_outcome.split)

definition admitted :: "tool_config \<Rightarrow> tool_call \<Rightarrow> tool_context \<Rightarrow> tool_world \<Rightarrow> pyval dict \<Rightarrow> bool" where
  "admitted cfg call ctx w arguments \<longleftrightarrow>
     (\<exists>tool handler. registry_get (xc_registry cfg) (tl_name call) = Some tool \<and>
        xc_handler cfg (tl_name call) = Some handler \<and>
        arguments = normalize_handler_arguments handler (tl_arguments call) \<and>
        tool_validate (td_parameters tool) arguments = Inr None \<and>
        authorized cfg w tool ctx \<and> mcp_gate cfg handler = None \<and>
        guardrail_gate cfg (tl_name call) arguments = None)"

lemma exec_finalize_calls: "xw_calls (fst (exec_prog (finalize call r) w)) = xw_calls w"
  by (simp add: finalize_def exec_bindP Let_def)

lemma execute_tool_gates:
  assumes fresh: "\<And>u. tc_user_id ctx = Some u \<Longrightarrow> cache_fresh (xc_cache_ttl cfg) u (xw_rbac w)"
  shows "xw_calls (fst (exec_prog (execute_tool cfg call ctx) w)) = xw_calls w \<or>
    (\<exists>arguments. admitted cfg call ctx w arguments \<and>
       xw_calls (fst (exec_prog (execute_tool cfg call ctx) w)) = xw_calls w @ [(tl_name call, arguments)])"
proof (cases "registry_get (xc_registry cfg) (tl_name call)")
  case None
  then show ?thesis by (simp add: execute_tool_def exec_finalize_calls)
next
  case tool: (Some tool)
  show ?thesis
  proof (cases "xc_handler cfg (tl_name call)")
    case None
    with tool show ?thesis by (simp add: execute_tool_def exec_finalize_calls)
  next
    case handler: (Some handler)
    let ?args = "normalize_handler_arguments handler (tl_arguments call)"
    show ?thesis
    proof (cases "tool_validate (td_parameters tool) ?args = Inr None")
      case False
      then show ?thesis
        using tool handler by (auto simp: execute_tool_def Let_def exec_finalize_calls split: sum.split option.split)
    next
      case valid: True
      obtain v r where a: "exec_prog (authorizer cfg tool ctx) w = (v, Inr r)" "xw_calls v = xw_calls w"
        "r = None \<longleftrightarrow> authorized cfg w tool ctx"
        using authorizer_exec [OF fresh] by blast
      show ?thesis
      proof (cases "r = None \<and> mcp_gate cfg handler = None \<and> guardrail_gate cfg (tl_name call) ?args = None")
        case False
        then show ?thesis
          using tool handler valid a
          by (auto simp: execute_tool_def Let_def exec_bindE exec_finalize_calls split: option.split)
      next
        case True
        obtain t x where t: "exec_prog (throttle cfg ctx) v = (t, x)" by fastforce
        with throttle_calls [of cfg ctx v] a(2) have calls: "xw_calls t = xw_calls w" by simp
        have "exec_prog (execute_tool cfg call ctx) w = (case x of Inl e \<Rightarrow> (t, Inl e)
            | Inr _ \<Rightarrow> exec_prog (run_handler handler call ?args) t)"
          using tool handler valid a True t by (simp add: execute_tool_def Let_def exec_bindE split: sum.split)
        moreover obtain r' where "exec_prog (run_handler handler call ?args) t =
            (t\<lparr>xw_calls := xw_calls t @ [(tl_name call, ?args)]\<rparr>, Inr r')" using run_handler_exec by blast
        moreover have "admitted cfg call ctx w ?args"
          using tool handler valid a(3) True by (auto simp: admitted_def)
        ultimately show ?thesis using calls by (cases x) auto
      qed
    qed
  qed
qed

end
