(* ===== verification/Security_Properties.thy ===== *)
theory Security_Properties
  imports Tool_Executor
begin

section \<open>Properties of rate limits, quotas and roles\<close>

text \<open>
  What the limiter, the reserving counters and the role service guarantee to their callers. The statements
  over \<open>pool_step\<close> hold for any number of requests interleaved at every action.
\<close>

subsection \<open>Rate limits\<close>

definition empty_limiter :: rl_world where
  "empty_limiter = \<lparr>rl_events = (\<lambda>_. []), rl_role_cache = (\<lambda>_. None), rl_now = 0\<rparr>"

lemma bucket_abs_empty: "bucket_abs m [] []"
  by (simp add: bucket_abs_def)

text \<open>C18: over any sequence of requests to any buckets with any limits, at times that do not decrease, the
  limiter (which forgets expired admissions) answers every request as a limiter that keeps the whole history
  and counts the admissions of the last 60 seconds, the time to wait included.\<close>

theorem limiter_matches_reference:
  assumes "times_ascend 0 reqs"
  shows "run_checks empty_limiter reqs = run_reference (\<lambda>_. []) reqs"
  by (rule run_checks_reference [OF _ assms]) (simp add: empty_limiter_def bucket_abs_empty)

theorem limiter_matches_reference_witness:
  "run_checks empty_limiter [(''a'', 1, 0), (''a'', 1, 59), (''b'', 1, 59), (''a'', 1, 60)] =
     [Inr None, Inr (Some 1), Inr None, Inr None]"
proof -
  have "times_ascend 0 [(''a'', 1, 0), (''a'', 1, 59), (''b'', 1, 59), (''a'', 1, 60)]" by simp
  from limiter_matches_reference [OF this] show ?thesis
    by (simp add: reference_check_def in_window_def window_seconds_def retry_after_def)
qed

text \<open>C31: whatever a caller does, and however the limit of its bucket changes, as long as no request is
  checked against more than \<open>limit\<close>, no window of 60 seconds contains more than \<open>limit\<close> admitted requests of
  the bucket.\<close>

theorem no_window_exceeds_limit:
  assumes "times_ascend 0 reqs" and "0 \<le> limit" and "\<forall>(bucket, l, now)\<in>set reqs. bucket = b \<longrightarrow> l \<le> limit"
  shows "int (window_count (admissions empty_limiter b reqs) t) \<le> limit"
proof -
  have "int (window_count ([] @ admissions empty_limiter b reqs) t) \<le> limit"
    using assms
    by (intro admissions_bound [where m = 0 and g = "\<lambda>_. []"])
      (simp_all add: empty_limiter_def bucket_abs_empty window_count_def)
  then show ?thesis by simp
qed

theorem no_window_exceeds_limit_witness:
  "int (window_count (admissions empty_limiter ''a'' [(''a'', 1, 0), (''a'', 1, 59), (''a'', 1, 60)]) 60) \<le> 1"
  by (rule no_window_exceeds_limit) simp_all

lemma retry_after_suffices:
  assumes "bucket_abs m ts h" and "m \<le> now" and "int (length ts) \<le> limit" and "1 \<le> limit"
    and "snd (check_bucket ts limit now) = Inr (Some r)"
  shows "snd (check_bucket (fst (check_bucket ts limit now)) limit (now + of_int r)) = Inr None"
proof (rule retry_admitted [OF _ _ assms(3-5)])
  from assms(1) obtain old where "h = old @ ts" "sorted h" "\<forall>t\<in>set h. t \<le> m" by (auto simp: bucket_abs_def)
  then show "sorted ts" "\<forall>t\<in>set ts. t \<le> now" using assms(2) by (auto simp: sorted_append intro: order_trans)
qed

subsection \<open>Quotas\<close>

definition empty_quotas :: quota_world where
  "empty_quotas = \<lparr>qw_usage = (\<lambda>_. None), qw_guest = (\<lambda>_. None), qw_upload = (\<lambda>_. None), qw_today = 7\<rparr>"

text \<open>C32: for both reserving counters (daily usage of a subject, daily uploads of a user) and any order of
  reservations by anybody, the reservations granted for a subject never exceed the largest limit it was
  checked against.\<close>

theorem grants_stay_within_quota:
  assumes "\<forall>r\<in>set uses. 1 \<le> snd r" and "\<forall>r\<in>set uses. fst r = k \<longrightarrow> snd r \<le> limit" and "usage_used w k \<le> limit"
    and "\<forall>r\<in>set ups. 1 \<le> snd r" and "\<forall>r\<in>set ups. fst r = u \<longrightarrow> snd r \<le> quota" and "upload_used w u \<le> quota"
  shows "usage_used w k + snd (usage.grants k uses w) \<le> limit \<and> upload_used w u + snd (uploads.grants u ups w) \<le> quota"
  using usage.grants_within_limit [OF assms(1-3)] uploads.grants_within_limit [OF assms(4-6)] by blast

theorem grants_stay_within_quota_witness:
  "snd (usage.grants (''u'', ''tool'', 7) (replicate 5 ((''u'', ''tool'', 7), 3)) empty_quotas) \<le> 3 \<and>
   snd (uploads.grants (1, 7) (replicate 4 ((1, 7), 2)) empty_quotas) \<le> 2"
  using grants_stay_within_quota [of "replicate 5 ((''u'', ''tool'', 7), 3)" "(''u'', ''tool'', 7)" 3 empty_quotas
      "replicate 4 ((1, 7), 2)" "(1, 7)" 2]
  by (simp add: usage_used_def upload_used_def get_count_def get_upload_count_def count_or_zero_def empty_quotas_def)

subsection \<open>Roles\<close>

definition two_owners :: rbac_world where
  "two_owners = \<lparr>rb_roles = [''member'', ''operator'', ''admin'', ''owner''],
     rb_assignments = [(1, ''owner''), (2, ''owner''), (3, ''admin''), (4, ''operator'')], rb_users = [],
     rb_cache = (\<lambda>_. None), rb_generation = (\<lambda>_. 0), rb_now = 0\<rparr>"

text \<open>Owner 1 revokes the role of owner 2; admin 3 makes 5 an operator.\<close>

lemma owner_revokes_owner:
  "rb_assignments (fst (exec_prog (serve_rbac (ReqRevoke (Some 1) 2 ''owner'')) two_owners)) =
     [(1, ''owner''), (3, ''admin''), (4, ''operator'')]"
  by code_simp

lemma admin_assigns:
  "rb_assignments (fst (exec_prog (serve_rbac (ReqAssign (Some 3) 5 ''operator'')) two_owners)) =
     [(1, ''owner''), (2, ''owner''), (3, ''admin''), (4, ''operator''), (5, ''operator'')]"
  by code_simp

text \<open>C14: however role changes, revocations, permission checks and bootstraps interleave, the platform never
  loses its last owner.\<close>

theorem last_owner_is_never_lost:
  assumes "pool_step\<^sup>*\<^sup>* (w, map serve_rbac reqs) (w', ps)" and "final_owners w \<noteq> {}"
  shows "final_owners w' \<noteq> {}"
  using owner_pool [OF assms(1)] assms(2) by (simp add: keeps_an_owner_def)

theorem last_owner_is_never_lost_witness:
  "final_owners (fst (exec_prog (serve_rbac (ReqRevoke (Some 1) 2 ''owner'')) two_owners)) \<noteq> {}"
proof (rule last_owner_is_never_lost)
  show "pool_step\<^sup>*\<^sup>* (two_owners, map serve_rbac [ReqRevoke (Some 1) 2 ''owner''])
      (fst (exec_prog (serve_rbac (ReqRevoke (Some 1) 2 ''owner'')) two_owners),
       [Ret (snd (exec_prog (serve_rbac (ReqRevoke (Some 1) 2 ''owner'')) two_owners))])"
    using pool_exec [of two_owners "serve_rbac (ReqRevoke (Some 1) 2 ''owner'')"] by simp
  show "final_owners two_owners \<noteq> {}" by code_simp
qed

text \<open>C24: as long as every role change is asked for by users who are not owners (and nobody is bootstrapped),
  the set of owners stays as it is, under any interleaving; when they are not admins either, no assignment
  changes at all.\<close>

theorem no_privilege_escalation:
  assumes "pool_step\<^sup>*\<^sup>* (w, map serve_rbac reqs) (w', ps)" and "\<forall>req\<in>set reqs. request_of actors req"
    and "actors \<inter> final_owners w = {}"
  shows "final_owners w' = final_owners w \<and> (actors \<inter> managers w = {} \<longrightarrow> rb_assignments w' = rb_assignments w)"
  using owners_pool [OF assms] assignments_pool [OF assms(1,2)] by blast

theorem no_privilege_escalation_witness:
  "final_owners (fst (exec_prog (serve_rbac (ReqAssign (Some 3) 5 ''operator'')) two_owners)) = {1, 2}"
proof -
  have p: "pool_step\<^sup>*\<^sup>* (two_owners, map serve_rbac [ReqAssign (Some 3) 5 ''operator''])
      (fst (exec_prog (serve_rbac (ReqAssign (Some 3) 5 ''operator'')) two_owners),
       [Ret (snd (exec_prog (serve_rbac (ReqAssign (Some 3) 5 ''operator'')) two_owners))])"
    using pool_exec [of two_owners "serve_rbac (ReqAssign (Some 3) 5 ''operator'')"] by simp
  have "final_owners two_owners = {1, 2}" by code_simp
  with no_privilege_escalation [OF p, of "{3}"] show ?thesis by simp
qed

subsection \<open>Tools\<close>

definition ping_tool :: tool_definition where
  "ping_tool = \<lparr>td_name = ''ping'', td_description = [], td_parameters = [], td_requires_approval = False,
     td_category = Some ''destructive'', td_risk_level = None, td_data_sensitivity = None\<rparr>"

definition ping_handler :: tool_handler where
  "ping_handler = \<lparr>th_normalize = None, th_server_name = None, th_tool_name = None,
     th_execute = (\<lambda>n args. ToolTimedOut)\<rparr>"

definition ping_config :: tool_config where
  "ping_config = \<lparr>xc_registry = [(''ping'', \<lparr>rt_definition = ping_tool, rt_receipt_aware = False\<rparr>)],
     xc_handler = (\<lambda>n. if n = ''ping'' then Some ping_handler else None), xc_message = (\<lambda>_. []),
     xc_has_rbac = True, xc_governance_enabled = True, xc_enforcement_enabled = True, xc_cache_ttl = 60,
     xc_mcp_policy = None, xc_guardrails = None, xc_serialize = (\<lambda>_. []), xc_rate_extensions = True,
     xc_daily_quota = Some 5, xc_per_minute = 2, xc_str_uuid = py_str_nat\<rparr>"

definition ping_world :: tool_world where
  "ping_world = \<lparr>xw_rbac = two_owners, xw_rate = empty_limiter, xw_quota = empty_quotas, xw_calls = [],
     xw_latency_ms = 0\<rparr>"

definition ping_call :: tool_call where
  "ping_call = \<lparr>tl_name = ''ping'', tl_arguments = [], tl_call_id = None, tl_thought_signature = None\<rparr>"


lemma operator_pings:
  "xw_calls (fst (exec_prog (execute_tool ping_config ping_call \<lparr>tc_kind = ''user'', tc_user_id = Some 4\<rparr>) ping_world)) =
     [(''ping'', [])]"
  by code_simp

lemma stranger_does_not_ping:
  "xw_calls (fst (exec_prog (execute_tool ping_config ping_call \<lparr>tc_kind = ''user'', tc_user_id = Some 9\<rparr>) ping_world)) = []"
  by code_simp


end
