(* ===== verification/Hitl_Model.thy ===== *)
theory Hitl_Model
  imports Tool_Executor
begin

section \<open>Approvals of tool calls: data\<close>

text \<open>
  \<open>ai/hitl/models.py\<close>, the pure helpers of \<open>ai/hitl/service.py\<close>, and what a paused agent leaves behind:
  its scratchpad (\<open>ai/agent/scratchpad/scratchpad.py\<close>) and its state with the transitions that
  \<open>AgentStateManager\<close> permits (\<open>ai/agent/models/state.py\<close>, \<open>state/manager.py\<close>). JSON snapshots of both are the
  values themselves; an empty \<open>paused_state\<close> is \<open>None\<close>, and validating it fails as it does in the code.
\<close>

datatype approval_status = ApPending | ApApproved | ApRejected | ApExpired | ApCancelled

record proposed_call =
  pc_name :: string
  pc_arguments :: "pyval dict"
  pc_call_id :: string

datatype stage_verdict = StageApproved | StageRejected

record stage_decision =
  sd_stage :: string
  sd_decision :: stage_verdict
  sd_decided_by :: uuid
  sd_decided_at :: datetime
  sd_reason :: "string option"
  sd_comments :: "string option"

record request_metadata =
  rm_request_id :: "string option"
  rm_source_ip :: "string option"
  rm_client_metadata :: "pyval dict"

subsection \<open>Scratchpads and agent states\<close>

datatype entry_kind = EntrySystem | EntryUser | EntryAssistant | EntryTool | EntryThought | EntryObservation

record scratch_entry =
  se_kind :: entry_kind
  se_content :: string
  se_tool_call_id :: "string option"
  se_metadata :: "pyval dict"
  se_provider_message :: "pyval dict option"

datatype agent_status =
    AgCreated | AgPlanning | AgExecuting | AgReflecting | AgWaitingApproval | AgCompleted | AgFailed

definition terminal_statuses :: "agent_status set" where
  "terminal_statuses = {AgCompleted, AgFailed}"

fun valid_transitions :: "agent_status \<Rightarrow> agent_status set" where
  "valid_transitions AgCreated = {AgPlanning, AgFailed}"
| "valid_transitions AgPlanning = {AgExecuting, AgCompleted, AgFailed}"
| "valid_transitions AgExecuting = {AgPlanning, AgReflecting, AgWaitingApproval, AgCompleted, AgFailed}"
| "valid_transitions AgWaitingApproval = {AgPlanning}"
| "valid_transitions AgReflecting = {AgPlanning, AgExecuting, AgCompleted, AgFailed}"
| "valid_transitions AgCompleted = {}"
| "valid_transitions AgFailed = {}"

record agent_state =
  as_execution_id :: string
  as_status :: agent_status
  as_current_iteration :: nat
  as_max_iterations :: nat
  as_tools_used :: "string list"
  as_reflection_count :: nat
  as_retry_count :: nat
  as_parallel_tools_count :: nat
  as_iteration_limit_reached :: bool
  as_error_message :: "string option"
  as_metadata :: "pyval dict"

datatype agent_error =
    InvalidStateTransition agent_status agent_status
  | AgentIterationLimit nat
  | AgentTimeout nat
  | AgentOther string

definition transition :: "agent_state \<Rightarrow> agent_status \<Rightarrow> string option \<Rightarrow> agent_error + agent_state" where
  "transition state target error_message =
     (if as_status state \<in> terminal_statuses then Inl (InvalidStateTransition (as_status state) target)
      else if target \<notin> valid_transitions (as_status state)
        then Inl (InvalidStateTransition (as_status state) target)
      else Inr (if target = AgFailed \<and> error_message \<noteq> None
                then state\<lparr>as_status := target, as_error_message := error_message\<rparr>
                else state\<lparr>as_status := target\<rparr>))"

definition has_remaining_iterations :: "agent_state \<Rightarrow> bool" where
  "has_remaining_iterations state \<longleftrightarrow> as_current_iteration state < as_max_iterations state"

definition is_at_iteration_limit :: "agent_state \<Rightarrow> bool" where
  "is_at_iteration_limit state \<longleftrightarrow>
     as_iteration_limit_reached state \<or> as_max_iterations state \<le> as_current_iteration state"

definition begin_iteration :: "agent_state \<Rightarrow> agent_error + agent_state" where
  "begin_iteration state =
     (if is_at_iteration_limit state then Inl (AgentIterationLimit (as_max_iterations state))
      else (let next_iteration = as_current_iteration state + 1 in
            Inr (state\<lparr>as_current_iteration := next_iteration,
                       as_iteration_limit_reached := (as_max_iterations state \<le> next_iteration)\<rparr>)))"

definition record_tool_used :: "agent_state \<Rightarrow> string \<Rightarrow> agent_state" where
  "record_tool_used state tool_name =
     (if tool_name \<in> set (as_tools_used state) then state
      else state\<lparr>as_tools_used := as_tools_used state @ [tool_name]\<rparr>)"

definition record_reflection :: "agent_state \<Rightarrow> agent_state" where
  "record_reflection state = state\<lparr>as_reflection_count := as_reflection_count state + 1\<rparr>"

definition mark_iteration_limit_reached :: "agent_state \<Rightarrow> agent_state" where
  "mark_iteration_limit_reached state = state\<lparr>as_iteration_limit_reached := True\<rparr>"

subsection \<open>Approvals\<close>

record agent_approval =
  aa_id :: uuid
  aa_session_id :: uuid
  aa_owner_id :: uuid
  aa_execution_id :: string
  aa_approval_correlation_id :: uuid
  aa_status :: approval_status
  aa_proposed_calls :: "proposed_call list"
  aa_edited_calls :: "proposed_call list option"
  aa_reason :: "string option"
  aa_comments :: "string option"
  aa_paused_scratchpad :: "scratch_entry list"
  aa_paused_state :: "agent_state option"
  aa_pending_message_id :: "uuid option"
  aa_requested_at :: datetime
  aa_decided_at :: "datetime option"
  aa_decided_by :: "uuid option"
  aa_created_at :: datetime
  aa_updated_at :: datetime
  aa_expires_at :: "datetime option"
  aa_request_id :: "string option"
  aa_source_ip :: "string option"
  aa_client_metadata :: "pyval dict"
  aa_required_stages :: "string list"
  aa_stage_decisions :: "stage_decision list"
  aa_version :: nat

datatype approval_kind = AgentTool | WorkflowNode

record approval_revision =
  ar_id :: uuid
  ar_approval_id :: uuid
  ar_approval_kind :: approval_kind
  ar_revision_number :: nat
  ar_edited_by :: uuid
  ar_edited_at :: datetime
  ar_edited_payload :: "proposed_call list"
  ar_note :: "string option"

record approval_result =
  rs_approval_id :: uuid
  rs_status :: approval_status
  rs_edited :: bool
  rs_final_payload :: "proposed_call list"
  rs_reason :: "string option"
  rs_approver :: "uuid option"
  rs_decided_at :: datetime
  rs_approval_correlation_id :: uuid
  rs_comments :: "string option"
  rs_outstanding_stages :: "string list"

text \<open>Client audit fields live only as long as the approval is pending and within the retention period.\<close>

definition redact_client_audit_fields :: "agent_approval \<Rightarrow> agent_approval" where
  "redact_client_audit_fields a = a\<lparr>aa_source_ip := None, aa_client_metadata := []\<rparr>"

definition redact_terminal_client_audit_fields :: "agent_approval \<Rightarrow> agent_approval" where
  "redact_terminal_client_audit_fields a =
     (if aa_status a = ApPending then a else redact_client_audit_fields a)"

definition client_audit_retention_expired :: "agent_approval \<Rightarrow> int \<Rightarrow> datetime \<Rightarrow> bool" where
  "client_audit_retention_expired a retention_days now \<longleftrightarrow>
     0 < retention_days \<and> \<not> (aa_source_ip a = None \<and> aa_client_metadata a = []) \<and>
     aa_requested_at a + days retention_days \<le> now"

definition apply_client_audit_retention_policy :: "agent_approval \<Rightarrow> int \<Rightarrow> datetime \<Rightarrow> agent_approval" where
  "apply_client_audit_retention_policy approval retention_days now =
     (let a = redact_terminal_client_audit_fields approval in
      if aa_status a = ApPending \<and> client_audit_retention_expired a retention_days now
      then redact_client_audit_fields a else a)"

subsection \<open>Stages\<close>

definition remaining_stages :: "agent_approval \<Rightarrow> string list" where
  "remaining_stages a = drop (length (aa_stage_decisions a)) (aa_required_stages a)"

definition has_outstanding_stages :: "agent_approval \<Rightarrow> bool" where
  "has_outstanding_stages a \<longleftrightarrow> remaining_stages a \<noteq> []"

definition is_final_stage :: "agent_approval \<Rightarrow> bool" where
  "is_final_stage a \<longleftrightarrow> length (remaining_stages a) = 1"

text \<open>Callers check \<open>has_outstanding_stages\<close> first.\<close>

definition current_stage :: "agent_approval \<Rightarrow> string" where
  "current_stage a = (case remaining_stages a of [] \<Rightarrow> [] | s # _ \<Rightarrow> s)"

definition has_edits :: "agent_approval \<Rightarrow> bool" where
  "has_edits a \<longleftrightarrow> aa_edited_calls a \<noteq> None"

definition resolve_final_payload :: "agent_approval \<Rightarrow> proposed_call list" where
  "resolve_final_payload a = (case aa_edited_calls a of Some calls \<Rightarrow> calls | None \<Rightarrow> aa_proposed_calls a)"

definition build_approval_result :: "agent_approval \<Rightarrow> datetime \<Rightarrow> approval_result" where
  "build_approval_result a now =
     \<lparr>rs_approval_id = aa_id a, rs_status = aa_status a, rs_edited = has_edits a,
      rs_final_payload = resolve_final_payload a, rs_reason = aa_reason a, rs_approver = aa_decided_by a,
      rs_decided_at = (case aa_decided_at a of Some t \<Rightarrow> t | None \<Rightarrow> now),
      rs_approval_correlation_id = aa_approval_correlation_id a, rs_comments = aa_comments a,
      rs_outstanding_stages = []\<rparr>"

definition has_pause_snapshot :: "agent_approval \<Rightarrow> bool" where
  "has_pause_snapshot a \<longleftrightarrow> aa_paused_scratchpad a \<noteq> [] \<or> aa_paused_state a \<noteq> None"

definition compute_expires_at :: "int \<Rightarrow> datetime \<Rightarrow> datetime option" where
  "compute_expires_at approval_timeout_hours now =
     (if approval_timeout_hours \<le> 0 then None else Some (now + hours approval_timeout_hours))"

definition normalize_hitl_reason :: "string option \<Rightarrow> nat \<Rightarrow> string option" where
  "normalize_hitl_reason reason max_length = map_option (take max_length) reason"

text \<open>\<open>call.call_id or f"{step_id}-{index}"\<close>; the text of an index is \<open>py_str_nat\<close>.\<close>

definition proposed_calls_from_step :: "string \<Rightarrow> tool_call list \<Rightarrow> proposed_call list" where
  "proposed_calls_from_step step_id calls =
     map (\<lambda>(index, call). \<lparr>pc_name = tl_name call, pc_arguments = tl_arguments call,
            pc_call_id = (case tl_call_id call of
               Some c \<Rightarrow> if c = [] then step_id @ ''-'' @ py_str_nat index else c
             | None \<Rightarrow> step_id @ ''-'' @ py_str_nat index)\<rparr>) (enumerate 0 calls)"

subsection \<open>Edited calls\<close>

datatype edit_error =
    EditRegistryMissing
  | EditCount nat
  | EditDuplicateId string
  | EditUnknownId string
  | EditNameMismatch string string string
  | EditUnknownTool string
  | EditInvalid string
  | EditTypeError

definition proposed_by_id :: "proposed_call list \<Rightarrow> proposed_call dict" where
  "proposed_by_id calls = fold (\<lambda>c d. dict_put (pc_call_id c) c d) calls []"

definition check_edited_call ::
    "tool_registry \<Rightarrow> (validation_error \<Rightarrow> string) \<Rightarrow> proposed_call dict \<Rightarrow> string list \<Rightarrow> proposed_call \<Rightarrow>
     edit_error + string list" where
  "check_edited_call registry message by_id seen call =
     (if pc_call_id call \<in> set seen then Inl (EditDuplicateId (pc_call_id call))
      else (case dict_get by_id (pc_call_id call) of
              None \<Rightarrow> Inl (EditUnknownId (pc_call_id call))
            | Some proposed \<Rightarrow>
                if pc_name call \<noteq> pc_name proposed
                then Inl (EditNameMismatch (pc_call_id call) (pc_name proposed) (pc_name call))
                else (case registry_get registry (pc_name call) of
                        None \<Rightarrow> Inl (EditUnknownTool (pc_name call))
                      | Some tool \<Rightarrow>
                          (case tool_validate (td_parameters tool) (pc_arguments call) of
                             Inl _ \<Rightarrow> Inl EditTypeError
                           | Inr (Some err) \<Rightarrow> Inl (EditInvalid (message err))
                           | Inr None \<Rightarrow> Inr (pc_call_id call # seen)))))"

definition validate_edited_calls ::
    "tool_registry option \<Rightarrow> (validation_error \<Rightarrow> string) \<Rightarrow> proposed_call list \<Rightarrow> proposed_call list \<Rightarrow>
     edit_error + unit" where
  "validate_edited_calls registry message edited_calls proposed_calls =
     (case registry of
        None \<Rightarrow> Inl EditRegistryMissing
      | Some reg \<Rightarrow>
          if length edited_calls \<noteq> length proposed_calls then Inl (EditCount (length proposed_calls))
          else bindR (foldR (check_edited_call reg message (proposed_by_id proposed_calls)) [] edited_calls)
                 (\<lambda>_. Inr ()))"

subsection \<open>What an edit must be to be accepted\<close>

lemma find_mem: "find P xs = Some x \<Longrightarrow> x \<in> set xs \<and> P x"
  by (induction xs) (auto split: if_splits)

lemma proposed_by_id_get:
  "dict_get (fold (\<lambda>c d. dict_put (pc_call_id c) c d) calls d) i =
     (case find (\<lambda>c. pc_call_id c = i) (rev calls) of Some c \<Rightarrow> Some c | None \<Rightarrow> dict_get d i)"
  by (induction calls arbitrary: d) (simp_all add: find_append split: option.split)

lemma proposed_by_id_unique:
  assumes "distinct (map pc_call_id calls)"
  shows "dict_get (proposed_by_id calls) i = Some c \<longleftrightarrow> c \<in> set calls \<and> pc_call_id c = i"
proof -
  have "find (\<lambda>c. pc_call_id c = i) (rev calls) = Some c" if "c \<in> set calls" "pc_call_id c = i"
    using assms that find_unique [of pc_call_id "rev calls" c] by (simp add: rev_map [symmetric])
  then show ?thesis
    unfolding proposed_by_id_def proposed_by_id_get
    by (auto simp: dict_get_def find_None_iff dest: find_mem split: option.splits)
qed

definition acceptable_edit :: "tool_registry \<Rightarrow> proposed_call dict \<Rightarrow> proposed_call \<Rightarrow> bool" where
  "acceptable_edit registry by_id call \<longleftrightarrow>
     (\<exists>proposed tool. dict_get by_id (pc_call_id call) = Some proposed \<and> pc_name proposed = pc_name call \<and>
        registry_get registry (pc_name call) = Some tool \<and>
        tool_validate (td_parameters tool) (pc_arguments call) = Inr None)"

lemma check_edited_call_Inr:
  "check_edited_call registry message by_id seen call = Inr seen' \<longleftrightarrow>
     pc_call_id call \<notin> set seen \<and> acceptable_edit registry by_id call \<and> seen' = pc_call_id call # seen"
  by (auto simp: check_edited_call_def acceptable_edit_def split: option.splits sum.splits)

lemma check_edited_calls_Inr:
  "(\<exists>seen'. foldR (check_edited_call registry message by_id) seen calls = Inr seen') \<longleftrightarrow>
     distinct (map pc_call_id calls) \<and> set (map pc_call_id calls) \<inter> set seen = {} \<and>
     (\<forall>call\<in>set calls. acceptable_edit registry by_id call)"
proof (induction calls arbitrary: seen)
  case (Cons call calls)
  show ?case
  proof (cases "check_edited_call registry message by_id seen call")
    case (Inl e)
    then have "\<not> (pc_call_id call \<notin> set seen \<and> acceptable_edit registry by_id call)"
      using check_edited_call_Inr [of registry message by_id seen call "pc_call_id call # seen"] by auto
    with Inl show ?thesis by auto
  next
    case (Inr seen')
    then have "pc_call_id call \<notin> set seen" "acceptable_edit registry by_id call" "seen' = pc_call_id call # seen"
      using check_edited_call_Inr [of registry message by_id seen call seen'] by auto
    with Inr Cons.IH [of seen'] show ?thesis by auto
  qed
qed simp

lemma validate_edited_calls_iff:
  "validate_edited_calls (Some reg) message edited proposed = Inr () \<longleftrightarrow>
     length edited = length proposed \<and> distinct (map pc_call_id edited) \<and>
     (\<forall>call\<in>set edited. acceptable_edit reg (proposed_by_id proposed) call)"
proof -
  have "(bindR r (\<lambda>_. Inr ()) = Inr ()) = (\<exists>x. r = Inr x)" for r :: "edit_error + string list"
    by (cases r) (auto simp: bindR_def)
  with check_edited_calls_Inr [of reg message "proposed_by_id proposed" "[]" edited]
  show ?thesis by (auto simp: validate_edited_calls_def)
qed

end
