(* ===== verification/Transaction.thy ===== *)
theory Transaction
  imports Prog
begin

section \<open>Database transactions of requests\<close>

text \<open>
  A request has one database session: its transaction commits when the handler returns and is rolled
  back when an exception leaves it (\<open>db/session.py\<close>). Until the first action that changes the database
  other tasks may run between the actions; that action locks the row, and from there on to the end
  the rest is one step for everybody else. An exception undoes the changes of the database, not those
  of the rest of the state (handler calls, counters in memory). What the database is and how it is
  restored are the parameters; the locale states their laws.
\<close>

definition settle :: "('s \<Rightarrow> 's \<Rightarrow> 's) \<Rightarrow> 's \<Rightarrow> 's \<times> ('e + 'a) \<Rightarrow> 's" where
  "settle restore s r = (case snd r of Inl _ \<Rightarrow> restore s (fst r) | Inr _ \<Rightarrow> fst r)"

primrec transaction ::
    "('s \<Rightarrow> 'd) \<Rightarrow> ('s \<Rightarrow> 's \<Rightarrow> 's) \<Rightarrow> ('s, 'e + 'a) prog \<Rightarrow> ('s, 'e + 'a) prog" where
  "transaction db restore (Ret r) = Ret r"
| "transaction db restore (Act f k) =
     Act (\<lambda>s. if db (f s) = db s then f s else settle restore s (exec_prog (k s) (f s)))
         (\<lambda>s. if db (f s) = db s then transaction db restore (k s) else Ret (snd (exec_prog (k s) (f s))))"

locale transactional =
  fixes db :: "'s \<Rightarrow> 'd" and restore :: "'s \<Rightarrow> 's \<Rightarrow> 's"
  assumes db_restore: "db (restore s t) = db s"
    and restore_cong: "db s = db s' \<Longrightarrow> restore s t = restore s' t"
    and restore_same: "db s = db t \<Longrightarrow> restore s t = t"
begin

text \<open>A request that runs alone: all of it or, after an exception, nothing of it is in the database.\<close>

lemma exec_transaction:
  "exec_prog (transaction db restore p) s = (settle restore s (exec_prog p s), snd (exec_prog p s))"
proof (induction p arbitrary: s)
  case (Ret r)
  then show ?case by (simp add: settle_def restore_same split: sum.split)
next
  case (Act f k)
  show ?case
  proof (cases "db (f s) = db s")
    case True
    have "restore (f s) t = restore s t" for t using True by (rule restore_cong)
    with Act [of "k s" "f s"] True show ?thesis by (simp add: settle_def split: sum.split)
  qed simp
qed

lemma failed_transaction:
  "exec_prog (transaction db restore p) s = (t, Inl e) \<Longrightarrow> db t = db s"
  by (auto simp: exec_transaction settle_def db_restore split: sum.splits)

lemma committed_transaction:
  "exec_prog (transaction db restore p) s = (t, Inr a) \<longleftrightarrow> exec_prog p s = (t, Inr a)"
  by (cases "exec_prog p s") (auto simp: exec_transaction settle_def)

text \<open>A transaction keeps the contract that its actions keep.\<close>

lemma safe_transaction:
  assumes E: "transp E" "reflp E" "\<And>s t. E s t \<Longrightarrow> E s (restore s t)"
  shows "safe E p s \<Longrightarrow> safe E (transaction db restore p) s"
proof (induction p arbitrary: s)
  case (Ret r)
  then show ?case by simp
next
  case (Act f k)
  show ?case
  proof (simp, intro allI impI conjI)
    fix t
    assume t: "E s t"
    with Act.prems have f: "E t (f t)" and k: "safe E (k t) (f t)" by simp_all
    obtain u r where r: "exec_prog (k t) (f t) = (u, r)" by fastforce
    have "safe E (k t) (f t) \<Longrightarrow> wp E E (k t) (\<lambda>_ v. True \<and> E (f t) v) (f t)"
      by (rule wp_remember [OF _ _ E(1,2)]) (auto intro: reflpD [OF E(2)])
    from wp_exec [OF this [OF k]] r have "E (f t) u" by (auto intro: reflpD [OF E(2)])
    with f have tu: "E t u" by (rule transpD [OF E(1)])
    show "db (f t) = db t \<Longrightarrow> E t (f t)" by (rule f)
    show "E t (settle restore t (exec_prog (k t) (f t)))"
      using tu E(3) [OF tu] by (simp add: r settle_def split: sum.split)
    show "safe E (transaction db restore (k t)) (f t)" by (rule Act.IH [OF _ k]) simp
  qed
qed

end

end
