(* ===== verification/Guarantee.thy ===== *)
theory Guarantee
  imports Transaction
begin

section \<open>What every action of a program does\<close>

text \<open>
  \<open>Prog\<close> relates the actions of a program to one relation that is rely and guarantee at once. Here the two differ.
  \<open>acts G\<close> says that every action of a program is a step of \<open>G\<close>, from whatever state it starts, so whatever others
  do in between; \<open>leaves\<close> says the same of its results. Both follow the structure of the program. Together with a
  \<open>wp\<close> that relies on a contract they give the guarantee that is the conjunction. \<open>costs\<close> bounds how much a
  program that runs alone adds to a counter.
\<close>

primrec acts :: "'s steps \<Rightarrow> ('s, 'a) prog \<Rightarrow> bool" where
  "acts G (Ret a) = True"
| "acts G (Act f k) = (\<forall>s. G s (f s) \<and> acts G (k s))"

primrec leaves :: "('s, 'a) prog \<Rightarrow> ('a \<Rightarrow> bool) \<Rightarrow> bool" where
  "leaves (Ret a) Q = Q a"
| "leaves (Act f k) Q = (\<forall>s. leaves (k s) Q)"

named_theorems acts_intros "the actions of programs"

lemma acts_mono: "acts G p \<Longrightarrow> (\<And>s t. G s t \<Longrightarrow> H s t) \<Longrightarrow> acts H p"
  by (induction p) auto

lemma leaves_mono: "leaves p Q \<Longrightarrow> (\<And>a. Q a \<Longrightarrow> R a) \<Longrightarrow> leaves p R"
  by (induction p) auto

lemma leaves_True [simp]: "leaves p (\<lambda>_. True)"
  by (induction p) auto

lemma leaves_bindP: "leaves (bindP p g) Q = leaves p (\<lambda>a. leaves (g a) Q)"
  by (induction p) auto

lemma leaves_bindE: "leaves (bindE p g) Q = leaves p (\<lambda>r. case r of Inl e \<Rightarrow> Q (Inl e) | Inr a \<Rightarrow> leaves (g a) Q)"
proof -
  have "leaves (case r of Inl e \<Rightarrow> Ret (Inl e) | Inr a \<Rightarrow> g a) Q = (case r of Inl e \<Rightarrow> Q (Inl e) | Inr a \<Rightarrow> leaves (g a) Q)"
    for r by (cases r) auto
  then show ?thesis by (simp add: bindE_def leaves_bindP)
qed

lemma acts_after: "acts G p \<Longrightarrow> leaves p (\<lambda>a. acts G (g a)) \<Longrightarrow> acts G (bindP p g)"
  by (induction p) auto

lemma acts_afterE:
  assumes "acts G p" and "leaves p (\<lambda>r. case r of Inl _ \<Rightarrow> True | Inr a \<Rightarrow> acts G (g a))"
  shows "acts G (bindE p g)"
  unfolding bindE_def by (rule acts_after [OF assms(1)], rule leaves_mono [OF assms(2)]) (auto split: sum.splits)

lemma acts_Ret [acts_intros]: "acts G (Ret a)"
  by simp

lemma acts_bindP [acts_intros]: "acts G p \<Longrightarrow> (\<And>a. acts G (g a)) \<Longrightarrow> acts G (bindP p g)"
  by (induction p) auto

lemma acts_bindE [acts_intros]: "acts G p \<Longrightarrow> (\<And>a. acts G (g a)) \<Longrightarrow> acts G (bindE p g)"
  unfolding bindE_def by (rule acts_bindP) (auto split: sum.split)

lemma acts_if [acts_intros]: "(b \<Longrightarrow> acts G p) \<Longrightarrow> (\<not> b \<Longrightarrow> acts G q) \<Longrightarrow> acts G (if b then p else q)"
  by simp

lemma acts_option [acts_intros]:
  "(x = None \<Longrightarrow> acts G p) \<Longrightarrow> (\<And>a. x = Some a \<Longrightarrow> acts G (f a)) \<Longrightarrow> acts G (case_option p f x)"
  by (cases x) simp_all

lemma acts_sum [acts_intros]:
  "(\<And>e. x = Inl e \<Longrightarrow> acts G (f e)) \<Longrightarrow> (\<And>a. x = Inr a \<Longrightarrow> acts G (g a)) \<Longrightarrow> acts G (case_sum f g x)"
  by (cases x) simp_all

lemma acts_prod [acts_intros]: "(\<And>a b. x = (a, b) \<Longrightarrow> acts G (f a b)) \<Longrightarrow> acts G (case_prod f x)"
  by (cases x) simp

lemma acts_opP [acts_intros]: "(\<And>s. G s (fst (f s))) \<Longrightarrow> acts G (opP f)"
  by (simp add: opP_def)

lemma acts_forP [acts_intros]: "(\<And>x. x \<in> set xs \<Longrightarrow> acts G (f x)) \<Longrightarrow> acts G (forP f xs)"
  by (induction xs) (auto intro!: acts_bindE)

lemma acts_zoom: "acts G p \<Longrightarrow> (\<And>s t. G (get t) s \<Longrightarrow> H t (put s t)) \<Longrightarrow> acts H (zoom get put p)"
  by (induction p) auto

lemma acts_zoom_any: "(\<And>s t. H t (put s t)) \<Longrightarrow> acts H (zoom get put p)"
  by (induction p) auto

text \<open>Whatever a task does first, given that it knows what it may do from there.\<close>

lemma acts_exec:
  assumes "acts G p" and "\<And>s. G s s" and "\<And>s t u. G s t \<Longrightarrow> G t u \<Longrightarrow> G s u"
  shows "G s (fst (exec_prog p s))"
  using assms(1)
proof (induction p arbitrary: s)
  case (Ret a)
  then show ?case using assms(2) by simp
next
  case (Act f k)
  then have "G s (f s)" "G (f s) (fst (exec_prog (k s) (f s)))" by simp_all
  then show ?case using assms(3) by simp
qed

lemma wp_rely: "wp R G p Q s \<Longrightarrow> (\<And>s t. R' s t \<Longrightarrow> R s t) \<Longrightarrow> wp R' G p Q s"
  by (induction p arbitrary: s) auto

lemma acts_wp: "acts G p \<Longrightarrow> leaves p Q \<Longrightarrow> wp R G p (\<lambda>a _. Q a) s"
  by (induction p arbitrary: s) auto

lemma wp_leaves: "wp R G p Q s \<Longrightarrow> leaves p L \<Longrightarrow> wp R G p (\<lambda>a t. Q a t \<and> L a) s"
  by (induction p arbitrary: s) auto

lemma wp_acts:
  assumes "acts C p" and "wp E E p Q s"
  shows "wp E (\<lambda>s t. E s t \<and> C s t) p Q s"
  using assms by (induction p arbitrary: s) auto

text \<open>A program alone is under the identity rely; a transaction keeps a guarantee that survives a rollback.\<close>

lemma wp_alone:
  assumes "wp R G p Q s" and "reflp R" and "reflp G" and "transp G"
  shows "G s (fst (exec_prog p s))"
  using assms(1)
proof (induction p arbitrary: s)
  case (Ret a)
  then show ?case using assms(3) by (simp add: reflpD)
next
  case (Act f k)
  then have "G s (f s)" "wp R G (k s) Q (f s)" using reflpD [OF assms(2)] by auto
  with Act.IH [of "k s" "f s"] show ?case using transpD [OF assms(4)] by auto
qed

context transactional begin

lemma wp_transaction:
  assumes "reflp R" and "reflp G" and "transp G" and "\<And>s t. G s t \<Longrightarrow> G s (restore s t)"
  shows "wp R G p (\<lambda>_ _. True) s \<Longrightarrow> wp R G (transaction db restore p) (\<lambda>_ _. True) s"
proof (induction p arbitrary: s)
  case (Ret r)
  then show ?case by simp
next
  case (Act f k)
  show ?case
  proof (simp, intro allI impI conjI)
    fix t
    assume t: "R s t"
    with Act.prems have f: "G t (f t)" and k: "wp R G (k t) (\<lambda>_ _. True) (f t)" by simp_all
    obtain u r where r: "exec_prog (k t) (f t) = (u, r)" by fastforce
    have "G (f t) u" using wp_alone [OF k assms(1-3)] by (simp add: r)
    with f have tu: "G t u" by (rule transpD [OF assms(3)])
    show "db (f t) = db t \<Longrightarrow> G t (f t)" by (rule f)
    show "G t (settle restore t (exec_prog (k t) (f t)))"
      using tu assms(4) [OF tu] by (simp add: r settle_def split: sum.split)
    show "wp R G (transaction db restore (k t)) (\<lambda>_ _. True) (f t)" by (rule Act.IH [OF _ k]) simp
  qed
qed

end

text \<open>The guarantee implies the rely: what others may do, the program may do, and the start can be remembered.\<close>

lemma wp_remember_start:
  assumes "wp R G p Q s" and "R s0 s" and "transp R" and "\<And>s t. G s t \<Longrightarrow> R s t"
  shows "wp R G p (\<lambda>a t. Q a t \<and> R s0 t) s"
  using assms(1,2)
proof (induction p arbitrary: s)
  case (Ret a)
  then show ?case by simp
next
  case (Act f k)
  show ?case
  proof (simp, intro allI impI conjI)
    fix t
    assume t: "R s t"
    with Act.prems(1) show f: "G t (f t)" by simp
    have "R s0 (f t)" using t Act.prems(2) assms(4) [OF f] transpD [OF assms(3)] by blast
    with Act.IH [of "k t" "f t"] Act.prems(1) t show "wp R G (k t) (\<lambda>a t. Q a t \<and> R s0 t) (f t)" by simp
  qed
qed

definition guards :: "'s steps \<Rightarrow> 's steps \<Rightarrow> ('s \<Rightarrow> bool) \<Rightarrow> ('s, 'a) prog \<Rightarrow> bool" where
  "guards R G P p \<longleftrightarrow> (\<forall>s. P s \<longrightarrow> wp R G p (\<lambda>_ _. True) s)"

lemma guardsD: "guards R G P p \<Longrightarrow> P s \<Longrightarrow> wp R G p (\<lambda>_ _. True) s"
  by (simp add: guards_def)

locale guaranteed = stable_situation E P for E :: "'s steps" and P :: "'s \<Rightarrow> bool" +
  fixes G :: "'s steps"
  assumes within: "G s t \<Longrightarrow> E s t"
begin

lemma guards_bindP:
  assumes "guards E G P p" and "\<And>a. guards E G P (g a)"
  shows "guards E G P (bindP p g)"
  unfolding guards_def wp_bindP
proof (intro allI impI)
  fix s
  assume s: "P s"
  have "wp E G p (\<lambda>_ t. True \<and> E s t) s"
    using guardsD [OF assms(1) s] reflpD [OF reflp] transp within by (rule wp_remember_start)
  then show "wp E G p (\<lambda>a. wp E G (g a) (\<lambda>_ _. True)) s"
    by (rule wp_mono) (auto intro: guardsD [OF assms(2)] stable [OF s])
qed

lemma guards_after:
  assumes "\<And>s. P s \<Longrightarrow> wp E G p (\<lambda>r _. case r of Inl _ \<Rightarrow> True | Inr a \<Rightarrow> C a) s"
    and "\<And>a. C a \<Longrightarrow> guards E G P (g a)"
  shows "guards E G P (bindE p g)"
  unfolding guards_def wp_bindE
proof (intro allI impI)
  fix s
  assume s: "P s"
  have "wp E G p (\<lambda>r t. (case r of Inl _ \<Rightarrow> True | Inr a \<Rightarrow> C a) \<and> E s t) s"
    using assms(1) [OF s] reflpD [OF reflp] transp within by (rule wp_remember_start)
  then show "wp E G p (\<lambda>r. case r of Inl e \<Rightarrow> \<lambda>_. True | Inr a \<Rightarrow> wp E G (g a) (\<lambda>_ _. True)) s"
    by (rule wp_mono) (auto intro: guardsD [OF assms(2)] stable [OF s] split: sum.splits)
qed

lemma guards_bindE:
  assumes "guards E G P p" and "\<And>a. guards E G P (g a)"
  shows "guards E G P (bindE p g)"
  unfolding bindE_def
  by (rule guards_bindP [OF assms(1)]) (use assms(2) in \<open>auto simp: guards_def split: sum.split\<close>)

end

lemma guards_both: "safe_when E P p \<Longrightarrow> acts C p \<Longrightarrow> guards E (\<lambda>s t. E s t \<and> C s t) P p"
  unfolding guards_def safe_when_def by (blast intro: wp_acts)

lemma guards_weaken: "guards E G P p \<Longrightarrow> (\<And>s. Q s \<Longrightarrow> P s) \<Longrightarrow> guards E G Q p"
  by (simp add: guards_def)

subsection \<open>Counters\<close>

definition costs :: "('s \<Rightarrow> nat) \<Rightarrow> ('s, 'a) prog \<Rightarrow> nat \<Rightarrow> bool" where
  "costs m p n \<longleftrightarrow> (\<forall>s. m (fst (exec_prog p s)) \<le> m s + n)"

lemma costsD: "costs m p n \<Longrightarrow> m (fst (exec_prog p s)) \<le> m s + n"
  by (simp add: costs_def)

lemma costs_mono: "costs m p n \<Longrightarrow> n \<le> n' \<Longrightarrow> costs m p n'"
  unfolding costs_def by (meson add_left_mono le_trans)

lemma costs_acts: "acts (\<lambda>s t. m t = m s) p \<Longrightarrow> costs m p n"
proof -
  assume "acts (\<lambda>s t. m t = m s) p"
  then have "m (fst (exec_prog p s)) = m s" for s by (induction p arbitrary: s) auto
  then show ?thesis by (simp add: costs_def)
qed

lemma costs_bindP:
  assumes "costs m p n" and "\<And>a. costs m (g a) n'"
  shows "costs m (bindP p g) (n + n')"
  unfolding costs_def
proof
  fix s
  obtain t a where t: "exec_prog p s = (t, a)" by fastforce
  from costsD [OF assms(1), of s] costsD [OF assms(2), of a t] t
  show "m (fst (exec_prog (bindP p g) s)) \<le> m s + (n + n')" by (simp add: exec_bindP)
qed

lemma costs_case:
  "costs m p n \<Longrightarrow> costs m q n \<Longrightarrow> costs m (if b then p else q) n"
  "costs m p' n \<Longrightarrow> (\<And>a. costs m (f a) n) \<Longrightarrow> costs m (case_option p' f x) n"
  "(\<And>e. costs m (h e) n) \<Longrightarrow> (\<And>b. costs m (g b) n) \<Longrightarrow> costs m (case_sum h g y) n"
  "(\<And>a b. costs m (k a b) n) \<Longrightarrow> costs m (case_prod k z) n"
  by (auto split: option.split sum.split prod.split)

lemma costs_Ret: "costs m (Ret a) n"
  by (simp add: costs_def)

lemma costs_bindE:
  assumes "costs m p n" and "\<And>a. costs m (g a) n'"
  shows "costs m (bindE p g) (n + n')"
  unfolding bindE_def by (intro costs_bindP assms costs_case costs_Ret)

end
