(* ===== verification/Hitl_Store.thy ===== *)
theory Hitl_Store
  imports Hitl_Model Versioned_Store Guarantee Failure
begin

section \<open>Approvals of tool calls: the store\<close>

text \<open>
  \<open>ai/hitl/store.py\<close> and the chat messages it points to (\<open>db/chat.py\<close>). The state is the database (approvals,
  revisions, chat messages and sessions), the clock, and what is not in the database: the tools and
  their gates, the scratchpads in memory, the events published so far and the number of calls to language
  models. Each method of a store is an operation on the state; \<open>transaction\<close> (below)
  makes requests of them. An UPDATE with a condition is \<open>table_update\<close>. The database clock and the clock of the
  server are one. Rows of approvals, revisions and messages are not deleted.
\<close>

record chat_message =
  cm_id :: uuid
  cm_session_id :: uuid
  cm_seq :: nat
  cm_role :: string
  cm_content :: string
  cm_provider :: "string option"
  cm_model :: "string option"
  cm_status :: string
  cm_finish_reason :: "string option"
  cm_client_message_id :: "string option"
  cm_pending_approval_id :: "uuid option"
  cm_created_at :: datetime

record chat_session =
  cs_id :: uuid
  cs_next_seq :: nat
  cs_last_message_at :: "datetime option"

datatype reflection_decision = Replan | RetryStep | ContinueStep | Finish

text \<open>The events of \<open>ai/agent/models/events.py\<close>; the first argument of all is the execution.\<close>

datatype hitl_event =
    EvApprovalRequired string uuid uuid "proposed_call list"
  | EvToolStart string string string
  | EvToolEnd string string string bool
  | EvStart string
  | EvPlanning string nat
  | EvToken string string
  | EvReflection string reflection_decision "string option"
  | EvComplete string string "string list"
  | EvError string string string

record hitl_world =
  hw_approvals :: "agent_approval list"
  hw_revisions :: "approval_revision list"
  hw_messages :: "chat_message list"
  hw_sessions :: "chat_session list"
  hw_now :: datetime
  hw_next_uuid :: uuid
  hw_tools :: tool_world
  hw_scratchpads :: "scratch_entry list dict"
  hw_events :: "hitl_event list"
  hw_llm_calls :: nat

datatype approval_validation = EditRejected edit_error | StagesRemaining uuid | NotIntermediate uuid

datatype hitl_exn =
    ApprovalNotFound uuid
  | ApprovalHasExpired uuid
  | ApprovalDecisionConflict uuid approval_status
  | ApprovalValidation approval_validation
  | StagePermissionInvalid string
  | ApprovalPause agent_approval
  | HitlRuntime string
  | HitlAgent agent_error
  | HitlTool tool_exn
  | HitlUnknownSession uuid
  | HitlSnapshotInvalid
  | ToolCallRejected string "string option"
  | HitlMisconfigured string
  | HitlProvider failure
  | HitlValueError string

fun is_hitl_error :: "hitl_exn \<Rightarrow> bool" where
  "is_hitl_error (ApprovalNotFound _) = True"
| "is_hitl_error (ApprovalHasExpired _) = True"
| "is_hitl_error (ApprovalDecisionConflict _ _) = True"
| "is_hitl_error (ApprovalValidation _) = True"
| "is_hitl_error (StagePermissionInvalid _) = True"
| "is_hitl_error (ApprovalPause _) = True"
| "is_hitl_error (ToolCallRejected _ _) = True"
| "is_hitl_error (HitlMisconfigured _) = True"
| "is_hitl_error _ = False"

type_synonym 'a hitl_op = "hitl_world \<Rightarrow> hitl_world \<times> (hitl_exn + 'a)"
type_synonym 'a hitl_prog = "(hitl_world, hitl_exn + 'a) prog"

definition hitl_db ::
    "hitl_world \<Rightarrow> agent_approval list \<times> approval_revision list \<times> chat_message list \<times> chat_session list" where
  "hitl_db w = (hw_approvals w, hw_revisions w, hw_messages w, hw_sessions w)"

definition hitl_restore :: "hitl_world \<Rightarrow> hitl_world \<Rightarrow> hitl_world" where
  "hitl_restore w v = v\<lparr>hw_approvals := hw_approvals w, hw_revisions := hw_revisions w,
     hw_messages := hw_messages w, hw_sessions := hw_sessions w\<rparr>"

interpretation hitl_session: transactional hitl_db hitl_restore
  by unfold_locales (simp_all add: hitl_db_def hitl_restore_def)

subsection \<open>Reading approvals\<close>

definition approval_row :: "hitl_world \<Rightarrow> uuid \<Rightarrow> agent_approval option" where
  "approval_row w i = table_get aa_id (hw_approvals w) i"

definition update_approval ::
    "uuid \<Rightarrow> (agent_approval \<Rightarrow> bool) \<Rightarrow> (agent_approval \<Rightarrow> agent_approval) \<Rightarrow> hitl_world \<Rightarrow> hitl_world" where
  "update_approval i hits upd w = w\<lparr>hw_approvals := table_update aa_id i hits upd (hw_approvals w)\<rparr>"

definition map_row :: "int \<Rightarrow> hitl_world \<Rightarrow> agent_approval \<Rightarrow> agent_approval" where
  "map_row retention_days w row = apply_client_audit_retention_policy row retention_days (hw_now w)"

definition had_client_audit :: "agent_approval \<Rightarrow> bool" where
  "had_client_audit row \<longleftrightarrow>
     (case aa_source_ip row of None \<Rightarrow> False | Some ip \<Rightarrow> ip \<noteq> []) \<or> aa_client_metadata row \<noteq> []"

definition map_row_persisting_retention ::
    "int \<Rightarrow> agent_approval \<Rightarrow> hitl_world \<Rightarrow> hitl_world \<times> agent_approval" where
  "map_row_persisting_retention retention_days row w =
     (let approval = map_row retention_days w row in
      if had_client_audit row \<and> aa_source_ip approval = None \<and> aa_client_metadata approval = [] \<and>
         aa_status approval = ApPending
      then (update_approval (aa_id row) (\<lambda>_. True) (\<lambda>a. a\<lparr>aa_source_ip := None, aa_client_metadata := [],
              aa_version := aa_version a + 1, aa_updated_at := hw_now w\<rparr>) w, approval)
      else (w, approval))"

definition due :: "datetime \<Rightarrow> uuid \<Rightarrow> agent_approval \<Rightarrow> bool" where
  "due now owner_id a \<longleftrightarrow> aa_owner_id a = owner_id \<and> aa_status a = ApPending \<and>
     (case aa_expires_at a of None \<Rightarrow> False | Some t \<Rightarrow> t \<le> now)"

definition expired_at :: "datetime \<Rightarrow> agent_approval \<Rightarrow> agent_approval" where
  "expired_at now a = a\<lparr>aa_status := ApExpired, aa_source_ip := None, aa_client_metadata := [],
     aa_version := aa_version a + 1, aa_updated_at := now\<rparr>"

definition expire_if_due :: "int \<Rightarrow> uuid \<Rightarrow> uuid \<Rightarrow> hitl_world \<Rightarrow> hitl_world \<times> agent_approval option" where
  "expire_if_due retention_days approval_id owner_id w =
     (case approval_row w approval_id of
        Some row \<Rightarrow>
          if due (hw_now w) owner_id row
          then (let v = update_approval approval_id (due (hw_now w) owner_id) (expired_at (hw_now w)) w in
                (v, map_option (map_row retention_days v) (approval_row v approval_id)))
          else (w, None)
      | None \<Rightarrow> (w, None))"

text \<open>The part that \<open>get_for_owner\<close> and \<open>get_any\<close> share.\<close>

definition touch_row :: "int \<Rightarrow> agent_approval \<Rightarrow> uuid \<Rightarrow> hitl_world \<Rightarrow> hitl_world \<times> agent_approval option" where
  "touch_row retention_days row owner_id w =
     (let (w1, approval) = map_row_persisting_retention retention_days row w in
      if aa_status approval = ApPending \<and> aa_expires_at approval \<noteq> None
      then (case expire_if_due retention_days (aa_id row) owner_id w1 of
              (w2, Some expired) \<Rightarrow> (w2, Some expired)
            | (w2, None) \<Rightarrow> (w2, Some approval))
      else (w1, Some approval))"

definition get_for_owner :: "int \<Rightarrow> uuid \<Rightarrow> uuid \<Rightarrow> hitl_world \<Rightarrow> hitl_world \<times> agent_approval option" where
  "get_for_owner retention_days approval_id owner_id w =
     (case approval_row w approval_id of
        None \<Rightarrow> (w, None)
      | Some row \<Rightarrow>
          if aa_owner_id row \<noteq> owner_id then (w, None) else touch_row retention_days row owner_id w)"

definition get_any :: "int \<Rightarrow> uuid \<Rightarrow> hitl_world \<Rightarrow> hitl_world \<times> agent_approval option" where
  "get_any retention_days approval_id w =
     (case approval_row w approval_id of
        None \<Rightarrow> (w, None)
      | Some row \<Rightarrow> touch_row retention_days row (aa_owner_id row) w)"

definition get_approval :: "int \<Rightarrow> uuid \<Rightarrow> hitl_world \<Rightarrow> agent_approval option" where
  "get_approval retention_days approval_id w = map_option (map_row retention_days w) (approval_row w approval_id)"

definition require_for_owner :: "int \<Rightarrow> uuid \<Rightarrow> uuid \<Rightarrow> agent_approval hitl_op" where
  "require_for_owner retention_days approval_id owner_id w =
     (case get_for_owner retention_days approval_id owner_id w of
        (v, None) \<Rightarrow> (v, Inl (ApprovalNotFound approval_id))
      | (v, Some a) \<Rightarrow> if aa_status a = ApExpired then (v, Inl (ApprovalHasExpired approval_id)) else (v, Inr a))"

definition resolve_cas_miss :: "int \<Rightarrow> uuid \<Rightarrow> uuid \<Rightarrow> agent_approval hitl_op" where
  "resolve_cas_miss retention_days approval_id owner_id w =
     (case get_for_owner retention_days approval_id owner_id w of
        (v, None) \<Rightarrow> (v, Inl (ApprovalNotFound approval_id))
      | (v, Some a) \<Rightarrow>
          if aa_status a = ApExpired then (v, Inl (ApprovalHasExpired approval_id))
          else (v, Inl (ApprovalDecisionConflict approval_id (aa_status a))))"

definition newest_first :: "agent_approval list \<Rightarrow> agent_approval list" where
  "newest_first rows = sort_key (\<lambda>a. - aa_requested_at a) rows"

definition list_for_owner :: "int \<Rightarrow> uuid \<Rightarrow> approval_status option \<Rightarrow> hitl_world \<Rightarrow> agent_approval list" where
  "list_for_owner retention_days owner_id status w =
     map (map_row retention_days w) (newest_first (filter (\<lambda>a. aa_owner_id a = owner_id \<and>
       (case status of None \<Rightarrow> True | Some s \<Rightarrow> aa_status a = s)) (hw_approvals w)))"

definition list_for_session :: "int \<Rightarrow> uuid \<Rightarrow> approval_status option \<Rightarrow> hitl_world \<Rightarrow> agent_approval list" where
  "list_for_session retention_days session_id status w =
     map (map_row retention_days w) (newest_first (filter (\<lambda>a. aa_session_id a = session_id \<and>
       (case status of None \<Rightarrow> True | Some s \<Rightarrow> aa_status a = s)) (hw_approvals w)))"

subsection \<open>Writing approvals\<close>

definition new_approval ::
    "uuid \<Rightarrow> datetime \<Rightarrow> uuid \<Rightarrow> uuid \<Rightarrow> string \<Rightarrow> uuid \<Rightarrow> proposed_call list \<Rightarrow> scratch_entry list \<Rightarrow>
     agent_state \<Rightarrow> datetime option \<Rightarrow> string list \<Rightarrow> request_metadata option \<Rightarrow> agent_approval" where
  "new_approval i now session_id owner_id execution_id correlation_id calls scratchpad state expires_at stages md =
     \<lparr>aa_id = i, aa_session_id = session_id, aa_owner_id = owner_id, aa_execution_id = execution_id,
      aa_approval_correlation_id = correlation_id, aa_status = ApPending, aa_proposed_calls = calls,
      aa_edited_calls = None, aa_reason = None, aa_comments = None, aa_paused_scratchpad = scratchpad,
      aa_paused_state = Some state, aa_pending_message_id = None, aa_requested_at = now, aa_decided_at = None,
      aa_decided_by = None, aa_created_at = now, aa_updated_at = now, aa_expires_at = expires_at,
      aa_request_id = (case md of None \<Rightarrow> None | Some m \<Rightarrow> rm_request_id m),
      aa_source_ip = (case md of None \<Rightarrow> None | Some m \<Rightarrow> rm_source_ip m),
      aa_client_metadata = (case md of None \<Rightarrow> [] | Some m \<Rightarrow> rm_client_metadata m),
      aa_required_stages = stages, aa_stage_decisions = [], aa_version = 1\<rparr>"

definition create_approval ::
    "int \<Rightarrow> (uuid \<Rightarrow> datetime \<Rightarrow> agent_approval) \<Rightarrow> hitl_world \<Rightarrow> hitl_world \<times> agent_approval" where
  "create_approval retention_days mk w =
     (let row = mk (hw_next_uuid w) (hw_now w) in
      (w\<lparr>hw_approvals := hw_approvals w @ [row], hw_next_uuid := hw_next_uuid w + 1\<rparr>, map_row retention_days w row))"

definition link_pending_message :: "int \<Rightarrow> uuid \<Rightarrow> uuid \<Rightarrow> hitl_world \<Rightarrow> hitl_world \<times> agent_approval option" where
  "link_pending_message retention_days approval_id message_id w =
     (let v = update_approval approval_id (\<lambda>_. True)
                (\<lambda>a. a\<lparr>aa_pending_message_id := Some message_id, aa_updated_at := hw_now w\<rparr>) w in
      (v, map_option (map_row retention_days v) (approval_row v approval_id)))"

text \<open>The conditional UPDATE that decide, cancel and revise share, and what they make of a miss.\<close>

definition open_for :: "uuid \<Rightarrow> agent_approval \<Rightarrow> bool" where
  "open_for owner_id a \<longleftrightarrow> aa_owner_id a = owner_id \<and> aa_status a = ApPending"

definition cas_pending ::
    "int \<Rightarrow> uuid \<Rightarrow> uuid \<Rightarrow> (agent_approval \<Rightarrow> agent_approval) \<Rightarrow> agent_approval hitl_op" where
  "cas_pending retention_days approval_id owner_id upd w =
     (case approval_row w approval_id of
        Some row \<Rightarrow>
          if open_for owner_id row
          then (update_approval approval_id (open_for owner_id) upd w, Inr (map_row retention_days w (upd row)))
          else resolve_cas_miss retention_days approval_id owner_id w
      | None \<Rightarrow> resolve_cas_miss retention_days approval_id owner_id w)"

definition decided_as ::
    "datetime \<Rightarrow> approval_status \<Rightarrow> uuid \<Rightarrow> string option \<Rightarrow> string option \<Rightarrow> proposed_call list option \<Rightarrow>
     request_metadata option \<Rightarrow> agent_approval \<Rightarrow> agent_approval" where
  "decided_as now status decided_by reason comments edited_calls md a =
     a\<lparr>aa_status := status, aa_decided_by := Some decided_by, aa_decided_at := Some now, aa_reason := reason,
       aa_comments := comments, aa_version := aa_version a + 1, aa_updated_at := now,
       aa_edited_calls := (case edited_calls of None \<Rightarrow> aa_edited_calls a | Some calls \<Rightarrow> Some calls),
       aa_source_ip := None, aa_client_metadata := [],
       aa_request_id := (case md of None \<Rightarrow> aa_request_id a | Some m \<Rightarrow> rm_request_id m)\<rparr>"

definition cas_decide ::
    "int \<Rightarrow> uuid \<Rightarrow> uuid \<Rightarrow> approval_status \<Rightarrow> uuid \<Rightarrow> string option \<Rightarrow> string option \<Rightarrow>
     proposed_call list option \<Rightarrow> request_metadata option \<Rightarrow> agent_approval hitl_op" where
  "cas_decide retention_days approval_id owner_id status decided_by reason comments edited_calls md w =
     cas_pending retention_days approval_id owner_id
       (decided_as (hw_now w) status decided_by reason comments edited_calls md) w"

definition cancelled_as ::
    "datetime \<Rightarrow> uuid \<Rightarrow> string option \<Rightarrow> request_metadata option \<Rightarrow> agent_approval \<Rightarrow> agent_approval" where
  "cancelled_as now owner_id reason md a =
     a\<lparr>aa_status := ApCancelled, aa_decided_by := Some owner_id, aa_decided_at := Some now, aa_reason := reason,
       aa_version := aa_version a + 1, aa_updated_at := now, aa_source_ip := None, aa_client_metadata := [],
       aa_request_id := (case md of None \<Rightarrow> aa_request_id a | Some m \<Rightarrow> rm_request_id m)\<rparr>"

definition cas_cancel :: "int \<Rightarrow> uuid \<Rightarrow> uuid \<Rightarrow> string option \<Rightarrow> request_metadata option \<Rightarrow> agent_approval hitl_op" where
  "cas_cancel retention_days approval_id owner_id reason md w =
     cas_pending retention_days approval_id owner_id (cancelled_as (hw_now w) owner_id reason md) w"

definition revised_to :: "datetime \<Rightarrow> proposed_call list \<Rightarrow> agent_approval \<Rightarrow> agent_approval" where
  "revised_to now edited_calls a = a\<lparr>aa_edited_calls := Some edited_calls, aa_version := aa_version a + 1,
     aa_updated_at := now\<rparr>"

definition cas_revise :: "int \<Rightarrow> uuid \<Rightarrow> uuid \<Rightarrow> proposed_call list \<Rightarrow> agent_approval hitl_op" where
  "cas_revise retention_days approval_id owner_id edited_calls w =
     cas_pending retention_days approval_id owner_id (revised_to (hw_now w) edited_calls) w"

definition with_stages :: "datetime \<Rightarrow> stage_decision list \<Rightarrow> agent_approval \<Rightarrow> agent_approval" where
  "with_stages now decisions a = a\<lparr>aa_stage_decisions := decisions, aa_version := aa_version a + 1,
     aa_updated_at := now\<rparr>"

definition append_stage_decision ::
    "int \<Rightarrow> uuid \<Rightarrow> uuid \<Rightarrow> string \<Rightarrow> stage_verdict \<Rightarrow> uuid \<Rightarrow> string option \<Rightarrow> string option \<Rightarrow>
     agent_approval hitl_op" where
  "append_stage_decision retention_days approval_id owner_id stage decision decided_by reason comments w =
     (case approval_row w approval_id of
        None \<Rightarrow> (w, Inl (ApprovalNotFound approval_id))
      | Some row \<Rightarrow>
          if aa_owner_id row \<noteq> owner_id then (w, Inl (ApprovalNotFound approval_id))
          else if due (hw_now w) owner_id row
          then (fst (expire_if_due retention_days approval_id owner_id w), Inl (ApprovalHasExpired approval_id))
          else if aa_status row = ApExpired then (w, Inl (ApprovalHasExpired approval_id))
          else if aa_status row \<noteq> ApPending
          then (w, Inl (ApprovalDecisionConflict approval_id (aa_status row)))
          else (let entry = \<lparr>sd_stage = stage, sd_decision = decision, sd_decided_by = decided_by,
                        sd_decided_at = hw_now w, sd_reason = reason, sd_comments = comments\<rparr>;
                    upd = with_stages (hw_now w) (aa_stage_decisions row @ [entry]) in
                (update_approval approval_id (\<lambda>_. True) upd w, Inr (map_row retention_days w (upd row)))))"

definition rollback_last_stage_decision ::
    "uuid \<Rightarrow> uuid \<Rightarrow> string \<Rightarrow> stage_verdict \<Rightarrow> hitl_world \<Rightarrow> hitl_world" where
  "rollback_last_stage_decision approval_id owner_id stage decision w =
     (case approval_row w approval_id of
        None \<Rightarrow> w
      | Some row \<Rightarrow>
          if \<not> open_for owner_id row \<or> aa_stage_decisions row = [] then w
          else (let last_entry = last (aa_stage_decisions row) in
                if sd_stage last_entry \<noteq> stage \<or> sd_decision last_entry \<noteq> decision then w
                else update_approval approval_id (\<lambda>_. True)
                       (with_stages (hw_now w) (butlast (aa_stage_decisions row))) w))"

subsection \<open>Revisions\<close>

definition revisions_of :: "hitl_world \<Rightarrow> uuid \<Rightarrow> approval_kind \<Rightarrow> approval_revision list" where
  "revisions_of w approval_id kind =
     filter (\<lambda>r. ar_approval_id r = approval_id \<and> ar_approval_kind r = kind) (hw_revisions w)"

definition append_agent_revision ::
    "uuid \<Rightarrow> uuid \<Rightarrow> proposed_call list \<Rightarrow> string option \<Rightarrow> approval_revision hitl_op" where
  "append_agent_revision approval_id edited_by payload note w =
     (case approval_row w approval_id of
        None \<Rightarrow> (w, Inl (ApprovalNotFound approval_id))
      | Some _ \<Rightarrow>
          (let number = foldr max (map ar_revision_number (revisions_of w approval_id AgentTool)) 0 + 1;
               row = \<lparr>ar_id = hw_next_uuid w, ar_approval_id = approval_id, ar_approval_kind = AgentTool,
                      ar_revision_number = number, ar_edited_by = edited_by, ar_edited_at = hw_now w,
                      ar_edited_payload = payload, ar_note = note\<rparr> in
           (w\<lparr>hw_revisions := hw_revisions w @ [row], hw_next_uuid := hw_next_uuid w + 1\<rparr>, Inr row)))"

definition list_revisions :: "uuid \<Rightarrow> approval_kind \<Rightarrow> hitl_world \<Rightarrow> approval_revision list" where
  "list_revisions approval_id kind w = sort_key ar_revision_number (revisions_of w approval_id kind)"

subsection \<open>Sweeps\<close>

definition list_pending_past_timeout_hours :: "int \<Rightarrow> int \<Rightarrow> hitl_world \<Rightarrow> agent_approval list" where
  "list_pending_past_timeout_hours retention_days timeout_hours w =
     (if timeout_hours \<le> 0 then []
      else map (map_row retention_days w) (filter (\<lambda>a. aa_status a = ApPending \<and>
             aa_requested_at a < hw_now w - hours timeout_hours) (hw_approvals w)))"

definition without_snapshot :: "datetime \<Rightarrow> agent_approval \<Rightarrow> agent_approval" where
  "without_snapshot now a = a\<lparr>aa_paused_scratchpad := [], aa_paused_state := None,
     aa_version := aa_version a + 1, aa_updated_at := now\<rparr>"

definition swept_at :: "datetime \<Rightarrow> agent_approval \<Rightarrow> agent_approval" where
  "swept_at now a = a\<lparr>aa_status := ApExpired, aa_paused_scratchpad := [], aa_paused_state := None,
     aa_source_ip := None, aa_client_metadata := [], aa_version := aa_version a + 1, aa_updated_at := now\<rparr>"

definition cas_expire_pending_sweep :: "int \<Rightarrow> uuid \<Rightarrow> hitl_world \<Rightarrow> hitl_world \<times> agent_approval option" where
  "cas_expire_pending_sweep retention_days approval_id w =
     (case approval_row w approval_id of
        None \<Rightarrow> (w, None)
      | Some row \<Rightarrow>
          if aa_status row \<noteq> ApPending then (w, None)
          else (update_approval approval_id (\<lambda>a. aa_status a = ApPending) (swept_at (hw_now w)) w,
                Some (map_row retention_days w (swept_at (hw_now w) row))))"

definition orphaned :: "datetime \<Rightarrow> agent_approval \<Rightarrow> bool" where
  "orphaned cutoff a \<longleftrightarrow> aa_status a = ApApproved \<and>
     (case aa_decided_at a of None \<Rightarrow> False | Some t \<Rightarrow> t < cutoff) \<and> has_pause_snapshot a"

definition list_orphaned_approved_snapshots :: "int \<Rightarrow> int \<Rightarrow> hitl_world \<Rightarrow> agent_approval list" where
  "list_orphaned_approved_snapshots retention_days grace_seconds w =
     map (map_row retention_days w) (filter (orphaned (hw_now w - seconds grace_seconds)) (hw_approvals w))"

definition claim_pause_snapshot :: "int \<Rightarrow> uuid \<Rightarrow> hitl_world \<Rightarrow> hitl_world \<times> agent_approval option" where
  "claim_pause_snapshot retention_days approval_id w =
     (case approval_row w approval_id of
        None \<Rightarrow> (w, None)
      | Some row \<Rightarrow>
          if aa_status row = ApApproved \<and> has_pause_snapshot row
          then (update_approval approval_id (\<lambda>_. True) (without_snapshot (hw_now w)) w,
                Some (map_row retention_days w row))
          else (w, None))"

definition clear_pause_snapshot :: "uuid \<Rightarrow> hitl_world \<Rightarrow> hitl_world" where
  "clear_pause_snapshot approval_id w =
     update_approval approval_id (\<lambda>a. aa_status a \<in> {ApApproved, ApRejected, ApExpired, ApCancelled})
       (without_snapshot (hw_now w)) w"

subsection \<open>Chat messages\<close>

definition allocate_seq :: "uuid \<Rightarrow> nat hitl_op" where
  "allocate_seq session_id w =
     (case table_get cs_id (hw_sessions w) session_id of
        None \<Rightarrow> (w, Inl (HitlUnknownSession session_id))
      | Some s \<Rightarrow> (w\<lparr>hw_sessions := table_update cs_id session_id (\<lambda>_. True)
                       (\<lambda>x. x\<lparr>cs_next_seq := cs_next_seq s + 1\<rparr>) (hw_sessions w)\<rparr>, Inr (cs_next_seq s)))"

definition add_message ::
    "uuid \<Rightarrow> nat \<Rightarrow> string \<Rightarrow> string \<Rightarrow> string option \<Rightarrow> string option \<Rightarrow> string \<Rightarrow> string option \<Rightarrow> string option \<Rightarrow>
     uuid option \<Rightarrow> hitl_world \<Rightarrow> hitl_world \<times> chat_message" where
  "add_message session_id n role content provider model status finish_reason client_id pending_approval_id w =
     (let m = \<lparr>cm_id = hw_next_uuid w, cm_session_id = session_id, cm_seq = n, cm_role = role, cm_content = content,
               cm_provider = provider, cm_model = model, cm_status = status, cm_finish_reason = finish_reason,
               cm_client_message_id = client_id, cm_pending_approval_id = pending_approval_id,
               cm_created_at = hw_now w\<rparr> in
      (w\<lparr>hw_messages := hw_messages w @ [m], hw_next_uuid := hw_next_uuid w + 1\<rparr>, m))"

definition get_message :: "uuid \<Rightarrow> hitl_world \<Rightarrow> chat_message option" where
  "get_message message_id w = table_get cm_id (hw_messages w) message_id"

definition list_messages :: "uuid \<Rightarrow> hitl_world \<Rightarrow> chat_message list" where
  "list_messages session_id w = sort_key cm_seq (filter (\<lambda>m. cm_session_id m = session_id) (hw_messages w))"

definition mark_last_message_at :: "uuid \<Rightarrow> hitl_world \<Rightarrow> hitl_world" where
  "mark_last_message_at session_id w = w\<lparr>hw_sessions := table_update cs_id session_id (\<lambda>_. True)
     (\<lambda>x. x\<lparr>cs_last_message_at := Some (hw_now w)\<rparr>) (hw_sessions w)\<rparr>"

definition update_message ::
    "uuid \<Rightarrow> string option \<Rightarrow> string option \<Rightarrow> string option \<Rightarrow> uuid option \<Rightarrow> bool \<Rightarrow> hitl_world \<Rightarrow> hitl_world" where
  "update_message message_id content status finish_reason pending_approval_id clear_pending w =
     w\<lparr>hw_messages := table_update cm_id message_id (\<lambda>_. True) (\<lambda>m. m\<lparr>
         cm_content := (case content of None \<Rightarrow> cm_content m | Some c \<Rightarrow> c),
         cm_status := (case status of None \<Rightarrow> cm_status m | Some s \<Rightarrow> s),
         cm_finish_reason := (case finish_reason of None \<Rightarrow> cm_finish_reason m | Some r \<Rightarrow> Some r),
         cm_pending_approval_id := (if clear_pending then None
           else case pending_approval_id of None \<Rightarrow> cm_pending_approval_id m | Some a \<Rightarrow> Some a)\<rparr>) (hw_messages w)\<rparr>"

end
