(* ===== verification/Hitl_Service.thy ===== *)
theory Hitl_Service
  imports Hitl_Store
begin

section \<open>Approvals of tool calls: the service\<close>

text \<open>
  \<open>ai/hitl/service.py\<close>, the endpoints of \<open>routers/approvals.py\<close> that change approvals and the two background
  sweeps (\<open>ai/jobs/handlers/hitl_expiry.py\<close>, the part for tool calls, and \<open>hitl_orphan_sweep.py\<close>). The executor
  that continues a paused agent (\<open>resume_from_approval\<close>) is a field of the configuration; so are the
  JSON text of a tool result and the settings. Notifications, metrics, spans and audit records have no
  effect on this state. Every endpoint is one transaction; the streaming endpoint turns an approval
  error into an event, so that its transaction commits.
\<close>

record agent_settings =
  cf_max_iterations :: nat
  cf_reflection_enabled :: bool
  cf_max_reflections :: nat
  cf_max_retries :: nat
  cf_timeout_seconds :: "nat option"

definition default_settings :: agent_settings where
  "default_settings = \<lparr>cf_max_iterations = 5, cf_reflection_enabled = False, cf_max_reflections = 2,
     cf_max_retries = 3, cf_timeout_seconds = None\<rparr>"

record agent_request =
  aq_messages :: "(string \<times> string) list"
  aq_model :: string
  aq_provider :: "string option"
  aq_tool_names :: "string list option"
  aq_system_prompt :: "string option"
  aq_config :: "agent_settings option"

record agent_response =
  ap_content :: string
  ap_tools_used :: "string list"
  ap_iterations :: nat
  ap_finish_reason :: "string option"
  ap_approval_id :: "uuid option"

record tool_run_record =
  tn_step_id :: string
  tn_call :: tool_call
  tn_result :: tool_result

record agent_resumption =
  an_request :: agent_request
  an_execution_id :: string
  an_session_id :: uuid
  an_caller :: uuid
  an_state :: agent_state
  an_results :: "tool_run_record list"
  an_last_planner_content :: "string option"

record hitl_config =
  hc_retention_days :: int
  hc_timeout_hours :: int
  hc_registry :: "tool_registry option"
  hc_tools :: tool_config
  hc_has_executor :: bool
  hc_rbac_active :: bool
  hc_decision_daily_quota :: "int option"
  hc_decision_per_minute :: int
  hc_default_model :: string
  hc_format_result :: "tool_result \<Rightarrow> string"
  hc_resume :: "agent_resumption \<Rightarrow> agent_response hitl_prog"
  hc_max_reason_length :: nat
  hc_max_comment_length :: nat
  hc_grace_seconds :: int
  hc_system_prompt :: string
  hc_request_timeout_seconds :: nat

definition put_tools :: "tool_world \<Rightarrow> hitl_world \<Rightarrow> hitl_world" where
  "put_tools s w = w\<lparr>hw_tools := s\<rparr>"

interpretation tools_part: substate hw_tools put_tools
  by unfold_locales (simp_all add: put_tools_def)

definition run_tools :: "(tool_world, tool_exn + 'a) prog \<Rightarrow> 'a hitl_prog" where
  "run_tools p = lift_error HitlTool (zoom hw_tools put_tools p)"

definition doP :: "(hitl_world \<Rightarrow> hitl_world) \<Rightarrow> unit hitl_prog" where
  "doP f = opP (\<lambda>w. (f w, Inr ()))"

definition catch :: "'a hitl_prog \<Rightarrow> (hitl_exn \<Rightarrow> 'a hitl_prog) \<Rightarrow> 'a hitl_prog" where
  "catch p handler = bindP p (\<lambda>r. case r of Inr x \<Rightarrow> ok x | Inl e \<Rightarrow> handler e)"

definition publish :: "hitl_event \<Rightarrow> unit hitl_prog" where
  "publish e = doP (\<lambda>w. w\<lparr>hw_events := hw_events w @ [e]\<rparr>)"

subsection \<open>Who may decide\<close>

definition hitl_authorize :: "hitl_config \<Rightarrow> uuid \<Rightarrow> string \<Rightarrow> bool hitl_prog" where
  "hitl_authorize cfg user_id permission =
     run_tools (lift_error ToolRbacError
       (zoom xw_rbac put_rbac (has_permission (xc_cache_ttl (hc_tools cfg)) (Some user_id) permission)))"

definition check_stage_permission :: "hitl_config \<Rightarrow> uuid \<Rightarrow> string \<Rightarrow> unit hitl_prog" where
  "check_stage_permission cfg decider_id stage =
     (if \<not> hc_rbac_active cfg then ok ()
      else bindE (hitl_authorize cfg decider_id (permission_value ApprovalsDecideAll)) (\<lambda>decide_all.
        if decide_all then ok ()
        else bindE (hitl_authorize cfg decider_id stage) (\<lambda>allowed.
          if \<not> allowed then raise (StagePermissionInvalid stage) else ok ())))"

definition resolve_approval_for_decider :: "hitl_config \<Rightarrow> uuid \<Rightarrow> uuid \<Rightarrow> agent_approval hitl_prog" where
  "resolve_approval_for_decider cfg approval_id decider_id =
     bindP (opP (get_for_owner (hc_retention_days cfg) approval_id decider_id)) (\<lambda>approval.
       (case approval of
          Some a \<Rightarrow> if aa_status a = ApExpired then raise (ApprovalHasExpired approval_id) else ok a
        | None \<Rightarrow>
            if \<not> hc_rbac_active cfg then raise (ApprovalNotFound approval_id)
            else bindP (opP (get_any (hc_retention_days cfg) approval_id)) (\<lambda>candidate.
              (case candidate of
                 None \<Rightarrow> raise (ApprovalNotFound approval_id)
               | Some c \<Rightarrow>
                   bindE (hitl_authorize cfg decider_id (permission_value ApprovalsDecideAll)) (\<lambda>decide_all.
                   bindE (if \<not> decide_all \<and> has_outstanding_stages c
                          then hitl_authorize cfg decider_id (current_stage c) else ok decide_all) (\<lambda>authorized.
                     if \<not> authorized then raise (ApprovalNotFound approval_id)
                     else if aa_status c = ApExpired then raise (ApprovalHasExpired approval_id)
                     else ok c))))))"

subsection \<open>Pausing\<close>

record pause_request =
  pq_step_id :: string
  pq_tool_calls :: "tool_call list"
  pq_scratchpad :: "scratch_entry list"
  pq_state :: agent_state
  pq_session_id :: uuid
  pq_owner_id :: uuid
  pq_execution_id :: string
  pq_provider :: "string option"
  pq_model :: "string option"
  pq_required_stages :: "string list"
  pq_request_id :: "string option"

definition draw_uuid :: "hitl_world \<Rightarrow> hitl_world \<times> uuid" where
  "draw_uuid w = (w\<lparr>hw_next_uuid := hw_next_uuid w + 1\<rparr>, hw_next_uuid w)"

definition pause :: "hitl_config \<Rightarrow> pause_request \<Rightarrow> agent_approval hitl_prog" where
  "pause cfg q =
     (let calls = proposed_calls_from_step (pq_step_id q) (pq_tool_calls q);
          md = \<lparr>rm_request_id = pq_request_id q, rm_source_ip = None, rm_client_metadata = []\<rparr> in
      bindP (opP draw_uuid) (\<lambda>correlation_id.
      (case transition (pq_state q) AgWaitingApproval None of
         Inl e \<Rightarrow> raise (HitlAgent e)
       | Inr paused_state \<Rightarrow>
           bindP (readP (\<lambda>w. compute_expires_at (hc_timeout_hours cfg) (hw_now w))) (\<lambda>expires_at.
           bindP (opP (create_approval (hc_retention_days cfg) (\<lambda>i now. new_approval i now (pq_session_id q)
             (pq_owner_id q) (pq_execution_id q) correlation_id calls (pq_scratchpad q) paused_state expires_at
             (pq_required_stages q) (Some md)))) (\<lambda>approval.
           bindE (opP (allocate_seq (pq_session_id q))) (\<lambda>assistant_seq.
           bindP (opP (add_message (pq_session_id q) assistant_seq ''assistant'' [] (pq_provider q) (pq_model q)
             ''waiting_approval'' None None (Some (aa_id approval)))) (\<lambda>placeholder.
           bindE (doP (mark_last_message_at (pq_session_id q))) (\<lambda>_.
           bindP (opP (link_pending_message (hc_retention_days cfg) (aa_id approval) (cm_id placeholder))) (\<lambda>linked.
             let a = (case linked of Some x \<Rightarrow> x | None \<Rightarrow> approval) in
             bindE (publish (EvApprovalRequired (pq_execution_id q) (aa_id a) (aa_approval_correlation_id a) calls))
               (\<lambda>_. ok a)))))))))) "

subsection \<open>Revising\<close>

fun lift_edit_error :: "edit_error \<Rightarrow> hitl_exn" where
  "lift_edit_error EditRegistryMissing = HitlRuntime ''ToolRegistry is required to validate edited calls.''"
| "lift_edit_error EditTypeError = HitlRuntime ''TypeError''"
| "lift_edit_error e = ApprovalValidation (EditRejected e)"

definition validate_edits :: "hitl_config \<Rightarrow> proposed_call list option \<Rightarrow> agent_approval \<Rightarrow> hitl_exn + unit" where
  "validate_edits cfg edited_calls approval =
     (case edited_calls of
        None \<Rightarrow> Inr ()
      | Some calls \<Rightarrow>
          (case validate_edited_calls (hc_registry cfg) (xc_message (hc_tools cfg)) calls (aa_proposed_calls approval) of
             Inl e \<Rightarrow> Inl (lift_edit_error e) | Inr _ \<Rightarrow> Inr ()))"

definition revise ::
    "hitl_config \<Rightarrow> uuid \<Rightarrow> proposed_call list \<Rightarrow> uuid \<Rightarrow> string option \<Rightarrow>
     (agent_approval \<times> approval_revision) hitl_prog" where
  "revise cfg approval_id edited_calls owner_id note =
     bindE (opP (require_for_owner (hc_retention_days cfg) approval_id owner_id)) (\<lambda>approval.
     bindE (Ret (validate_edits cfg (Some edited_calls) approval)) (\<lambda>_.
     bindE (opP (cas_revise (hc_retention_days cfg) approval_id owner_id edited_calls)) (\<lambda>updated.
     bindE (opP (append_agent_revision approval_id owner_id edited_calls note)) (\<lambda>revision.
       ok (updated, revision)))))"

subsection \<open>Deciding\<close>

record decision_args =
  da_edited_calls :: "proposed_call list option"
  da_reason :: "string option"
  da_comments :: "string option"
  da_metadata :: "request_metadata option"

definition write_decision ::
    "hitl_config \<Rightarrow> uuid \<Rightarrow> uuid \<Rightarrow> agent_approval \<Rightarrow> approval_status \<Rightarrow> decision_args \<Rightarrow> agent_approval hitl_op" where
  "write_decision cfg approval_id decider_id approval status d =
     cas_decide (hc_retention_days cfg) approval_id (aa_owner_id approval) status decider_id
       (da_reason d) (da_comments d) (da_edited_calls d) (da_metadata d)"

definition cas_decide_with_stage_append ::
    "hitl_config \<Rightarrow> uuid \<Rightarrow> uuid \<Rightarrow> agent_approval \<Rightarrow> stage_verdict \<Rightarrow> approval_status \<Rightarrow> decision_args \<Rightarrow>
     agent_approval hitl_prog" where
  "cas_decide_with_stage_append cfg approval_id decider_id approval verdict status d =
     (let stage = current_stage approval in
      bindE (check_stage_permission cfg decider_id stage) (\<lambda>_.
      bindE (opP (append_stage_decision (hc_retention_days cfg) approval_id (aa_owner_id approval) stage verdict
        decider_id (da_reason d) (da_comments d))) (\<lambda>_.
      catch (opP (write_decision cfg approval_id decider_id approval status d)) (\<lambda>e.
        if is_hitl_error e
        then bindE (doP (rollback_last_stage_decision approval_id (aa_owner_id approval) stage verdict)) (\<lambda>_. raise e)
        else raise e))))"

definition decide_with_stages ::
    "hitl_config \<Rightarrow> uuid \<Rightarrow> uuid \<Rightarrow> agent_approval \<Rightarrow> stage_verdict \<Rightarrow> approval_status \<Rightarrow> decision_args \<Rightarrow>
     agent_approval hitl_prog" where
  "decide_with_stages cfg approval_id decider_id approval verdict status d =
     (if has_outstanding_stages approval
      then cas_decide_with_stage_append cfg approval_id decider_id approval verdict status d
      else opP (write_decision cfg approval_id decider_id approval status d))"

definition update_placeholder_message ::
    "agent_approval \<Rightarrow> string \<Rightarrow> string \<Rightarrow> string option \<Rightarrow> unit hitl_prog" where
  "update_placeholder_message approval content status finish_reason =
     (case aa_pending_message_id approval of
        None \<Rightarrow> ok ()
      | Some i \<Rightarrow> doP (update_message i (Some content) (Some status) finish_reason None True))"

definition decision_throttle :: "hitl_config \<Rightarrow> uuid \<Rightarrow> unit hitl_prog" where
  "decision_throttle cfg decider_id =
     (if \<not> xc_rate_extensions (hc_tools cfg) then ok ()
      else run_tools (bindP (zoom xw_quota put_quota (check_daily_usage_quota
             (xc_str_uuid (hc_tools cfg) decider_id) ''approval_decision'' (hc_decision_daily_quota cfg))) (\<lambda>daily_allowed.
        if \<not> daily_allowed then raise (RateLimitExceeded ''Daily approval decision quota exceeded.'' None)
        else bindE (lift_error ToolRateError (zoom xw_rate put_rate (opP (check
               (''approval_decision:'' @ xc_str_uuid (hc_tools cfg) decider_id) (hc_decision_per_minute cfg))))) (\<lambda>retry_after.
          (case retry_after of
             None \<Rightarrow> ok ()
           | Some r \<Rightarrow> raise (RateLimitExceeded ''Approval decision rate limit exceeded.'' (Some r)))))))"

definition assert_terminal_approve_allowed :: "agent_approval \<Rightarrow> uuid \<Rightarrow> hitl_exn + unit" where
  "assert_terminal_approve_allowed approval approval_id =
     (if has_outstanding_stages approval \<and> \<not> is_final_stage approval
      then Inl (ApprovalValidation (StagesRemaining approval_id)) else Inr ())"

definition append_inline_revision ::
    "uuid \<Rightarrow> uuid \<Rightarrow> decision_args \<Rightarrow> unit hitl_prog" where
  "append_inline_revision approval_id decider_id d =
     (case da_edited_calls d of
        None \<Rightarrow> ok ()
      | Some calls \<Rightarrow> bindE (opP (append_agent_revision approval_id decider_id calls (da_reason d))) (\<lambda>_. ok ()))"

definition result_now :: "agent_approval \<Rightarrow> approval_result hitl_prog" where
  "result_now decided = bindP (readP (\<lambda>w. build_approval_result decided (hw_now w))) ok"

text \<open>Validation, the decision and the inline revision: what \<open>decide\<close> and \<open>approve_and_resume\<close> share.\<close>

definition record_approved :: "hitl_config \<Rightarrow> uuid \<Rightarrow> uuid \<Rightarrow> decision_args \<Rightarrow> agent_approval hitl_prog" where
  "record_approved cfg approval_id decider_id d =
     bindE (resolve_approval_for_decider cfg approval_id decider_id) (\<lambda>approval.
     bindE (Ret (validate_edits cfg (da_edited_calls d) approval)) (\<lambda>_.
     bindE (Ret (assert_terminal_approve_allowed approval approval_id)) (\<lambda>_.
     bindE (decide_with_stages cfg approval_id decider_id approval StageApproved ApApproved d) (\<lambda>decided.
     bindE (append_inline_revision approval_id decider_id d) (\<lambda>_. ok decided)))))"

definition decide ::
    "hitl_config \<Rightarrow> uuid \<Rightarrow> uuid \<Rightarrow> stage_verdict \<Rightarrow> decision_args \<Rightarrow> approval_result hitl_prog" where
  "decide cfg approval_id decider_id decision d =
     bindE (decision_throttle cfg decider_id) (\<lambda>_.
       if decision = StageRejected
       then bindE (resolve_approval_for_decider cfg approval_id decider_id) (\<lambda>approval.
            bindE (Ret (validate_edits cfg (da_edited_calls d) approval)) (\<lambda>_.
            bindE (decide_with_stages cfg approval_id decider_id approval StageRejected ApRejected
                     (d\<lparr>da_edited_calls := None\<rparr>)) (\<lambda>decided.
            bindE (update_placeholder_message decided [] ''rejected'' (Some ''rejected'')) (\<lambda>_.
            result_now decided))))
       else bindE (record_approved cfg approval_id decider_id d) result_now)"

definition record_stage_approval ::
    "hitl_config \<Rightarrow> uuid \<Rightarrow> uuid \<Rightarrow> string option \<Rightarrow> string option \<Rightarrow> approval_result hitl_prog" where
  "record_stage_approval cfg approval_id decider_id reason comments =
     bindE (resolve_approval_for_decider cfg approval_id decider_id) (\<lambda>approval.
       if \<not> has_outstanding_stages approval \<or> is_final_stage approval
       then raise (ApprovalValidation (NotIntermediate approval_id))
       else (let stage = current_stage approval in
         bindE (check_stage_permission cfg decider_id stage) (\<lambda>_.
         bindE (opP (append_stage_decision (hc_retention_days cfg) approval_id (aa_owner_id approval) stage
                  StageApproved decider_id reason comments)) (\<lambda>updated.
         bindP (readP hw_now) (\<lambda>now.
           ok \<lparr>rs_approval_id = aa_id updated, rs_status = aa_status updated, rs_edited = has_edits updated,
               rs_final_payload = resolve_final_payload updated, rs_reason = reason, rs_approver = Some decider_id,
               rs_decided_at = now, rs_approval_correlation_id = aa_approval_correlation_id updated,
               rs_comments = comments, rs_outstanding_stages = remaining_stages updated\<rparr>)))))"

definition cancel ::
    "hitl_config \<Rightarrow> uuid \<Rightarrow> uuid \<Rightarrow> string option \<Rightarrow> request_metadata option \<Rightarrow> approval_result hitl_prog" where
  "cancel cfg approval_id owner_id reason md =
     bindE (opP (require_for_owner (hc_retention_days cfg) approval_id owner_id)) (\<lambda>_.
     bindE (opP (cas_cancel (hc_retention_days cfg) approval_id owner_id reason md)) (\<lambda>cancelled.
     bindE (update_placeholder_message cancelled [] ''stopped'' (Some ''cancelled'')) (\<lambda>_.
     result_now cancelled)))"

subsection \<open>Executing approved calls and resuming\<close>

definition scratch_reset :: "string \<Rightarrow> scratch_entry list \<Rightarrow> hitl_world \<Rightarrow> hitl_world" where
  "scratch_reset execution_id entries w =
     w\<lparr>hw_scratchpads := dict_put execution_id entries
        (filter (\<lambda>(k, _). k \<noteq> execution_id) (hw_scratchpads w))\<rparr>"

definition scratch_get :: "string \<Rightarrow> hitl_world \<Rightarrow> scratch_entry list" where
  "scratch_get execution_id w = (case dict_get (hw_scratchpads w) execution_id of None \<Rightarrow> [] | Some es \<Rightarrow> es)"

definition scratch_append :: "string \<Rightarrow> scratch_entry list \<Rightarrow> hitl_world \<Rightarrow> hitl_world" where
  "scratch_append execution_id entries w =
     w\<lparr>hw_scratchpads := dict_put execution_id (scratch_get execution_id w @ entries) (hw_scratchpads w)\<rparr>"

definition record_tool_results :: "hitl_config \<Rightarrow> string \<Rightarrow> tool_run_record list \<Rightarrow> unit hitl_prog" where
  "record_tool_results cfg execution_id records =
     doP (scratch_append execution_id (map (\<lambda>r. \<lparr>se_kind = EntryTool, se_content = hc_format_result cfg (tn_result r),
       se_tool_call_id = Some (case tl_call_id (tn_call r) of Some c \<Rightarrow> if c = [] then tn_step_id r else c
                               | None \<Rightarrow> tn_step_id r),
       se_metadata = [], se_provider_message = None\<rparr>) records))"

definition call_of :: "proposed_call \<Rightarrow> tool_call" where
  "call_of c = \<lparr>tl_name = pc_name c, tl_arguments = pc_arguments c, tl_call_id = Some (pc_call_id c),
     tl_thought_signature = None\<rparr>"

fun run_approved_calls ::
    "hitl_config \<Rightarrow> string \<Rightarrow> tool_context \<Rightarrow> proposed_call list \<Rightarrow> tool_run_record list hitl_prog" where
  "run_approved_calls cfg execution_id ctx [] = ok []"
| "run_approved_calls cfg execution_id ctx (c # calls) =
     bindE (publish (EvToolStart execution_id (pc_name c) (pc_call_id c))) (\<lambda>_.
     bindE (run_tools (execute_tool (hc_tools cfg) (call_of c) ctx)) (\<lambda>r.
     bindE (publish (EvToolEnd execution_id (pc_name c) (pc_call_id c) (tr_success r))) (\<lambda>_.
     bindE (run_approved_calls cfg execution_id ctx calls) (\<lambda>records.
       ok (\<lparr>tn_step_id = pc_call_id c, tn_call = call_of c, tn_result = r\<rparr> # records)))))"

definition execute_approved_calls ::
    "hitl_config \<Rightarrow> string \<Rightarrow> tool_context \<Rightarrow> proposed_call list \<Rightarrow> tool_run_record list hitl_prog" where
  "execute_approved_calls cfg execution_id ctx calls =
     (if \<not> hc_has_executor cfg then raise (HitlRuntime ''ToolExecutor is required to execute approved calls.'')
      else bindE (run_approved_calls cfg execution_id ctx calls) (\<lambda>records.
           bindE (record_tool_results cfg execution_id records) (\<lambda>_. ok records)))"

text \<open>\<open>AggregatedToolResults.tools_used\<close>: the names in order, each once.\<close>

definition tools_used :: "tool_run_record list \<Rightarrow> string list" where
  "tools_used records = rev (remdups (rev (map (tl_name \<circ> tn_call) records)))"

text \<open>Newest first: a non-empty thought, or the non-blank content of a provider message.\<close>

definition planner_text :: "scratch_entry \<Rightarrow> string option" where
  "planner_text e =
     (if se_kind e = EntryThought \<and> se_content e \<noteq> [] then Some (se_content e)
      else (case se_provider_message e of
              None \<Rightarrow> None
            | Some m \<Rightarrow> (case dict_get m ''content'' of
                Some (PStr s) \<Rightarrow> if is_blank s then None else Some s
              | _ \<Rightarrow> None)))"

definition extract_last_planner_content :: "scratch_entry list \<Rightarrow> string option" where
  "extract_last_planner_content entries =
     (case find (\<lambda>e. planner_text e \<noteq> None) (rev entries) of None \<Rightarrow> None | Some e \<Rightarrow> planner_text e)"

definition mark_failed :: "agent_approval \<Rightarrow> hitl_exn \<Rightarrow> 'a hitl_prog" where
  "mark_failed decided e = bindE (update_placeholder_message decided [] ''error'' (Some ''error'')) (\<lambda>_. raise e)"

definition message_status :: "tool_run_record list \<Rightarrow> string option \<Rightarrow> string" where
  "message_status records finish_reason =
     (if (\<exists>r\<in>set records. \<not> tr_success (tn_result r)) \<or> finish_reason = Some ''error''
      then ''error'' else ''complete'')"

definition finish_placeholder ::
    "agent_approval \<Rightarrow> tool_run_record list \<Rightarrow> agent_response \<Rightarrow> unit hitl_prog" where
  "finish_placeholder decided records response =
     bindE (if ap_finish_reason response = Some ''waiting_approval''
            then update_placeholder_message decided (ap_content response) ''complete'' (Some ''stop'')
            else update_placeholder_message decided (ap_content response)
                   (message_status records (ap_finish_reason response)) (ap_finish_reason response)) (\<lambda>_.
     doP (mark_last_message_at (aa_session_id decided)))"

definition resume_after_approval_decision ::
    "hitl_config \<Rightarrow> agent_approval \<Rightarrow> agent_request \<Rightarrow> tool_context \<Rightarrow> uuid \<Rightarrow> agent_response hitl_prog" where
  "resume_after_approval_decision cfg decided request ctx caller_id =
     (let calls = resolve_final_payload decided; execution_id = aa_execution_id decided in
      bindE (doP (scratch_reset execution_id (aa_paused_scratchpad decided))) (\<lambda>_.
      (case aa_paused_state decided of
         None \<Rightarrow> raise HitlSnapshotInvalid
       | Some paused_state \<Rightarrow>
           bindE (catch (execute_approved_calls cfg execution_id ctx calls) (mark_failed decided)) (\<lambda>records.
           bindP (readP (scratch_get execution_id)) (\<lambda>entries.
           bindE (catch (hc_resume cfg \<lparr>an_request = request, an_execution_id = execution_id,
                    an_session_id = aa_session_id decided, an_caller = caller_id,
                    an_state = fold (\<lambda>n st. record_tool_used st n) (tools_used records) paused_state,
                    an_results = records, an_last_planner_content = extract_last_planner_content entries\<rparr>)
                  (\<lambda>e. case e of ApprovalPause _ \<Rightarrow> raise e | _ \<Rightarrow> mark_failed decided e)) (\<lambda>response.
           bindE (finish_placeholder decided records response) (\<lambda>_. ok response)))))))"

definition user_context :: "uuid \<Rightarrow> tool_context" where
  "user_context user_id = \<lparr>tc_kind = ''user'', tc_user_id = Some user_id\<rparr>"

definition approve_and_resume ::
    "hitl_config \<Rightarrow> uuid \<Rightarrow> uuid \<Rightarrow> agent_request \<Rightarrow> decision_args \<Rightarrow> (approval_result \<times> agent_response) hitl_prog" where
  "approve_and_resume cfg approval_id decider_id request d =
     bindE (record_approved cfg approval_id decider_id d) (\<lambda>decided.
     bindE (result_now decided) (\<lambda>result.
     bindE (resume_after_approval_decision cfg decided request (user_context decider_id) decider_id) (\<lambda>response.
       ok (result, response))))"

subsection \<open>Orphans\<close>

definition resolve_orphan_resume_model :: "chat_message list \<Rightarrow> uuid option \<Rightarrow> string \<Rightarrow> string" where
  "resolve_orphan_resume_model messages pending_message_id default_model =
     (let named = (\<lambda>m. cm_model m \<noteq> None \<and> cm_model m \<noteq> Some []);
          name_of = (\<lambda>m. case cm_model m of None \<Rightarrow> default_model | Some n \<Rightarrow> n) in
      (case find (\<lambda>m. Some (cm_id m) = pending_message_id \<and> named m) messages of
         Some m \<Rightarrow> name_of m
       | None \<Rightarrow> (case find named (rev messages) of Some m \<Rightarrow> name_of m | None \<Rightarrow> default_model)))"

definition orphan_resume_request :: "hitl_config \<Rightarrow> agent_approval \<Rightarrow> agent_state \<Rightarrow> chat_message list \<Rightarrow> agent_request" where
  "orphan_resume_request cfg approval state messages =
     (let turns = map (\<lambda>m. (cm_role m, cm_content m)) (filter (\<lambda>m. cm_role m \<in> {''user'', ''system'', ''assistant''} \<and>
                    cm_content m \<noteq> []) messages) in
      \<lparr>aq_messages = (if turns = [] then [(''user'', ''continue'')] else turns),
       aq_model = resolve_orphan_resume_model messages (aa_pending_message_id approval) (hc_default_model cfg),
       aq_provider = None, aq_tool_names = None, aq_system_prompt = None,
       aq_config = Some (default_settings\<lparr>cf_max_iterations := max 2 (as_current_iteration state + 2)\<rparr>)\<rparr>)"

definition resume_orphaned_approval :: "hitl_config \<Rightarrow> bool \<Rightarrow> uuid \<Rightarrow> bool hitl_prog" where
  "resume_orphaned_approval cfg fail_safe approval_id =
     bindP (opP (claim_pause_snapshot (hc_retention_days cfg) approval_id)) (\<lambda>claimed.
       (case claimed of
          None \<Rightarrow> ok False
        | Some approval \<Rightarrow>
            bindP (readP (list_messages (aa_session_id approval))) (\<lambda>messages.
            (case aa_paused_state approval of
               None \<Rightarrow> raise HitlSnapshotInvalid
             | Some state \<Rightarrow>
                 catch (bindE (resume_after_approval_decision cfg approval
                          (orphan_resume_request cfg approval state messages)
                          (user_context (aa_owner_id approval)) (aa_owner_id approval)) (\<lambda>_. ok True)) (\<lambda>e.
                   (case e of
                      ApprovalPause _ \<Rightarrow> raise e
                    | _ \<Rightarrow> if fail_safe
                           then bindE (update_placeholder_message approval [] ''error'' (Some ''error'')) (\<lambda>_. ok False)
                           else raise e))))))"

abbreviation in_transaction :: "'a hitl_prog \<Rightarrow> 'a hitl_prog" where
  "in_transaction \<equiv> transaction hitl_db hitl_restore"

text \<open>Each orphan has a session of its own; the counts are those of \<open>resumed\<close> and \<open>fail_safe\<close>.\<close>

fun sweep_orphans :: "hitl_config \<Rightarrow> bool \<Rightarrow> agent_approval list \<Rightarrow> nat \<times> nat \<Rightarrow> (nat \<times> nat) hitl_prog" where
  "sweep_orphans cfg fail_safe [] counts = ok counts"
| "sweep_orphans cfg fail_safe (approval # orphans) (resumed, failed) =
     bindP (in_transaction (resume_orphaned_approval cfg fail_safe (aa_id approval))) (\<lambda>r.
       (case r of
          Inl e \<Rightarrow> if fail_safe then sweep_orphans cfg fail_safe orphans (resumed, failed + 1) else raise e
        | Inr resumed_it \<Rightarrow>
            sweep_orphans cfg fail_safe orphans
              (if resumed_it then (resumed + 1, failed)
               else if fail_safe then (resumed, failed + 1) else (resumed, failed))))"

definition hitl_orphaned_snapshot_sweep :: "hitl_config \<Rightarrow> bool \<Rightarrow> bool \<Rightarrow> (nat \<times> nat) hitl_prog" where
  "hitl_orphaned_snapshot_sweep cfg background_jobs_enabled fail_safe =
     (if \<not> background_jobs_enabled then ok (0, 0)
      else bindP (readP (list_orphaned_approved_snapshots (hc_retention_days cfg) (hc_grace_seconds cfg))) (\<lambda>orphans.
           sweep_orphans cfg fail_safe orphans (0, 0)))"

fun expire_all :: "hitl_config \<Rightarrow> agent_approval list \<Rightarrow> nat \<Rightarrow> nat hitl_prog" where
  "expire_all cfg [] expired_count = ok expired_count"
| "expire_all cfg (approval # pending) expired_count =
     bindP (opP (cas_expire_pending_sweep (hc_retention_days cfg) (aa_id approval))) (\<lambda>expired.
       (case expired of
          None \<Rightarrow> expire_all cfg pending expired_count
        | Some a \<Rightarrow>
            bindE (update_placeholder_message a [] ''expired'' (Some ''expired'')) (\<lambda>_.
            expire_all cfg pending (expired_count + 1))))"

definition expire_timed_out_approvals :: "hitl_config \<Rightarrow> bool \<Rightarrow> nat hitl_prog" where
  "expire_timed_out_approvals cfg background_jobs_enabled =
     (if \<not> background_jobs_enabled \<or> hc_timeout_hours cfg \<le> 0 then ok 0
      else bindP (readP (list_pending_past_timeout_hours (hc_retention_days cfg) (hc_timeout_hours cfg))) (\<lambda>pending.
           in_transaction (expire_all cfg pending 0)))"

subsection \<open>Endpoints\<close>

datatype decide_response =
    Decided approval_result
  | Streamed "approval_result \<times> agent_response"
  | StreamError hitl_exn

definition build_resume_request :: "hitl_config \<Rightarrow> chat_message option \<Rightarrow> agent_request" where
  "build_resume_request cfg placeholder =
     \<lparr>aq_messages = [(''user'', ''.'')],
      aq_model = (case placeholder of Some m \<Rightarrow> (case cm_model m of Some n \<Rightarrow> if n = [] then ''gpt-4o-mini'' else n
                    | None \<Rightarrow> ''gpt-4o-mini'') | None \<Rightarrow> ''gpt-4o-mini''),
      aq_provider = (case placeholder of Some m \<Rightarrow> cm_provider m | None \<Rightarrow> None), aq_tool_names = None,
      aq_system_prompt = Some (hc_system_prompt cfg),
      aq_config = Some (default_settings\<lparr>cf_max_iterations := 3, cf_timeout_seconds := Some (hc_request_timeout_seconds cfg)\<rparr>)\<rparr>"

definition remaining_stage_count :: "agent_approval \<Rightarrow> int" where
  "remaining_stage_count a = int (length (aa_required_stages a)) - int (length (aa_stage_decisions a))"

definition stream_approved_decision ::
    "hitl_config \<Rightarrow> uuid \<Rightarrow> uuid \<Rightarrow> agent_request \<Rightarrow> decision_args \<Rightarrow> decide_response hitl_prog" where
  "stream_approved_decision cfg approval_id caller request d =
     bindP (approve_and_resume cfg approval_id caller request d) (\<lambda>r.
       (case r of
          Inr x \<Rightarrow> ok (Streamed x)
        | Inl e \<Rightarrow> if is_hitl_error e then ok (StreamError e) else raise e))"

definition decide_agent_approval ::
    "hitl_config \<Rightarrow> uuid \<Rightarrow> uuid \<Rightarrow> stage_verdict \<Rightarrow> decision_args \<Rightarrow> decide_response hitl_prog" where
  "decide_agent_approval cfg approval_id caller decision args =
     (let d = args\<lparr>da_reason := normalize_hitl_reason (da_reason args) (hc_max_reason_length cfg),
                   da_comments := normalize_hitl_reason (da_comments args) (hc_max_comment_length cfg)\<rparr> in
      in_transaction (if decision = StageRejected
        then bindE (decide cfg approval_id caller StageRejected (d\<lparr>da_edited_calls := None\<rparr>)) (\<lambda>r. ok (Decided r))
        else bindE (resolve_approval_for_decider cfg approval_id caller) (\<lambda>approval.
          if aa_status approval \<noteq> ApPending
          then raise (ApprovalDecisionConflict approval_id (aa_status approval))
          else if remaining_stage_count approval > 1
          then bindE (record_stage_approval cfg approval_id caller (da_reason d) (da_comments d)) (\<lambda>r. ok (Decided r))
          else bindP (readP (\<lambda>w. case aa_pending_message_id approval of None \<Rightarrow> None | Some i \<Rightarrow> get_message i w)) (\<lambda>placeholder.
               stream_approved_decision cfg approval_id caller (build_resume_request cfg placeholder) d))))"

datatype hitl_request =
    ReqPause pause_request
  | ReqRevise uuid "proposed_call list" uuid "string option"
  | ReqDecide uuid uuid stage_verdict decision_args
  | ReqCancel uuid uuid "string option" "request_metadata option"
  | ReqRead uuid uuid
  | ReqExpirySweep bool
  | ReqOrphanSweep bool bool
  | ReqTimePasses nat

text \<open>One task of the platform; results are dropped. Clocks only move forward.\<close>

definition forget :: "'a hitl_prog \<Rightarrow> unit hitl_prog" where
  "forget p = bindE p (\<lambda>_. ok ())"

fun serve_hitl :: "hitl_config \<Rightarrow> hitl_request \<Rightarrow> unit hitl_prog" where
  "serve_hitl cfg (ReqPause q) = forget (in_transaction (pause cfg q))"
| "serve_hitl cfg (ReqRevise i calls owner note) = forget (in_transaction (revise cfg i calls owner note))"
| "serve_hitl cfg (ReqDecide i caller decision d) = forget (decide_agent_approval cfg i caller decision d)"
| "serve_hitl cfg (ReqCancel i owner reason md) =
     forget (in_transaction (cancel cfg i owner (normalize_hitl_reason reason (hc_max_reason_length cfg)) md))"
| "serve_hitl cfg (ReqRead i owner) =
     forget (in_transaction (bindP (opP (get_for_owner (hc_retention_days cfg) i owner)) ok))"
| "serve_hitl cfg (ReqExpirySweep enabled) = forget (expire_timed_out_approvals cfg enabled)"
| "serve_hitl cfg (ReqOrphanSweep enabled fail_safe) = forget (hitl_orphaned_snapshot_sweep cfg enabled fail_safe)"
| "serve_hitl cfg (ReqTimePasses n) = doP (\<lambda>w. w\<lparr>hw_now := hw_now w + int n\<rparr>)"

end
