(* ===== verification/Hitl_Safety.thy ===== *)
theory Hitl_Safety
  imports Hitl_Service "HOL-Library.Sublist"
begin

section \<open>What every request keeps of the approvals\<close>

text \<open>
  \<open>approval_may_become\<close> is the contract between all requests: the proposal never changes, and once an
  approval has left \<open>pending\<close> neither does the decision; only the snapshot of the paused agent may still be
  dropped. \<open>hitl_ok\<close> is the invariant: keys are distinct, decision fields are set exactly for decided
  approvals, client audit data is gone from all that are not pending, edits are valid edits of the
  proposal and revisions are numbered without gaps. Revisions are only appended.
\<close>

definition approval_may_become :: "agent_approval \<Rightarrow> agent_approval \<Rightarrow> bool" where
  "approval_may_become a b \<longleftrightarrow>
     aa_id b = aa_id a \<and> aa_session_id b = aa_session_id a \<and> aa_owner_id b = aa_owner_id a \<and>
     aa_execution_id b = aa_execution_id a \<and> aa_approval_correlation_id b = aa_approval_correlation_id a \<and>
     aa_proposed_calls b = aa_proposed_calls a \<and> aa_requested_at b = aa_requested_at a \<and>
     aa_expires_at b = aa_expires_at a \<and> aa_required_stages b = aa_required_stages a \<and>
     aa_version a \<le> aa_version b \<and>
     (aa_status a \<noteq> ApPending \<longrightarrow>
        aa_status b = aa_status a \<and> aa_decided_by b = aa_decided_by a \<and> aa_decided_at b = aa_decided_at a \<and>
        aa_reason b = aa_reason a \<and> aa_comments b = aa_comments a \<and> aa_edited_calls b = aa_edited_calls a \<and>
        aa_stage_decisions b = aa_stage_decisions a \<and>
        (aa_paused_scratchpad b = aa_paused_scratchpad a \<and> aa_paused_state b = aa_paused_state a \<or>
         \<not> has_pause_snapshot b))"

definition valid_edit :: "tool_registry option \<Rightarrow> proposed_call list \<Rightarrow> proposed_call list \<Rightarrow> bool" where
  "valid_edit registry proposed edited \<longleftrightarrow>
     (\<exists>reg. registry = Some reg \<and> length edited = length proposed \<and> distinct (map pc_call_id edited) \<and>
        (\<forall>call\<in>set edited. acceptable_edit reg (proposed_by_id proposed) call))"

definition decided_status :: "approval_status \<Rightarrow> bool" where
  "decided_status s \<longleftrightarrow> s \<in> {ApApproved, ApRejected, ApCancelled}"

definition approval_ok :: "tool_registry option \<Rightarrow> agent_approval \<Rightarrow> bool" where
  "approval_ok registry a \<longleftrightarrow>
     (aa_decided_at a \<noteq> None \<longleftrightarrow> decided_status (aa_status a)) \<and>
     (aa_decided_by a \<noteq> None \<longleftrightarrow> decided_status (aa_status a)) \<and>
     (aa_status a \<noteq> ApPending \<longrightarrow> aa_source_ip a = None \<and> aa_client_metadata a = []) \<and>
     (\<forall>edited. aa_edited_calls a = Some edited \<longrightarrow> valid_edit registry (aa_proposed_calls a) edited)"

definition revisions_ok :: "approval_revision list \<Rightarrow> bool" where
  "revisions_ok rs \<longleftrightarrow> (\<forall>i k. map ar_revision_number (filter (\<lambda>r. ar_approval_id r = i \<and> ar_approval_kind r = k) rs) =
     [1..<Suc (length (filter (\<lambda>r. ar_approval_id r = i \<and> ar_approval_kind r = k) rs))])"

definition hitl_ok :: "tool_registry option \<Rightarrow> hitl_world \<Rightarrow> bool" where
  "hitl_ok registry w \<longleftrightarrow> distinct (map aa_id (hw_approvals w)) \<and>
     (\<forall>a\<in>set (hw_approvals w). aa_id a < hw_next_uuid w \<and> approval_ok registry a) \<and>
     revisions_ok (hw_revisions w)"

definition hitl_evolve :: "tool_registry option \<Rightarrow> hitl_world \<Rightarrow> hitl_world \<Rightarrow> bool" where
  "hitl_evolve registry w v \<longleftrightarrow> (hitl_ok registry w \<longrightarrow>
     hitl_ok registry v \<and> hw_next_uuid w \<le> hw_next_uuid v \<and> prefix (hw_revisions w) (hw_revisions v) \<and>
     (\<forall>i a. approval_row w i = Some a \<longrightarrow> (\<exists>b. approval_row v i = Some b \<and> approval_may_become a b)))"

lemma approval_may_become_refl: "approval_may_become a a"
  by (simp add: approval_may_become_def)

lemma approval_may_become_trans:
  "approval_may_become a b \<Longrightarrow> approval_may_become b c \<Longrightarrow> approval_may_become a c"
  unfolding approval_may_become_def has_pause_snapshot_def by auto

lemma hitl_evolve_refl: "hitl_evolve registry w w"
  using approval_may_become_refl by (auto simp: hitl_evolve_def)

lemma hitl_evolve_trans:
  assumes "hitl_evolve registry u v" and "hitl_evolve registry v w"
  shows "hitl_evolve registry u w"
  unfolding hitl_evolve_def
proof (intro impI conjI allI)
  assume u: "hitl_ok registry u"
  with assms(1) have v: "hitl_ok registry v" "hw_next_uuid u \<le> hw_next_uuid v" "prefix (hw_revisions u) (hw_revisions v)"
    by (simp_all add: hitl_evolve_def)
  with assms(2) show "hitl_ok registry w" "hw_next_uuid u \<le> hw_next_uuid w" "prefix (hw_revisions u) (hw_revisions w)"
    by (auto simp: hitl_evolve_def)
  fix i a
  assume "approval_row u i = Some a"
  with u assms(1) obtain b where "approval_row v i = Some b" "approval_may_become a b"
    unfolding hitl_evolve_def by blast
  moreover from v(1) assms(2) this(1) obtain c where "approval_row w i = Some c" "approval_may_become b c"
    unfolding hitl_evolve_def by blast
  ultimately show "\<exists>b. approval_row w i = Some b \<and> approval_may_become a b"
    using approval_may_become_trans by blast
qed

interpretation approvals: stable_situation "hitl_evolve registry" "hitl_ok registry" for registry
  by unfold_locales
    (auto simp: hitl_evolve_def [of _ _ _] intro: reflpI transpI hitl_evolve_refl hitl_evolve_trans)

lemma hitl_evolve_row:
  assumes "hitl_evolve registry w v" and "hitl_ok registry w" and "approval_row w i = Some a"
  obtains b where "approval_row v i = Some b" "approval_may_become a b"
  using assms unfolding hitl_evolve_def by blast

lemma approval_row_mem: "approval_row w i = Some a \<Longrightarrow> a \<in> set (hw_approvals w) \<and> aa_id a = i"
  unfolding approval_row_def by (rule table_get_Some)

lemma approval_row_ok: "hitl_ok registry w \<Longrightarrow> approval_row w i = Some a \<Longrightarrow> approval_ok registry a \<and> aa_id a = i"
  by (auto simp: hitl_ok_def dest: approval_row_mem)

subsection \<open>Changes of the state\<close>

lemma hitl_evolve_same:
  "hw_approvals v = hw_approvals w \<Longrightarrow> hw_revisions v = hw_revisions w \<Longrightarrow> hw_next_uuid w \<le> hw_next_uuid v \<Longrightarrow>
   hitl_evolve registry w v"
  using approval_may_become_refl by (fastforce simp: hitl_evolve_def hitl_ok_def approval_row_def)

lemma approval_row_update:
  assumes "\<And>a. aa_id (upd a) = aa_id a"
  shows "approval_row (update_approval i hits upd w) k =
    (if k = i then map_option (\<lambda>a. if hits a then upd a else a) (approval_row w i) else approval_row w k)"
  using table_get_update [of aa_id upd, OF assms] by (simp add: approval_row_def update_approval_def)

lemma hitl_evolve_update:
  assumes "\<And>a. aa_id (upd a) = aa_id a"
    and "\<And>a. hitl_ok registry w \<Longrightarrow> approval_row w i = Some a \<Longrightarrow> hits a \<Longrightarrow>
      approval_may_become a (upd a) \<and> approval_ok registry (upd a)"
  shows "hitl_evolve registry w (update_approval i hits upd w)"
  unfolding hitl_evolve_def
proof (intro impI conjI allI)
  let ?v = "update_approval i hits upd w"
  assume w: "hitl_ok registry w"
  show "hw_next_uuid w \<le> hw_next_uuid ?v" "prefix (hw_revisions w) (hw_revisions ?v)"
    by (simp_all add: update_approval_def)
  have row: "approval_row w (aa_id a) = Some a" if "a \<in> set (hw_approvals w)" for a
    using w that unfolding approval_row_def by (intro table_get_unique) (simp_all add: hitl_ok_def)
  have "aa_id b < hw_next_uuid w \<and> approval_ok registry b" if b: "b \<in> set (hw_approvals ?v)" for b
  proof -
    from b obtain a where a: "a \<in> set (hw_approvals w)" "b = (if aa_id a = i \<and> hits a then upd a else a)"
      by (auto simp: update_approval_def table_update_def)
    with w have "aa_id a < hw_next_uuid w" "approval_ok registry a" by (simp_all add: hitl_ok_def)
    with a assms(1) [of a] assms(2) [OF w, of a] row [OF a(1)] show ?thesis by auto
  qed
  moreover have "map aa_id (hw_approvals ?v) = map aa_id (hw_approvals w)"
    using table_update_keys [of aa_id upd, OF assms(1)] by (simp add: update_approval_def)
  ultimately show "hitl_ok registry ?v"
    using w by (auto simp: hitl_ok_def update_approval_def)
  fix k a
  assume k: "approval_row w k = Some a"
  show "\<exists>b. approval_row ?v k = Some b \<and> approval_may_become a b"
  proof (cases "k = i \<and> hits a")
    case True
    with k assms(2) [OF w, of a] show ?thesis by (simp add: approval_row_update [OF assms(1)])
  next
    case False
    with k show ?thesis using approval_may_become_refl by (auto simp: approval_row_update [OF assms(1)])
  qed
qed

lemma hitl_evolve_insert:
  assumes "hw_approvals v = hw_approvals w @ [a]" and "hw_revisions v = hw_revisions w"
    and "aa_id a = hw_next_uuid w" and "hw_next_uuid v = hw_next_uuid w + 1" and "approval_ok registry a"
  shows "hitl_evolve registry w v"
  unfolding hitl_evolve_def
proof (intro impI conjI allI)
  assume w: "hitl_ok registry w"
  then have "aa_id a \<notin> aa_id ` set (hw_approvals w)" using assms(3) by (auto simp: hitl_ok_def)
  with w assms(3-5) show "hitl_ok registry v" by (auto simp: hitl_ok_def assms(1,2) less_Suc_eq)
  show "hw_next_uuid w \<le> hw_next_uuid v" "prefix (hw_revisions w) (hw_revisions v)"
    by (simp_all add: assms)
  show "\<exists>b. approval_row v i = Some b \<and> approval_may_become c b" if "approval_row w i = Some c" for i c
    using that approval_may_become_refl by (simp add: approval_row_def assms(1) table_get_append)
qed

lemma revisions_ok_append:
  assumes "revisions_ok rs"
    and "ar_revision_number r = length (filter (\<lambda>x. ar_approval_id x = ar_approval_id r \<and>
      ar_approval_kind x = ar_approval_kind r) rs) + 1"
  shows "revisions_ok (rs @ [r])"
  using assms by (auto simp: revisions_ok_def)

lemma foldr_max_snoc: "foldr max (xs @ [m]) (0 :: nat) = max (foldr max xs 0) m"
  by (induction xs) (simp_all add: max.assoc)

lemma max_upt: "foldr max [1..<Suc n] 0 = n"
proof (induction n)
  case (Suc n)
  have "[1..<Suc (Suc n)] = [1..<Suc n] @ [Suc n]" by (rule upt_Suc_append) simp
  then have "foldr max [1..<Suc (Suc n)] 0 = max (foldr max [1..<Suc n] 0) (Suc n)"
    by (simp only: foldr_max_snoc)
  also have "\<dots> = max n (Suc n)" by (simp only: Suc.IH)
  finally show ?case by simp
qed simp

lemma next_revision_number:
  "revisions_ok (hw_revisions w) \<Longrightarrow>
   foldr max (map ar_revision_number (revisions_of w i k)) 0 = length (revisions_of w i k)"
  using max_upt by (simp add: revisions_ok_def revisions_of_def)

lemma hitl_evolve_revision:
  assumes "hw_approvals v = hw_approvals w" and "hw_next_uuid w \<le> hw_next_uuid v"
    and "hw_revisions v = hw_revisions w @ [r]"
    and "revisions_ok (hw_revisions w) \<Longrightarrow> ar_revision_number r =
      length (revisions_of w (ar_approval_id r) (ar_approval_kind r)) + 1"
  shows "hitl_evolve registry w v"
  unfolding hitl_evolve_def
proof (intro impI conjI allI)
  assume w: "hitl_ok registry w"
  then have rs: "revisions_ok (hw_revisions w)" by (simp add: hitl_ok_def)
  have "revisions_ok (hw_revisions v)"
    unfolding assms(3) by (rule revisions_ok_append [OF rs]) (simp add: assms(4) [OF rs] revisions_of_def)
  with w assms(2) show "hitl_ok registry v" by (fastforce simp: hitl_ok_def assms(1))
  show "hw_next_uuid w \<le> hw_next_uuid v" by (rule assms(2))
  show "prefix (hw_revisions w) (hw_revisions v)" by (simp add: assms(3))
  show "\<exists>b. approval_row v k = Some b \<and> approval_may_become a b" if "approval_row w k = Some a" for k a
    using that approval_may_become_refl by (simp add: approval_row_def assms(1))
qed

lemma append_agent_revision_evolve: "hitl_evolve registry w (fst (append_agent_revision i u calls note w))"
proof (cases "approval_row w i")
  case None
  then show ?thesis by (simp add: append_agent_revision_def hitl_evolve_refl)
next
  case (Some a)
  let ?r = "\<lparr>ar_id = hw_next_uuid w, ar_approval_id = i, ar_approval_kind = AgentTool,
    ar_revision_number = foldr max (map ar_revision_number (revisions_of w i AgentTool)) 0 + 1, ar_edited_by = u,
    ar_edited_at = hw_now w, ar_edited_payload = calls, ar_note = note\<rparr>"
  show ?thesis
    by (rule hitl_evolve_revision [where r = ?r])
      (simp_all add: append_agent_revision_def Some Let_def next_revision_number)
qed

subsection \<open>Operations of the store\<close>

named_theorems approval_updates "what the UPDATEs of the store write"

lemmas [approval_updates] = decided_as_def cancelled_as_def revised_to_def with_stages_def without_snapshot_def
  swept_at_def expired_at_def approval_may_become_def approval_ok_def decided_status_def has_pause_snapshot_def

lemma map_row_fields [simp]:
  "aa_status (map_row d w a) = aa_status a" "aa_id (map_row d w a) = aa_id a"
  "aa_proposed_calls (map_row d w a) = aa_proposed_calls a" "aa_owner_id (map_row d w a) = aa_owner_id a"
  "aa_expires_at (map_row d w a) = aa_expires_at a" "aa_edited_calls (map_row d w a) = aa_edited_calls a"
  "aa_required_stages (map_row d w a) = aa_required_stages a"
  "aa_stage_decisions (map_row d w a) = aa_stage_decisions a"
  "aa_pending_message_id (map_row d w a) = aa_pending_message_id a"
  "aa_paused_scratchpad (map_row d w a) = aa_paused_scratchpad a"
  "aa_paused_state (map_row d w a) = aa_paused_state a" "aa_execution_id (map_row d w a) = aa_execution_id a"
  "aa_approval_correlation_id (map_row d w a) = aa_approval_correlation_id a"
  by (simp_all add: map_row_def apply_client_audit_retention_policy_def redact_terminal_client_audit_fields_def
      redact_client_audit_fields_def Let_def)

lemma map_row_persisting_retention_evolve:
  assumes "approval_row w (aa_id row) = Some row" and "map_row_persisting_retention d row w = (v, a)"
  shows "hitl_evolve registry w v" and "a = map_row d w row"
    and "\<exists>row'. approval_row v (aa_id row) = Some row' \<and> aa_status row' = aa_status row \<and>
      aa_proposed_calls row' = aa_proposed_calls row \<and> aa_owner_id row' = aa_owner_id row \<and>
      aa_expires_at row' = aa_expires_at row"
proof -
  let ?upd = "\<lambda>a. a\<lparr>aa_source_ip := None, aa_client_metadata := [], aa_version := aa_version a + 1, aa_updated_at := hw_now w\<rparr>"
  have v: "v = w \<or> aa_status row = ApPending \<and> v = update_approval (aa_id row) (\<lambda>_. True) ?upd w"
    using assms(2) by (auto simp: map_row_persisting_retention_def Let_def split: if_splits)
  show "a = map_row d w row"
    using assms(2) by (auto simp: map_row_persisting_retention_def Let_def split: if_splits)
  show "hitl_evolve registry w v"
    using v assms(1) by (auto simp: approval_updates dest: approval_row_ok
        intro!: hitl_evolve_refl hitl_evolve_update)
  show "\<exists>row'. approval_row v (aa_id row) = Some row' \<and> aa_status row' = aa_status row \<and>
      aa_proposed_calls row' = aa_proposed_calls row \<and> aa_owner_id row' = aa_owner_id row \<and>
      aa_expires_at row' = aa_expires_at row"
    using v assms(1) by (auto simp: approval_row_update)
qed

lemma expire_if_due_evolve: "hitl_evolve registry w (fst (expire_if_due d i u w))"
  by (auto simp: expire_if_due_def Let_def due_def approval_updates dest!: approval_row_ok split: option.split
      intro!: hitl_evolve_refl hitl_evolve_update)

lemma expire_if_due_result:
  "expire_if_due d i u w = (v, r) \<Longrightarrow>
   (r = None \<and> v = w) \<or>
   (\<exists>row. approval_row w i = Some row \<and> aa_status row = ApPending \<and> aa_owner_id row = u \<and>
      r = Some (map_row d v (expired_at (hw_now w) row)) \<and> approval_row v i = Some (expired_at (hw_now w) row))"
  by (auto simp: expire_if_due_def Let_def approval_row_update expired_at_def due_def split: option.splits if_splits)

text \<open>
  What a read of an approval returns: the approval as its row is now, unless it has just expired; in
  either case with the proposal of the row.
\<close>

lemma touch_row_result:
  assumes row: "approval_row w (aa_id row) = Some row" and t: "touch_row d row u w = (v, r)"
  shows "hitl_evolve registry w v"
    and "\<exists>a row'. r = Some a \<and> approval_row v (aa_id row) = Some row' \<and> aa_status a = aa_status row' \<and>
      aa_proposed_calls a = aa_proposed_calls row' \<and> aa_owner_id a = aa_owner_id row \<and> aa_id a = aa_id row \<and>
      (aa_status row \<noteq> ApPending \<longrightarrow> aa_status a = aa_status row)"
proof -
  obtain w1 a where m: "map_row_persisting_retention d row w = (w1, a)" by fastforce
  note m1 = map_row_persisting_retention_evolve [OF row m]
  from m1(3) obtain row1 where row1: "approval_row w1 (aa_id row) = Some row1" "aa_status row1 = aa_status row"
    "aa_proposed_calls row1 = aa_proposed_calls row" "aa_owner_id row1 = aa_owner_id row" by blast
  from row1(1) have "aa_id row1 = aa_id row" by (auto dest: approval_row_mem)
  note row1 = row1 this
  obtain w2 e where e: "expire_if_due d (aa_id row) u w1 = (w2, e)" by fastforce
  have "v = w1 \<or> v = w2" using t m e by (auto simp: touch_row_def Let_def split: if_splits option.splits)
  with m1(1) [of registry] expire_if_due_evolve [of registry w1 d "aa_id row" u] e hitl_evolve_trans
  show "hitl_evolve registry w v" by (metis fst_conv)
  from expire_if_due_result [OF e] m1(2) row1 row t m e
  show "\<exists>a row'. r = Some a \<and> approval_row v (aa_id row) = Some row' \<and> aa_status a = aa_status row' \<and>
      aa_proposed_calls a = aa_proposed_calls row' \<and> aa_owner_id a = aa_owner_id row \<and> aa_id a = aa_id row \<and>
      (aa_status row \<noteq> ApPending \<longrightarrow> aa_status a = aa_status row)"
    by (auto simp: touch_row_def Let_def expired_at_def split: if_splits)
qed

lemma get_for_owner_result:
  assumes "get_for_owner d i u w = (v, r)"
  shows "hitl_evolve registry w v"
    and "case r of None \<Rightarrow> v = w \<and> (\<forall>row. approval_row w i = Some row \<longrightarrow> aa_owner_id row \<noteq> u)
      | Some a \<Rightarrow> (\<exists>row row'. approval_row w i = Some row \<and> approval_row v i = Some row' \<and>
          aa_status a = aa_status row' \<and> aa_proposed_calls a = aa_proposed_calls row' \<and> aa_owner_id row = u \<and>
          aa_owner_id a = u \<and> aa_id a = i \<and> (aa_status row \<noteq> ApPending \<longrightarrow> aa_status a = aa_status row))"
proof -
  have "hitl_evolve registry w v \<and> (case r of None \<Rightarrow> v = w \<and> (\<forall>row. approval_row w i = Some row \<longrightarrow> aa_owner_id row \<noteq> u)
      | Some a \<Rightarrow> (\<exists>row row'. approval_row w i = Some row \<and> approval_row v i = Some row' \<and>
          aa_status a = aa_status row' \<and> aa_proposed_calls a = aa_proposed_calls row' \<and> aa_owner_id row = u \<and>
          aa_owner_id a = u \<and> aa_id a = i \<and> (aa_status row \<noteq> ApPending \<longrightarrow> aa_status a = aa_status row)))"
  proof (cases "approval_row w i")
    case None
    with assms show ?thesis by (auto simp: get_for_owner_def intro: hitl_evolve_refl)
  next
    case (Some row)
    then have row: "approval_row w (aa_id row) = Some row" "aa_id row = i" by (auto dest: approval_row_mem)
    show ?thesis
    proof (cases "aa_owner_id row = u")
      case True
      with assms Some have "touch_row d row u w = (v, r)" by (simp add: get_for_owner_def)
      from touch_row_result [OF row(1) this] row(2) Some True show ?thesis by auto
    next
      case False
      with assms Some show ?thesis by (auto simp: get_for_owner_def intro: hitl_evolve_refl)
    qed
  qed
  then show "hitl_evolve registry w v"
    and "case r of None \<Rightarrow> v = w \<and> (\<forall>row. approval_row w i = Some row \<longrightarrow> aa_owner_id row \<noteq> u)
      | Some a \<Rightarrow> (\<exists>row row'. approval_row w i = Some row \<and> approval_row v i = Some row' \<and>
          aa_status a = aa_status row' \<and> aa_proposed_calls a = aa_proposed_calls row' \<and> aa_owner_id row = u \<and>
          aa_owner_id a = u \<and> aa_id a = i \<and> (aa_status row \<noteq> ApPending \<longrightarrow> aa_status a = aa_status row))"
    by blast+
qed

lemma get_any_result:
  assumes "get_any d i w = (v, r)"
  shows "hitl_evolve registry w v"
    and "\<And>a. r = Some a \<Longrightarrow> \<exists>row row'. approval_row w i = Some row \<and> approval_row v i = Some row' \<and>
          aa_status a = aa_status row' \<and> aa_proposed_calls a = aa_proposed_calls row' \<and>
          aa_owner_id a = aa_owner_id row \<and> aa_id a = i \<and> (aa_status row \<noteq> ApPending \<longrightarrow> aa_status a = aa_status row)"
proof -
  have "hitl_evolve registry w v \<and> (\<forall>a. r = Some a \<longrightarrow> (\<exists>row row'. approval_row w i = Some row \<and>
          approval_row v i = Some row' \<and> aa_status a = aa_status row' \<and> aa_proposed_calls a = aa_proposed_calls row' \<and>
          aa_owner_id a = aa_owner_id row \<and> aa_id a = i \<and> (aa_status row \<noteq> ApPending \<longrightarrow> aa_status a = aa_status row)))"
  proof (cases "approval_row w i")
    case None
    with assms show ?thesis by (auto simp: get_any_def intro: hitl_evolve_refl)
  next
    case (Some row)
    then have row: "approval_row w (aa_id row) = Some row" "aa_id row = i" by (auto dest: approval_row_mem)
    from assms Some have "touch_row d row (aa_owner_id row) w = (v, r)" by (simp add: get_any_def)
    from touch_row_result [OF row(1) this] row(2) Some show ?thesis by auto
  qed
  then show "hitl_evolve registry w v"
    and "\<And>a. r = Some a \<Longrightarrow> \<exists>row row'. approval_row w i = Some row \<and> approval_row v i = Some row' \<and>
          aa_status a = aa_status row' \<and> aa_proposed_calls a = aa_proposed_calls row' \<and>
          aa_owner_id a = aa_owner_id row \<and> aa_id a = i \<and> (aa_status row \<noteq> ApPending \<longrightarrow> aa_status a = aa_status row)"
    by blast+
qed

lemma get_for_owner_evolve: "hitl_evolve registry w (fst (get_for_owner d i u w))"
  using get_for_owner_result(1) [of d i u w] by (cases "get_for_owner d i u w") simp

lemma require_for_owner_fst: "fst (require_for_owner d i u w) = fst (get_for_owner d i u w)"
  by (auto simp: require_for_owner_def split: prod.split option.split)

lemma resolve_cas_miss_fst: "fst (resolve_cas_miss d i u w) = fst (get_for_owner d i u w)"
  by (auto simp: resolve_cas_miss_def split: prod.split option.split)

lemma resolve_cas_miss_Inl: "\<exists>e. snd (resolve_cas_miss d i u w) = Inl e \<and> is_hitl_error e"
  by (auto simp: resolve_cas_miss_def split: prod.split option.split)

lemma cas_pending_evolve:
  assumes "\<And>a. aa_id (upd a) = aa_id a"
    and "\<And>a. hitl_ok registry w \<Longrightarrow> approval_row w i = Some a \<Longrightarrow> open_for u a \<Longrightarrow>
      approval_may_become a (upd a) \<and> approval_ok registry (upd a)"
  shows "hitl_evolve registry w (fst (cas_pending d i u upd w))"
proof -
  have "hitl_evolve registry w (update_approval i (open_for u) upd w)"
    using assms by (rule hitl_evolve_update)
  then show ?thesis using get_for_owner_evolve by (simp add: cas_pending_def resolve_cas_miss_fst split: option.split)
qed

lemma cas_pending_Inr:
  "cas_pending d i u upd w = (v, Inr a) \<Longrightarrow> \<exists>row. approval_row w i = Some row \<and> open_for u row \<and>
     v = update_approval i (open_for u) upd w \<and> a = map_row d w (upd row)"
  using resolve_cas_miss_Inl [of d i u w] by (auto simp: cas_pending_def split: option.splits if_splits)

lemma cas_decide_evolve:
  assumes "decided_status status"
    and "\<And>row calls. hitl_ok registry w \<Longrightarrow> approval_row w i = Some row \<Longrightarrow> edited = Some calls \<Longrightarrow>
      valid_edit registry (aa_proposed_calls row) calls"
  shows "hitl_evolve registry w (fst (cas_decide d i u status by_user reason comments edited md w))"
  unfolding cas_decide_def
proof (rule cas_pending_evolve)
  fix a
  assume a: "hitl_ok registry w" "approval_row w i = Some a" "open_for u a"
  with approval_row_ok [OF a(1,2)] assms(1) assms(2) [OF a(1,2)]
  show "approval_may_become a (decided_as (hw_now w) status by_user reason comments edited md a) \<and>
      approval_ok registry (decided_as (hw_now w) status by_user reason comments edited md a)"
    by (auto simp: approval_updates open_for_def split: option.split)
qed (simp add: decided_as_def)

lemma cas_cancel_evolve: "hitl_evolve registry w (fst (cas_cancel d i u reason md w))"
  unfolding cas_cancel_def
  by (rule cas_pending_evolve) (auto simp: approval_updates open_for_def dest: approval_row_ok)

lemma cas_revise_evolve:
  assumes "\<And>row. hitl_ok registry w \<Longrightarrow> approval_row w i = Some row \<Longrightarrow>
      valid_edit registry (aa_proposed_calls row) calls"
  shows "hitl_evolve registry w (fst (cas_revise d i u calls w))"
  unfolding cas_revise_def
  by (rule cas_pending_evolve)
    (use assms in \<open>auto simp: approval_updates open_for_def dest: approval_row_ok\<close>)

lemma append_stage_decision_evolve:
  "hitl_evolve registry w (fst (append_stage_decision d i u stage verdict by_user reason comments w))"
  using expire_if_due_evolve [of registry w d i u]
  by (auto simp: append_stage_decision_def Let_def approval_updates dest: approval_row_ok split: option.split
      intro!: hitl_evolve_refl hitl_evolve_update)

lemma rollback_last_stage_decision_evolve:
  "hitl_evolve registry w (rollback_last_stage_decision i u stage verdict w)"
  by (auto simp: rollback_last_stage_decision_def Let_def approval_updates open_for_def dest: approval_row_ok
      split: option.split intro!: hitl_evolve_refl hitl_evolve_update)

lemma cas_expire_pending_sweep_evolve: "hitl_evolve registry w (fst (cas_expire_pending_sweep d i w))"
  by (auto simp: cas_expire_pending_sweep_def approval_updates dest: approval_row_ok split: option.split
      intro!: hitl_evolve_refl hitl_evolve_update)

lemma claim_pause_snapshot_evolve: "hitl_evolve registry w (fst (claim_pause_snapshot d i w))"
proof (cases "\<exists>row. approval_row w i = Some row \<and> aa_status row = ApApproved \<and> has_pause_snapshot row")
  case True
  then obtain row where row: "approval_row w i = Some row" "aa_status row = ApApproved" "has_pause_snapshot row" by blast
  have "hitl_evolve registry w (update_approval i (\<lambda>_. True) (without_snapshot (hw_now w)) w)"
  proof (rule hitl_evolve_update)
    fix a
    assume a: "hitl_ok registry w" "approval_row w i = Some a"
    with row have "aa_status a = ApApproved" by simp
    with approval_row_ok [OF a]
    show "approval_may_become a (without_snapshot (hw_now w) a) \<and> approval_ok registry (without_snapshot (hw_now w) a)"
      by (simp add: approval_updates)
  qed (simp add: without_snapshot_def)
  with row show ?thesis by (simp add: claim_pause_snapshot_def)
next
  case False
  then show ?thesis by (auto simp: claim_pause_snapshot_def hitl_evolve_refl split: option.split)
qed

lemma clear_pause_snapshot_evolve: "hitl_evolve registry w (clear_pause_snapshot i w)"
  unfolding clear_pause_snapshot_def
  by (rule hitl_evolve_update) (auto simp: approval_updates dest: approval_row_ok)

lemma link_pending_message_evolve: "hitl_evolve registry w (fst (link_pending_message d i m w))"
  unfolding link_pending_message_def Let_def fst_conv
  by (rule hitl_evolve_update) (auto simp: approval_updates dest: approval_row_ok)

lemma create_approval_evolve:
  "hitl_evolve registry w (fst (create_approval d (\<lambda>i now. new_approval i now s u e c calls pad st ex stages (Some md)) w))"
  unfolding create_approval_def Let_def fst_conv
  by (rule hitl_evolve_insert [where a = "new_approval (hw_next_uuid w) (hw_now w) s u e c calls pad st ex stages (Some md)"])
    (simp_all add: new_approval_def approval_ok_def decided_status_def)

lemma hitl_evolve_kept:
  "hitl_evolve registry w (fst (allocate_seq sid w))"
  "hitl_evolve registry w (fst (add_message sid n role content prov model status fin cl pend w))"
  "hitl_evolve registry w (mark_last_message_at sid w)"
  "hitl_evolve registry w (update_message m c st f p cp w)"
  "hitl_evolve registry w (put_tools x w)"
  "hitl_evolve registry w (scratch_reset e entries w)"
  "hitl_evolve registry w (scratch_append e entries w)"
  "hitl_evolve registry w (w\<lparr>hw_events := evs\<rparr>)"
  "hitl_evolve registry w (fst (draw_uuid w))"
  "hitl_evolve registry w (w\<lparr>hw_now := t\<rparr>)"
  by (auto simp: allocate_seq_def add_message_def mark_last_message_at_def update_message_def put_tools_def
      scratch_reset_def scratch_append_def draw_uuid_def Let_def split: option.split intro!: hitl_evolve_same)

end
