(* ===== verification/Hitl_Requests.thy ===== *)
theory Hitl_Requests
  imports Hitl_Safety
begin

section \<open>Requests about approvals, interleaved\<close>

text \<open>
  Every request keeps the contract of \<open>Hitl_Safety\<close>, whatever other requests do in between; the executor
  that resumes an agent is assumed to keep it too (\<open>resumer_ok\<close>). An edit is validated
  against the proposal that was read earlier; the situation \<open>knows\<close> says that the row still has it.
\<close>

abbreviation hitl_safe :: "tool_registry option \<Rightarrow> 'a hitl_prog \<Rightarrow> bool" where
  "hitl_safe registry p \<equiv> safe_when (hitl_evolve registry) (hitl_ok registry) p"

definition resumer_ok :: "hitl_config \<Rightarrow> bool" where
  "resumer_ok cfg \<longleftrightarrow> (\<forall>x. hitl_safe (hc_registry cfg) (hc_resume cfg x))"

definition knows :: "tool_registry option \<Rightarrow> uuid \<Rightarrow> proposed_call list \<Rightarrow> hitl_world \<Rightarrow> bool" where
  "knows registry i calls w \<longleftrightarrow> hitl_ok registry w \<and>
     (\<exists>a. approval_row w i = Some a \<and> aa_proposed_calls a = calls)"

interpretation proposal: stable_situation "hitl_evolve registry" "knows registry i calls" for registry i calls
proof
  show "transp (hitl_evolve registry)" "reflp (hitl_evolve registry)"
    by (fact approvals.transp approvals.reflp)+
  show "knows registry i calls t" if s: "knows registry i calls s" and st: "hitl_evolve registry s t" for s t
  proof -
    from s obtain a where a: "hitl_ok registry s" "approval_row s i = Some a" "aa_proposed_calls a = calls"
      unfolding knows_def by blast
    from hitl_evolve_row [OF st a(1,2)] obtain b where b: "approval_row t i = Some b" "approval_may_become a b"
      by blast
    moreover have "hitl_ok registry t" using approvals.stable [OF a(1) st] .
    ultimately show ?thesis using a(3) by (auto simp: knows_def approval_may_become_def)
  qed
qed

lemma knows_ok: "knows registry i calls w \<Longrightarrow> hitl_ok registry w"
  by (simp add: knows_def)

lemma knows_safe: "hitl_safe registry p \<Longrightarrow> safe_when (hitl_evolve registry) (knows registry i calls) p"
  by (erule safe_when_weaken) (rule knows_ok)

subsection \<open>Building blocks\<close>

named_theorems hitl_safe_intros "programs that keep the contract of approvals"

lemmas [hitl_safe_intros] = safe_when_Ret safe_when_if safe_when_option safe_when_sum safe_when_prod
  approvals.bindP approvals.bindE approvals.readP

lemma safe_opP:
  "(\<And>w. hitl_evolve registry w (fst (f w))) \<Longrightarrow> safe_when (hitl_evolve registry) (hitl_ok registry) (opP f)"
  by (rule approvals.opP)

lemma safe_doP [hitl_safe_intros]: "(\<And>w. hitl_evolve registry w (f w)) \<Longrightarrow> hitl_safe registry (doP f)"
  unfolding doP_def by (rule safe_opP) simp

lemma safe_catch [hitl_safe_intros]:
  "hitl_safe registry p \<Longrightarrow> (\<And>e. hitl_safe registry (handler e)) \<Longrightarrow> hitl_safe registry (catch p handler)"
  unfolding catch_def by (intro hitl_safe_intros)

lemma safe_zoom: "safe_when (hitl_evolve registry) (hitl_ok registry) (zoom hw_tools put_tools p)"
proof -
  have "safe (hitl_evolve registry) (zoom hw_tools put_tools p) w" for w
    by (induction p arbitrary: w) (simp_all add: hitl_evolve_kept)
  then show ?thesis unfolding safe_when_def by blast
qed

lemma safe_run_tools [hitl_safe_intros]: "hitl_safe registry (run_tools p)"
  unfolding run_tools_def lift_error_def by (intro hitl_safe_intros safe_zoom)

lemma hitl_evolve_restore: "hitl_evolve registry w v \<Longrightarrow> hitl_evolve registry w (hitl_restore w v)"
  using approval_may_become_refl
  by (fastforce simp: hitl_evolve_def hitl_ok_def hitl_restore_def approval_row_def)

lemma safe_in_transaction [hitl_safe_intros]: "hitl_safe registry p \<Longrightarrow> hitl_safe registry (in_transaction p)"
  using hitl_session.safe_transaction [OF approvals.transp approvals.reflp hitl_evolve_restore]
  by (auto simp: safe_when_def)

lemma safe_forget [hitl_safe_intros]: "hitl_safe registry p \<Longrightarrow> hitl_safe registry (forget p)"
  unfolding forget_def by (intro hitl_safe_intros)

lemma safe_publish [hitl_safe_intros]: "hitl_safe registry (publish e)"
  unfolding publish_def by (intro hitl_safe_intros hitl_evolve_kept)

lemma safe_hitl_authorize [hitl_safe_intros]: "hitl_safe registry (hitl_authorize cfg u p)"
  unfolding hitl_authorize_def by (intro hitl_safe_intros)

lemma safe_check_stage_permission [hitl_safe_intros]: "hitl_safe registry (check_stage_permission cfg u stage)"
  unfolding check_stage_permission_def by (intro hitl_safe_intros)

lemma safe_decision_throttle [hitl_safe_intros]: "hitl_safe registry (decision_throttle cfg u)"
  unfolding decision_throttle_def by (intro hitl_safe_intros)

lemma safe_update_placeholder_message [hitl_safe_intros]:
  "hitl_safe registry (update_placeholder_message a content status reason)"
  unfolding update_placeholder_message_def by (intro hitl_safe_intros hitl_evolve_kept)

lemma safe_result_now [hitl_safe_intros]: "hitl_safe registry (result_now a)"
  unfolding result_now_def by (intro hitl_safe_intros)

lemma safe_require_for_owner [hitl_safe_intros]: "hitl_safe registry (opP (require_for_owner d i u))"
  by (rule safe_opP) (simp add: require_for_owner_fst get_for_owner_evolve)

lemma safe_append_agent_revision [hitl_safe_intros]: "hitl_safe registry (opP (append_agent_revision i u calls note))"
  by (rule safe_opP) (rule append_agent_revision_evolve)

lemma safe_append_stage_decision [hitl_safe_intros]:
  "hitl_safe registry (opP (append_stage_decision d i u stage verdict by_user reason comments))"
  by (rule safe_opP) (rule append_stage_decision_evolve)

lemma safe_append_inline_revision [hitl_safe_intros]: "hitl_safe registry (append_inline_revision i u d)"
  unfolding append_inline_revision_def by (intro hitl_safe_intros)

lemma safe_mark_failed [hitl_safe_intros]: "hitl_safe registry (mark_failed a e)"
  unfolding mark_failed_def by (intro hitl_safe_intros)

subsection \<open>Reading an approval tells its proposal\<close>

lemma yields_require:
  "yields (hitl_evolve registry) (hitl_ok registry) (opP (require_for_owner d i u))
     (\<lambda>a. knows registry i (aa_proposed_calls a))"
proof (rule approvals.yields_opP, intro conjI allI impI)
  fix w a
  assume w: "hitl_ok registry w"
  show "hitl_evolve registry w (fst (require_for_owner d i u w))"
    by (simp add: require_for_owner_fst get_for_owner_evolve)
  obtain v r where g: "get_for_owner d i u w = (v, r)" by fastforce
  assume "snd (require_for_owner d i u w) = Inr a"
  with g have r: "r = Some a" "fst (require_for_owner d i u w) = v"
    by (auto simp: require_for_owner_def split: option.splits if_splits)
  have "hitl_ok registry v" using approvals.stable [OF w get_for_owner_result(1) [OF g]] .
  with get_for_owner_result(2) [OF g] r show "knows registry i (aa_proposed_calls a) (fst (require_for_owner d i u w))"
    by (auto simp: knows_def)
qed

lemma yields_resolve:
  "yields (hitl_evolve registry) (hitl_ok registry) (resolve_approval_for_decider cfg i u)
     (\<lambda>a. knows registry i (aa_proposed_calls a))"
  (is "yields ?E ?P _ ?Q")
proof -
  have any: "yields ?E ?P (bindP (opP (get_any d i)) (\<lambda>candidate.
      (case candidate of
         None \<Rightarrow> raise (ApprovalNotFound i)
       | Some c \<Rightarrow>
           bindE (hitl_authorize cfg u p) (\<lambda>decide_all.
           bindE (if \<not> decide_all \<and> has_outstanding_stages c
                  then hitl_authorize cfg u (current_stage c) else ok decide_all) (\<lambda>authorized.
             if \<not> authorized then raise (ApprovalNotFound i)
             else if aa_status c = ApExpired then raise (ApprovalHasExpired i)
             else ok c))))) ?Q" for d p
  proof (rule approvals.yields_bindP_opP [where Q = "\<lambda>c w. \<forall>a. c = Some a \<longrightarrow> ?Q a w"], intro conjI allI impI)
    fix w a
    assume w: "hitl_ok registry w"
    obtain v r where g: "get_any d i w = (v, r)" by fastforce
    then show "hitl_evolve registry w (fst (get_any d i w))" using get_any_result(1) [OF g] by simp
    have "hitl_ok registry v" using approvals.stable [OF w get_any_result(1) [OF g]] .
    moreover assume "snd (get_any d i w) = Some a"
    ultimately show "?Q a (fst (get_any d i w))"
      using get_any_result(2) [OF g, of a] g by (auto simp: knows_def)
  next
    fix candidate
    show "yields ?E (\<lambda>w. \<forall>a. candidate = Some a \<longrightarrow> ?Q a w) (case candidate of
         None \<Rightarrow> raise (ApprovalNotFound i)
       | Some c \<Rightarrow>
           bindE (hitl_authorize cfg u p) (\<lambda>decide_all.
           bindE (if \<not> decide_all \<and> has_outstanding_stages c
                  then hitl_authorize cfg u (current_stage c) else ok decide_all) (\<lambda>authorized.
             if \<not> authorized then raise (ApprovalNotFound i)
             else if aa_status c = ApExpired then raise (ApprovalHasExpired i)
             else ok c))) ?Q"
    proof (cases candidate)
      case (Some c)
      have keep: "yields ?E (?Q c) q (\<lambda>_. ?Q c)" if "hitl_safe registry q" for q :: "bool hitl_prog"
        using knows_safe [OF that] by (rule proposal.safe_keeps)
      show ?thesis
        unfolding Some option.case option.inject
        by (simp only: simp_thms, rule yields_bindE [OF keep yields_bindE [OF keep]])
          (auto intro: hitl_safe_intros yields_ok)
    qed simp
  qed
  show ?thesis
    unfolding resolve_approval_for_decider_def
  proof (rule approvals.yields_bindP_opP [where Q = "\<lambda>r w. ?P w \<and> (\<forall>a. r = Some a \<longrightarrow> ?Q a w)"], intro conjI allI impI)
    fix w a
    assume w: "hitl_ok registry w"
    obtain v r where g: "get_for_owner (hc_retention_days cfg) i u w = (v, r)" by fastforce
    then show "hitl_evolve registry w (fst (get_for_owner (hc_retention_days cfg) i u w))"
      using get_for_owner_result(1) [OF g] by simp
    have v: "hitl_ok registry v" using approvals.stable [OF w get_for_owner_result(1) [OF g]] .
    with g show "hitl_ok registry (fst (get_for_owner (hc_retention_days cfg) i u w))" by simp
    assume "snd (get_for_owner (hc_retention_days cfg) i u w) = Some a"
    with v get_for_owner_result(2) [OF g] g show "?Q a (fst (get_for_owner (hc_retention_days cfg) i u w))"
      by (auto simp: knows_def)
  next
    fix approval
    show "yields ?E (\<lambda>w. ?P w \<and> (\<forall>a. approval = Some a \<longrightarrow> ?Q a w)) (case approval of
        Some a \<Rightarrow> if aa_status a = ApExpired then raise (ApprovalHasExpired i) else ok a
      | None \<Rightarrow> if \<not> hc_rbac_active cfg then raise (ApprovalNotFound i)
          else bindP (opP (get_any (hc_retention_days cfg) i)) (\<lambda>candidate.
            (case candidate of
               None \<Rightarrow> raise (ApprovalNotFound i)
             | Some c \<Rightarrow>
                 bindE (hitl_authorize cfg u (permission_value ApprovalsDecideAll)) (\<lambda>decide_all.
                 bindE (if \<not> decide_all \<and> has_outstanding_stages c
                        then hitl_authorize cfg u (current_stage c) else ok decide_all) (\<lambda>authorized.
                   if \<not> authorized then raise (ApprovalNotFound i)
                   else if aa_status c = ApExpired then raise (ApprovalHasExpired i)
                   else ok c))))) ?Q"
      using any [of "hc_retention_days cfg" "permission_value ApprovalsDecideAll"]
      by (cases approval) (auto simp: yields_def)
  qed
qed

lemma safe_resolve [hitl_safe_intros]: "hitl_safe registry (resolve_approval_for_decider cfg i u)"
  using yields_resolve by (rule safe_when_yields)

subsection \<open>Requests\<close>

lemma safe_check [hitl_safe_intros]:
  assumes "\<And>a. r = Inr a \<Longrightarrow> safe_when E P (g a)"
  shows "safe_when E P (bindE (Ret r) g)"
  using assms by (cases r) (auto intro: safe_when_Ret)

lemma validate_edits_valid:
  "validate_edits cfg (Some calls) a = Inr x \<Longrightarrow> valid_edit (hc_registry cfg) (aa_proposed_calls a) calls"
proof -
  assume v: "validate_edits cfg (Some calls) a = Inr x"
  have "validate_edited_calls (hc_registry cfg) (xc_message (hc_tools cfg)) calls (aa_proposed_calls a) = Inr ()"
    using v by (cases "validate_edited_calls (hc_registry cfg) (xc_message (hc_tools cfg)) calls (aa_proposed_calls a)")
      (simp_all add: validate_edits_def)
  then show ?thesis
    by (cases "hc_registry cfg")
      (auto simp: valid_edit_def validate_edited_calls_iff, simp add: validate_edited_calls_def)
qed

lemma safe_pause [hitl_safe_intros]: "hitl_safe registry (pause cfg q)"
  unfolding pause_def Let_def
  by (intro hitl_safe_intros safe_opP hitl_evolve_kept create_approval_evolve link_pending_message_evolve)

lemma safe_revise [hitl_safe_intros]: "hitl_safe (hc_registry cfg) (revise cfg i calls u note)"
  unfolding revise_def
proof (rule safe_when_bindE_yields [OF yields_require], rule safe_check)
  fix approval x
  assume v: "validate_edits cfg (Some calls) approval = Inr x"
  show "safe_when (hitl_evolve (hc_registry cfg)) (knows (hc_registry cfg) i (aa_proposed_calls approval))
      (bindE (opP (cas_revise (hc_retention_days cfg) i u calls)) (\<lambda>updated.
       bindE (opP (append_agent_revision i u calls note)) (\<lambda>revision. ok (updated, revision))))"
  proof (rule proposal.bindE)
    show "safe_when (hitl_evolve (hc_registry cfg)) (knows (hc_registry cfg) i (aa_proposed_calls approval))
        (opP (cas_revise (hc_retention_days cfg) i u calls))"
      by (rule proposal.opP, rule cas_revise_evolve)
        (use validate_edits_valid [OF v] in \<open>auto simp: knows_def\<close>)
  qed (intro knows_safe hitl_safe_intros)
qed

definition edits_fit :: "hitl_config \<Rightarrow> proposed_call list \<Rightarrow> decision_args \<Rightarrow> bool" where
  "edits_fit cfg proposed d \<longleftrightarrow> (\<forall>calls. da_edited_calls d = Some calls \<longrightarrow> valid_edit (hc_registry cfg) proposed calls)"

lemma edits_fit_validated:
  "validate_edits cfg (da_edited_calls d) a = Inr x \<Longrightarrow> edits_fit cfg (aa_proposed_calls a) d"
  using validate_edits_valid by (auto simp: edits_fit_def)

lemma safe_write_decision:
  assumes "edits_fit cfg proposed d" and "decided_status status"
  shows "safe_when (hitl_evolve (hc_registry cfg)) (knows (hc_registry cfg) i proposed)
    (opP (write_decision cfg i u approval status d))"
  unfolding write_decision_def
  by (rule proposal.opP, rule cas_decide_evolve [OF assms(2)])
    (use assms(1) in \<open>auto simp: knows_def edits_fit_def\<close>)

lemma safe_decide_with_stages:
  assumes "edits_fit cfg proposed d" and "decided_status status"
  shows "safe_when (hitl_evolve (hc_registry cfg)) (knows (hc_registry cfg) i proposed)
    (decide_with_stages cfg i u approval verdict status d)"
proof -
  have "safe_when (hitl_evolve (hc_registry cfg)) (knows (hc_registry cfg) i proposed)
      (catch (opP (write_decision cfg i u approval status d)) (\<lambda>e. if is_hitl_error e
        then bindE (doP (rollback_last_stage_decision i (aa_owner_id approval) stage verdict')) (\<lambda>_. raise e)
        else raise e))" for stage verdict'
    unfolding catch_def
    by (rule proposal.bindP [OF safe_write_decision [OF assms]])
      (intro knows_safe hitl_safe_intros rollback_last_stage_decision_evolve)
  then show ?thesis
    unfolding decide_with_stages_def cas_decide_with_stage_append_def Let_def
    by (intro safe_when_if proposal.bindE safe_write_decision [OF assms])
      (assumption | intro knows_safe hitl_safe_intros)+
qed

lemma safe_record_approved [hitl_safe_intros]: "hitl_safe (hc_registry cfg) (record_approved cfg i u d)"
  unfolding record_approved_def
  by (rule safe_when_bindE_yields [OF yields_resolve], rule safe_check, rule safe_check,
      rule proposal.bindE [OF safe_decide_with_stages])
    (auto simp: decided_status_def intro!: knows_safe hitl_safe_intros dest: edits_fit_validated)

lemma safe_decide [hitl_safe_intros]: "hitl_safe (hc_registry cfg) (decide cfg i u decision d)"
proof -
  have "hitl_safe (hc_registry cfg) (bindE (resolve_approval_for_decider cfg i u) (\<lambda>approval.
      bindE (Ret (validate_edits cfg (da_edited_calls d) approval)) (\<lambda>_.
      bindE (decide_with_stages cfg i u approval StageRejected ApRejected (d\<lparr>da_edited_calls := None\<rparr>)) (\<lambda>decided.
      bindE (update_placeholder_message decided [] ''rejected'' (Some ''rejected'')) (\<lambda>_. result_now decided)))))"
    by (rule safe_when_bindE_yields [OF yields_resolve], rule safe_check, rule proposal.bindE [OF safe_decide_with_stages])
      (auto simp: decided_status_def edits_fit_def intro!: knows_safe hitl_safe_intros)
  then show ?thesis
    unfolding decide_def
    by (intro approvals.bindE [OF safe_decision_throttle] safe_when_if)
      (assumption | rule approvals.bindE safe_record_approved safe_result_now)+
qed

lemma safe_record_stage_approval [hitl_safe_intros]: "hitl_safe registry (record_stage_approval cfg i u reason comments)"
  unfolding record_stage_approval_def Let_def by (intro hitl_safe_intros)

lemma safe_cancel [hitl_safe_intros]: "hitl_safe registry (cancel cfg i u reason md)"
  unfolding cancel_def by (intro hitl_safe_intros safe_opP cas_cancel_evolve)

lemma safe_run_approved_calls [hitl_safe_intros]: "hitl_safe registry (run_approved_calls cfg e ctx calls)"
  by (induction calls) (simp_all, intro hitl_safe_intros, auto intro!: hitl_safe_intros)

lemma safe_execute_approved_calls [hitl_safe_intros]: "hitl_safe registry (execute_approved_calls cfg e ctx calls)"
  unfolding execute_approved_calls_def record_tool_results_def by (intro hitl_safe_intros hitl_evolve_kept)

lemma safe_resume_after:
  assumes "resumer_ok cfg"
  shows "hitl_safe (hc_registry cfg) (resume_after_approval_decision cfg decided request ctx caller)"
proof -
  have "hitl_safe (hc_registry cfg) (hc_resume cfg x)" for x using assms by (simp add: resumer_ok_def)
  moreover have "hitl_safe registry (case e of ApprovalPause _ \<Rightarrow> raise e | _ \<Rightarrow> mark_failed decided e)"
    for registry and e by (cases e) (auto intro: hitl_safe_intros)
  ultimately show ?thesis
    unfolding resume_after_approval_decision_def finish_placeholder_def Let_def
    by (intro hitl_safe_intros hitl_evolve_kept)
qed

lemma safe_approve_and_resume:
  "resumer_ok cfg \<Longrightarrow> hitl_safe (hc_registry cfg) (approve_and_resume cfg i u request d)"
  unfolding approve_and_resume_def by (intro hitl_safe_intros safe_resume_after)

lemma safe_resume_orphaned_approval:
  assumes "resumer_ok cfg"
  shows "hitl_safe (hc_registry cfg) (resume_orphaned_approval cfg fail_safe i)"
proof -
  have "hitl_safe registry (case e of ApprovalPause _ \<Rightarrow> raise e
      | _ \<Rightarrow> if fail_safe then bindE (update_placeholder_message a [] s r) (\<lambda>_. ok False) else raise e)"
    for registry e a s r by (cases e) (auto intro!: hitl_safe_intros)
  with assms show ?thesis
    unfolding resume_orphaned_approval_def
    by (intro hitl_safe_intros safe_opP claim_pause_snapshot_evolve safe_resume_after)
qed

lemma safe_sweep_orphans:
  assumes "resumer_ok cfg"
  shows "hitl_safe (hc_registry cfg) (sweep_orphans cfg fail_safe orphans counts)"
proof (induction orphans arbitrary: counts)
  case Nil
  show ?case by (simp add: safe_when_Ret)
next
  case (Cons approval orphans)
  obtain resumed failed where "counts = (resumed, failed)" by fastforce
  with Cons show ?case
    by (simp only: sweep_orphans.simps)
      (intro approvals.bindP safe_in_transaction safe_resume_orphaned_approval [OF assms] safe_when_sum safe_when_if
        safe_when_Ret)
qed

lemma safe_expire_all [hitl_safe_intros]: "hitl_safe registry (expire_all cfg pending n)"
  by (induction cfg pending n rule: expire_all.induct)
    (simp_all, auto intro!: hitl_safe_intros safe_opP cas_expire_pending_sweep_evolve)

lemma safe_decide_agent_approval:
  assumes "resumer_ok cfg"
  shows "hitl_safe (hc_registry cfg) (decide_agent_approval cfg i u decision d)"
  unfolding decide_agent_approval_def stream_approved_decision_def Let_def
  by (intro hitl_safe_intros safe_approve_and_resume assms)

lemma safe_serve_hitl:
  assumes "resumer_ok cfg"
  shows "hitl_safe (hc_registry cfg) (serve_hitl cfg req)"
proof (cases req)
  case (ReqDecide i u decision d)
  then show ?thesis by (simp add: safe_forget safe_decide_agent_approval assms)
next
  case (ReqOrphanSweep enabled fail_safe)
  then show ?thesis
    by (auto simp: hitl_orphaned_snapshot_sweep_def intro!: hitl_safe_intros safe_sweep_orphans assms)
next
  case (ReqExpirySweep enabled)
  then show ?thesis by (auto simp: expire_timed_out_approvals_def intro!: hitl_safe_intros)
qed (auto intro!: hitl_safe_intros safe_opP get_for_owner_evolve hitl_evolve_kept)

lemma hitl_pool:
  assumes "pool_step\<^sup>*\<^sup>* (w, map (serve_hitl cfg) reqs) (v, ps)" and "hitl_ok (hc_registry cfg) w" and "resumer_ok cfg"
  shows "hitl_evolve (hc_registry cfg) w v"
  by (rule approvals.pool [OF assms(1,2)]) (use assms(3) safe_serve_hitl in auto)

end
