(* ===== verification/Hitl_Correct.thy ===== *)
theory Hitl_Correct
  imports Hitl_Requests
begin

section \<open>What requests about approvals do when they run alone\<close>

text \<open>
  First what a request can do to an approval that has already been decided (nothing), then what an
  approval makes of the proposal (the calls are run once each, in order) and what pausing stores.
\<close>

subsection \<open>Programs that touch the tools only\<close>

definition tools_step :: "hitl_world \<Rightarrow> hitl_world \<Rightarrow> bool" where
  "tools_step w v \<longleftrightarrow> (\<exists>s. v = put_tools s w)"

lemma put_tools_simps [simp]:
  "put_tools s (put_tools s' w) = put_tools s w" "put_tools (hw_tools w) w = w"
  "hitl_db (put_tools s w) = hitl_db w" "hw_events (put_tools s w) = hw_events w"
  "approval_row (put_tools s w) i = approval_row w i" "hw_now (put_tools s w) = hw_now w"
  "hw_scratchpads (put_tools s w) = hw_scratchpads w" "hw_approvals (put_tools s w) = hw_approvals w"
  "map_row d (put_tools s w) a = map_row d w a"
  by (simp_all add: put_tools_def hitl_db_def approval_row_def map_row_def)

interpretation touching_tools: closed_steps tools_step
  by unfold_locales (auto simp: tools_step_def intro: put_tools_simps(2) [symmetric])

abbreviation tools_only :: "'a hitl_prog \<Rightarrow> bool" where
  "tools_only p \<equiv> keeps tools_step p"

named_theorems tools_only_intros "programs that touch the tools only"

lemmas [tools_only_intros] = touching_tools.keeps_Ret touching_tools.keeps_bindE keeps_if keeps_option keeps_sum

lemma tools_only_run_tools [tools_only_intros]: "tools_only (run_tools p)"
  by (auto simp: keeps_def tools_step_def run_tools_def lift_error_def exec_bindP tools_part.exec_zoom
      split: prod.split sum.split)

lemma tools_only_exec: "tools_only p \<Longrightarrow> exec_prog p w = (v, r) \<Longrightarrow> \<exists>s. v = put_tools s w"
  using keepsD [of tools_step] by (auto simp: tools_step_def)

lemma tools_only_hitl_authorize [tools_only_intros]: "tools_only (hitl_authorize cfg u p)"
  unfolding hitl_authorize_def by (rule tools_only_run_tools)

lemma tools_only_check_stage_permission [tools_only_intros]: "tools_only (check_stage_permission cfg u stage)"
  unfolding check_stage_permission_def by (intro tools_only_intros)

lemma tools_only_decision_throttle [tools_only_intros]: "tools_only (decision_throttle cfg u)"
  unfolding decision_throttle_def by (intro tools_only_intros)

subsection \<open>Approvals that are closed\<close>

text \<open>Reading one changes nothing, and every conditional UPDATE of it fails.\<close>

lemma touch_row_closed:
  "aa_status row \<noteq> ApPending \<Longrightarrow> touch_row d row u w = (w, Some (map_row d w row))"
  by (simp add: touch_row_def map_row_persisting_retention_def Let_def)

lemma get_for_owner_closed:
  assumes "approval_row w i = Some a" and "aa_status a \<noteq> ApPending"
  shows "get_for_owner d i u w = (w, if aa_owner_id a = u then Some (map_row d w a) else None)"
  using assms touch_row_closed by (simp add: get_for_owner_def)

lemma get_any_closed:
  assumes "approval_row w i = Some a" and "aa_status a \<noteq> ApPending"
  shows "get_any d i w = (w, Some (map_row d w a))"
  using assms touch_row_closed by (simp add: get_any_def)

lemma cas_pending_closed:
  assumes "approval_row w i = Some a" and "aa_status a \<noteq> ApPending"
  shows "\<exists>e. cas_pending d i u upd w = (w, Inl e)"
  using assms get_for_owner_closed [OF assms]
  by (auto simp: cas_pending_def open_for_def resolve_cas_miss_def)

lemma append_stage_decision_closed:
  assumes "approval_row w i = Some a" and "aa_status a \<noteq> ApPending"
  shows "\<exists>e. append_stage_decision d i u stage verdict by_user reason comments w = (w, Inl e)"
  using assms by (auto simp: append_stage_decision_def due_def)

lemma resolve_closed:
  assumes row: "approval_row w i = Some a" "aa_status a \<noteq> ApPending"
    and "exec_prog (resolve_approval_for_decider cfg i u) w = (v, r)"
  shows "\<exists>s. v = put_tools s w" and "r = Inr b \<Longrightarrow> b = map_row (hc_retention_days cfg) w a"
proof -
  let ?b = "map_row (hc_retention_days cfg) w a"
  have "(\<exists>s. v = put_tools s w) \<and> (r = Inr b \<longrightarrow> b = ?b)"
  proof (cases "aa_owner_id a = u \<or> \<not> hc_rbac_active cfg")
    case True
    with assms(3) get_for_owner_closed [OF row] show ?thesis
      by (auto simp: resolve_approval_for_decider_def exec_bindP split: if_splits
          intro: put_tools_simps(2) [symmetric])
  next
    case False
    define q where "q = bindE (hitl_authorize cfg u (permission_value ApprovalsDecideAll)) (\<lambda>decide_all.
        if \<not> decide_all \<and> has_outstanding_stages ?b then hitl_authorize cfg u (current_stage ?b) else ok decide_all)"
    have "bindE (hitl_authorize cfg u (permission_value ApprovalsDecideAll)) (\<lambda>decide_all.
        bindE (if \<not> decide_all \<and> has_outstanding_stages ?b
               then hitl_authorize cfg u (current_stage ?b) else ok decide_all) g) = bindE q g" for g :: "bool \<Rightarrow> agent_approval hitl_prog"
      unfolding q_def bindE_def bindP_assoc by (rule arg_cong [where f = "bindP _"]) (auto split: sum.split)
    with False assms(3) get_for_owner_closed [OF row] get_any_closed [OF row]
    have x: "exec_prog (bindE q (\<lambda>authorized. if \<not> authorized then raise (ApprovalNotFound i)
        else if aa_status ?b = ApExpired then raise (ApprovalHasExpired i) else ok ?b)) w = (v, r)"
      by (simp add: resolve_approval_for_decider_def exec_bindP)
    have "tools_only q" unfolding q_def by (intro tools_only_intros)
    moreover obtain v' r' where q: "exec_prog q w = (v', r')" by fastforce
    ultimately have "\<exists>s. v' = put_tools s w" by (rule tools_only_exec)
    with x q show ?thesis by (auto simp: exec_bindE split: sum.splits if_splits)
  qed
  then show "\<exists>s. v = put_tools s w" and "r = Inr b \<Longrightarrow> b = ?b" by blast+
qed

text \<open>What a refused request leaves behind: the tools (a counter, a cache) may have changed.\<close>

definition refuses :: "hitl_world \<Rightarrow> 'a hitl_prog \<Rightarrow> bool" where
  "refuses w p \<longleftrightarrow> (\<forall>s. \<exists>s' e. exec_prog p (put_tools s w) = (put_tools s' w, Inl e))"

lemma refusesD: "refuses w p \<Longrightarrow> \<exists>s e. exec_prog p w = (put_tools s w, Inl e)"
  unfolding refuses_def using put_tools_simps(2) by metis

lemma refuses_after:
  assumes "\<And>s v r. exec_prog p (put_tools s w) = (v, r) \<Longrightarrow>
      (\<exists>s'. v = put_tools s' w) \<and> (\<forall>a. r = Inr a \<longrightarrow> refuses w (g a))"
  shows "refuses w (bindE p g)"
  unfolding refuses_def
proof
  fix s
  obtain v r where p: "exec_prog p (put_tools s w) = (v, r)" by fastforce
  from assms [OF p] obtain s' where s': "v = put_tools s' w" by blast
  show "\<exists>s' e. exec_prog (bindE p g) (put_tools s w) = (put_tools s' w, Inl e)"
  proof (cases r)
    case (Inl e)
    with p s' show ?thesis by (auto simp: exec_bindE)
  next
    case (Inr a)
    with assms [OF p] have "refuses w (g a)" by blast
    with p s' Inr show ?thesis by (auto simp: exec_bindE refuses_def)
  qed
qed

lemma refuses_raise: "refuses w (raise e)"
  by (auto simp: refuses_def)

lemma refuses_tools: "tools_only p \<Longrightarrow> (\<And>a. refuses w (g a)) \<Longrightarrow> refuses w (bindE p g)"
  by (rule refuses_after) (metis put_tools_simps(1) tools_only_exec)

lemma refuses_first:
  assumes "refuses w p"
  shows "refuses w (bindE p g)"
  unfolding refuses_def
proof
  fix s
  from assms obtain s' e where "exec_prog p (put_tools s w) = (put_tools s' w, Inl e)"
    unfolding refuses_def by blast
  then show "\<exists>s' e. exec_prog (bindE p g) (put_tools s w) = (put_tools s' w, Inl e)" by (auto simp: exec_bindE)
qed

lemma refuses_if: "(b \<Longrightarrow> refuses w p) \<Longrightarrow> (\<not> b \<Longrightarrow> refuses w q) \<Longrightarrow> refuses w (if b then p else q)"
  by simp

lemma refuses_op: "(\<And>s. \<exists>e. f (put_tools s w) = (put_tools s w, Inl e)) \<Longrightarrow> refuses w (opP f)"
  unfolding refuses_def exec_opP by blast

lemma refuses_resolve:
  assumes "approval_row w i = Some a" "aa_status a \<noteq> ApPending"
    and "refuses w (g (map_row (hc_retention_days cfg) w a))"
  shows "refuses w (bindE (resolve_approval_for_decider cfg i u) g)"
proof (rule refuses_after)
  fix s v r
  assume x: "exec_prog (resolve_approval_for_decider cfg i u) (put_tools s w) = (v, r)"
  have row: "approval_row (put_tools s w) i = Some a" using assms(1) by simp
  from resolve_closed(1) [OF row assms(2) x] resolve_closed(2) [OF row assms(2) x] assms(3)
  show "(\<exists>s'. v = put_tools s' w) \<and> (\<forall>b. r = Inr b \<longrightarrow> refuses w (g b))" by auto
qed

lemma refuses_require:
  assumes "approval_row w i = Some a" "aa_status a \<noteq> ApPending" and "\<And>b. refuses w (g b)"
  shows "refuses w (bindE (opP (require_for_owner d i u)) g)"
proof (rule refuses_after)
  fix s v r
  have row: "approval_row (put_tools s w) i = Some a" using assms(1) by simp
  assume "exec_prog (opP (require_for_owner d i u)) (put_tools s w) = (v, r)"
  with get_for_owner_closed [OF row assms(2)] assms(3)
  show "(\<exists>s'. v = put_tools s' w) \<and> (\<forall>b. r = Inr b \<longrightarrow> refuses w (g b))"
    by (auto simp: require_for_owner_def split: if_splits)
qed

lemma refuses_validate: "(\<And>x. refuses w (g x)) \<Longrightarrow> refuses w (bindE (Ret r) g)"
  by (cases r) (simp_all add: refuses_raise)

lemma refuses_write_decision:
  "approval_row w i = Some a \<Longrightarrow> aa_status a \<noteq> ApPending \<Longrightarrow> refuses w (opP (write_decision cfg i u b status d))"
  by (rule refuses_op) (simp add: write_decision_def cas_decide_def cas_pending_closed)

lemma refuses_decide_with_stages:
  "approval_row w i = Some a \<Longrightarrow> aa_status a \<noteq> ApPending \<Longrightarrow>
   refuses w (decide_with_stages cfg i u b verdict status d)"
  unfolding decide_with_stages_def cas_decide_with_stage_append_def Let_def
  by (intro refuses_if refuses_tools tools_only_intros refuses_first refuses_op refuses_write_decision
      append_stage_decision_closed) simp_all

lemma refuses_decide:
  assumes "approval_row w i = Some a" and "aa_status a \<noteq> ApPending"
  shows "refuses w (decide cfg i u verdict d)"
proof -
  have decided: "refuses w (bindE (decide_with_stages cfg i u b verdict status d) g)"
    for b verdict status d and g :: "agent_approval \<Rightarrow> 'b hitl_prog"
    by (rule refuses_first, rule refuses_decide_with_stages [OF assms])
  show ?thesis
    unfolding decide_def record_approved_def bindE_assoc
    by (intro refuses_tools [OF tools_only_decision_throttle] refuses_if refuses_resolve [OF assms] refuses_validate
        decided)
qed

lemma refuses_revise:
  assumes "approval_row w i = Some a" and "aa_status a \<noteq> ApPending"
  shows "refuses w (revise cfg i calls u note)"
  unfolding revise_def
  by (intro refuses_require [OF assms] refuses_validate refuses_first refuses_op)
    (simp add: cas_revise_def cas_pending_closed assms)

lemma refuses_cancel:
  assumes "approval_row w i = Some a" and "aa_status a \<noteq> ApPending"
  shows "refuses w (cancel cfg i u reason md)"
  unfolding cancel_def
  by (intro refuses_require [OF assms] refuses_first refuses_op) (simp add: cas_cancel_def cas_pending_closed assms)

lemma refuses_transaction:
  assumes "refuses w p"
  shows "refuses w (in_transaction p)"
  unfolding refuses_def
proof
  fix s
  from assms obtain s' e where p: "exec_prog p (put_tools s w) = (put_tools s' w, Inl e)"
    unfolding refuses_def by blast
  have "hitl_restore (put_tools s w) (put_tools s' w) = put_tools s' w"
    by (rule hitl_session.restore_same) simp
  with p show "\<exists>s' e. exec_prog (in_transaction p) (put_tools s w) = (put_tools s' w, Inl e)"
    by (auto simp: hitl_session.exec_transaction settle_def)
qed

lemma refuses_decide_agent_approval:
  assumes row: "approval_row w i = Some a" and closed: "aa_status a \<noteq> ApPending"
  shows "refuses w (decide_agent_approval cfg i u verdict d)"
  unfolding decide_agent_approval_def Let_def
  by (intro refuses_transaction refuses_if refuses_first refuses_decide [OF assms] refuses_resolve [OF assms])
    (simp_all add: closed refuses_raise)

subsection \<open>Before a decision is written\<close>

text \<open>
  Finding the approval, checking permissions and appending a stage run no tool and change neither the
  payload of an approval nor the snapshot of its agent, nor do they reopen it.
\<close>

definition paused_part :: "agent_approval \<Rightarrow>
    proposed_call list \<times> proposed_call list option \<times> string \<times> uuid \<times> scratch_entry list \<times> agent_state option \<times> uuid option" where
  "paused_part a = (aa_proposed_calls a, aa_edited_calls a, aa_execution_id a, aa_session_id a,
     aa_paused_scratchpad a, aa_paused_state a, aa_pending_message_id a)"

definition preparing :: "hitl_world \<Rightarrow> hitl_world \<Rightarrow> bool" where
  "preparing w v \<longleftrightarrow> hw_events v = hw_events w \<and> xw_calls (hw_tools v) = xw_calls (hw_tools w) \<and>
     hw_now v = hw_now w \<and>
     (\<forall>i b. approval_row v i = Some b \<longrightarrow> (\<exists>a. approval_row w i = Some a \<and> paused_part b = paused_part a \<and>
        (aa_status b = ApPending \<longrightarrow> aa_status a = ApPending)))"

lemma preparing_trans:
  assumes "preparing u v" and "preparing v w"
  shows "preparing u w"
proof -
  have "\<exists>a. approval_row u i = Some a \<and> paused_part c = paused_part a \<and> (aa_status c = ApPending \<longrightarrow> aa_status a = ApPending)"
    if "approval_row w i = Some c" for i c
  proof -
    from assms(2) that obtain b where b: "approval_row v i = Some b" "paused_part c = paused_part b"
      "aa_status c = ApPending \<longrightarrow> aa_status b = ApPending" unfolding preparing_def by blast
    from assms(1) b(1) obtain a where "approval_row u i = Some a" "paused_part b = paused_part a"
      "aa_status b = ApPending \<longrightarrow> aa_status a = ApPending" unfolding preparing_def by blast
    with b show ?thesis by auto
  qed
  with assms show ?thesis by (simp add: preparing_def)
qed

interpretation prepare: closed_steps preparing
proof
  show "preparing w w" for w by (simp add: preparing_def)
  show "preparing u w" if "preparing u v" "preparing v w" for u v w using that by (rule preparing_trans)
qed

named_theorems preparing_intros "programs that only prepare a decision"

lemmas [preparing_intros] = prepare.keeps_Ret prepare.keeps_bindE prepare.keeps_bindP prepare.keeps_readP
  keeps_if keeps_option keeps_sum keeps_opP

lemma preparing_update:
  assumes "\<And>a. aa_id (upd a) = aa_id a" and "\<And>a. paused_part (upd a) = paused_part a"
    and "\<And>a. aa_status (upd a) = ApPending \<Longrightarrow> aa_status a = ApPending"
  shows "preparing w (update_approval i hits upd w)"
proof -
  have "\<exists>a. approval_row w k = Some a \<and> paused_part b = paused_part a \<and> (aa_status b = ApPending \<longrightarrow> aa_status a = ApPending)"
    if "approval_row (update_approval i hits upd w) k = Some b" for k b
    using that assms(2,3) by (auto simp: approval_row_update [OF assms(1)] split: if_splits)
  then show ?thesis by (auto simp: preparing_def update_approval_def approval_row_def)
qed

lemma preparing_expire: "preparing w (fst (expire_if_due d i u w))"
  by (auto simp: expire_if_due_def Let_def expired_at_def paused_part_def prepare.refl
      split: option.split intro!: preparing_update)

lemma preparing_touch: "preparing w (fst (touch_row d row u w))"
proof -
  obtain v a where m: "map_row_persisting_retention d row w = (v, a)" by fastforce
  then have "preparing w v"
    by (auto simp: map_row_persisting_retention_def Let_def paused_part_def prepare.refl split: if_splits
        intro!: preparing_update)
  moreover have "preparing v (fst (expire_if_due d (aa_id row) u v))" by (rule preparing_expire)
  ultimately show ?thesis
    using m by (auto simp: touch_row_def Let_def split: prod.split option.split intro: prepare.trans)
qed

lemma preparing_get: "preparing w (fst (get_for_owner d i u w))" "preparing w (fst (get_any d i w))"
  by (simp_all add: get_for_owner_def get_any_def preparing_touch prepare.refl split: option.split)

lemma preparing_append_stage:
  "preparing w (fst (append_stage_decision d i u stage verdict by_user reason comments w))"
  by (auto simp: append_stage_decision_def Let_def with_stages_def paused_part_def prepare.refl preparing_expire
      split: option.split intro!: preparing_update)

lemma authorize_calls: "xw_calls (hw_tools (fst (exec_prog (hitl_authorize cfg u p) w))) = xw_calls (hw_tools w)"
  by (simp add: hitl_authorize_def run_tools_def lift_error_def exec_bindP tools_part.exec_zoom rbac_part.exec_zoom
      split_beta Let_def put_tools_def split: sum.split)

lemma preparing_authorize [preparing_intros]: "keeps preparing (hitl_authorize cfg u p)"
proof -
  have "preparing w (fst (exec_prog (hitl_authorize cfg u p) w))" for w
    using tools_only_exec [OF tools_only_hitl_authorize, of cfg u p w] authorize_calls [of cfg u p w]
    by (cases "exec_prog (hitl_authorize cfg u p) w") (auto simp: preparing_def)
  then show ?thesis by (simp add: keeps_def)
qed

lemma preparing_resolve: "keeps preparing (resolve_approval_for_decider cfg i u)"
  unfolding resolve_approval_for_decider_def by (intro preparing_intros preparing_get)

lemma preparing_check_stage: "keeps preparing (check_stage_permission cfg u stage)"
  unfolding check_stage_permission_def by (intro preparing_intros)

text \<open>A decision that was written: the row was open, and it now has what the request said.\<close>

lemma write_decision_Inr:
  assumes "write_decision cfg i u b status d w = (v, Inr x)"
  shows "\<exists>row. approval_row w i = Some row \<and> aa_status row = ApPending \<and>
    x = map_row (hc_retention_days cfg) w (decided_as (hw_now w) status u (da_reason d) (da_comments d) (da_edited_calls d) (da_metadata d) row) \<and>
    approval_row v i = Some (decided_as (hw_now w) status u (da_reason d) (da_comments d) (da_edited_calls d) (da_metadata d) row) \<and>
    hw_events v = hw_events w \<and> hw_tools v = hw_tools w \<and> hw_now v = hw_now w"
proof -
  let ?upd = "decided_as (hw_now w) status u (da_reason d) (da_comments d) (da_edited_calls d) (da_metadata d)"
  from cas_pending_Inr assms obtain row where "approval_row w i = Some row" "open_for (aa_owner_id b) row"
    "v = update_approval i (open_for (aa_owner_id b)) ?upd w" "x = map_row (hc_retention_days cfg) w (?upd row)"
    unfolding write_decision_def cas_decide_def by blast
  then show ?thesis by (auto simp: approval_row_update decided_as_def open_for_def) (simp_all add: update_approval_def)
qed


definition approved_as :: "agent_approval \<Rightarrow> decision_args \<Rightarrow> uuid \<Rightarrow> agent_approval \<Rightarrow> bool" where
  "approved_as a d u b \<longleftrightarrow> aa_status b = ApApproved \<and> aa_decided_by b = Some u \<and>
     resolve_final_payload b = (case da_edited_calls d of Some calls \<Rightarrow> calls | None \<Rightarrow> resolve_final_payload a) \<and>
     aa_execution_id b = aa_execution_id a \<and> aa_session_id b = aa_session_id a \<and>
     aa_paused_scratchpad b = aa_paused_scratchpad a \<and> aa_paused_state b = aa_paused_state a"

lemma decided_approved_as:
  "paused_part a' = paused_part a \<Longrightarrow> approved_as a d u (decided_as now ApApproved u r c (da_edited_calls d) md a')"
  by (auto simp: approved_as_def decided_as_def paused_part_def resolve_final_payload_def split: option.split)

lemma map_row_approved_as: "approved_as a d u (map_row n w b) = approved_as a d u b"
proof -
  have "aa_decided_by (map_row n w b) = aa_decided_by b" "aa_session_id (map_row n w b) = aa_session_id b"
    by (simp_all add: map_row_def apply_client_audit_retention_policy_def Let_def
        redact_terminal_client_audit_fields_def redact_client_audit_fields_def)
  moreover have "resolve_final_payload (map_row n w b) = resolve_final_payload b"
    by (simp add: resolve_final_payload_def split: option.split)
  ultimately show ?thesis by (simp add: approved_as_def)
qed

lemma decide_with_stages_Inr:
  assumes "exec_prog (decide_with_stages cfg i u b verdict ApApproved d) w = (v, Inr x)"
  shows "\<exists>a row. approval_row w i = Some a \<and> aa_status a = ApPending \<and> approval_row v i = Some row \<and>
    approved_as a d u x \<and> approved_as a d u row \<and> hw_events v = hw_events w \<and>
    xw_calls (hw_tools v) = xw_calls (hw_tools w) \<and> aa_decided_at row = Some (hw_now w) \<and> hw_now v = hw_now w"
proof -
  obtain w1 where w1: "preparing w w1" and x: "write_decision cfg i u b ApApproved d w1 = (v, Inr x)"
  proof (cases "has_outstanding_stages b")
    case False
    with assms that [of w] show ?thesis by (simp add: decide_with_stages_def prepare.refl)
  next
    case True
    obtain w2 r2 where c: "exec_prog (check_stage_permission cfg u (current_stage b)) w = (w2, r2)" by fastforce
    obtain w3 r3 where s: "append_stage_decision (hc_retention_days cfg) i (aa_owner_id b) (current_stage b) verdict u
        (da_reason d) (da_comments d) w2 = (w3, r3)" by fastforce
    obtain w4 r4 where t: "write_decision cfg i u b ApApproved d w3 = (w4, r4)" by fastforce
    from assms True c s t have "r4 = Inr x" "w4 = v"
      by (auto simp: decide_with_stages_def cas_decide_with_stage_append_def Let_def exec_bindE catch_def exec_bindP
          doP_def split: sum.splits if_splits)
    moreover have "preparing w w2" using preparing_check_stage c by (rule keepsD)
    moreover have "preparing w2 w3" using preparing_append_stage s by (metis fst_conv)
    ultimately show ?thesis using that t prepare.trans by blast
  qed
  from write_decision_Inr [OF x] obtain a1 where a1: "approval_row w1 i = Some a1" "aa_status a1 = ApPending"
    "x = map_row (hc_retention_days cfg) w1 (decided_as (hw_now w1) ApApproved u (da_reason d) (da_comments d)
       (da_edited_calls d) (da_metadata d) a1)"
    "approval_row v i = Some (decided_as (hw_now w1) ApApproved u (da_reason d) (da_comments d)
       (da_edited_calls d) (da_metadata d) a1)"
    "hw_events v = hw_events w1" "hw_tools v = hw_tools w1" "hw_now v = hw_now w1" by blast
  with w1 obtain a where "approval_row w i = Some a" "paused_part a1 = paused_part a" "aa_status a = ApPending"
    unfolding preparing_def by blast
  with a1 w1 show ?thesis
    by (auto simp: map_row_approved_as decided_approved_as preparing_def) (simp add: decided_as_def)
qed

lemma append_inline_revision_exec:
  assumes "exec_prog (append_inline_revision i u d) w = (v, r)"
  shows "approval_row v k = approval_row w k" and "hw_events v = hw_events w" and "hw_tools v = hw_tools w"
    and "hw_now v = hw_now w"
  using assms
  by (auto simp: append_inline_revision_def exec_bindE append_agent_revision_def Let_def approval_row_def
      split: option.splits)

lemma record_approved_Inr:
  assumes "exec_prog (record_approved cfg i u d) w = (v, Inr x)"
  shows "\<exists>a row. approval_row w i = Some a \<and> aa_status a = ApPending \<and> approval_row v i = Some row \<and>
    approved_as a d u x \<and> approved_as a d u row \<and> hw_events v = hw_events w \<and>
    xw_calls (hw_tools v) = xw_calls (hw_tools w) \<and> aa_decided_at row = Some (hw_now w) \<and> hw_now v = hw_now w"
proof -
  obtain w1 r1 where r: "exec_prog (resolve_approval_for_decider cfg i u) w = (w1, r1)" by fastforce
  with assms obtain b where b: "r1 = Inr b" by (cases r1) (simp_all add: record_approved_def exec_bindE)
  obtain w2 r2 where s: "exec_prog (decide_with_stages cfg i u b StageApproved ApApproved d) w1 = (w2, r2)" by fastforce
  with assms r b have "r2 = Inr x \<and> (\<exists>r3. exec_prog (append_inline_revision i u d) w2 = (v, r3))"
    by (auto simp: record_approved_def exec_bindE split: sum.splits prod.splits)
  then obtain r3 where r2: "r2 = Inr x" and e: "exec_prog (append_inline_revision i u d) w2 = (v, r3)" by blast
  have w1: "preparing w w1" using preparing_resolve r by (rule keepsD)
  from decide_with_stages_Inr s r2 obtain a1 row where a1: "approval_row w1 i = Some a1" "aa_status a1 = ApPending"
    "approval_row w2 i = Some row" "approved_as a1 d u x" "approved_as a1 d u row" "hw_events w2 = hw_events w1"
    "xw_calls (hw_tools w2) = xw_calls (hw_tools w1)" "aa_decided_at row = Some (hw_now w1)" "hw_now w2 = hw_now w1" by blast
  from w1 a1(1,2) obtain a where a: "approval_row w i = Some a" "paused_part a1 = paused_part a" "aa_status a = ApPending"
    unfolding preparing_def by blast
  from a(2) have "resolve_final_payload a1 = resolve_final_payload a"
    by (simp add: paused_part_def resolve_final_payload_def split: option.split)
  with a(2) have "approved_as a d u y = approved_as a1 d u y" for y
    by (simp add: approved_as_def paused_part_def cong: option.case_cong)
  with a a1 w1 append_inline_revision_exec [OF e] show ?thesis by (auto simp: preparing_def)
qed

subsection \<open>Approved calls run once each, in order\<close>

definition tool_events :: "string \<Rightarrow> tool_run_record list \<Rightarrow> hitl_event list" where
  "tool_events e records = concat (map (\<lambda>r. [EvToolStart e (tl_name (tn_call r)) (tn_step_id r),
     EvToolEnd e (tl_name (tn_call r)) (tn_step_id r) (tr_success (tn_result r))]) records)"

lemma execute_tool_calls:
  "\<exists>ran. xw_calls (fst (exec_prog (execute_tool cfg call ctx) w)) = xw_calls w @ ran \<and>
     (ran = [] \<or> (\<exists>arguments. ran = [(tl_name call, arguments)]))"
proof -
  have authorizer: "xw_calls (fst (exec_prog (authorizer cfg tool ctx) w)) = xw_calls w" for tool
    by (simp add: authorizer_def rbac_authorize_def lift_error_def exec_bindP exec_bindE rbac_part.exec_zoom
        split_beta Let_def split: option.split sum.split)
  have handler: "xw_calls (fst (exec_prog (run_handler h call args) v)) = xw_calls v @ [(tl_name call, args)]" for h args v
    using run_handler_exec [of h call args v] by auto
  show ?thesis
    by (simp add: execute_tool_def exec_finalize_calls exec_bindE Let_def split_beta throttle_calls authorizer handler
        split: option.split sum.split)
qed

lemma run_approved_calls_Inr:
  assumes "exec_prog (run_approved_calls cfg e ctx calls) w = (v, Inr records)"
  shows "map tn_call records = map call_of calls \<and> map tn_step_id records = map pc_call_id calls \<and>
    hw_events v = hw_events w @ tool_events e records \<and> hitl_db v = hitl_db w \<and> hw_scratchpads v = hw_scratchpads w \<and>
    hw_now v = hw_now w \<and>
    (\<exists>ran. subseq ran (map pc_name calls) \<and> map fst (xw_calls (hw_tools v)) = map fst (xw_calls (hw_tools w)) @ ran)"
  using assms
proof (induction calls arbitrary: w v records)
  case Nil
  then show ?case by (simp add: tool_events_def)
next
  case (Cons c calls)
  let ?w1 = "w\<lparr>hw_events := hw_events w @ [EvToolStart e (pc_name c) (pc_call_id c)]\<rparr>"
  obtain w2 r2 where t: "exec_prog (run_tools (execute_tool (hc_tools cfg) (call_of c) ctx)) ?w1 = (w2, r2)" by fastforce
  obtain tools where w2: "w2 = put_tools tools ?w1" using tools_only_exec [OF tools_only_run_tools t] by blast
  obtain ran1 where ran1: "xw_calls (hw_tools w2) = xw_calls (hw_tools w) @ ran1"
    "ran1 = [] \<or> (\<exists>arguments. ran1 = [(pc_name c, arguments)])"
    using execute_tool_calls [of "hc_tools cfg" "call_of c" ctx "hw_tools w"] t
    by (auto simp: run_tools_def lift_error_def exec_bindP tools_part.exec_zoom call_of_def put_tools_def
        split: prod.splits sum.splits)
  from Cons.prems t obtain r where r: "r2 = Inr r"
    by (cases r2) (simp_all add: exec_bindE publish_def doP_def)
  let ?w3 = "w2\<lparr>hw_events := hw_events w2 @ [EvToolEnd e (pc_name c) (pc_call_id c) (tr_success r)]\<rparr>"
  obtain w4 r4 where q: "exec_prog (run_approved_calls cfg e ctx calls) ?w3 = (w4, r4)" by fastforce
  from Cons.prems t r q obtain rest where rest: "r4 = Inr rest" "w4 = v"
    "records = \<lparr>tn_step_id = pc_call_id c, tn_call = call_of c, tn_result = r\<rparr> # rest"
    by (cases r4) (simp_all add: exec_bindE publish_def doP_def)
  from Cons.IH [OF q [unfolded rest(1,2)]] obtain ran where ih: "map tn_call rest = map call_of calls"
    "map tn_step_id rest = map pc_call_id calls" "hw_events v = hw_events ?w3 @ tool_events e rest" "hitl_db v = hitl_db ?w3"
    "hw_scratchpads v = hw_scratchpads ?w3" "hw_now v = hw_now ?w3" "subseq ran (map pc_name calls)"
    "map fst (xw_calls (hw_tools v)) = map fst (xw_calls (hw_tools ?w3)) @ ran" by blast
  have "subseq (map fst ran1 @ ran) (map pc_name (c # calls))" using ran1(2) ih(7) by auto
  with ih(8) ran1(1) have "\<exists>ran. subseq ran (map pc_name (c # calls)) \<and>
      map fst (xw_calls (hw_tools v)) = map fst (xw_calls (hw_tools w)) @ ran" by auto
  with ih(1-6) rest(3) w2 show ?case
    by (simp add: tool_events_def call_of_def put_tools_def hitl_db_def)
qed

text \<open>What the executor is given to continue with, and the state it starts in.\<close>

definition resumption_of ::
    "agent_approval \<Rightarrow> agent_request \<Rightarrow> uuid \<Rightarrow> agent_state \<Rightarrow> tool_run_record list \<Rightarrow> scratch_entry list \<Rightarrow> agent_resumption" where
  "resumption_of decided request caller st records entries =
     \<lparr>an_request = request, an_execution_id = aa_execution_id decided, an_session_id = aa_session_id decided,
      an_caller = caller, an_state = fold (\<lambda>n st. record_tool_used st n) (tools_used records) st,
      an_results = records, an_last_planner_content = extract_last_planner_content entries\<rparr>"

lemma scratch_simps [simp]:
  "hw_events (scratch_reset e es w) = hw_events w" "hw_tools (scratch_reset e es w) = hw_tools w"
  "hitl_db (scratch_reset e es w) = hitl_db w" "hw_now (scratch_reset e es w) = hw_now w"
  "hw_events (scratch_append e es w) = hw_events w" "hw_tools (scratch_append e es w) = hw_tools w"
  "hitl_db (scratch_append e es w) = hitl_db w" "hw_now (scratch_append e es w) = hw_now w"
  by (simp_all add: scratch_reset_def scratch_append_def hitl_db_def)

lemma mark_failed_exec:
  "exec_prog (mark_failed a e) w =
     (fst (exec_prog (update_placeholder_message a [] ''error'' (Some ''error'')) w), Inl e)"
  by (simp add: mark_failed_def exec_bindE update_placeholder_message_def doP_def split: option.split)

lemma resume_after_approval_decision_Inr:
  assumes "exec_prog (resume_after_approval_decision cfg decided request ctx caller) w = (v, Inr response)"
  shows "\<exists>st records entries w1 w2. aa_paused_state decided = Some st \<and>
    map tn_call records = map call_of (resolve_final_payload decided) \<and>
    hw_events w1 = hw_events w @ tool_events (aa_execution_id decided) records \<and> hitl_db w1 = hitl_db w \<and>
    hw_now w1 = hw_now w \<and>
    (\<exists>ran. subseq ran (map pc_name (resolve_final_payload decided)) \<and>
       map fst (xw_calls (hw_tools w1)) = map fst (xw_calls (hw_tools w)) @ ran) \<and>
    exec_prog (hc_resume cfg (resumption_of decided request caller st records entries)) w1 = (w2, Inr response) \<and>
    exec_prog (finish_placeholder decided records response) w2 = (v, Inr ())"
proof -
  let ?e = "aa_execution_id decided"
  let ?w0 = "scratch_reset ?e (aa_paused_scratchpad decided) w"
  obtain st where st: "aa_paused_state decided = Some st"
    using assms by (cases "aa_paused_state decided") (simp_all add: resume_after_approval_decision_def exec_bindE doP_def)
  obtain wr rr where run: "exec_prog (run_approved_calls cfg ?e ctx (resolve_final_payload decided)) ?w0 = (wr, rr)"
    by fastforce
  have exec: "exec_prog (execute_approved_calls cfg ?e ctx (resolve_final_payload decided)) ?w0 =
      (if \<not> hc_has_executor cfg then (?w0, Inl (HitlRuntime ''ToolExecutor is required to execute approved calls.''))
       else case rr of Inl e \<Rightarrow> (wr, Inl e) | Inr records \<Rightarrow> (fst (exec_prog (record_tool_results cfg ?e records) wr), Inr records))"
    by (simp add: execute_approved_calls_def exec_bindE run record_tool_results_def doP_def split: sum.split)
  obtain records where records: "hc_has_executor cfg" "rr = Inr records"
  proof (cases "hc_has_executor cfg \<and> (\<exists>records. rr = Inr records)")
    case False
    then obtain w' e where "exec_prog (execute_approved_calls cfg ?e ctx (resolve_final_payload decided)) ?w0 = (w', Inl e)"
      using False exec by (cases rr; cases "hc_has_executor cfg") fastforce+
    with assms st have False
      by (simp add: resume_after_approval_decision_def Let_def exec_bindE exec_bindP doP_def catch_def mark_failed_exec)
    then show ?thesis ..
  qed (use that in auto)
  define w1 where "w1 = fst (exec_prog (record_tool_results cfg ?e records) wr)"
  define n where "n = resumption_of decided request caller st records (scratch_get ?e w1)"
  obtain w2 r2 where resume: "exec_prog (hc_resume cfg n) w1 = (w2, r2)" by fastforce
  note resume' = resume [unfolded n_def resumption_of_def]
  have exec': "exec_prog (execute_approved_calls cfg ?e ctx (resolve_final_payload decided)) ?w0 = (w1, Inr records)"
    using exec records by (simp add: w1_def)
  have "\<exists>x. r2 = Inr x"
  proof (cases r2)
    case (Inl e)
    with assms st exec' resume' have False
      by (cases e) (simp_all add: resume_after_approval_decision_def Let_def exec_bindE exec_bindP doP_def catch_def
          mark_failed_exec)
    then show ?thesis ..
  qed simp
  then obtain x where x: "r2 = Inr x" ..
  obtain w3 r3 where fin: "exec_prog (finish_placeholder decided records x) w2 = (w3, r3)" by fastforce
  with assms st exec' resume' x have r: "r3 = Inr ()" "w3 = v" "x = response"
    by (simp_all add: resume_after_approval_decision_def Let_def exec_bindE exec_bindP doP_def catch_def split: sum.splits)
  have w1: "hw_events w1 = hw_events wr" "hitl_db w1 = hitl_db wr" "hw_tools w1 = hw_tools wr" "hw_now w1 = hw_now wr"
    by (simp_all add: w1_def record_tool_results_def doP_def)
  have resumed: "exec_prog (hc_resume cfg (resumption_of decided request caller st records (scratch_get ?e w1))) w1 =
      (w2, Inr response)"
    using resume x r by (simp add: n_def)
  have finished: "exec_prog (finish_placeholder decided records response) w2 = (v, Inr ())"
    using fin r by simp
  from run_approved_calls_Inr [OF run [unfolded records(2)]] w1
  have "map tn_call records = map call_of (resolve_final_payload decided)"
    "hw_events w1 = hw_events w @ tool_events ?e records" "hitl_db w1 = hitl_db w" "hw_now w1 = hw_now w"
    "\<exists>ran. subseq ran (map pc_name (resolve_final_payload decided)) \<and>
       map fst (xw_calls (hw_tools w1)) = map fst (xw_calls (hw_tools w)) @ ran"
    by auto
  with st resumed finished show ?thesis by blast
qed

lemma approve_and_resume_Inr:
  assumes "exec_prog (approve_and_resume cfg i u request d) w = (v, Inr (result, response))"
  shows "\<exists>decided w1. exec_prog (record_approved cfg i u d) w = (w1, Inr decided) \<and>
    result = build_approval_result decided (hw_now w1) \<and>
    exec_prog (resume_after_approval_decision cfg decided request (user_context u) u) w1 = (v, Inr response)"
  using assms by (auto simp: approve_and_resume_def exec_bindE result_now_def exec_bindP split: prod.splits sum.splits)

lemma finish_placeholder_rows:
  "exec_prog (finish_placeholder a records response) w = (v, r) \<Longrightarrow> approval_row v i = approval_row w i"
  by (auto simp: finish_placeholder_def update_placeholder_message_def exec_bindE doP_def update_message_def
      mark_last_message_at_def approval_row_def split: option.splits if_splits)

text \<open>The decision of an approval that was granted stays on the row together with the snapshot of its agent.\<close>

lemma approve_and_resume_row:
  assumes "exec_prog (approve_and_resume cfg i u request d) w = (v, Inr (result, response))"
    and "\<And>n s. approval_row (fst (exec_prog (hc_resume cfg n) s)) i = approval_row s i"
  shows "\<exists>row. approval_row v i = Some row \<and> aa_status row = ApApproved \<and> aa_decided_at row = Some (hw_now w) \<and>
    has_pause_snapshot row \<and> resolve_final_payload row = rs_final_payload result"
proof -
  from approve_and_resume_Inr [OF assms(1)] obtain b w1 where
    b: "exec_prog (record_approved cfg i u d) w = (w1, Inr b)" "result = build_approval_result b (hw_now w1)"
      "exec_prog (resume_after_approval_decision cfg b request (user_context u) u) w1 = (v, Inr response)" by blast
  from record_approved_Inr [OF b(1)] obtain a row where row: "approval_row w1 i = Some row" "approved_as a d u b"
    "approved_as a d u row" "aa_decided_at row = Some (hw_now w)" by blast
  from resume_after_approval_decision_Inr [OF b(3)] obtain st n w2 w3 records where
    x: "aa_paused_state b = Some st" "hitl_db w2 = hitl_db w1" "exec_prog (hc_resume cfg n) w2 = (w3, Inr response)"
      "exec_prog (finish_placeholder b records response) w3 = (v, Inr ())" by blast
  have "approval_row v i = approval_row w3 i" using x(4) by (rule finish_placeholder_rows)
  also have "\<dots> = approval_row w2 i" using assms(2) [of n w2] x(3) by simp
  also have "\<dots> = approval_row w1 i" using x(2) by (simp add: hitl_db_def approval_row_def)
  finally have "approval_row v i = Some row" using row(1) by simp
  moreover have "has_pause_snapshot row" 
    using row(2,3) x(1) unfolding approved_as_def has_pause_snapshot_def by (metis option.distinct(1))
  moreover have "resolve_final_payload row = rs_final_payload result"
    using row(2,3) b(2) by (simp add: approved_as_def build_approval_result_def)
  ultimately show ?thesis using row by (simp add: approved_as_def)
qed

subsection \<open>Two decisions on one stage\<close>

text \<open>A request that only reads moves on by one action; one whose next action writes commits.\<close>

lemma pool_reads:
  assumes "j < length ps" and "ps ! j = in_transaction (bindP (opP f) g)" and "fst (f w) = w"
  shows "pool_step (w, ps) (w, ps[j := in_transaction (g (snd (f w)))])"
  using pool_step.intros [of j ps _ _ w] assms by (fastforce simp: opP_def)

lemma pool_commits:
  assumes "j < length ps" and "ps ! j = in_transaction (bindP (opP f) g)" and "hitl_db (fst (f w)) \<noteq> hitl_db w"
    and "exec_prog (g (snd (f w))) (fst (f w)) = (v, Inr x)"
  shows "pool_step (w, ps) (v, ps[j := ok x])"
  using pool_step.intros [of j ps _ _ w] assms by (fastforce simp: opP_def settle_def)

lemma pool_reads_twice:
  assumes "fst (f w) = w" and "reads (snd (f w)) = bindP (opP f) again"
  shows "pool_step\<^sup>*\<^sup>* (w, [in_transaction (bindP (opP f) reads), in_transaction (bindP (opP f) reads)])
    (w, [in_transaction (again (snd (f w))), in_transaction (again (snd (f w)))])"
proof -
  let ?p = "in_transaction (bindP (opP f) reads)" and ?q = "in_transaction (bindP (opP f) again)"
    and ?r = "in_transaction (again (snd (f w)))"
  have "pool_step (w, [?p, ?p]) (w, [?q, ?p])" using pool_reads [of 0 "[?p, ?p]" f reads w] assms by simp
  moreover have "pool_step (w, [?q, ?p]) (w, [?q, ?q])" using pool_reads [of 1 "[?q, ?p]" f reads w] assms by simp
  moreover have "pool_step (w, [?q, ?q]) (w, [?r, ?q])" using pool_reads [of 0 "[?q, ?q]" f again w] assms by simp
  moreover have "pool_step (w, [?r, ?q]) (w, [?r, ?r])" using pool_reads [of 1 "[?r, ?q]" f again w] assms by simp
  ultimately show ?thesis by (meson rtranclp.rtrancl_into_rtrancl rtranclp.rtrancl_refl)
qed

lemma with_stages_id [simp]: "aa_id (with_stages t ds a) = aa_id a"
  by (simp add: with_stages_def)

lemma with_stages_neq: "with_stages t ds a \<noteq> a"
proof
  assume "with_stages t ds a = a"
  then have "aa_version (with_stages t ds a) = aa_version a" by simp
  then show False by (simp add: with_stages_def)
qed

lemma hitl_db_row: "hitl_db w = hitl_db v \<Longrightarrow> approval_row w i = approval_row v i"
  by (simp add: hitl_db_def approval_row_def)

lemma get_for_owner_open:
  assumes "approval_row w i = Some a" and "aa_owner_id a = u" and "aa_expires_at a = None" and "\<not> had_client_audit a"
  shows "get_for_owner d i u w = (w, Some (map_row d w a))"
  using assms by (simp add: get_for_owner_def touch_row_def map_row_persisting_retention_def Let_def)

lemma append_stage_decision_open:
  assumes "approval_row w i = Some a" and "aa_status a = ApPending" and "aa_expires_at a = None"
  shows "\<exists>x. append_stage_decision d i (aa_owner_id a) stage verdict u reason comments w =
    (update_approval i (\<lambda>_. True) (with_stages (hw_now w) (aa_stage_decisions a @
       [\<lparr>sd_stage = stage, sd_decision = verdict, sd_decided_by = u, sd_decided_at = hw_now w, sd_reason = reason,
         sd_comments = comments\<rparr>])) w, Inr x)"
  using assms by (simp add: append_stage_decision_def due_def Let_def)

lemma resolve_reads:
  "\<exists>F. resolve_approval_for_decider cfg i u = bindP (opP (get_for_owner (hc_retention_days cfg) i u)) F \<and>
     (\<forall>a. aa_status a \<noteq> ApExpired \<longrightarrow> F (Some a) = ok a)"
  unfolding resolve_approval_for_decider_def by (intro exI conjI, rule refl) simp

lemma bindE_bindP: "bindE (bindP p f) g = bindP p (\<lambda>x. bindE (f x) g)"
  by (simp add: bindE_def bindP_assoc)

text \<open>How a decision on an intermediate stage goes: two reads of the approval, then the append.\<close>

lemma stage_decision_steps:
  assumes "\<not> hc_rbac_active cfg" and "aa_status b = ApPending" and "1 < remaining_stage_count b"
    and "has_outstanding_stages b" and "\<not> is_final_stage b"
  shows "\<exists>reads again answer reason comments.
    decide_agent_approval cfg i u StageApproved d =
      in_transaction (bindP (opP (get_for_owner (hc_retention_days cfg) i u)) reads) \<and>
    reads (Some b) = bindP (opP (get_for_owner (hc_retention_days cfg) i u)) again \<and>
    again (Some b) = bindP (opP (append_stage_decision (hc_retention_days cfg) i (aa_owner_id b) (current_stage b)
      StageApproved u reason comments)) answer \<and>
    (\<forall>x v. \<exists>y. exec_prog (answer (Inr x)) v = (v, Inr y))"
proof -
  from resolve_reads [of cfg i u] obtain F where
    resolve: "resolve_approval_for_decider cfg i u = bindP (opP (get_for_owner (hc_retention_days cfg) i u)) F" and
    F: "F (Some b) = ok b" using assms(2) by auto
  have "\<exists>K r c. decide_agent_approval cfg i u StageApproved d = in_transaction (bindE (resolve_approval_for_decider cfg i u) K) \<and>
      K b = bindE (record_stage_approval cfg i u r c) (\<lambda>r. ok (Decided r))"
    unfolding decide_agent_approval_def Let_def
    by (intro exI conjI, subst if_not_P, simp, rule refl, simp add: assms)
  then obtain K r c where K: "decide_agent_approval cfg i u StageApproved d =
      in_transaction (bindE (resolve_approval_for_decider cfg i u) K)"
    "K b = bindE (record_stage_approval cfg i u r c) (\<lambda>r. ok (Decided r))" by blast
  have "\<exists>L. record_stage_approval cfg i u r c = bindE (resolve_approval_for_decider cfg i u) L \<and>
      (\<exists>answer. L b = bindE (opP (append_stage_decision (hc_retention_days cfg) i (aa_owner_id b) (current_stage b)
        StageApproved u r c)) answer \<and> (\<forall>x v. \<exists>y. exec_prog (answer x) v = (v, Inr y)))"
    unfolding record_stage_approval_def Let_def
    by (intro exI conjI, rule refl, simp add: assms check_stage_permission_def) (simp add: exec_bindP)
  then obtain L answer where L: "record_stage_approval cfg i u r c = bindE (resolve_approval_for_decider cfg i u) L"
    "L b = bindE (opP (append_stage_decision (hc_retention_days cfg) i (aa_owner_id b) (current_stage b)
        StageApproved u r c)) answer" "\<And>x v. \<exists>y. exec_prog (answer x) v = (v, Inr y)" by blast
  let ?done = "\<lambda>x. bindE (case x of Inl e \<Rightarrow> raise e | Inr a \<Rightarrow> answer a) (\<lambda>r. ok (Decided r))"
  have answered: "bindE (L b) (\<lambda>r. ok (Decided r)) = bindP (opP (append_stage_decision (hc_retention_days cfg) i
      (aa_owner_id b) (current_stage b) StageApproved u r c)) ?done"
    by (simp add: L(2) bindE_def bindP_assoc)
  show ?thesis
  proof (intro exI conjI)
    show "decide_agent_approval cfg i u StageApproved d =
        in_transaction (bindP (opP (get_for_owner (hc_retention_days cfg) i u)) (\<lambda>x. bindE (F x) K))"
      by (simp only: K(1) resolve bindE_bindP)
    show "bindE (F (Some b)) K = bindP (opP (get_for_owner (hc_retention_days cfg) i u))
        (\<lambda>x. bindE (bindE (F x) L) (\<lambda>r. ok (Decided r)))"
      by (simp add: F K(2) L(1) resolve bindE_bindP)
    show "bindE (bindE (F (Some b)) L) (\<lambda>r. ok (Decided r)) = bindP (opP (append_stage_decision
        (hc_retention_days cfg) i (aa_owner_id b) (current_stage b) StageApproved u r c)) ?done"
      by (simp add: F answered)
    show "\<forall>x v. \<exists>y. exec_prog (?done (Inr x)) v = (v, Inr y)"
    proof (intro allI)
      show "\<exists>y. exec_prog (?done (Inr x)) v = (v, Inr y)" for x v
        using L(3) [of x v] by (auto simp: exec_bindE)
    qed
  qed
qed

subsection \<open>Pausing\<close>

lemma pause_Inr:
  assumes "hitl_ok registry w" and "exec_prog (pause cfg q) w = (v, Inr a)"
  shows "as_status (pq_state q) = AgExecuting \<and>
    (\<exists>row m n. approval_row v (aa_id a) = Some row \<and> aa_status row = ApPending \<and>
       aa_owner_id row = pq_owner_id q \<and> aa_session_id row = pq_session_id q \<and>
       aa_execution_id row = pq_execution_id q \<and>
       aa_proposed_calls row = proposed_calls_from_step (pq_step_id q) (pq_tool_calls q) \<and>
       aa_paused_scratchpad row = pq_scratchpad q \<and>
       aa_paused_state row = Some ((pq_state q)\<lparr>as_status := AgWaitingApproval\<rparr>) \<and>
       hw_messages v = hw_messages w @ [m] \<and> cm_seq m = n \<and> cm_status m = ''waiting_approval'' \<and>
       aa_pending_message_id row = Some (cm_id m) \<and> cm_pending_approval_id m = Some (aa_id a) \<and>
       map_option cs_next_seq (table_get cs_id (hw_sessions w) (pq_session_id q)) = Some n \<and>
       map_option cs_next_seq (table_get cs_id (hw_sessions v) (pq_session_id q)) = Some (n + 1) \<and>
       hw_events v = hw_events w @ [EvApprovalRequired (pq_execution_id q) (aa_id a)
         (aa_approval_correlation_id row) (aa_proposed_calls row)])"
proof (cases "transition (pq_state q) AgWaitingApproval None")
  case (Inl e)
  with assms(2) show ?thesis by (simp add: pause_def Let_def exec_bindP draw_uuid_def)
next
  case (Inr st)
  then have st: "as_status (pq_state q) = AgExecuting" "st = (pq_state q)\<lparr>as_status := AgWaitingApproval\<rparr>"
    by (cases "as_status (pq_state q)"; simp add: transition_def terminal_statuses_def)+
  have fresh: "approval_row w i = None" if "hw_next_uuid w \<le> i" for i
    using assms(1) that by (auto simp: hitl_ok_def approval_row_def table_get_None)
  show ?thesis
  proof (cases "table_get cs_id (hw_sessions w) (pq_session_id q)")
    case None
    with assms(2) Inr show ?thesis
      by (simp add: pause_def Let_def exec_bindP exec_bindE draw_uuid_def create_approval_def allocate_seq_def)
  next
    case (Some s)
    have none: "table_get aa_id (hw_approvals w) (hw_next_uuid w + 1) = None"
      using fresh [of "hw_next_uuid w + 1"] by (simp add: approval_row_def)
    show ?thesis
      using assms(2) Inr Some none st(1)
      by (auto simp: pause_def Let_def exec_bindP exec_bindE draw_uuid_def create_approval_def allocate_seq_def
          add_message_def publish_def doP_def mark_last_message_at_def link_pending_message_def update_approval_def
          approval_row_def table_get_append table_get_update new_approval_def st(2))
  qed
qed

end
