(* ===== verification/Hitl_Properties.thy ===== *)
theory Hitl_Properties
  imports Hitl_Correct Security_Properties
begin

section \<open>Properties of approvals\<close>

text \<open>
  The properties of the approval service with the examples on which they are evaluated: one approval of two
  calls that a paused agent wants to make, a registry with one tool, and an executor that answers at once.
\<close>

definition example_hitl :: hitl_config where
  "example_hitl = \<lparr>hc_retention_days = 30, hc_timeout_hours = 0, hc_registry = Some (xc_registry ping_config),
     hc_tools = ping_config, hc_has_executor = True, hc_rbac_active = False, hc_decision_daily_quota = None,
     hc_decision_per_minute = 5, hc_default_model = ''m'', hc_format_result = (\<lambda>_. ''result''),
     hc_resume = (\<lambda>n. ok \<lparr>ap_content = ''sent'', ap_tools_used = [], ap_iterations = 2, ap_finish_reason = Some ''stop'',
       ap_approval_id = None\<rparr>),
     hc_max_reason_length = 10, hc_max_comment_length = 10, hc_grace_seconds = 60, hc_system_prompt = ''s'',
     hc_request_timeout_seconds = 30\<rparr>"

definition agent_at :: "agent_status \<Rightarrow> agent_state" where
  "agent_at status = \<lparr>as_execution_id = ''e'', as_status = status, as_current_iteration = 1,
     as_max_iterations = 3, as_tools_used = [], as_reflection_count = 0, as_retry_count = 0,
     as_parallel_tools_count = 0, as_iteration_limit_reached = False, as_error_message = None, as_metadata = []\<rparr>"

definition proposed_ping :: "string \<Rightarrow> proposed_call" where
  "proposed_ping i = \<lparr>pc_name = ''ping'', pc_arguments = [], pc_call_id = i\<rparr>"

definition example_approval :: "string list \<Rightarrow> agent_approval" where
  "example_approval stages = new_approval 1 0 5 4 ''e'' 7 [proposed_ping ''a'', proposed_ping ''b''] []
     (agent_at AgWaitingApproval) None stages None"

definition example_state :: "agent_approval \<Rightarrow> hitl_world" where
  "example_state a = \<lparr>hw_approvals = [a], hw_revisions = [], hw_messages = [],
     hw_sessions = [\<lparr>cs_id = 5, cs_next_seq = 3, cs_last_message_at = None\<rparr>], hw_now = 100, hw_next_uuid = 10,
     hw_tools = ping_world, hw_scratchpads = [], hw_events = [], hw_llm_calls = 0\<rparr>"

definition plain_decision :: decision_args where
  "plain_decision = \<lparr>da_edited_calls = None, da_reason = None, da_comments = None, da_metadata = None\<rparr>"

lemmas hitl_example_defs = example_hitl_def agent_at_def proposed_ping_def example_approval_def new_approval_def
  example_state_def plain_decision_def

lemma example_resumer: "resumer_ok example_hitl"
  by (simp add: resumer_ok_def example_hitl_def safe_when_Ret)

lemma example_ok:
  "hitl_ok registry (example_state (example_approval stages))"
  "hitl_ok registry (example_state (cancelled_as 50 4 None None (example_approval stages)))"
  by (simp_all add: hitl_ok_def hitl_example_defs approval_ok_def decided_status_def revisions_ok_def cancelled_as_def)

lemma example_row: "approval_row (example_state a) (aa_id a) = Some a"
  by (simp add: approval_row_def example_state_def table_get_def)

subsection \<open>Decided approvals\<close>



subsection \<open>Granted approvals\<close>


definition plain_request :: agent_request where
  "plain_request = \<lparr>aq_messages = [], aq_model = ''m'', aq_provider = None, aq_tool_names = None,
     aq_system_prompt = None, aq_config = None\<rparr>"

lemma example_granted:
  "\<exists>v result response. exec_prog (approve_and_resume example_hitl 1 4 plain_request plain_decision)
       (example_state (example_approval [])) = (v, Inr (result, response)) \<and>
     map pc_call_id (rs_final_payload result) = [''a'', ''b'']"
proof -
  let ?r = "exec_prog (approve_and_resume example_hitl 1 4 plain_request plain_decision) (example_state (example_approval []))"
  have "case snd ?r of Inr (result, response) \<Rightarrow> map pc_call_id (rs_final_payload result) = [''a'', ''b''] | Inl _ \<Rightarrow> False"
    by code_simp
  then show ?thesis by (cases ?r) (auto split: sum.splits)
qed




text \<open>C28: the stage that a decision counts for is the one that was current when the request read the approval,
  and stages are counted, not named, afterwards. Two requests of one person for the first of two or more stages,
  sent at once, are both accepted; they are recorded twice for that stage, and the second stage is skipped.\<close>

theorem concurrent_stage_approvals_skip_a_stage:
  assumes "approval_row w i = Some a" and "aa_status a = ApPending" and "aa_owner_id a = u"
    and "aa_expires_at a = None" and "\<not> had_client_audit a" and "remaining_stages a = s # s' # rest"
    and "\<not> hc_rbac_active cfg"
  shows "\<exists>v ps b. pool_step\<^sup>*\<^sup>* (w, [decide_agent_approval cfg i u StageApproved d, decide_agent_approval cfg i u StageApproved d]) (v, ps) \<and>
    (\<forall>p\<in>set ps. \<exists>x. p = ok x) \<and> approval_row v i = Some b \<and>
    map sd_stage (aa_stage_decisions b) = map sd_stage (aa_stage_decisions a) @ [s, s] \<and> remaining_stages b = rest"
proof -
  let ?R = "hc_retention_days cfg"
  let ?b = "map_row ?R w a"
  have len: "length (aa_required_stages a) = length (aa_stage_decisions a) + 2 + length rest"
    using length_drop [of "length (aa_stage_decisions a)" "aa_required_stages a"] assms(6)
    unfolding remaining_stages_def by simp
  have b: "aa_status ?b = ApPending" "aa_owner_id ?b = u" "has_outstanding_stages ?b" "\<not> is_final_stage ?b"
    "current_stage ?b = s" "1 < remaining_stage_count ?b"
    using assms(2,3,6) len
    by (simp_all add: has_outstanding_stages_def is_final_stage_def current_stage_def remaining_stages_def
        remaining_stage_count_def)
  from stage_decision_steps [OF assms(7) b(1,6,3,4)] obtain reads again answer r c where
    p: "decide_agent_approval cfg i u StageApproved d = in_transaction (bindP (opP (get_for_owner ?R i u)) reads)"
      "reads (Some ?b) = bindP (opP (get_for_owner ?R i u)) again"
      "again (Some ?b) = bindP (opP (append_stage_decision ?R i u s StageApproved u r c)) answer"
      "\<And>x v. \<exists>y. exec_prog (answer (Inr x)) v = (v, Inr y)" unfolding b(2,5) by metis
  let ?entry = "\<lparr>sd_stage = s, sd_decision = StageApproved, sd_decided_by = u, sd_decided_at = hw_now w, sd_reason = r, sd_comments = c\<rparr>"
  let ?once = "with_stages (hw_now w) (aa_stage_decisions a @ [?entry]) a"
  let ?twice = "with_stages (hw_now w) (aa_stage_decisions a @ [?entry, ?entry]) ?once"
  let ?w1 = "update_approval i (\<lambda>_. True) (with_stages (hw_now w) (aa_stage_decisions a @ [?entry])) w"
  let ?w2 = "update_approval i (\<lambda>_. True) (with_stages (hw_now w) (aa_stage_decisions a @ [?entry, ?entry])) ?w1"
  have get: "get_for_owner ?R i u w = (w, Some ?b)" by (rule get_for_owner_open [OF assms(1,3-5)])
  have row1: "approval_row ?w1 i = Some ?once" "hw_now ?w1 = hw_now w"
    using assms(1) by (simp_all add: approval_row_update) (simp add: update_approval_def)
  have once: "aa_status ?once = ApPending" "aa_expires_at ?once = None" "aa_owner_id ?once = u"
    "aa_stage_decisions ?once = aa_stage_decisions a @ [?entry]"
    using assms(2-4) by (simp_all add: with_stages_def)
  have row2: "approval_row ?w2 i = Some ?twice"
    by (simp add: approval_row_update row1(1))
  obtain x1 where a1: "append_stage_decision ?R i u s StageApproved u r c w = (?w1, Inr x1)"
    using append_stage_decision_open [OF assms(1,2,4)] assms(3) by blast
  obtain x2 where a2: "append_stage_decision ?R i u s StageApproved u r c ?w1 = (?w2, Inr x2)"
    using append_stage_decision_open [OF row1(1) once(1,2), of ?R s StageApproved u r c]
    unfolding once(3,4) row1(2) append_assoc append.simps by blast
  obtain y1 where y1: "exec_prog (answer (Inr x1)) ?w1 = (?w1, Inr y1)" using p(4) by blast
  obtain y2 where y2: "exec_prog (answer (Inr x2)) ?w2 = (?w2, Inr y2)" using p(4) by blast
  let ?p = "in_transaction (bindP (opP (get_for_owner ?R i u)) reads)"
    and ?r = "in_transaction (bindP (opP (append_stage_decision ?R i u s StageApproved u r c)) answer)"
  have differs: "hitl_db ?w1 \<noteq> hitl_db w" "hitl_db ?w2 \<noteq> hitl_db ?w1"
    using hitl_db_row [of ?w1 w i] hitl_db_row [of ?w2 ?w1 i] assms(1) row1(1) row2 with_stages_neq
    by (metis option.inject)+
  have "pool_step\<^sup>*\<^sup>* (w, [?p, ?p]) (w, [?r, ?r])"
    using pool_reads_twice [of "get_for_owner ?R i u" w reads again] by (simp add: get p(2,3))
  moreover have "pool_step (w, [?r, ?r]) (?w1, [ok y1, ?r])"
    using pool_commits [of 0 "[?r, ?r]" "append_stage_decision ?R i u s StageApproved u r c" answer w ?w1 y1] differs(1)
    by (simp add: a1 y1)
  moreover have "pool_step (?w1, [ok y1, ?r]) (?w2, [ok y1, ok y2])"
    using pool_commits [of 1 "[ok y1, ?r]" "append_stage_decision ?R i u s StageApproved u r c" answer ?w1 ?w2 y2] differs(2)
    by (simp add: a2 y2)
  ultimately have run: "pool_step\<^sup>*\<^sup>* (w, [?p, ?p]) (?w2, [ok y1, ok y2])" by (meson rtranclp.rtrancl_into_rtrancl)
  have "remaining_stages ?twice = rest"
    using assms(6) by (simp add: remaining_stages_def with_stages_def) (simp add: drop_Suc flip: drop_drop tl_drop)
  then show ?thesis
    unfolding p(1) by (intro exI [of _ ?w2] exI [of _ "[ok y1, ok y2]"] exI [of _ ?twice]) (use run row2 in \<open>simp add: with_stages_def\<close>)
qed

theorem concurrent_stage_approvals_skip_a_stage_witness:
  "\<exists>v ps b. pool_step\<^sup>*\<^sup>* (example_state (example_approval [''legal'', ''finance'']),
      [decide_agent_approval example_hitl 1 4 StageApproved plain_decision,
       decide_agent_approval example_hitl 1 4 StageApproved plain_decision]) (v, ps) \<and>
    approval_row v 1 = Some b \<and> map sd_stage (aa_stage_decisions b) = [''legal'', ''legal''] \<and> remaining_stages b = []"
proof -
  let ?a = "example_approval [''legal'', ''finance'']"
  have row: "approval_row (example_state ?a) 1 = Some ?a" "aa_status ?a = ApPending" "aa_owner_id ?a = 4"
    "aa_expires_at ?a = None" "\<not> had_client_audit ?a" "remaining_stages ?a = [''legal'', ''finance'']"
    using example_row [of ?a] by (simp_all add: example_approval_def new_approval_def had_client_audit_def remaining_stages_def)
  have "\<not> hc_rbac_active example_hitl" by (simp add: example_hitl_def)
  moreover have "aa_stage_decisions ?a = []" by (simp add: example_approval_def new_approval_def)
  ultimately show ?thesis
    using concurrent_stage_approvals_skip_a_stage [OF row, of example_hitl plain_decision] by fastforce
qed


end
