(* ===== verification/Agent_Model.thy ===== *)
theory Agent_Model
  imports Hitl_Service
begin

section \<open>The agent runtime: plans, policies and parsers\<close>

text \<open>
  The parts of \<open>ai/agent\<close> that compute without talking to anybody: plans and the plans the parser builds
  (\<open>models/plan.py\<close>, \<open>planner/parser.py\<close>), dependency batches (\<open>executor/dependency_resolver.py\<close>), the policy of
  a step (\<open>executor/tool_runner.py\<close>), messages of a scratchpad, aggregated results, the rules and the
  parser of reflection (\<open>reflection\<close>), and which failures are retried (\<open>retry/classifier.py\<close>). Messages to a model
  are dictionaries. The programs that use them are in \<open>Agent_Runtime\<close>.
\<close>

subsection \<open>Plans\<close>

datatype step_action = ToolCallStep | LlmStep | FinalizeStep

record planned_step =
  ps_step_id :: string
  ps_action :: step_action
  ps_tool_calls :: "tool_call list"
  ps_depends_on :: "string list"
  ps_reasoning :: "string option"

record execution_plan =
  pl_steps :: "planned_step list"
  pl_iteration :: nat
  pl_is_final :: bool

record provider_tool_call =
  pt_id :: string
  pt_name :: string
  pt_arguments :: "pyval dict"
  pt_thought_signature :: "string option"

record tool_completion =
  tk_content :: "string option"
  tk_tool_calls :: "provider_tool_call list"

definition finalize_step :: "string \<Rightarrow> string option \<Rightarrow> planned_step" where
  "finalize_step step_id reasoning = \<lparr>ps_step_id = step_id, ps_action = FinalizeStep, ps_tool_calls = [],
     ps_depends_on = [], ps_reasoning = reasoning\<rparr>"

definition final_plan :: "string \<Rightarrow> string option \<Rightarrow> nat \<Rightarrow> execution_plan" where
  "final_plan step_id reasoning iteration =
     \<lparr>pl_steps = [finalize_step step_id reasoning], pl_iteration = iteration, pl_is_final = True\<rparr>"

definition build_iteration_limit_plan :: "nat \<Rightarrow> execution_plan" where
  "build_iteration_limit_plan iteration =
     final_plan (''finalize-limit-'' @ py_str_nat iteration) (Some ''Iteration limit reached.'') iteration"

definition build_no_tools_finalize_plan :: "nat \<Rightarrow> execution_plan" where
  "build_no_tools_finalize_plan iteration =
     final_plan (''finalize-'' @ py_str_nat iteration) (Some ''No tools available; proceeding to final answer.'') iteration"

definition provider_tool_call_to_tool_call :: "provider_tool_call \<Rightarrow> tool_call" where
  "provider_tool_call_to_tool_call call = \<lparr>tl_name = pt_name call, tl_arguments = pt_arguments call,
     tl_call_id = Some (pt_id call), tl_thought_signature = pt_thought_signature call\<rparr>"

text \<open>\<open>suffix\<close> is the random part of the step id.\<close>

definition parse_tool_completion :: "string \<Rightarrow> tool_completion \<Rightarrow> nat \<Rightarrow> execution_plan" where
  "parse_tool_completion suffix completion iteration =
     (if tk_tool_calls completion \<noteq> []
      then \<lparr>pl_steps = [\<lparr>ps_step_id = ''tool-'' @ py_str_nat iteration @ ''-'' @ suffix, ps_action = ToolCallStep,
               ps_tool_calls = map provider_tool_call_to_tool_call (tk_tool_calls completion),
               ps_depends_on = [], ps_reasoning = tk_content completion\<rparr>],
            pl_iteration = iteration, pl_is_final = False\<rparr>
      else final_plan (''finalize-'' @ py_str_nat iteration) (tk_content completion) iteration)"

subsection \<open>Dependency batches\<close>

definition step_deps :: "planned_step list \<Rightarrow> string list dict" where
  "step_deps tool_steps = map (\<lambda>s. (ps_step_id s, remdups (ps_depends_on s))) tool_steps"

definition dependents :: "planned_step list \<Rightarrow> string \<Rightarrow> string list" where
  "dependents tool_steps step_id = map ps_step_id (filter (\<lambda>s. step_id \<in> set (ps_depends_on s)) tool_steps)"

definition pending_of :: "string list dict \<Rightarrow> string \<Rightarrow> string list" where
  "pending_of pending i = (case dict_get pending i of None \<Rightarrow> [] | Some ds \<Rightarrow> ds)"

definition discard_dependency ::
    "string \<Rightarrow> string \<Rightarrow> string list dict \<times> string list \<Rightarrow> string list dict \<times> string list" where
  "discard_dependency step_id dependent_id = (\<lambda>(pending, ready).
     (let deps = filter (\<lambda>d. d \<noteq> step_id) (pending_of pending dependent_id) in
      (dict_put dependent_id deps pending, if deps = [] then ready @ [dependent_id] else ready)))"

definition finish_level ::
    "planned_step list \<Rightarrow> string list \<Rightarrow> string list dict \<Rightarrow> string list dict \<times> string list" where
  "finish_level tool_steps current_ids pending =
     fold (\<lambda>step_id. fold (discard_dependency step_id) (sort (dependents tool_steps step_id))) current_ids (pending, [])"

text \<open>The loop of Kahn's algorithm; every level has a step of its own, so as many rounds as steps are enough.\<close>

primrec step_levels :: "nat \<Rightarrow> planned_step list \<Rightarrow> string list \<Rightarrow> string list dict \<Rightarrow> string list list" where
  "step_levels 0 tool_steps ready pending = []"
| "step_levels (Suc n) tool_steps ready pending =
     (if ready = [] then []
      else (let (pending', ready') = finish_level tool_steps ready pending in
            ready # step_levels n tool_steps ready' pending'))"

definition step_by_id :: "planned_step list \<Rightarrow> planned_step dict" where
  "step_by_id tool_steps = fold (\<lambda>s d. dict_put (ps_step_id s) s d) tool_steps []"

definition unknown_dependency :: "planned_step list \<Rightarrow> (string \<times> string) option" where
  "unknown_dependency tool_steps =
     find (\<lambda>(i, d). dict_get (step_by_id tool_steps) d = None)
       (concat (map (\<lambda>s. map (Pair (ps_step_id s)) (ps_depends_on s)) tool_steps))"

definition resolve_step_batches :: "planned_step list \<Rightarrow> agent_error + planned_step list list" where
  "resolve_step_batches steps =
     (let tool_steps = filter (\<lambda>s. ps_action s = ToolCallStep) steps in
      if tool_steps = [] then Inr []
      else if length (step_by_id tool_steps) \<noteq> length tool_steps
        then Inl (AgentOther ''Planned tool steps must have unique step_id values'')
      else (case unknown_dependency tool_steps of
              Some (i, d) \<Rightarrow> Inl (AgentOther (''Planned step '' @ quoted i @ '' depends on unknown step '' @ quoted d))
            | None \<Rightarrow>
                (let pending = step_deps tool_steps;
                     ready = sort (map fst (filter (\<lambda>(i, ds). ds = []) pending));
                     levels = step_levels (length tool_steps) tool_steps ready pending;
                     batches = map (map (\<lambda>i. the (dict_get (step_by_id tool_steps) i))) levels in
                 if length (concat batches) \<noteq> length tool_steps
                 then Inl (AgentOther ''Circular dependency detected among planned tool steps'')
                 else Inr batches)))"

subsection \<open>The policy of a step\<close>

record step_policy_outcome =
  so_tool_name :: string
  so_outcome :: rule_outcome
  so_matched_rule :: "string option"
  so_required_stages :: "string list"

text \<open>\<open>decide\<close> is \<open>ApprovalPolicy.evaluate\<close> with the caller's role and the trusted fields of the context.\<close>

fun evaluate_step_policy ::
    "tool_registry \<Rightarrow> (tool_definition \<Rightarrow> pyval dict \<Rightarrow> policy_decision) \<Rightarrow> step_policy_outcome option \<Rightarrow>
     tool_call list \<Rightarrow> step_policy_outcome option" where
  "evaluate_step_policy registry decide_call pending [] = pending"
| "evaluate_step_policy registry decide_call pending (call # calls) =
     (case registry_get registry (tl_name call) of
        None \<Rightarrow> evaluate_step_policy registry decide_call pending calls
      | Some tool \<Rightarrow>
          (let decision = decide_call tool (tl_arguments call) in
           if pd_outcome decision = AutoApprove then evaluate_step_policy registry decide_call pending calls
           else (let found = \<lparr>so_tool_name = td_name tool, so_outcome = pd_outcome decision,
                       so_matched_rule = pd_matched_rule decision, so_required_stages = pd_required_stages decision\<rparr> in
                 if so_outcome found = RejectCall then Some found
                 else evaluate_step_policy registry decide_call
                        (case pending of Some p \<Rightarrow> Some p | None \<Rightarrow> Some found) calls)))"

subsection \<open>Messages\<close>

definition to_message :: "scratch_entry \<Rightarrow> string + pyval dict" where
  "to_message e =
     (case se_provider_message e of
        Some m \<Rightarrow> Inr m
      | None \<Rightarrow>
          (case se_kind e of
             EntryTool \<Rightarrow> (case se_tool_call_id e of
                 None \<Rightarrow> Inl ''tool scratchpad entries require tool_call_id''
               | Some i \<Rightarrow> Inr [(''role'', PStr ''tool''), (''tool_call_id'', PStr i), (''content'', PStr (se_content e))])
           | EntryThought \<Rightarrow> Inr [(''role'', PStr ''assistant''), (''content'', PStr (''Thought: '' @ se_content e))]
           | EntryObservation \<Rightarrow> Inr [(''role'', PStr ''assistant''), (''content'', PStr (''Observation: '' @ se_content e))]
           | EntrySystem \<Rightarrow> Inr [(''role'', PStr ''system''), (''content'', PStr (se_content e))]
           | EntryUser \<Rightarrow> Inr [(''role'', PStr ''user''), (''content'', PStr (se_content e))]
           | EntryAssistant \<Rightarrow> Inr [(''role'', PStr ''assistant''), (''content'', PStr (se_content e))]))"

definition to_message_context :: "scratch_entry list \<Rightarrow> string + pyval dict list" where
  "to_message_context entries = mapR to_message entries"

definition agent_message_to_input :: "string \<times> string \<Rightarrow> pyval dict" where
  "agent_message_to_input = (\<lambda>(role, content). [(''role'', PStr role), (''content'', PStr content)])"

definition message_entry :: "string \<times> string \<Rightarrow> scratch_entry" where
  "message_entry = (\<lambda>(role, content).
     \<lparr>se_kind = (if role = ''system'' then EntrySystem else if role = ''user'' then EntryUser else EntryAssistant),
      se_content = content, se_tool_call_id = None, se_metadata = [], se_provider_message = None\<rparr>)"

definition thought_entry :: "string \<Rightarrow> scratch_entry" where
  "thought_entry content = \<lparr>se_kind = EntryThought, se_content = content, se_tool_call_id = None, se_metadata = [],
     se_provider_message = None\<rparr>"

definition assistant_tool_call_message ::
    "(pyval dict \<Rightarrow> string) \<Rightarrow> string option \<Rightarrow> tool_call list \<Rightarrow> pyval dict" where
  "assistant_tool_call_message dumps content tool_calls =
     [(''role'', PStr ''assistant''), (''content'', opt_str content),
      (''tool_calls'', PList (map (\<lambda>call. PDict
         ([(''id'', PStr (case tl_call_id call of Some c \<Rightarrow> if c = [] then tl_name call else c | None \<Rightarrow> tl_name call)),
           (''type'', PStr ''function''),
           (''function'', PDict [(''name'', PStr (tl_name call)), (''arguments'', PStr (dumps (tl_arguments call)))])]
          @ (case tl_thought_signature call of None \<Rightarrow> [] | Some sig \<Rightarrow> [(''thought_signature'', PStr sig)]))) tool_calls))]"

definition provider_entry :: "pyval dict \<Rightarrow> scratch_entry" where
  "provider_entry message = \<lparr>se_kind = EntryAssistant,
     se_content = (case dict_get message ''content'' of Some (PStr s) \<Rightarrow> if s = [] then ''(tool call)'' else s
                   | _ \<Rightarrow> ''(tool call)''),
     se_tool_call_id = None, se_metadata = [], se_provider_message = Some message\<rparr>"

text \<open>\<open>get_schemas_for_llm\<close> of the registry, and the tools a request may use.\<close>

definition tool_schema :: "tool_definition \<Rightarrow> pyval dict" where
  "tool_schema tool = [(''type'', PStr ''function''), (''function'', PDict [(''name'', PStr (td_name tool)),
     (''description'', PStr (td_description tool)), (''parameters'', PDict (td_parameters tool))])]"

definition offered_tools :: "tool_registry \<Rightarrow> string list option \<Rightarrow> string list option \<Rightarrow> tool_definition list" where
  "offered_tools registry allowed requested =
     filter (\<lambda>t. (case requested of None \<Rightarrow> True | Some ns \<Rightarrow> td_name t \<in> set ns))
       (filter (\<lambda>t. (case allowed of None \<Rightarrow> True | Some ns \<Rightarrow> td_name t \<in> set ns)) (list_tools registry))"

definition join_lines :: "string list \<Rightarrow> string" where
  "join_lines ls = (case ls of [] \<Rightarrow> [] | l # rest \<Rightarrow> l @ concat (map ((#) (CHR 0x0A)) rest))"

definition tool_list_text :: "tool_definition list \<Rightarrow> string" where
  "tool_list_text tools = (if tools = [] then ''- (none)''
     else join_lines (map (\<lambda>t. ''- '' @ td_name t @ '': '' @ td_description t) tools))"

definition with_system_prompt :: "string option \<Rightarrow> string \<Rightarrow> string" where
  "with_system_prompt system_prompt prompt =
     (case system_prompt of None \<Rightarrow> prompt
      | Some s \<Rightarrow> if s = [] then prompt else s @ [CHR 0x0A, CHR 0x0A] @ prompt)"

subsection \<open>Retried failures\<close>

definition retryable_tool_error_codes :: "string list" where
  "retryable_tool_error_codes = [''timeout'', ''rate_limit'', ''service_unavailable'']"

definition is_retryable_tool_result :: "tool_result \<Rightarrow> bool" where
  "is_retryable_tool_result r \<longleftrightarrow> \<not> tr_success r \<and> tr_error_code r \<in> Some ` set retryable_tool_error_codes"

definition is_non_retryable_agent_error :: "failure \<Rightarrow> bool" where
  "is_non_retryable_agent_error exc \<longleftrightarrow> exc \<in> {ValidationFailure, PermissionFailure, LookupFailure, FileNotFoundFailure}"

definition is_retryable_agent_error :: "failure \<Rightarrow> bool" where
  "is_retryable_agent_error exc \<longleftrightarrow> \<not> is_non_retryable_agent_error exc \<and> is_retryable_exception exc"

subsection \<open>Aggregated results and reflection\<close>

definition any_succeeded :: "tool_run_record list \<Rightarrow> bool" where
  "any_succeeded records \<longleftrightarrow> (\<exists>r\<in>set records. tr_success (tn_result r))"

definition all_succeeded :: "tool_run_record list \<Rightarrow> bool" where
  "all_succeeded records \<longleftrightarrow> (\<forall>r\<in>set records. tr_success (tn_result r))"

definition evaluate_rule_based ::
    "tool_run_record list option \<Rightarrow> string option \<Rightarrow> reflection_decision option" where
  "evaluate_rule_based tool_results llm_content =
     (if (case llm_content of None \<Rightarrow> False | Some c \<Rightarrow> is_blank c) then Some RetryStep
      else (case tool_results of
              None \<Rightarrow> None
            | Some records \<Rightarrow>
                if records = [] then None
                else if \<not> any_succeeded records then Some Replan
                else if \<not> all_succeeded records then Some ContinueStep
                else Some Finish))"

fun rule_reason :: "reflection_decision \<Rightarrow> string" where
  "rule_reason RetryStep = ''Planner or LLM step returned empty content.''"
| "rule_reason Replan = ''All tool calls in the latest step failed.''"
| "rule_reason ContinueStep = ''Some tool calls failed; continuing with partial results.''"
| "rule_reason Finish = ''All tool calls in the latest step succeeded.''"

definition is_line_break :: "char \<Rightarrow> bool" where
  "is_line_break c \<longleftrightarrow> c \<in> {CHR 0x0A, CHR 0x0B, CHR 0x0C, CHR 0x0D, CHR 0x1C, CHR 0x1D, CHR 0x1E, CHR 0x85}"

fun split_lines :: "string \<Rightarrow> string \<Rightarrow> string list" where
  "split_lines acc [] = [rev acc]"
| "split_lines acc (c # cs) = (if is_line_break c then rev acc # split_lines [] cs else split_lines (c # acc) cs)"

text \<open>A character that the pattern \<open>\\w\<close> accepts, of the first 256.\<close>

definition is_word_char :: "char \<Rightarrow> bool" where
  "is_word_char c \<longleftrightarrow> (let n = of_char c :: nat in
     48 \<le> n \<and> n \<le> 57 \<or> 65 \<le> n \<and> n \<le> 90 \<or> n = 95 \<or> 97 \<le> n \<and> n \<le> 122 \<or>
     n \<in> {170, 178, 179, 181, 185, 186, 188, 189, 190} \<or> 192 \<le> n \<and> n \<noteq> 215 \<and> n \<noteq> 247)"

definition decision_words :: "(string \<times> reflection_decision) list" where
  "decision_words = [(''replan'', Replan), (''retry_step'', RetryStep), (''continue'', ContinueStep), (''finish'', Finish)]"

definition decision_prefix :: "string \<Rightarrow> reflection_decision option" where
  "decision_prefix s = map_option snd (find (\<lambda>(w, d). py_startswith (py_lower s) w \<and>
     (case drop (length w) s of [] \<Rightarrow> True | c # _ \<Rightarrow> \<not> is_word_char c)) decision_words)"

text \<open>\<open>search\<close> with word boundaries; the first argument tells whether a word character comes before.\<close>

fun find_decision :: "bool \<Rightarrow> string \<Rightarrow> reflection_decision option" where
  "find_decision inside [] = None"
| "find_decision inside (c # cs) =
     (case if inside then None else decision_prefix (c # cs) of
        Some d \<Rightarrow> Some d
      | None \<Rightarrow> find_decision (is_word_char c) cs)"

definition parse_reflection_response :: "string \<Rightarrow> reflection_decision \<times> string" where
  "parse_reflection_response content =
     (if is_blank content then (ContinueStep, ''Empty reflection response.'')
      else (let lines = filter (\<lambda>l. l \<noteq> []) (map py_strip (split_lines [] (py_strip content)));
                first_line = hd lines in
            (case find_decision False first_line of
               None \<Rightarrow> (ContinueStep, first_line)
             | Some d \<Rightarrow> (d, if length lines > 1 then lines ! 1 else first_line))))"

text \<open>\<open>detail\<close> is \<open>str(error or data)\<close>.\<close>

definition format_tool_summary :: "(tool_result \<Rightarrow> string) \<Rightarrow> tool_run_record list option \<Rightarrow> string" where
  "format_tool_summary detail tool_results =
     (case tool_results of
        None \<Rightarrow> ''- (none)''
      | Some records \<Rightarrow> if records = [] then ''- (none)''
          else join_lines (map (\<lambda>r. ''- '' @ tl_name (tn_call r) @ '' ('' @
                 (if tr_success (tn_result r) then ''success'' else ''failure'') @ ''): '' @ detail (tn_result r)) records))"

subsection \<open>Final answers\<close>

definition iteration_limit_message :: string where
  "iteration_limit_message =
     ''I reached the tool-use limit for this request. Please try a simpler question or ask again.''"

definition is_iteration_limit_plan :: "planned_step \<Rightarrow> bool" where
  "is_iteration_limit_plan step \<longleftrightarrow> py_startswith (ps_step_id step) ''finalize-limit-''"

definition is_no_tools_plan :: "planned_step \<Rightarrow> bool" where
  "is_no_tools_plan step \<longleftrightarrow> py_startswith (ps_step_id step) ''finalize-'' \<and>
     \<not> py_startswith (ps_step_id step) ''finalize-limit-'' \<and>
     (case ps_reasoning step of None \<Rightarrow> False | Some r \<Rightarrow> py_substring ''no tools available'' (py_lower r))"

definition resolve_finalize_step :: "execution_plan \<Rightarrow> planned_step" where
  "resolve_finalize_step plan =
     (case find (\<lambda>s. ps_action s = FinalizeStep) (pl_steps plan) of Some s \<Rightarrow> s | None \<Rightarrow> hd (pl_steps plan))"

definition content_tokens :: "string \<Rightarrow> string list" where
  "content_tokens content =
     (if content = [] then []
      else (let words = py_split CHR '' '' content in
            map (\<lambda>(index, word). if index = length words - 1 then word else word @ '' '') (enumerate 0 words)))"

subsection \<open>What the executor does with errors\<close>

fun status_value :: "agent_status \<Rightarrow> string" where
  "status_value AgCreated = ''created''"
| "status_value AgPlanning = ''planning''"
| "status_value AgExecuting = ''executing''"
| "status_value AgReflecting = ''reflecting''"
| "status_value AgWaitingApproval = ''waiting_approval''"
| "status_value AgCompleted = ''completed''"
| "status_value AgFailed = ''failed''"

fun agent_error_message :: "agent_error \<Rightarrow> string" where
  "agent_error_message (InvalidStateTransition current target) =
     ''Invalid agent state transition: '' @ status_value current @ '' -> '' @ status_value target"
| "agent_error_message (AgentIterationLimit n) = ''Agent iteration limit ('' @ py_str_nat n @ '') reached.''"
| "agent_error_message (AgentTimeout n) = ''Agent execution timed out after '' @ py_str_nat n @ '' seconds.''"
| "agent_error_message (AgentOther message) = message"

end
