(* ===== verification/Agent_Batches.thy ===== *)
theory Agent_Batches
  imports Agent_Model "HOL-Library.Multiset"
begin

section \<open>Dependency batches are the levels of the dependency graph\<close>

text \<open>
  Kahn's algorithm of \<open>resolve_step_batches\<close>. With \<open>D\<close> the steps of the levels so far, the ready list is
  the set \<open>level deps ids D\<close> of steps outside \<open>D\<close> whose dependencies lie in \<open>D\<close>, and what is pending of a step are its
  dependencies outside \<open>D\<close>; finishing a level keeps both. At the end no level is left: the steps outside \<open>D\<close>
  each depend on another one, so there are none exactly when the dependencies have no cycle.
\<close>

definition step_depends :: "planned_step list \<Rightarrow> string \<Rightarrow> string set" where
  "step_depends steps i = \<Union> ((\<lambda>s. set (ps_depends_on s)) ` {s \<in> set steps. ps_step_id s = i})"

definition dependency :: "planned_step list \<Rightarrow> (string \<times> string) set" where
  "dependency steps = {(d, i). d \<in> step_depends steps i}"

abbreviation step_ids :: "planned_step list \<Rightarrow> string list" where
  "step_ids steps \<equiv> map ps_step_id steps"

lemma step_depends_unique:
  "distinct (step_ids steps) \<Longrightarrow> s \<in> set steps \<Longrightarrow> step_depends steps (ps_step_id s) = set (ps_depends_on s)"
  unfolding step_depends_def by (auto simp: distinct_map inj_on_def)

lemma step_depends_outside: "i \<notin> set (step_ids steps) \<Longrightarrow> step_depends steps i = {}"
  unfolding step_depends_def by auto

lemma set_dependents: "distinct (step_ids steps) \<Longrightarrow> set (dependents steps i) = {d. i \<in> step_depends steps d}"
  unfolding dependents_def step_depends_def by auto

lemma distinct_dependents: "distinct (step_ids steps) \<Longrightarrow> distinct (dependents steps i)"
  unfolding dependents_def by (rule distinct_map_filter)

subsection \<open>One level\<close>

lemma pending_of_put: "pending_of (dict_put i ds p) j = (if j = i then ds else pending_of p j)"
  by (simp add: pending_of_def)

lemma discard_dependencies:
  assumes "distinct xs" and "fold (discard_dependency s) xs (p, r) = (p', r')"
  shows "pending_of p' i = (if i \<in> set xs then filter (\<lambda>d. d \<noteq> s) (pending_of p i) else pending_of p i) \<and>
    r' = r @ filter (\<lambda>i. filter (\<lambda>d. d \<noteq> s) (pending_of p i) = []) xs"
  using assms
proof (induction xs arbitrary: p r)
  case Nil
  then show ?case by simp
next
  case (Cons x xs)
  let ?ds = "filter (\<lambda>d. d \<noteq> s) (pending_of p x)"
  have first: "discard_dependency s x (p, r) = (dict_put x ?ds p, if ?ds = [] then r @ [x] else r)"
    by (simp add: discard_dependency_def Let_def)
  from Cons.prems have x: "x \<notin> set xs" "distinct xs"
    "fold (discard_dependency s) xs (dict_put x ?ds p, if ?ds = [] then r @ [x] else r) = (p', r')"
    unfolding fold.simps comp_apply first by simp_all
  have "filter (\<lambda>i. filter (\<lambda>d. d \<noteq> s) (pending_of (dict_put x ?ds p) i) = []) xs =
      filter (\<lambda>i. filter (\<lambda>d. d \<noteq> s) (pending_of p i) = []) xs"
    using x(1) by (intro filter_cong) (auto simp: pending_of_put)
  with Cons.IH [OF x(2,3)] x(1) show ?case by (auto simp: pending_of_put)
qed

lemma finish_level_steps:
  assumes steps: "distinct (step_ids steps)" and "distinct current" and "set current \<inter> D = {}"
    and "\<And>i. set (pending_of p i) = step_depends steps i - D"
    and "finish_level steps current p = (p', r')"
  shows "(\<forall>i. set (pending_of p' i) = step_depends steps i - (D \<union> set current)) \<and> distinct r' \<and>
    set r' = {i. step_depends steps i \<subseteq> D \<union> set current \<and> step_depends steps i \<inter> set current \<noteq> {}}"
proof -
  let ?d = "\<lambda>s. fold (discard_dependency s) (sort (dependents steps s))"
  have "\<exists>p' r'. fold ?d xs (p, []) = (p', r') \<and>
      (\<forall>i. set (pending_of p' i) = step_depends steps i - (D \<union> set xs)) \<and> distinct r' \<and>
      set r' = {i. step_depends steps i \<subseteq> D \<union> set xs \<and> step_depends steps i \<inter> set xs \<noteq> {}}"
    if "distinct xs" "set xs \<inter> D = {}" for xs
    using that
  proof (induction xs rule: rev_induct)
    case Nil
    then show ?case using assms(4) by simp
  next
    case (snoc s xs)
    then obtain q r where q: "fold ?d xs (p, []) = (q, r)" "distinct r"
      "\<And>i. set (pending_of q i) = step_depends steps i - (D \<union> set xs)"
      "set r = {i. step_depends steps i \<subseteq> D \<union> set xs \<and> step_depends steps i \<inter> set xs \<noteq> {}}" by auto
    obtain q' r' where q': "?d s (q, r) = (q', r')" by (cases "?d s (q, r)")
    have dst: "distinct (sort (dependents steps s))" using distinct_dependents [OF steps] by simp
    note step = discard_dependencies [OF dst q']
    have mem: "set (sort (dependents steps s)) = {i. s \<in> step_depends steps i}" using set_dependents [OF steps] by simp
    have r': "r' = r @ filter (\<lambda>i. filter (\<lambda>d. d \<noteq> s) (pending_of q i) = []) (sort (dependents steps s))"
      using step by blast
    have emp: "filter (\<lambda>d. d \<noteq> s) (pending_of q i) = [] \<longleftrightarrow> step_depends steps i \<subseteq> insert s (D \<union> set xs)" for i
      using q(3) [of i] by (auto simp: filter_empty_conv)
    have new: "set (filter (\<lambda>i. filter (\<lambda>d. d \<noteq> s) (pending_of q i) = []) (sort (dependents steps s))) =
        {i. s \<in> step_depends steps i \<and> step_depends steps i \<subseteq> insert s (D \<union> set xs)}"
      using mem emp by auto
    have s: "s \<notin> D" "s \<notin> set xs" using snoc.prems by auto
    have "distinct r'" unfolding r' using q(2,4) dst new s by auto
    moreover have "set (pending_of q' i) = step_depends steps i - (D \<union> set (xs @ [s]))" for i
      using step [of i] q(3) [of i] mem by auto
    moreover have "set r' = {i. step_depends steps i \<subseteq> D \<union> set (xs @ [s]) \<and> step_depends steps i \<inter> set (xs @ [s]) \<noteq> {}}"
      unfolding r' set_append q(4) new using s by auto
    ultimately show ?case using q(1) q' by auto
  qed
  from this [OF assms(2,3)] assms(5) show ?thesis by (simp add: finish_level_def)
qed

subsection \<open>All levels\<close>

definition next_level :: "planned_step list \<Rightarrow> string set \<Rightarrow> string set" where
  "next_level steps D = {i \<in> set (step_ids steps) - D. step_depends steps i \<subseteq> D}"

definition level_state :: "planned_step list \<Rightarrow> string set \<Rightarrow> string list \<Rightarrow> string list dict \<Rightarrow> bool" where
  "level_state steps D ready p \<longleftrightarrow> distinct ready \<and> set ready = next_level steps D \<and> D \<subseteq> set (step_ids steps) \<and>
     (\<forall>i\<in>D. step_depends steps i \<subseteq> D) \<and> (\<forall>i. set (pending_of p i) = step_depends steps i - D)"

lemma level_state_finish:
  assumes steps: "distinct (step_ids steps)" and l: "level_state steps D ready p"
    and "finish_level steps ready p = (p', r')"
  shows "level_state steps (D \<union> set ready) r' p'"
proof -
  have r: "set ready = next_level steps D" "distinct ready" "D \<subseteq> set (step_ids steps)"
    "\<forall>i\<in>D. step_depends steps i \<subseteq> D" "\<And>i. set (pending_of p i) = step_depends steps i - D"
    using l by (auto simp: level_state_def)
  then have dis: "set ready \<inter> D = {}" by (auto simp: next_level_def)
  have f: "(\<forall>i. set (pending_of p' i) = step_depends steps i - (D \<union> set ready)) \<and> distinct r' \<and>
    set r' = {i. step_depends steps i \<subseteq> D \<union> set ready \<and> step_depends steps i \<inter> set ready \<noteq> {}}"
    using finish_level_steps [OF steps r(2) dis r(5) assms(3)] by blast
  have "set r' = next_level steps (D \<union> set ready)"
  proof (rule set_eqI)
    fix i
    have "i \<in> set (step_ids steps)" if "step_depends steps i \<inter> set ready \<noteq> {}"
      using that step_depends_outside [of i steps] by blast
    moreover have "i \<notin> D \<union> set ready" if "step_depends steps i \<inter> set ready \<noteq> {}"
      using that r(1,4) dis by (auto simp: next_level_def)
    moreover have "step_depends steps i \<inter> set ready \<noteq> {}"
      if "i \<in> set (step_ids steps)" "i \<notin> D \<union> set ready" "step_depends steps i \<subseteq> D \<union> set ready"
    proof
      assume "step_depends steps i \<inter> set ready = {}"
      with that(3) have "step_depends steps i \<subseteq> D" by blast
      with that(1,2) r(1) show False by (simp add: next_level_def)
    qed
    ultimately show "i \<in> set r' \<longleftrightarrow> i \<in> next_level steps (D \<union> set ready)"
      using f by (auto simp: next_level_def)
  qed
  moreover have "\<forall>i\<in>D \<union> set ready. step_depends steps i \<subseteq> D \<union> set ready"
    using r(1,4) by (auto simp: next_level_def)
  moreover have "D \<union> set ready \<subseteq> set (step_ids steps)" using r(1,3) by (auto simp: next_level_def)
  ultimately show ?thesis using f by (simp add: level_state_def)
qed

text \<open>The levels: non-empty, disjoint, each step after its dependencies, and at the end nothing is ready.\<close>

lemma step_levels_spec:
  assumes steps: "distinct (step_ids steps)" and "level_state steps D ready p"
    and "card (set (step_ids steps) - D) \<le> n"
  shows "(\<forall>l\<in>set (step_levels n steps ready p). l \<noteq> []) \<and>
    distinct (concat (step_levels n steps ready p)) \<and>
    set (concat (step_levels n steps ready p)) \<inter> D = {} \<and>
    D \<union> set (concat (step_levels n steps ready p)) \<subseteq> set (step_ids steps) \<and>
    (\<forall>k<length (step_levels n steps ready p). \<forall>i\<in>set (step_levels n steps ready p ! k).
       step_depends steps i \<subseteq> D \<union> set (concat (take k (step_levels n steps ready p)))) \<and>
    next_level steps (D \<union> set (concat (step_levels n steps ready p))) = {}"
  using assms(2,3)
proof (induction n arbitrary: D ready p)
  case 0
  then have "set (step_ids steps) \<subseteq> D" by (simp add: card_eq_0_iff)
  with 0 show ?case by (auto simp: level_state_def next_level_def)
next
  case (Suc n)
  have r: "set ready = next_level steps D" "distinct ready" "D \<subseteq> set (step_ids steps)"
    using Suc.prems(1) by (auto simp: level_state_def)
  show ?case
  proof (cases "ready = []")
    case True
    with r show ?thesis by simp
  next
    case False
    obtain p' r' where f: "finish_level steps ready p = (p', r')" by fastforce
    let ?E = "D \<union> set ready" and ?ls = "step_levels n steps r' p'"
    have "level_state steps ?E r' p'" using level_state_finish [OF steps Suc.prems(1) f] .
    moreover have "card (set (step_ids steps) - ?E) \<le> n"
    proof -
      obtain y where "y \<in> set ready" using False by (cases ready) auto
      with r(1) have "y \<in> set (step_ids steps) - D" "y \<in> ?E" by (auto simp: next_level_def)
      then have "set (step_ids steps) - ?E \<subset> set (step_ids steps) - D" by blast
      then have "card (set (step_ids steps) - ?E) < card (set (step_ids steps) - D)"
        by (intro psubset_card_mono) auto
      with Suc.prems(2) show ?thesis by simp
    qed
    ultimately have IH: "\<forall>l\<in>set ?ls. l \<noteq> []" "distinct (concat ?ls)" "set (concat ?ls) \<inter> ?E = {}"
      "?E \<union> set (concat ?ls) \<subseteq> set (step_ids steps)"
      "\<forall>k<length ?ls. \<forall>i\<in>set (?ls ! k). step_depends steps i \<subseteq> ?E \<union> set (concat (take k ?ls))"
      "next_level steps (?E \<union> set (concat ?ls)) = {}"
      using Suc.IH [of ?E r' p'] by blast+
    have eq: "step_levels (Suc n) steps ready p = ready # ?ls" using False f by simp
    have "step_depends steps i \<subseteq> D \<union> set (concat (take k (ready # ?ls)))"
      if "k < length (ready # ?ls)" "i \<in> set ((ready # ?ls) ! k)" for k i
    proof (cases k)
      case 0
      with that(2) r(1) show ?thesis by (auto simp: next_level_def)
    next
      case (Suc m)
      with that have "step_depends steps i \<subseteq> ?E \<union> set (concat (take m ?ls))" using IH(5) by simp
      with Suc show ?thesis by auto
    qed
    moreover have "set ready \<inter> D = {}" using r(1) by (auto simp: next_level_def)
    ultimately show ?thesis unfolding eq using False IH(1-4,6) r(2) by (auto simp: Un_assoc)
  qed
qed

subsection \<open>Batches\<close>

lemma step_by_id_get:
  assumes "distinct (step_ids steps)" and "s \<in> set steps"
  shows "dict_get (step_by_id steps) (ps_step_id s) = Some s"
proof -
  have "dict_get (fold (\<lambda>s d. dict_put (ps_step_id s) s d) xs d) i =
      (case find (\<lambda>s. ps_step_id s = i) (rev xs) of Some s \<Rightarrow> Some s | None \<Rightarrow> dict_get d i)"
    for xs :: "planned_step list" and d i
    by (induction xs arbitrary: d) (simp_all add: find_append split: option.split)
  moreover have "find (\<lambda>x. ps_step_id x = ps_step_id s) (rev steps) = Some s"
    using assms find_unique [of ps_step_id "rev steps" s] by (simp add: rev_map [symmetric])
  ultimately show ?thesis by (simp add: step_by_id_def)
qed

lemma step_by_id_keys: "set (dict_keys (step_by_id steps)) = set (step_ids steps)" (is ?keys)
  and step_by_id_length: "length (step_by_id steps) = card (set (step_ids steps))" (is ?len)
proof -
  have "set (dict_keys (fold (\<lambda>s d. dict_put (ps_step_id s) s d) xs d)) = set (dict_keys d) \<union> set (step_ids xs) \<and>
      (distinct (dict_keys d) \<longrightarrow> distinct (dict_keys (fold (\<lambda>s d. dict_put (ps_step_id s) s d) xs d)))"
    for xs :: "planned_step list" and d
    by (induction xs arbitrary: d) auto
  from this [of steps "[]"] have "set (dict_keys (step_by_id steps)) = set (step_ids steps)"
    "distinct (dict_keys (step_by_id steps))" by (simp_all add: step_by_id_def dict_keys_def)
  moreover have "length (step_by_id steps) = length (dict_keys (step_by_id steps))" by (simp add: dict_keys_def)
  ultimately show ?keys ?len using distinct_card [of "dict_keys (step_by_id steps)"] by simp_all
qed

lemma step_by_id_distinct: "length (step_by_id steps) = length steps \<longleftrightarrow> distinct (step_ids steps)"
  using card_distinct [of "step_ids steps"] distinct_card [of "step_ids steps"] by (auto simp: step_by_id_length)

lemma unknown_dependency_None:
  "unknown_dependency steps = None \<longleftrightarrow> (\<forall>s\<in>set steps. set (ps_depends_on s) \<subseteq> set (step_ids steps))"
proof -
  have "dict_get (step_by_id steps) d = None \<longleftrightarrow> d \<notin> set (step_ids steps)" for d
    by (simp only: dict_get_None step_by_id_keys)
  then show ?thesis unfolding unknown_dependency_def find_None_iff by (auto 0 4)
qed

lemma first_level:
  assumes "distinct (step_ids steps)"
  shows "level_state steps {} (sort (map fst (filter (\<lambda>(i, ds). ds = []) (step_deps steps)))) (step_deps steps)"
proof -
  have d: "set (pending_of (step_deps steps) i) = step_depends steps i" for i
  proof (cases "i \<in> set (step_ids steps)")
    case True
    then obtain s where s: "s \<in> set steps" "i = ps_step_id s" by auto
    have "dict_get (step_deps steps) (ps_step_id s) = Some (remdups (ps_depends_on s))"
      using assms s(1) unfolding dict_get_def step_deps_def
      by (intro map_of_is_SomeI) (auto simp: comp_def)
    with s step_depends_unique [OF assms s(1)] show ?thesis by (simp add: pending_of_def)
  next
    case False
    then have "dict_get (step_deps steps) i = None" by (auto simp: dict_get_None dict_keys_def step_deps_def)
    with step_depends_outside [OF False] show ?thesis by (simp add: pending_of_def)
  qed
  have "map fst (filter (\<lambda>(i, ds). ds = []) (step_deps steps)) = step_ids (filter (\<lambda>s. ps_depends_on s = []) steps)"
    by (simp add: step_deps_def filter_map comp_def)
  moreover have "set (step_ids (filter (\<lambda>s. ps_depends_on s = []) steps)) = next_level steps {}"
    using step_depends_unique [OF assms] by (auto simp: next_level_def)
  moreover have "distinct (step_ids (filter (\<lambda>s. ps_depends_on s = []) steps))"
    using assms by (rule distinct_map_filter)
  ultimately show ?thesis using d by (simp add: level_state_def)
qed

definition step_batches_of :: "planned_step list \<Rightarrow> string list list" where
  "step_batches_of steps = step_levels (length steps) steps
     (sort (map fst (filter (\<lambda>(i, ds). ds = []) (step_deps steps)))) (step_deps steps)"

lemmas step_batches_spec = step_levels_spec [OF _ first_level, of steps "length steps" for steps,
  folded step_batches_of_def]

lemma step_batches:
  assumes "distinct (step_ids steps)"
  shows "distinct (concat (step_batches_of steps))" "set (concat (step_batches_of steps)) \<subseteq> set (step_ids steps)"
    "\<forall>l\<in>set (step_batches_of steps). l \<noteq> []"
    "\<And>k i. k < length (step_batches_of steps) \<Longrightarrow> i \<in> set (step_batches_of steps ! k) \<Longrightarrow>
       step_depends steps i \<subseteq> set (concat (take k (step_batches_of steps)))"
    "next_level steps (set (concat (step_batches_of steps))) = {}"
proof -
  have "card (set (step_ids steps) - {}) \<le> length steps"
    using card_length [of "step_ids steps"] by simp
  from step_batches_spec [OF assms assms this]
  show "distinct (concat (step_batches_of steps))" "set (concat (step_batches_of steps)) \<subseteq> set (step_ids steps)"
    "\<forall>l\<in>set (step_batches_of steps). l \<noteq> []"
    "\<And>k i. k < length (step_batches_of steps) \<Longrightarrow> i \<in> set (step_batches_of steps ! k) \<Longrightarrow>
       step_depends steps i \<subseteq> set (concat (take k (step_batches_of steps)))"
    "next_level steps (set (concat (step_batches_of steps))) = {}" by auto
qed

lemma in_concat_take: "x \<in> set (concat (take k xss)) \<Longrightarrow> \<exists>j<k. j < length xss \<and> x \<in> set (xss ! j)"
proof -
  assume "x \<in> set (concat (take k xss))"
  then obtain xs where "xs \<in> set (take k xss)" "x \<in> set xs" by auto
  then show ?thesis unfolding in_set_conv_nth [of xs] by auto
qed

text \<open>Every step has a level exactly when the dependencies have no cycle.\<close>

lemma step_batches_acyclic:
  assumes steps: "distinct (step_ids steps)"
    and known: "\<forall>s\<in>set steps. set (ps_depends_on s) \<subseteq> set (step_ids steps)"
  shows "set (concat (step_batches_of steps)) = set (step_ids steps) \<longleftrightarrow> acyclic (dependency steps)"
proof
  let ?ls = "step_batches_of steps"
  note b = step_batches [OF steps]
  assume all: "set (concat ?ls) = set (step_ids steps)"
  define rank where "rank i = (LEAST k. k < length ?ls \<and> i \<in> set (?ls ! k))" for i
  have rank: "rank i < length ?ls \<and> i \<in> set (?ls ! rank i)" if "i \<in> set (step_ids steps)" for i
  proof -
    from that all obtain l where "l \<in> set ?ls" "i \<in> set l" by (metis UN_E set_concat)
    then have "\<exists>k. k < length ?ls \<and> i \<in> set (?ls ! k)" by (metis in_set_conv_nth)
    then show ?thesis unfolding rank_def by (rule LeastI_ex)
  qed
  have "rank d < rank i" if "(d, i) \<in> dependency steps" for d i
  proof -
    have "i \<in> set (step_ids steps)" "d \<in> step_depends steps i"
      using that step_depends_outside by (auto simp: dependency_def)
    with rank [of i] b(4) have "d \<in> set (concat (take (rank i) ?ls))" by blast
    from in_concat_take [OF this] obtain k where "k < rank i" "k < length ?ls" "d \<in> set (?ls ! k)" by blast
    then have "rank d \<le> k" unfolding rank_def by (intro Least_le) simp
    with \<open>k < rank i\<close> show ?thesis by simp
  qed
  then have "dependency steps \<subseteq> measure rank" by (intro subrelI) (simp only: in_measure)
  then have "wf (dependency steps)" by (rule wf_subset [OF wf_measure])
  then show "acyclic (dependency steps)" by (rule wf_acyclic)
next
  let ?D = "set (concat (step_batches_of steps))"
  note b = step_batches [OF steps]
  assume acyc: "acyclic (dependency steps)"
  have "dependency steps \<subseteq> set (step_ids steps) \<times> set (step_ids steps)"
    using known step_depends_outside by (fastforce simp: dependency_def step_depends_def)
  then have "finite (dependency steps)" by (rule finite_subset) simp
  then have wf: "wf (dependency steps)" using acyc by (rule finite_acyclic_wf)
  have "i \<in> ?D" if "i \<in> set (step_ids steps)" for i
  proof (rule ccontr)
    assume "i \<notin> ?D"
    with that have "i \<in> set (step_ids steps) - ?D" by blast
    from wfE_min [OF wf this] obtain z where z: "z \<in> set (step_ids steps) - ?D"
      "\<And>y. (y, z) \<in> dependency steps \<Longrightarrow> y \<notin> set (step_ids steps) - ?D" by blast
    have "step_depends steps z \<subseteq> ?D"
    proof
      fix d
      assume d: "d \<in> step_depends steps z"
      then have "d \<in> set (step_ids steps)" using known by (fastforce simp: step_depends_def)
      with z(2) [of d] d show "d \<in> ?D" by (auto simp: dependency_def)
    qed
    with z(1) b(5) show False by (auto simp: next_level_def simp del: set_concat)
  qed
  then show "?D = set (step_ids steps)" using b(2) by blast
qed

lemma concat_map_map: "concat (map (map f) xss) = map f (concat xss)"
  by (induction xss) simp_all

lemma resolve_step_batches_cases:
  fixes steps :: "planned_step list"
  defines "ts \<equiv> filter (\<lambda>s. ps_action s = ToolCallStep) steps"
  shows "(\<exists>batches. resolve_step_batches steps = Inr batches) \<longleftrightarrow>
      distinct (step_ids ts) \<and> (\<forall>s\<in>set ts. set (ps_depends_on s) \<subseteq> set (step_ids ts)) \<and> acyclic (dependency ts)"
    and "resolve_step_batches steps = Inr batches \<Longrightarrow>
      batches = map (map (\<lambda>i. the (dict_get (step_by_id ts) i))) (step_batches_of ts) \<and>
      distinct (step_ids ts) \<and> set (concat (step_batches_of ts)) = set (step_ids ts)"
proof -
  have empty: "acyclic (dependency [])" "step_batches_of [] = []"
    by (simp_all add: dependency_def step_depends_def acyclic_def step_batches_of_def)
  have len: "length (concat (step_batches_of ts)) = length ts \<longleftrightarrow> set (concat (step_batches_of ts)) = set (step_ids ts)"
    if d: "distinct (step_ids ts)"
  proof -
    note b = step_batches [OF d]
    have "card (set (step_ids ts)) = length ts" using distinct_card [OF d] by simp
    moreover have "card (set (concat (step_batches_of ts))) = length (concat (step_batches_of ts))"
      using b(1) by (rule distinct_card)
    ultimately show ?thesis using card_subset_eq [OF finite_set b(2)] by metis
  qed
  have res: "resolve_step_batches steps =
      (if ts = [] then Inr []
       else if \<not> distinct (step_ids ts) then Inl (AgentOther ''Planned tool steps must have unique step_id values'')
       else (case unknown_dependency ts of
               Some (i, d) \<Rightarrow> Inl (AgentOther (''Planned step '' @ quoted i @ '' depends on unknown step '' @ quoted d))
             | None \<Rightarrow> if set (concat (step_batches_of ts)) \<noteq> set (step_ids ts)
                 then Inl (AgentOther ''Circular dependency detected among planned tool steps'')
                 else Inr (map (map (\<lambda>i. the (dict_get (step_by_id ts) i))) (step_batches_of ts))))"
    unfolding resolve_step_batches_def Let_def ts_def [symmetric] step_by_id_distinct
      step_batches_of_def [symmetric] concat_map_map length_map
    using len by (auto split: option.split)
  show "(\<exists>batches. resolve_step_batches steps = Inr batches) \<longleftrightarrow>
      distinct (step_ids ts) \<and> (\<forall>s\<in>set ts. set (ps_depends_on s) \<subseteq> set (step_ids ts)) \<and> acyclic (dependency ts)"
  proof (cases "distinct (step_ids ts) \<and> (\<forall>s\<in>set ts. set (ps_depends_on s) \<subseteq> set (step_ids ts))")
    case True
    with step_batches_acyclic [of ts] empty show ?thesis
      using unknown_dependency_None [of ts] unfolding res by (auto simp del: set_concat)
  next
    case False
    then have "ts \<noteq> []" by auto
    with False show ?thesis using unknown_dependency_None [of ts] unfolding res by (auto split: option.split)
  qed
  show "batches = map (map (\<lambda>i. the (dict_get (step_by_id ts) i))) (step_batches_of ts) \<and>
      distinct (step_ids ts) \<and> set (concat (step_batches_of ts)) = set (step_ids ts)"
    if "resolve_step_batches steps = Inr batches"
    using that empty unfolding res by (auto split: if_splits option.splits simp del: set_concat)
qed

text \<open>Together: the batches are the tool steps, each once, and a step comes after all it depends on.\<close>

lemma resolve_step_batches_Inr:
  assumes "resolve_step_batches steps = Inr batches"
  shows "mset (concat batches) = mset (filter (\<lambda>s. ps_action s = ToolCallStep) steps)"
    and "\<And>k s d. k < length batches \<Longrightarrow> s \<in> set (batches ! k) \<Longrightarrow> d \<in> set (ps_depends_on s) \<Longrightarrow>
      \<exists>j<k. d \<in> set (step_ids (batches ! j))"
    and "\<forall>batch\<in>set batches. batch \<noteq> []"
proof -
  define ts where "ts = filter (\<lambda>s. ps_action s = ToolCallStep) steps"
  define f where "f i = the (dict_get (step_by_id ts) i)" for i
  have r: "batches = map (map f) (step_batches_of ts)" "distinct (step_ids ts)"
    "set (concat (step_batches_of ts)) = set (step_ids ts)"
    using resolve_step_batches_cases(2) [OF assms] by (auto simp: ts_def f_def [abs_def])
  note b = step_batches [OF r(2)]
  have f: "f (ps_step_id s) = s" if "s \<in> set ts" for s
    using step_by_id_get [OF r(2) that] by (simp add: f_def)
  have ids: "ps_step_id (f i) = i" if "i \<in> set (step_ids ts)" for i using that f by auto
  have "mset (concat (step_batches_of ts)) = mset (step_ids ts)"
    using b(1) r(2,3) by (metis mset_set_set)
  then have "mset (concat batches) = mset (map f (step_ids ts))" by (simp add: r(1) concat_map_map del: map_map)
  also have "map f (step_ids ts) = ts" using f by (simp add: map_idI)
  finally show "mset (concat batches) = mset (filter (\<lambda>s. ps_action s = ToolCallStep) steps)" by (simp add: ts_def)
  show "\<forall>batch\<in>set batches. batch \<noteq> []" using b(3) by (auto simp: r(1))
  fix k s d
  assume k: "k < length batches" "s \<in> set (batches ! k)" "d \<in> set (ps_depends_on s)"
  then obtain i where i: "k < length (step_batches_of ts)" "i \<in> set (step_batches_of ts ! k)" "s = f i"
    by (auto simp: r(1))
  then have "i \<in> set (concat (step_batches_of ts))" by auto
  then have "i \<in> set (step_ids ts)" using b(2) by blast
  then have s: "s \<in> set ts" "i = ps_step_id s" using i(3) f by auto
  with k(3) have "d \<in> step_depends ts i" using step_depends_unique [OF r(2)] by simp
  with b(4) [OF i(1,2)] have "d \<in> set (concat (take k (step_batches_of ts)))" by blast
  from in_concat_take [OF this] obtain j where j: "j < k" "j < length (step_batches_of ts)"
    "d \<in> set (step_batches_of ts ! j)" by blast
  then have "d \<in> set (concat (step_batches_of ts))" by auto
  then have "ps_step_id (f d) = d" using b(2) ids by blast
  with j have "d \<in> set (step_ids (batches ! j))" by (force simp: r(1))
  with j(1) show "\<exists>j<k. d \<in> set (step_ids (batches ! j))" by blast
qed

end
