(* ===== verification/Agent_Runtime.thy ===== *)
theory Agent_Runtime
  imports Agent_Model
begin

section \<open>The agent runtime: the plan-act loop\<close>

text \<open>
  \<open>ai/agent/executor\<close> (\<open>agent_executor.py\<close>, \<open>tool_runner.py\<close>, \<open>finalizer.py\<close>, \<open>llm_step.py\<close>),
  \<open>planner/react_planner.py\<close>, \<open>reflection/engine.py\<close> and \<open>runtime/default_agent.py\<close>, as programs over the state of
  \<open>Hitl_Store\<close>. What a language model answers to its n-th call (a time-out included), the text of prompts and of
  JSON, the random part of ids, the correlation id of the
  request being served and the regular-expression engine of the rules are parameters (\<open>agent_env\<close>). An
  execution reaches its scratchpad through the registry of scratchpads; the waits between retries take no time.
  Tools of a step run one after the other (\<open>parallel_tools_enabled\<close> is off, its default).

  The loop keeps the agent's state in a local variable, and the handler of \<open>AgentApprovalPauseError\<close> reads
  it: the exceptions of a loop carry the value it had at the call that raised (\<open>at_state\<close>).
\<close>

record agent_env =
  ae_hitl_enabled :: bool
  ae_policy :: "approval_policy option"
  ae_has_service :: bool
  ae_search :: "string \<Rightarrow> string \<Rightarrow> nat \<Rightarrow> nat \<Rightarrow> bool"
  ae_as_text :: "pyval \<Rightarrow> string"
  ae_role_enforced :: bool
  ae_complete_with_tools :: "nat \<Rightarrow> agent_request \<Rightarrow> pyval dict list \<Rightarrow> pyval dict list \<Rightarrow> failure + tool_completion"
  ae_complete_chat :: "nat \<Rightarrow> agent_request \<Rightarrow> pyval dict list \<Rightarrow> failure + string"
  ae_stream_chat :: "nat \<Rightarrow> agent_request \<Rightarrow> pyval dict list \<Rightarrow> string list \<times> failure option"
  ae_stalls_after :: "nat \<Rightarrow> nat option"
  ae_planner_prompt :: "string \<Rightarrow> nat \<Rightarrow> nat \<Rightarrow> datetime \<Rightarrow> string"
  ae_reflection_prompt :: "string \<Rightarrow> string \<Rightarrow> string"
  ae_detail :: "tool_result \<Rightarrow> string"
  ae_dumps :: "pyval dict \<Rightarrow> string"
  ae_hex8 :: "uuid \<Rightarrow> string"
  ae_request_id :: "string option"

record agent_context =
  ax_execution_id :: string
  ax_caller :: "tool_context option"
  ax_allowed_tool_names :: "string list option"
  ax_session_id :: "uuid option"
  ax_metadata :: "pyval dict"

text \<open>The parts of \<open>ToolExecutionContext\<close> that the tool executor and the approval policy read.\<close>

record exec_context =
  ec_caller :: tool_context
  ec_workspace :: "string option"
  ec_tenant :: "string option"
  ec_estimated_cost :: "rat option"

definition request_settings :: "agent_request \<Rightarrow> agent_settings" where
  "request_settings request = (case aq_config request of Some c \<Rightarrow> c | None \<Rightarrow> default_settings)"

subsection \<open>Retries and calls to the model\<close>

text \<open>\<open>retry_async\<close> with one attempt and \<open>n\<close> more.\<close>

primrec retry_more :: "('e \<Rightarrow> bool) \<Rightarrow> ('s, 'e + 'a) prog \<Rightarrow> nat \<Rightarrow> ('s, 'e + 'a) prog" where
  "retry_more retryable operation 0 = operation"
| "retry_more retryable operation (Suc n) =
     bindP operation (\<lambda>r. case r of
       Inr x \<Rightarrow> ok x
     | Inl e \<Rightarrow> if retryable e then retry_more retryable operation n else raise e)"

definition retry_operation :: "('e \<Rightarrow> bool) \<Rightarrow> nat \<Rightarrow> ('s, 'e + 'a) prog \<Rightarrow> ('s, 'e + 'a) prog" where
  "retry_operation retryable retries operation = retry_more retryable operation (max 1 retries - 1)"

definition llm_call :: "(nat \<Rightarrow> failure + 'a) \<Rightarrow> 'a hitl_prog" where
  "llm_call answer = opP (\<lambda>w. (w\<lparr>hw_llm_calls := hw_llm_calls w + 1\<rparr>,
     case answer (hw_llm_calls w) of Inl e \<Rightarrow> Inl (HitlProvider e) | Inr x \<Rightarrow> Inr x))"

fun is_retryable_exn :: "hitl_exn \<Rightarrow> bool" where
  "is_retryable_exn (HitlProvider e) = is_retryable_agent_error e"
| "is_retryable_exn _ = False"

definition retried_llm_call :: "agent_request \<Rightarrow> (nat \<Rightarrow> failure + 'a) \<Rightarrow> 'a hitl_prog" where
  "retried_llm_call request answer =
     retry_operation is_retryable_exn (cf_max_retries (request_settings request)) (llm_call answer)"

text \<open>The messages of a scratchpad, or a \<open>ValueError\<close>.\<close>

definition scratchpad_messages :: "string \<Rightarrow> pyval dict list hitl_prog" where
  "scratchpad_messages execution_id =
     bindP (readP (scratch_get execution_id)) (\<lambda>entries.
       (case to_message_context entries of Inl m \<Rightarrow> raise (HitlValueError m) | Inr ms \<Rightarrow> ok ms))"

subsection \<open>The planner\<close>

definition conversation_messages :: "agent_context \<Rightarrow> agent_request \<Rightarrow> pyval dict list hitl_prog" where
  "conversation_messages context request =
     bindE (scratchpad_messages (ax_execution_id context)) (\<lambda>messages.
       ok (if messages = [] then map agent_message_to_input (aq_messages request) else messages))"

definition plan_next ::
    "agent_env \<Rightarrow> hitl_config \<Rightarrow> agent_request \<Rightarrow> agent_context \<Rightarrow> nat \<Rightarrow> execution_plan hitl_prog" where
  "plan_next env cfg request context iteration =
     (let config = request_settings request;
          tools = offered_tools (xc_registry (hc_tools cfg)) (ax_allowed_tool_names context) (aq_tool_names request) in
      if cf_max_iterations config \<le> iteration then ok (build_iteration_limit_plan iteration)
      else if tools = [] then ok (build_no_tools_finalize_plan iteration)
      else bindP (readP hw_now) (\<lambda>now.
           bindE (conversation_messages context request) (\<lambda>conversation.
           let prompt = with_system_prompt (aq_system_prompt request)
                 (ae_planner_prompt env (tool_list_text tools) (iteration + 1) (cf_max_iterations config) now);
               messages = [(''role'', PStr ''system''), (''content'', PStr prompt)] # conversation in
           bindE (retried_llm_call request (\<lambda>n. ae_complete_with_tools env n request messages (map tool_schema tools)))
             (\<lambda>completion.
           bindE (case tk_content completion of
                    None \<Rightarrow> ok ()
                  | Some c \<Rightarrow> if c = [] then ok ()
                      else doP (scratch_append (ax_execution_id context) [thought_entry c])) (\<lambda>_.
           bindP (opP draw_uuid) (\<lambda>u. ok (parse_tool_completion (ae_hex8 env u) completion iteration)))))))"

subsection \<open>The tool runner\<close>

definition caller_role :: "agent_env \<Rightarrow> hitl_config \<Rightarrow> exec_context \<Rightarrow> string option hitl_prog" where
  "caller_role env cfg ctx =
     run_tools (lift_error ToolRbacError (zoom xw_rbac put_rbac
       (resolve_caller_role (tc_kind (ec_caller ctx)) (tc_kind (ec_caller ctx) = ''user'') (tc_user_id (ec_caller ctx))
          (xc_has_rbac (hc_tools cfg)) (ae_role_enforced env))))"

definition call_decision ::
    "agent_env \<Rightarrow> approval_policy \<Rightarrow> exec_context \<Rightarrow> string option \<Rightarrow> tool_definition \<Rightarrow> pyval dict \<Rightarrow> policy_decision" where
  "call_decision env policy ctx role tool arguments =
     policy_evaluate (ae_search env) (ae_as_text env) policy tool arguments role
       (ec_workspace ctx) (ec_tenant ctx) (ec_estimated_cost ctx)"

definition pause_for ::
    "agent_env \<Rightarrow> hitl_config \<Rightarrow> agent_request \<Rightarrow> agent_context \<Rightarrow> agent_state \<Rightarrow> planned_step \<Rightarrow>
     string list \<Rightarrow> unit hitl_prog" where
  "pause_for env cfg request context state step required_stages =
     (if \<not> ae_has_service env
      then raise (HitlMisconfigured ''HITL is enabled but ToolRunner is missing AgentApprovalService.'')
      else (case (ax_session_id context, case ax_caller context of None \<Rightarrow> None | Some c \<Rightarrow> tc_user_id c) of
          (Some session_id, Some owner_id) \<Rightarrow>
            bindP (readP (scratch_get (ax_execution_id context))) (\<lambda>entries.
            bindE (pause cfg \<lparr>pq_step_id = ps_step_id step, pq_tool_calls = ps_tool_calls step,
                     pq_scratchpad = entries, pq_state = state, pq_session_id = session_id,
                     pq_owner_id = owner_id, pq_execution_id = ax_execution_id context,
                     pq_provider = aq_provider request, pq_model = Some (aq_model request),
                     pq_required_stages = required_stages, pq_request_id = ae_request_id env\<rparr>) (\<lambda>approval.
              raise (ApprovalPause approval)))
        | _ \<Rightarrow> raise (HitlMisconfigured
                ''Approval-required tool call cannot pause without session_id and owner_id.'')))"

definition maybe_pause_for_approval ::
    "agent_env \<Rightarrow> hitl_config \<Rightarrow> agent_request \<Rightarrow> agent_context \<Rightarrow> exec_context \<Rightarrow> agent_state \<Rightarrow>
     planned_step \<Rightarrow> unit hitl_prog" where
  "maybe_pause_for_approval env cfg request context ctx state step =
     (if \<not> ae_hitl_enabled env then ok ()
      else (case ae_policy env of
          None \<Rightarrow> raise (HitlMisconfigured ''HITL is enabled but ToolRunner is missing ToolRegistry or ApprovalPolicy.'')
        | Some policy \<Rightarrow>
            bindE (caller_role env cfg ctx) (\<lambda>role.
            (case evaluate_step_policy (xc_registry (hc_tools cfg)) (call_decision env policy ctx role) None
                    (ps_tool_calls step) of
               None \<Rightarrow> ok ()
             | Some found \<Rightarrow>
                 if so_outcome found = AutoApprove then ok ()
                 else if so_outcome found = RejectCall
                   then raise (ToolCallRejected (so_tool_name found) (so_matched_rule found))
                 else pause_for env cfg request context state step (so_required_stages found)))))"

definition preflight_approval_for_steps ::
    "agent_env \<Rightarrow> hitl_config \<Rightarrow> agent_request \<Rightarrow> agent_context \<Rightarrow> exec_context \<Rightarrow> agent_state \<Rightarrow>
     planned_step list \<Rightarrow> unit hitl_prog" where
  "preflight_approval_for_steps env cfg request context ctx state steps =
     forP (\<lambda>step. if ps_tool_calls step = [] then ok ()
           else maybe_pause_for_approval env cfg request context ctx state step) steps"

text \<open>
  \<open>ToolRetryPolicy()\<close> with its default of 3: the agent runtime passes none to the tool runner. A failed
  result with a retryable code is raised (\<open>Inl\<close>) to be tried again and is the result in the end; other exceptions
  of the tool executor (\<open>Inr\<close>) are not retryable.
\<close>

definition attempt_tool ::
    "hitl_config \<Rightarrow> exec_context \<Rightarrow> tool_call \<Rightarrow> (hitl_world, (tool_result + hitl_exn) + tool_result) prog" where
  "attempt_tool cfg ctx call =
     bindP (run_tools (execute_tool (hc_tools cfg) call (ec_caller ctx))) (\<lambda>r.
       (case r of
          Inl e \<Rightarrow> raise (Inr e)
        | Inr result \<Rightarrow> if is_retryable_tool_result result then raise (Inl result) else ok result))"

definition tool_max_retries :: nat where
  "tool_max_retries = 3"

definition execute_with_retry :: "hitl_config \<Rightarrow> exec_context \<Rightarrow> tool_call \<Rightarrow> tool_result hitl_prog" where
  "execute_with_retry cfg ctx call =
     bindP (retry_operation isl tool_max_retries (attempt_tool cfg ctx call)) (\<lambda>r.
       (case r of
          Inr result \<Rightarrow> ok result
        | Inl (Inl result) \<Rightarrow> ok result
        | Inl (Inr e) \<Rightarrow> raise e))"

definition run_single_tool ::
    "agent_env \<Rightarrow> hitl_config \<Rightarrow> string \<Rightarrow> exec_context \<Rightarrow> string \<Rightarrow> tool_call \<Rightarrow> tool_run_record hitl_prog" where
  "run_single_tool env cfg execution_id ctx step_id call =
     bindP (case tl_call_id call of
              Some c \<Rightarrow> Ret c
            | None \<Rightarrow> bindP (opP draw_uuid) (\<lambda>u. Ret (step_id @ ''-'' @ ae_hex8 env u))) (\<lambda>call_id.
     let normalized_call = call\<lparr>tl_call_id := Some call_id\<rparr> in
     bindE (publish (EvToolStart execution_id (tl_name call) call_id)) (\<lambda>_.
     bindE (catch (execute_with_retry cfg ctx normalized_call) (\<lambda>e.
              bindE (publish (EvToolEnd execution_id (tl_name call) call_id False)) (\<lambda>_. raise e))) (\<lambda>result.
     bindE (publish (EvToolEnd execution_id (tl_name call) call_id (tr_success result))) (\<lambda>_.
       ok \<lparr>tn_step_id = step_id, tn_call = normalized_call, tn_result = result\<rparr>))))"

fun run_calls ::
    "agent_env \<Rightarrow> hitl_config \<Rightarrow> string \<Rightarrow> exec_context \<Rightarrow> string \<Rightarrow> tool_call list \<Rightarrow> tool_run_record list hitl_prog" where
  "run_calls env cfg execution_id ctx step_id [] = ok []"
| "run_calls env cfg execution_id ctx step_id (call # calls) =
     bindE (run_single_tool env cfg execution_id ctx step_id call) (\<lambda>record.
     bindE (run_calls env cfg execution_id ctx step_id calls) (\<lambda>records. ok (record # records)))"

fun run_steps ::
    "agent_env \<Rightarrow> hitl_config \<Rightarrow> string \<Rightarrow> exec_context \<Rightarrow> planned_step list \<Rightarrow> tool_run_record list hitl_prog" where
  "run_steps env cfg execution_id ctx [] = ok []"
| "run_steps env cfg execution_id ctx (step # steps) =
     bindE (run_calls env cfg execution_id ctx (ps_step_id step) (ps_tool_calls step)) (\<lambda>records.
     bindE (run_steps env cfg execution_id ctx steps) (\<lambda>more. ok (records @ more)))"

definition run_tool_steps ::
    "agent_env \<Rightarrow> hitl_config \<Rightarrow> agent_request \<Rightarrow> agent_context \<Rightarrow> exec_context \<Rightarrow> agent_state \<Rightarrow>
     planned_step list \<Rightarrow> tool_run_record list hitl_prog" where
  "run_tool_steps env cfg request context ctx state steps =
     (case resolve_step_batches steps of
        Inl e \<Rightarrow> raise (HitlAgent e)
      | Inr batches \<Rightarrow>
          bindE (preflight_approval_for_steps env cfg request context ctx state steps) (\<lambda>_.
          run_steps env cfg (ax_execution_id context) ctx (concat batches)))"

subsection \<open>Final answers\<close>

text \<open>The chunks that arrive before the stream ends, fails or exceeds its time budget.\<close>

definition stream_outcome :: "agent_env \<Rightarrow> agent_request \<Rightarrow> pyval dict list \<Rightarrow> nat \<Rightarrow> string list \<times> hitl_exn option" where
  "stream_outcome env request messages n =
     (let (chunks, failed) = ae_stream_chat env n request messages in
      (case (cf_timeout_seconds (request_settings request), ae_stalls_after env n) of
         (Some t, Some k) \<Rightarrow> (take k chunks, Some (HitlAgent (AgentTimeout t)))
       | _ \<Rightarrow> (chunks, map_option HitlProvider failed)))"

definition publish_tokens :: "string \<Rightarrow> string list \<Rightarrow> unit hitl_prog" where
  "publish_tokens execution_id tokens = forP (\<lambda>t. publish (EvToken execution_id t)) tokens"

definition stream_final_answer ::
    "agent_env \<Rightarrow> agent_request \<Rightarrow> string \<Rightarrow> string hitl_prog" where
  "stream_final_answer env request execution_id =
     bindE (scratchpad_messages execution_id) (\<lambda>context_messages.
     let messages = (case aq_system_prompt request of
           Some s \<Rightarrow> if s = [] then context_messages
                      else [(''role'', PStr ''system''), (''content'', PStr s)] # context_messages
         | None \<Rightarrow> context_messages) in
     bindP (opP (\<lambda>w. (w\<lparr>hw_llm_calls := hw_llm_calls w + 1\<rparr>, stream_outcome env request messages (hw_llm_calls w))))
       (\<lambda>(chunks, failed).
     let tokens = filter (\<lambda>c. c \<noteq> []) chunks in
     bindE (publish_tokens execution_id tokens) (\<lambda>_.
       (case failed of Some e \<Rightarrow> raise e | None \<Rightarrow> ok (concat tokens)))))"

definition finalize_execution ::
    "agent_env \<Rightarrow> agent_request \<Rightarrow> string \<Rightarrow> execution_plan \<Rightarrow> string option \<Rightarrow> (string \<times> string) hitl_prog" where
  "finalize_execution env request execution_id plan last_planner_content =
     bindE (publish (EvToken execution_id [])) (\<lambda>_.
     let step = resolve_finalize_step plan in
     if is_iteration_limit_plan step
     then (let content = (case last_planner_content of
                 Some c \<Rightarrow> if c = [] then iteration_limit_message else c | None \<Rightarrow> iteration_limit_message) in
           bindE (publish_tokens execution_id (content_tokens content)) (\<lambda>_. ok (content, ''tool_iteration_cap'')))
     else if is_no_tools_plan step
     then bindE (stream_final_answer env request execution_id) (\<lambda>content. ok (content, ''stop''))
     else (let content = py_strip (case ps_reasoning step of Some r \<Rightarrow> r | None \<Rightarrow> []) in
           if content = []
           then bindE (stream_final_answer env request execution_id) (\<lambda>content. ok (content, ''stop''))
           else bindE (publish_tokens execution_id (content_tokens content)) (\<lambda>_. ok (content, ''stop''))))"

subsection \<open>Reflection\<close>

definition reflect_with_llm ::
    "agent_env \<Rightarrow> agent_request \<Rightarrow> string \<Rightarrow> tool_run_record list option \<Rightarrow> string option \<Rightarrow>
     (reflection_decision \<times> string) hitl_prog" where
  "reflect_with_llm env request execution_id tool_results llm_content =
     bindE (scratchpad_messages execution_id) (\<lambda>entries.
     let prompt = with_system_prompt (aq_system_prompt request) (ae_reflection_prompt env
           (case llm_content of Some c \<Rightarrow> if c = [] then ''(none)'' else c | None \<Rightarrow> ''(none)'')
           (format_tool_summary (ae_detail env) tool_results));
         messages = [(''role'', PStr ''system''), (''content'', PStr prompt)] #
           (if entries = [] then map agent_message_to_input (aq_messages request) else entries) in
     bindE (retried_llm_call request (\<lambda>n. ae_complete_chat env n request messages)) (\<lambda>content.
       ok (parse_reflection_response content)))"

definition reflect ::
    "agent_env \<Rightarrow> agent_request \<Rightarrow> string \<Rightarrow> tool_run_record list option \<Rightarrow> string option \<Rightarrow>
     (reflection_decision \<times> string) hitl_prog" where
  "reflect env request execution_id tool_results llm_content =
     (if \<not> cf_reflection_enabled (request_settings request) then ok (ContinueStep, ''Reflection disabled.'')
      else (case evaluate_rule_based tool_results llm_content of
              Some d \<Rightarrow> ok (d, rule_reason d)
            | None \<Rightarrow> reflect_with_llm env request execution_id tool_results llm_content))"

subsection \<open>The executor\<close>

type_synonym 'a agent_prog = "(hitl_world, (hitl_exn \<times> agent_state) + 'a) prog"

definition at_state :: "agent_state \<Rightarrow> 'a hitl_prog \<Rightarrow> 'a agent_prog" where
  "at_state state p = lift_error (\<lambda>e. (e, state)) p"

definition move :: "agent_state \<Rightarrow> agent_status \<Rightarrow> agent_state agent_prog" where
  "move state target = at_state state (case transition state target None of Inl e \<Rightarrow> raise (HitlAgent e) | Inr s \<Rightarrow> ok s)"

definition tool_steps_of :: "execution_plan \<Rightarrow> planned_step list" where
  "tool_steps_of plan = filter (\<lambda>s. ps_action s = ToolCallStep) (pl_steps plan)"

definition execute_tool_plan ::
    "agent_env \<Rightarrow> hitl_config \<Rightarrow> agent_request \<Rightarrow> agent_context \<Rightarrow> exec_context \<Rightarrow> execution_plan \<Rightarrow>
     agent_state \<Rightarrow> (agent_state \<times> tool_run_record list option) hitl_prog" where
  "execute_tool_plan env cfg request context ctx plan state =
     (let tool_steps = tool_steps_of plan in
      if tool_steps = [] then ok (state, None)
      else bindE (doP (scratch_append (ax_execution_id context)
                  (map (\<lambda>s. provider_entry (assistant_tool_call_message (ae_dumps env) (ps_reasoning s) (ps_tool_calls s)))
                     (filter (\<lambda>s. ps_tool_calls s \<noteq> []) tool_steps)))) (\<lambda>_.
           bindE (run_tool_steps env cfg request context ctx state tool_steps) (\<lambda>records.
           bindE (record_tool_results cfg (ax_execution_id context) records) (\<lambda>_.
             ok (fold (\<lambda>n st. record_tool_used st n) (tools_used records) state, Some records)))))"

definition finalize_and_complete ::
    "agent_env \<Rightarrow> agent_request \<Rightarrow> agent_context \<Rightarrow> execution_plan \<Rightarrow> string option \<Rightarrow> agent_state \<Rightarrow>
     agent_response agent_prog" where
  "finalize_and_complete env request context plan last_planner_content state =
     bindE (at_state state (finalize_execution env request (ax_execution_id context) plan last_planner_content))
       (\<lambda>(content, finish_reason).
     bindE (move state AgCompleted) (\<lambda>completed.
     bindE (at_state completed (publish (EvComplete (ax_execution_id context) finish_reason (as_tools_used completed)))) (\<lambda>_.
       ok \<lparr>ap_content = content, ap_tools_used = as_tools_used completed,
           ap_iterations = as_current_iteration completed, ap_finish_reason = Some finish_reason, ap_approval_id = None\<rparr>)))"

text \<open>The new state, whether to finalize, and the plan to run again.\<close>

definition maybe_reflect ::
    "agent_env \<Rightarrow> agent_request \<Rightarrow> agent_context \<Rightarrow> tool_run_record list option \<Rightarrow> string option \<Rightarrow>
     execution_plan \<Rightarrow> agent_state \<Rightarrow> (agent_state \<times> bool \<times> execution_plan option) agent_prog" where
  "maybe_reflect env request context tool_results llm_content last_tool_plan state =
     (if \<not> cf_reflection_enabled (request_settings request) then ok (state, False, None)
      else if tool_results = None \<or> tool_results = Some [] then ok (state, False, None)
      else if cf_max_reflections (request_settings request) \<le> as_reflection_count state then ok (state, False, None)
      else bindE (move state AgReflecting) (\<lambda>reflecting.
           bindE (at_state reflecting (reflect env request (ax_execution_id context) tool_results llm_content))
             (\<lambda>(decision, reason).
           let reflected = record_reflection reflecting in
           bindE (at_state reflected (publish (EvReflection (ax_execution_id context) decision (Some reason)))) (\<lambda>_.
           (case decision of
              Replan \<Rightarrow> bindE (move reflected AgPlanning) (\<lambda>s. ok (s, False, None))
            | RetryStep \<Rightarrow> bindE (move reflected AgExecuting) (\<lambda>s. ok (s, False, Some last_tool_plan))
            | Finish \<Rightarrow> bindE (move reflected AgExecuting) (\<lambda>s. ok (s, True, None))
            | ContinueStep \<Rightarrow> bindE (move reflected AgPlanning) (\<lambda>s. ok (s, False, None)))))))"

text \<open>
  What follows the tools of an iteration, and of a resumption: reflect, run the plan again when asked to,
  finalize when asked to, else go back to planning. The results are those of the latest run of a plan.
\<close>

definition keep_results :: "'a option \<Rightarrow> 'a option \<Rightarrow> 'a option" where
  "keep_results new old = (case new of Some x \<Rightarrow> Some x | None \<Rightarrow> old)"

definition after_tools ::
    "agent_env \<Rightarrow> hitl_config \<Rightarrow> agent_request \<Rightarrow> agent_context \<Rightarrow> exec_context \<Rightarrow> execution_plan \<Rightarrow>
     string option \<Rightarrow> tool_run_record list option \<Rightarrow> agent_state \<Rightarrow>
     (tool_run_record list option \<Rightarrow> agent_state \<Rightarrow> agent_response agent_prog) \<Rightarrow> agent_response agent_prog" where
  "after_tools env cfg request context ctx plan last_content tool_results state next_iteration =
     bindE (maybe_reflect env request context tool_results last_content plan state)
       (\<lambda>(state, should_finalize, retry_plan).
     bindE (case retry_plan of
              None \<Rightarrow> ok (state, tool_results)
            | Some again \<Rightarrow> bindE (at_state state (execute_tool_plan env cfg request context ctx again state))
                (\<lambda>(state, retry_results). ok (state, keep_results retry_results tool_results))) (\<lambda>(state, tool_results).
     if should_finalize
     then finalize_and_complete env request context
            (final_plan (''finalize-reflect-'' @ py_str_nat (as_current_iteration state)) last_content
               (as_current_iteration state)) last_content state
     else bindE (if as_status state = AgPlanning then ok state else move state AgPlanning) (next_iteration tool_results)))"

definition run_iteration ::
    "agent_env \<Rightarrow> hitl_config \<Rightarrow> agent_request \<Rightarrow> agent_context \<Rightarrow> exec_context \<Rightarrow> bool \<Rightarrow>
     (string option \<Rightarrow> tool_run_record list option \<Rightarrow> agent_state \<Rightarrow> agent_response agent_prog) \<Rightarrow>
     string option \<Rightarrow> tool_run_record list option \<Rightarrow> agent_state \<Rightarrow> agent_response agent_prog" where
  "run_iteration env cfg request context ctx resumed next_iteration last_content tool_results state =
     bindE (at_state state (case begin_iteration state of Inl e \<Rightarrow> raise (HitlAgent e) | Inr s \<Rightarrow> ok s)) (\<lambda>state.
     let iteration_index = as_current_iteration state - 1 in
     bindE (at_state state (publish (EvPlanning (ax_execution_id context) iteration_index))) (\<lambda>_.
     bindE (at_state state (plan_next env cfg request context iteration_index)) (\<lambda>plan.
     let last_content = (case pl_steps plan of [] \<Rightarrow> last_content | step # _ \<Rightarrow> ps_reasoning step) in
     bindE (move state AgExecuting) (\<lambda>state.
     if pl_is_final plan
     then finalize_and_complete env request context plan last_content state
     else bindE (at_state state (execute_tool_plan env cfg request context ctx plan state)) (\<lambda>(state, plan_results).
          after_tools env cfg request context ctx plan last_content
            (if resumed then keep_results plan_results tool_results else plan_results) state
            (next_iteration last_content))))))"

definition finish_at_limit ::
    "agent_env \<Rightarrow> agent_request \<Rightarrow> agent_context \<Rightarrow> string option \<Rightarrow> agent_state \<Rightarrow> agent_response agent_prog" where
  "finish_at_limit env request context last_content state =
     (let limit_plan = build_iteration_limit_plan (as_current_iteration state) in
      bindE (move (mark_iteration_limit_reached state) AgExecuting) (\<lambda>state.
      finalize_and_complete env request context limit_plan last_content state))"

text \<open>The \<open>while\<close> loop; as many rounds as iterations remain are enough.\<close>

primrec agent_loop ::
    "agent_env \<Rightarrow> hitl_config \<Rightarrow> agent_request \<Rightarrow> agent_context \<Rightarrow> exec_context \<Rightarrow> bool \<Rightarrow> nat \<Rightarrow>
     string option \<Rightarrow> tool_run_record list option \<Rightarrow> agent_state \<Rightarrow> agent_response agent_prog" where
  "agent_loop env cfg request context ctx resumed 0 =
     (\<lambda>last_content tool_results state. finish_at_limit env request context last_content state)"
| "agent_loop env cfg request context ctx resumed (Suc n) =
     (\<lambda>last_content tool_results state.
       if has_remaining_iterations state
       then run_iteration env cfg request context ctx resumed
              (agent_loop env cfg request context ctx resumed n) last_content tool_results state
       else finish_at_limit env request context last_content state)"

definition remaining_iterations :: "agent_state \<Rightarrow> nat" where
  "remaining_iterations state = as_max_iterations state - as_current_iteration state"

definition waiting_approval_response :: "agent_approval \<Rightarrow> agent_state \<Rightarrow> agent_response hitl_prog" where
  "waiting_approval_response approval state =
     (case transition state AgWaitingApproval None of
        Inl e \<Rightarrow> raise (HitlAgent e)
      | Inr paused \<Rightarrow> ok \<lparr>ap_content = [], ap_tools_used = as_tools_used paused,
          ap_iterations = as_current_iteration paused, ap_finish_reason = Some ''waiting_approval'',
          ap_approval_id = Some (aa_id approval)\<rparr>)"

definition scratch_remove :: "string \<Rightarrow> hitl_world \<Rightarrow> hitl_world" where
  "scratch_remove execution_id w = w\<lparr>hw_scratchpads := filter (\<lambda>(k, _). k \<noteq> execution_id) (hw_scratchpads w)\<rparr>"

text \<open>The exception handlers and the \<open>finally\<close> of \<open>run\<close> and \<open>resume_from_approval\<close>.\<close>

definition guarded :: "string \<Rightarrow> agent_response agent_prog \<Rightarrow> agent_response hitl_prog" where
  "guarded execution_id body =
     bindP (bindP body (\<lambda>r.
       (case r of
          Inr response \<Rightarrow> ok response
        | Inl (ApprovalPause approval, state) \<Rightarrow> waiting_approval_response approval state
        | Inl (HitlAgent e, _) \<Rightarrow>
            bindE (publish (EvError execution_id ''agent_error'' (agent_error_message e))) (\<lambda>_. raise (HitlAgent e))
        | Inl (e, _) \<Rightarrow>
            bindE (publish (EvError execution_id ''agent_error'' ''Agent execution failed.'')) (\<lambda>_. raise e)))) (\<lambda>outcome.
     bindP (doP (scratch_remove execution_id)) (\<lambda>_. Ret outcome))"

definition initial_agent_state :: "agent_context \<Rightarrow> agent_settings \<Rightarrow> agent_state" where
  "initial_agent_state context config =
     \<lparr>as_execution_id = ax_execution_id context, as_status = AgCreated, as_current_iteration = 0,
      as_max_iterations = cf_max_iterations config, as_tools_used = [], as_reflection_count = 0, as_retry_count = 0,
      as_parallel_tools_count = 0, as_iteration_limit_reached = False, as_error_message = None,
      as_metadata = ax_metadata context\<rparr>"

definition scratch_create :: "string \<Rightarrow> unit hitl_op" where
  "scratch_create execution_id w =
     (if dict_get (hw_scratchpads w) execution_id \<noteq> None
      then (w, Inl (HitlAgent (AgentOther (''Scratchpad already exists for execution '' @ quoted execution_id @ ''.''))))
      else (w\<lparr>hw_scratchpads := dict_put execution_id [] (hw_scratchpads w)\<rparr>, Inr ()))"

definition agent_run ::
    "agent_env \<Rightarrow> hitl_config \<Rightarrow> agent_request \<Rightarrow> agent_context \<Rightarrow> exec_context \<Rightarrow> agent_response hitl_prog" where
  "agent_run env cfg request context ctx =
     (let execution_id = ax_execution_id context; state = initial_agent_state context (request_settings request) in
      bindE (opP (scratch_create execution_id)) (\<lambda>_.
      bindE (doP (scratch_append execution_id (map message_entry (aq_messages request)))) (\<lambda>_.
      guarded execution_id (
        bindE (at_state state (publish (EvStart execution_id))) (\<lambda>_.
        bindE (move state AgPlanning) (\<lambda>state.
        agent_loop env cfg request context ctx False (remaining_iterations state) None None state))))))"

subsection \<open>Resuming\<close>

definition resume_context :: "agent_resumption \<Rightarrow> agent_context" where
  "resume_context n = \<lparr>ax_execution_id = an_execution_id n,
     ax_caller = Some (user_context (an_caller n)), ax_allowed_tool_names = None,
     ax_session_id = Some (an_session_id n), ax_metadata = []\<rparr>"

definition resume_exec_context :: "agent_resumption \<Rightarrow> exec_context" where
  "resume_exec_context n = \<lparr>ec_caller = user_context (an_caller n), ec_workspace = None, ec_tenant = None,
     ec_estimated_cost = None\<rparr>"

definition resume_plan :: "agent_state \<Rightarrow> execution_plan" where
  "resume_plan state = \<lparr>pl_steps = [\<lparr>ps_step_id = ''resume-post-approval'', ps_action = ToolCallStep, ps_tool_calls = [],
     ps_depends_on = [], ps_reasoning = None\<rparr>], pl_iteration = as_current_iteration state, pl_is_final = False\<rparr>"

definition agent_resume :: "agent_env \<Rightarrow> hitl_config \<Rightarrow> agent_resumption \<Rightarrow> agent_response hitl_prog" where
  "agent_resume env cfg n =
     (let request = an_request n; context = resume_context n; ctx = resume_exec_context n in
      guarded (an_execution_id n) (
        bindE (move (an_state n) AgPlanning) (\<lambda>state.
        bindE (move state AgExecuting) (\<lambda>state.
        after_tools env cfg request context ctx (resume_plan state) (an_last_planner_content n)
          (Some (an_results n)) state (\<lambda>tool_results state.
            agent_loop env cfg request context ctx True (remaining_iterations state)
              (an_last_planner_content n) tool_results state)))))"

text \<open>The executor that continues a paused agent is this one.\<close>

definition with_agent :: "agent_env \<Rightarrow> hitl_config \<Rightarrow> hitl_config" where
  "with_agent env cfg = cfg\<lparr>hc_resume := agent_resume env cfg\<rparr>"

subsection \<open>The default agent\<close>

definition metadata_string :: "pyval dict \<Rightarrow> string \<Rightarrow> string option" where
  "metadata_string md key = (case dict_get md key of Some (PStr s) \<Rightarrow> Some s | _ \<Rightarrow> None)"

definition resolve_tool_context :: "agent_context \<Rightarrow> exec_context" where
  "resolve_tool_context context =
     \<lparr>ec_caller = (case ax_caller context of Some c \<Rightarrow> c | None \<Rightarrow> \<lparr>tc_kind = ''guest'', tc_user_id = None\<rparr>),
      ec_workspace = metadata_string (ax_metadata context) ''workspace'',
      ec_tenant = metadata_string (ax_metadata context) ''tenant'',
      ec_estimated_cost = (case dict_get (ax_metadata context) ''estimated_cost'' of
          Some x \<Rightarrow> py_number x | None \<Rightarrow> None)\<rparr>"

definition default_agent_run ::
    "agent_env \<Rightarrow> hitl_config \<Rightarrow> agent_request \<Rightarrow> agent_context \<Rightarrow> agent_response hitl_prog" where
  "default_agent_run env cfg request context =
     agent_run env cfg request context (resolve_tool_context context)"

end
