(* ===== verification/Agent_Safety.thy ===== *)
theory Agent_Safety
  imports Agent_Runtime Hitl_Requests
begin

section \<open>The agent keeps the contract of approvals\<close>

text \<open>
  Whatever an agent does to approvals is a pause. So every program of the agent keeps the contract of
  \<open>Hitl_Safety\<close>, and the agent is an executor that the approval service may resume (\<open>resumer_ok\<close>): in a
  pool of requests, agent runs included, approvals evolve as \<open>Hitl_Safety\<close> says.
\<close>

abbreviation agent_safe :: "tool_registry option \<Rightarrow> (hitl_world, 'a) prog \<Rightarrow> bool" where
  "agent_safe registry p \<equiv> safe_when (hitl_evolve registry) (hitl_ok registry) p"

lemma safe_lift [hitl_safe_intros]: "agent_safe registry p \<Longrightarrow> agent_safe registry (lift_error h p)"
  unfolding lift_error_def by (intro hitl_safe_intros)

lemma safe_at_state [hitl_safe_intros]: "agent_safe registry p \<Longrightarrow> agent_safe registry (at_state state p)"
  unfolding at_state_def by (intro hitl_safe_intros)

lemma safe_move [hitl_safe_intros]: "agent_safe registry (move state target)"
  unfolding move_def by (intro hitl_safe_intros)

lemma safe_retry_more [hitl_safe_intros]: "agent_safe registry p \<Longrightarrow> agent_safe registry (retry_more retryable p n)"
  by (induction n) (auto intro!: hitl_safe_intros)

lemma safe_retry_operation [hitl_safe_intros]: "agent_safe registry p \<Longrightarrow> agent_safe registry (retry_operation retryable n p)"
  unfolding retry_operation_def by (intro hitl_safe_intros)

lemma hitl_evolve_agent:
  "hitl_evolve registry w (w\<lparr>hw_llm_calls := n\<rparr>)"
  "hitl_evolve registry w (scratch_remove e w)"
  "hitl_evolve registry w (fst (scratch_create e w))"
  by (auto simp: scratch_remove_def scratch_create_def intro!: hitl_evolve_same)

lemma safe_llm_call [hitl_safe_intros]: "agent_safe registry (llm_call answer)"
  unfolding llm_call_def by (rule safe_opP) (simp add: hitl_evolve_agent)

lemma safe_retried_llm_call [hitl_safe_intros]: "agent_safe registry (retried_llm_call request answer)"
  unfolding retried_llm_call_def by (intro hitl_safe_intros)

lemma safe_scratchpad_messages [hitl_safe_intros]: "agent_safe registry (scratchpad_messages e)"
  unfolding scratchpad_messages_def by (intro hitl_safe_intros)

lemma safe_draw_uuid [hitl_safe_intros]: "agent_safe registry (opP draw_uuid)"
  by (rule safe_opP) (rule hitl_evolve_kept)

lemma safe_plan_next [hitl_safe_intros]: "agent_safe registry (plan_next env cfg request context iteration)"
  unfolding plan_next_def conversation_messages_def Let_def by (intro hitl_safe_intros hitl_evolve_kept)

lemma agent_forP [hitl_safe_intros]: "(\<And>x. agent_safe registry (f x)) \<Longrightarrow> agent_safe registry (forP f xs)"
  by (rule approvals.forP)

lemma safe_pause_for [hitl_safe_intros]: "agent_safe registry (pause_for env cfg request context state step stages)"
  unfolding pause_for_def by (intro hitl_safe_intros)

lemma safe_preflight [hitl_safe_intros]:
  "agent_safe registry (preflight_approval_for_steps env cfg request context ctx state steps)"
  unfolding preflight_approval_for_steps_def maybe_pause_for_approval_def caller_role_def
  by (intro hitl_safe_intros)

lemma safe_execute_with_retry [hitl_safe_intros]: "agent_safe registry (execute_with_retry cfg ctx call)"
  unfolding execute_with_retry_def attempt_tool_def by (intro hitl_safe_intros)

lemma safe_run_single_tool [hitl_safe_intros]: "agent_safe registry (run_single_tool env cfg e ctx step_id call)"
  unfolding run_single_tool_def Let_def by (intro hitl_safe_intros)

lemma safe_run_calls [hitl_safe_intros]: "agent_safe registry (run_calls env cfg e ctx step_id calls)"
  by (induction calls) (auto intro!: hitl_safe_intros)

lemma safe_run_steps [hitl_safe_intros]: "agent_safe registry (run_steps env cfg e ctx steps)"
  by (induction steps) (auto intro!: hitl_safe_intros)

lemma safe_run_tool_steps [hitl_safe_intros]:
  "agent_safe registry (run_tool_steps env cfg request context ctx state steps)"
  unfolding run_tool_steps_def by (intro hitl_safe_intros)

lemma safe_record_tool_results [hitl_safe_intros]: "agent_safe registry (record_tool_results cfg e records)"
  unfolding record_tool_results_def by (intro hitl_safe_intros hitl_evolve_kept)

lemma safe_execute_tool_plan [hitl_safe_intros]:
  "agent_safe registry (execute_tool_plan env cfg request context ctx plan state)"
  unfolding execute_tool_plan_def Let_def by (intro hitl_safe_intros hitl_evolve_kept)

lemma safe_publish_tokens [hitl_safe_intros]: "agent_safe registry (publish_tokens e tokens)"
  unfolding publish_tokens_def by (intro hitl_safe_intros)

lemma safe_stream_final_answer [hitl_safe_intros]: "agent_safe registry (stream_final_answer env request e)"
  unfolding stream_final_answer_def Let_def by (intro hitl_safe_intros safe_opP) (simp add: hitl_evolve_agent)

lemma safe_finalize_execution [hitl_safe_intros]: "agent_safe registry (finalize_execution env request e plan said)"
  unfolding finalize_execution_def Let_def by (intro hitl_safe_intros)

lemma safe_finalize_and_complete [hitl_safe_intros]:
  "agent_safe registry (finalize_and_complete env request context plan said state)"
  unfolding finalize_and_complete_def by (intro hitl_safe_intros)

lemma safe_reflect [hitl_safe_intros]: "agent_safe registry (reflect env request e results content)"
  unfolding reflect_def reflect_with_llm_def Let_def by (intro hitl_safe_intros)

lemma safe_decision [hitl_safe_intros]:
  "agent_safe registry p \<Longrightarrow> agent_safe registry q \<Longrightarrow> agent_safe registry r \<Longrightarrow> agent_safe registry s \<Longrightarrow>
   agent_safe registry (case_reflection_decision p q r s d)"
  by (cases d) simp_all

lemma safe_maybe_reflect [hitl_safe_intros]:
  "agent_safe registry (maybe_reflect env request context results content plan state)"
  unfolding maybe_reflect_def Let_def by (intro hitl_safe_intros)

lemma safe_after_tools [hitl_safe_intros]:
  assumes "\<And>results state. agent_safe registry (next_iteration results state)"
  shows "agent_safe registry (after_tools env cfg request context ctx plan said results state next_iteration)"
  unfolding after_tools_def by (intro hitl_safe_intros assms)

lemma safe_run_iteration:
  assumes "\<And>said results state. agent_safe registry (next_iteration said results state)"
  shows "agent_safe registry (run_iteration env cfg request context ctx resumed next_iteration said results state)"
  unfolding run_iteration_def Let_def by (intro hitl_safe_intros assms)

lemma safe_finish_at_limit [hitl_safe_intros]: "agent_safe registry (finish_at_limit env request context said state)"
  unfolding finish_at_limit_def Let_def by (intro hitl_safe_intros)

lemma safe_agent_loop [hitl_safe_intros]:
  "agent_safe registry (agent_loop env cfg request context ctx resumed n said results state)"
  by (induction n arbitrary: said results state) (auto intro!: hitl_safe_intros safe_run_iteration)

lemma safe_waiting_approval_response [hitl_safe_intros]: "agent_safe registry (waiting_approval_response a state)"
  unfolding waiting_approval_response_def by (intro hitl_safe_intros)

lemma safe_handle [hitl_safe_intros]:
  assumes "\<And>a. agent_safe registry (p a)" and "\<And>e. agent_safe registry (q e)" and "\<And>e. agent_safe registry (r e)"
  shows "agent_safe registry (case e of ApprovalPause a \<Rightarrow> p a | HitlAgent e \<Rightarrow> q e | _ \<Rightarrow> r e)"
  using assms by (cases e) simp_all

lemma safe_guarded [hitl_safe_intros]:
  assumes "agent_safe registry body"
  shows "agent_safe registry (guarded e body)"
proof -
  have handler: "agent_safe registry (case r of Inr response \<Rightarrow> ok response
      | Inl (ApprovalPause approval, state) \<Rightarrow> waiting_approval_response approval state
      | Inl (HitlAgent err, _) \<Rightarrow> bindE (publish (EvError e ''agent_error'' (agent_error_message err))) (\<lambda>_. raise (HitlAgent err))
      | Inl (err, _) \<Rightarrow> bindE (publish (EvError e ''agent_error'' ''Agent execution failed.'')) (\<lambda>_. raise err))" for r
  proof (cases r)
    case (Inl x)
    then show ?thesis by (cases x, cases "fst x") (auto intro!: hitl_safe_intros)
  next
    case (Inr response)
    then show ?thesis by (simp add: safe_when_Ret)
  qed
  show ?thesis unfolding guarded_def
    by (intro approvals.bindP assms handler safe_doP hitl_evolve_agent safe_when_Ret)
qed

lemma safe_agent_run: "agent_safe registry (agent_run env cfg request context ctx)"
  unfolding agent_run_def Let_def by (intro hitl_safe_intros safe_opP hitl_evolve_agent hitl_evolve_kept)

lemma safe_agent_resume: "agent_safe registry (agent_resume env cfg n)"
  unfolding agent_resume_def Let_def by (intro hitl_safe_intros)

lemma with_agent_resumer_ok: "resumer_ok (with_agent env cfg)"
  by (simp add: resumer_ok_def with_agent_def safe_agent_resume)

subsection \<open>Requests and agent runs together\<close>

datatype platform_task = Request hitl_request | RunAgent agent_request agent_context

fun serve_platform :: "agent_env \<Rightarrow> hitl_config \<Rightarrow> platform_task \<Rightarrow> unit hitl_prog" where
  "serve_platform env cfg (Request req) = serve_hitl (with_agent env cfg) req"
| "serve_platform env cfg (RunAgent request context) = forget (in_transaction (default_agent_run env cfg request context))"

lemma platform_pool:
  assumes "pool_step\<^sup>*\<^sup>* (w, map (serve_platform env cfg) tasks) (v, ps)" and "hitl_ok (hc_registry cfg) w"
  shows "hitl_evolve (hc_registry cfg) w v"
proof (rule approvals.pool [OF assms])
  have reg: "hc_registry (with_agent env cfg) = hc_registry cfg" by (simp add: with_agent_def)
  fix p
  assume "p \<in> set (map (serve_platform env cfg) tasks)"
  then obtain task where "p = serve_platform env cfg task" by auto
  then show "agent_safe (hc_registry cfg) p"
    using safe_serve_hitl [OF with_agent_resumer_ok, of env cfg]
    by (cases task) (auto simp: reg default_agent_run_def intro!: hitl_safe_intros safe_agent_run)
qed

end
