(* ===== verification/Agent_Tools.thy ===== *)
theory Agent_Tools
  imports Agent_Batches Agent_Safety Guarantee
begin

section \<open>Which tools an agent calls\<close>

text \<open>
  \<open>calls_by P\<close> relates two states when the handler calls made in between all lie in \<open>P\<close>. Only the tool executor makes
  any, and it makes at most the call it is given, with arguments normalized by the handler. An agent with approvals
  switched on calls the handlers of steps that \<open>preflight_approval_for_steps\<close> let pass, each of whose calls the policy
  approves by itself (\<open>auto_approved\<close>). The facts are about single actions: they hold whatever others do in between.
\<close>

definition calls_by :: "(string \<times> pyval dict) set \<Rightarrow> hitl_world \<Rightarrow> hitl_world \<Rightarrow> bool" where
  "calls_by P w v \<longleftrightarrow> (\<exists>new. xw_calls (hw_tools v) = xw_calls (hw_tools w) @ new \<and> set new \<subseteq> P)"

abbreviation only_calls :: "(string \<times> pyval dict) set \<Rightarrow> (hitl_world, 'a) prog \<Rightarrow> bool" where
  "only_calls P p \<equiv> acts (calls_by P) p"

lemma calls_by_same: "hw_tools v = hw_tools w \<Longrightarrow> calls_by P w v"
  by (simp add: calls_by_def)

lemma calls_by_refl: "calls_by P w w"
  by (rule calls_by_same) simp

lemma calls_by_trans: "calls_by P u v \<Longrightarrow> calls_by P v w \<Longrightarrow> calls_by P u w"
  by (fastforce simp: calls_by_def)

lemma calls_by_mono: "calls_by P w v \<Longrightarrow> P \<subseteq> P' \<Longrightarrow> calls_by P' w v"
  by (auto simp: calls_by_def)

subsection \<open>The tool executor\<close>

definition tool_calls_by :: "(string \<times> pyval dict) set \<Rightarrow> tool_world \<Rightarrow> tool_world \<Rightarrow> bool" where
  "tool_calls_by P w v \<longleftrightarrow> (\<exists>new. xw_calls v = xw_calls w @ new \<and> set new \<subseteq> P)"

lemma only_run_tools: "acts (tool_calls_by P) p \<Longrightarrow> only_calls P (run_tools p)"
  unfolding run_tools_def lift_error_def
  by (intro acts_intros) (auto intro!: acts_zoom simp: tool_calls_by_def calls_by_def put_tools_def)

lemma tool_acts_parts [acts_intros]:
  "acts (tool_calls_by P) (zoom xw_rbac put_rbac p)" "acts (tool_calls_by P) (zoom xw_rate put_rate q)"
  "acts (tool_calls_by P) (zoom xw_quota put_quota r)"
  by (rule acts_zoom_any, simp add: tool_calls_by_def)+

lemma acts_lift_error [acts_intros]: "acts G p \<Longrightarrow> acts G (lift_error h p)"
  unfolding lift_error_def by (intro acts_intros)

lemma acts_readP [acts_intros]: "(\<And>s. G s s) \<Longrightarrow> acts G (readP f)"
  by (simp add: readP_def)

lemma tool_acts_finalize [acts_intros]: "acts (tool_calls_by P) (finalize call r)"
  unfolding finalize_def Let_def by (intro acts_intros) (simp add: tool_calls_by_def)

lemma tool_acts_run_handler:
  "(tl_name call, args) \<in> P \<Longrightarrow> acts (tool_calls_by P) (run_handler handler call args)"
  unfolding run_handler_def call_handler_def
  by (intro acts_intros) (auto simp: tool_calls_by_def split: tool_outcome.split intro: acts_intros)

definition handler_call :: "tool_config \<Rightarrow> string \<Rightarrow> pyval dict \<Rightarrow> string \<times> pyval dict \<Rightarrow> bool" where
  "handler_call cfg name arguments c \<longleftrightarrow> (\<exists>tool handler. registry_get (xc_registry cfg) name = Some tool \<and>
     xc_handler cfg name = Some handler \<and> c = (name, normalize_handler_arguments handler arguments))"

lemma acts_tool_type_outcome [acts_intros]:
  "(\<And>a. x = ToolReturned a \<Longrightarrow> acts G (f a)) \<Longrightarrow> acts G p \<Longrightarrow> acts G q \<Longrightarrow> acts G (case_tool_outcome f p q x)"
  by (cases x) simp_all

lemma only_execute_tool:
  assumes "{c. handler_call cfg (tl_name call) (tl_arguments call) c} \<subseteq> P"
  shows "only_calls P (run_tools (execute_tool cfg call ctx))"
proof (rule only_run_tools)
  show "acts (tool_calls_by P) (execute_tool cfg call ctx)"
    unfolding execute_tool_def authorizer_def rbac_authorize_def throttle_def Let_def
    by (intro acts_intros tool_acts_run_handler) (use assms in \<open>auto simp: handler_call_def tool_calls_by_def\<close>)
qed

lemma only_no_handler [acts_intros]:
  "only_calls P (hitl_authorize cfg u p)" "only_calls P (decision_throttle cfg u)" "only_calls P (caller_role env cfg ctx)"
  unfolding hitl_authorize_def decision_throttle_def caller_role_def
  by (intro acts_intros only_run_tools; simp add: tool_calls_by_def)+

subsection \<open>Everything else\<close>

lemma tools_kept [simp]:
  "hw_tools (fst (draw_uuid w)) = hw_tools w"
  "hw_tools (fst (create_approval d mk w)) = hw_tools w"
  "hw_tools (fst (allocate_seq sid w)) = hw_tools w"
  "hw_tools (fst (add_message sid n role content prov model status fin cl pend w)) = hw_tools w"
  "hw_tools (mark_last_message_at sid w) = hw_tools w"
  "hw_tools (update_message m c st f p cp w) = hw_tools w"
  "hw_tools (fst (link_pending_message d i m w)) = hw_tools w"
  "hw_tools (scratch_reset e es w) = hw_tools w"
  "hw_tools (scratch_append e es w) = hw_tools w"
  "hw_tools (scratch_remove e w) = hw_tools w"
  "hw_tools (fst (scratch_create e w)) = hw_tools w"
  "hw_tools (update_approval i hits upd w) = hw_tools w"
  by (simp_all add: draw_uuid_def create_approval_def allocate_seq_def add_message_def mark_last_message_at_def
      update_message_def link_pending_message_def scratch_reset_def scratch_append_def scratch_remove_def
      scratch_create_def update_approval_def Let_def split: option.split)

lemma only_op [acts_intros]:
  "(\<And>w. hw_tools (fst (f w)) = hw_tools w) \<Longrightarrow> only_calls P (opP f)"
  by (rule acts_opP) (simp add: calls_by_same)

lemma only_doP [acts_intros]: "(\<And>w. hw_tools (f w) = hw_tools w) \<Longrightarrow> only_calls P (doP f)"
  unfolding doP_def by (rule only_op) simp

lemma only_readP [acts_intros]: "only_calls P (readP f)"
  by (rule acts_readP) (rule calls_by_refl)

lemma only_publish [acts_intros]: "only_calls P (publish e)"
  unfolding publish_def by (rule only_doP) simp

lemma acts_catch [acts_intros]: "acts G p \<Longrightarrow> (\<And>e. acts G (h e)) \<Longrightarrow> acts G (catch p h)"
  unfolding catch_def by (intro acts_intros)

lemma acts_retry_more: "acts G p \<Longrightarrow> acts G (retry_more retryable p n)"
  by (induction n) (auto intro!: acts_intros)

lemma only_llm [acts_intros]: "only_calls P (retried_llm_call request answer)"
  unfolding retried_llm_call_def retry_operation_def llm_call_def by (intro acts_retry_more only_op) simp

lemma only_scratchpad_messages [acts_intros]: "only_calls P (scratchpad_messages e)"
  unfolding scratchpad_messages_def by (intro acts_intros)

lemma only_plan_next [acts_intros]: "only_calls P (plan_next env cfg request context iteration)"
  unfolding plan_next_def conversation_messages_def Let_def by (intro acts_intros) simp_all

lemma only_pause [acts_intros]: "only_calls P (pause cfg q)"
  unfolding pause_def Let_def by (intro acts_intros) simp_all

lemma only_preflight [acts_intros]:
  "only_calls P (preflight_approval_for_steps env cfg request context ctx state steps)"
  unfolding preflight_approval_for_steps_def maybe_pause_for_approval_def pause_for_def by (intro acts_intros)

lemma only_record_tool_results [acts_intros]: "only_calls P (record_tool_results cfg e records)"
  unfolding record_tool_results_def by (intro acts_intros) simp

lemma only_publish_tokens [acts_intros]: "only_calls P (publish_tokens e tokens)"
  unfolding publish_tokens_def by (intro acts_intros)

lemma only_finalize_execution [acts_intros]: "only_calls P (finalize_execution env request e plan said)"
  unfolding finalize_execution_def stream_final_answer_def Let_def by (intro acts_intros) simp_all

lemma acts_at_state [acts_intros]: "acts G p \<Longrightarrow> acts G (at_state state p)"
  unfolding at_state_def by (intro acts_intros)

lemma acts_move [acts_intros]: "acts G (move state target)"
  unfolding move_def by (intro acts_intros)

lemma only_finalize_and_complete [acts_intros]:
  "only_calls P (finalize_and_complete env request context plan said state)"
  unfolding finalize_and_complete_def by (intro acts_intros)

lemma acts_decision [acts_intros]:
  "acts G p \<Longrightarrow> acts G q \<Longrightarrow> acts G r \<Longrightarrow> acts G s \<Longrightarrow> acts G (case_reflection_decision p q r s d)"
  by (cases d) simp_all

lemma only_reflect [acts_intros]: "only_calls P (reflect env request e results content)"
  unfolding reflect_def reflect_with_llm_def Let_def by (intro acts_intros)

lemma only_maybe_reflect [acts_intros]: "only_calls P (maybe_reflect env request context results content plan state)"
  unfolding maybe_reflect_def Let_def
  by (intro acts_intros)

subsection \<open>Steps that passed the policy\<close>

definition auto_approved ::
    "agent_env \<Rightarrow> hitl_config \<Rightarrow> exec_context \<Rightarrow> string \<Rightarrow> pyval dict \<Rightarrow> bool" where
  "auto_approved env cfg ctx name arguments \<longleftrightarrow> (\<exists>policy tool role. ae_policy env = Some policy \<and>
     registry_get (xc_registry (hc_tools cfg)) name = Some tool \<and>
     pd_outcome (call_decision env policy ctx role tool arguments) = AutoApprove)"

definition approved_calls :: "agent_env \<Rightarrow> hitl_config \<Rightarrow> exec_context \<Rightarrow> (string \<times> pyval dict) set" where
  "approved_calls env cfg ctx = {c. \<exists>name arguments. auto_approved env cfg ctx name arguments \<and>
     handler_call (hc_tools cfg) name arguments c}"

lemma evaluate_step_policy_None:
  "evaluate_step_policy registry decide_call pending calls = None \<Longrightarrow> pending = None \<and>
   (\<forall>call\<in>set calls. \<forall>tool. registry_get registry (tl_name call) = Some tool \<longrightarrow>
      pd_outcome (decide_call tool (tl_arguments call)) = AutoApprove)"
proof (induction calls arbitrary: pending)
  case (Cons call calls)
  show ?case
  proof (cases "registry_get registry (tl_name call)")
    case None
    with Cons.prems Cons.IH [of pending] show ?thesis by simp
  next
    case (Some tool)
    have "pd_outcome (decide_call tool (tl_arguments call)) = AutoApprove"
    proof (rule ccontr)
      assume "pd_outcome (decide_call tool (tl_arguments call)) \<noteq> AutoApprove"
      moreover have "evaluate_step_policy registry decide_call (Some p) calls = None \<Longrightarrow> False" for p
        using Cons.IH [of "Some p"] by blast
      ultimately show False
        using Cons.prems Some by (cases pending) (auto simp: Let_def split: if_splits)
    qed
    with Some Cons.prems Cons.IH [of pending] show ?thesis by (simp add: Let_def)
  qed
qed simp

lemma evaluate_step_policy_Some:
  "evaluate_step_policy registry decide_call pending calls = Some found \<Longrightarrow>
   (\<And>p. pending = Some p \<Longrightarrow> so_outcome p \<noteq> AutoApprove) \<Longrightarrow> so_outcome found \<noteq> AutoApprove"
proof (induction calls arbitrary: pending)
  case (Cons call calls)
  show ?case
  proof (cases "registry_get registry (tl_name call)")
    case None
    with Cons.prems Cons.IH [of pending] show ?thesis by simp
  next
    case (Some tool)
    let ?d = "decide_call tool (tl_arguments call)"
    let ?f = "\<lparr>so_tool_name = td_name tool, so_outcome = pd_outcome ?d, so_matched_rule = pd_matched_rule ?d,
      so_required_stages = pd_required_stages ?d\<rparr>"
    consider "pd_outcome ?d = AutoApprove" | "pd_outcome ?d = RejectCall" | "pd_outcome ?d \<noteq> AutoApprove" "pd_outcome ?d \<noteq> RejectCall"
      by blast
    then show ?thesis
    proof cases
      case 1
      with Some Cons.prems Cons.IH [of pending] show ?thesis by (simp add: Let_def)
    next
      case 2
      with Some Cons.prems(1) show ?thesis by (auto simp: Let_def)
    next
      case 3
      with Some Cons.prems Cons.IH [of "case pending of Some p \<Rightarrow> Some p | None \<Rightarrow> Some ?f"]
      show ?thesis by (auto simp: Let_def split: option.splits)
    qed
  qed
qed simp

definition step_passes :: "agent_env \<Rightarrow> hitl_config \<Rightarrow> exec_context \<Rightarrow> planned_step \<Rightarrow> bool" where
  "step_passes env cfg ctx step \<longleftrightarrow> (\<forall>call\<in>set (ps_tool_calls step). \<forall>c.
     handler_call (hc_tools cfg) (tl_name call) (tl_arguments call) c \<longrightarrow> c \<in> approved_calls env cfg ctx)"

lemma leaves_pause_for: "leaves (pause_for env cfg request context state step stages) (\<lambda>r. r \<noteq> Inr ())"
  unfolding pause_for_def
  by (auto simp: leaves_bindP leaves_bindE readP_def split: option.split sum.split intro: leaves_mono [OF leaves_True])

lemma leaves_maybe_pause:
  assumes "ae_hitl_enabled env"
  shows "leaves (maybe_pause_for_approval env cfg request context ctx state step) (\<lambda>r. r = Inr () \<longrightarrow> step_passes env cfg ctx step)"
proof (cases "ae_policy env")
  case None
  with assms show ?thesis by (simp add: maybe_pause_for_approval_def)
next
  case (Some policy)
  have "leaves (case evaluate_step_policy (xc_registry (hc_tools cfg)) (call_decision env policy ctx role) None (ps_tool_calls step) of
      None \<Rightarrow> ok ()
    | Some found \<Rightarrow>
        if so_outcome found = AutoApprove then ok ()
        else if so_outcome found = RejectCall
          then raise (ToolCallRejected (so_tool_name found) (so_matched_rule found))
        else pause_for env cfg request context state step (so_required_stages found))
    (\<lambda>r. r = Inr () \<longrightarrow> step_passes env cfg ctx step)" for role
  proof (cases "evaluate_step_policy (xc_registry (hc_tools cfg)) (call_decision env policy ctx role) None (ps_tool_calls step)")
    case None
    with Some evaluate_step_policy_None [OF None] show ?thesis
      by (fastforce simp: step_passes_def approved_calls_def auto_approved_def handler_call_def)
  next
    case (Some found)
    with evaluate_step_policy_Some [OF Some] show ?thesis
      by (auto intro: leaves_mono [OF leaves_pause_for])
  qed
  with assms Some show ?thesis
    by (auto simp: maybe_pause_for_approval_def leaves_bindE split: sum.split intro: leaves_mono [OF leaves_True])
qed

lemma leaves_preflight:
  assumes "ae_hitl_enabled env"
  shows "leaves (preflight_approval_for_steps env cfg request context ctx state steps)
    (\<lambda>r. r = Inr () \<longrightarrow> (\<forall>step\<in>set steps. step_passes env cfg ctx step))"
proof -
  have empty: "step_passes env cfg ctx step" if "ps_tool_calls step = []" for step
    using that by (simp add: step_passes_def)
  show ?thesis
    unfolding preflight_approval_for_steps_def
  proof (induction steps)
    case (Cons step steps)
    show ?case
    proof (cases "ps_tool_calls step = []")
      case True
      with Cons empty show ?thesis by (auto elim: leaves_mono)
    next
      case False
      then show ?thesis
        by (auto simp: leaves_bindE split: sum.split intro!: leaves_mono [OF leaves_maybe_pause [OF assms]]
            intro: leaves_mono [OF Cons])
    qed
  qed simp
qed

lemma only_execute_with_retry:
  assumes "{c. handler_call (hc_tools cfg) (tl_name call) (tl_arguments call) c} \<subseteq> P"
  shows "only_calls P (execute_with_retry cfg ctx call)"
proof -
  have "only_calls P (attempt_tool cfg ctx call)"
    unfolding attempt_tool_def by (intro acts_intros only_execute_tool assms)
  then have "only_calls P (retry_operation isl tool_max_retries (attempt_tool cfg ctx call))"
    unfolding retry_operation_def by (rule acts_retry_more)
  then show ?thesis unfolding execute_with_retry_def by (intro acts_intros)
qed

lemma only_run_single_tool:
  assumes "{c. handler_call (hc_tools cfg) (tl_name call) (tl_arguments call) c} \<subseteq> P"
  shows "only_calls P (run_single_tool env cfg e ctx step_id call)"
  unfolding run_single_tool_def Let_def
  by (intro acts_intros only_execute_with_retry) (use assms in simp_all)

lemma only_run_calls:
  "(\<And>call. call \<in> set calls \<Longrightarrow> {c. handler_call (hc_tools cfg) (tl_name call) (tl_arguments call) c} \<subseteq> P) \<Longrightarrow>
   only_calls P (run_calls env cfg e ctx step_id calls)"
  by (induction calls) (auto intro!: acts_intros only_run_single_tool)

lemma only_run_steps:
  "(\<And>step. step \<in> set steps \<Longrightarrow> step_passes env cfg ctx step) \<Longrightarrow>
   only_calls (approved_calls env cfg ctx) (run_steps env cfg e ctx steps)"
proof (induction steps)
  case (Cons step steps)
  then have "only_calls (approved_calls env cfg ctx) (run_calls env cfg e ctx (ps_step_id step) (ps_tool_calls step))"
    by (intro only_run_calls) (auto simp: step_passes_def)
  with Cons show ?case by (auto intro!: acts_intros)
qed simp

lemma only_run_tool_steps:
  assumes "ae_hitl_enabled env"
  shows "only_calls (approved_calls env cfg ctx) (run_tool_steps env cfg request context ctx state steps)"
proof (cases "resolve_step_batches steps")
  case (Inl e)
  then show ?thesis by (simp add: run_tool_steps_def)
next
  case (Inr batches)
  have sub: "set (concat batches) \<subseteq> set steps"
    using resolve_step_batches_Inr(1) [OF Inr] by (metis filter_is_subset set_mset_mset)
  then have "leaves (preflight_approval_for_steps env cfg request context ctx state steps)
      (\<lambda>r. case r of Inl _ \<Rightarrow> True | Inr _ \<Rightarrow>
        only_calls (approved_calls env cfg ctx) (run_steps env cfg (ax_execution_id context) ctx (concat batches)))"
    by (intro leaves_mono [OF leaves_preflight [OF assms]]) (use sub in \<open>fastforce split: sum.split intro!: only_run_steps\<close>)
  then show ?thesis by (simp add: run_tool_steps_def Inr acts_afterE only_preflight)
qed

subsection \<open>Agents\<close>

lemma only_execute_tool_plan:
  assumes "ae_hitl_enabled env"
  shows "only_calls (approved_calls env cfg ctx) (execute_tool_plan env cfg request context ctx plan state)"
  unfolding execute_tool_plan_def Let_def by (intro acts_intros only_run_tool_steps assms) simp_all

lemma only_after_tools:
  assumes "ae_hitl_enabled env" and "\<And>results state. only_calls (approved_calls env cfg ctx) (next_iteration results state)"
  shows "only_calls (approved_calls env cfg ctx)
    (after_tools env cfg request context ctx plan said results state next_iteration)"
  unfolding after_tools_def by (intro acts_intros only_execute_tool_plan assms)

lemma only_agent_loop:
  assumes "ae_hitl_enabled env"
  shows "only_calls (approved_calls env cfg ctx) (agent_loop env cfg request context ctx resumed n said results state)"
proof -
  have limit: "only_calls (approved_calls env cfg ctx) (finish_at_limit env request context said state)" for said state
    unfolding finish_at_limit_def Let_def by (intro acts_intros)
  show ?thesis
  proof (induction n arbitrary: said results state)
    case (Suc n)
    have "only_calls (approved_calls env cfg ctx) (run_iteration env cfg request context ctx resumed
        (agent_loop env cfg request context ctx resumed n) said results state)"
      unfolding run_iteration_def Let_def
      by (intro acts_intros only_execute_tool_plan only_after_tools Suc assms)
    with limit show ?case by simp
  qed (simp add: limit)
qed

lemma only_guarded:
  assumes "only_calls P body"
  shows "only_calls P (guarded e body)"
proof -
  have handler: "only_calls P (case r :: (hitl_exn \<times> agent_state) + agent_response of Inr response \<Rightarrow> ok response
      | Inl (ApprovalPause approval, state) \<Rightarrow> waiting_approval_response approval state
      | Inl (HitlAgent err, _) \<Rightarrow> bindE (publish (EvError e ''agent_error'' (agent_error_message err))) (\<lambda>_. raise (HitlAgent err))
      | Inl (err, _) \<Rightarrow> bindE (publish (EvError e ''agent_error'' ''Agent execution failed.'')) (\<lambda>_. raise err))" for r
  proof (cases r)
    case (Inl x)
    obtain err state where "x = (err, state)" by fastforce
    with Inl show ?thesis by (cases err) (auto simp: waiting_approval_response_def intro!: acts_intros)
  qed simp
  show ?thesis unfolding guarded_def by (intro acts_bindP assms handler only_doP acts_Ret) simp
qed

lemma only_agent_run:
  assumes "ae_hitl_enabled env"
  shows "only_calls (approved_calls env cfg ctx) (agent_run env cfg request context ctx)"
  unfolding agent_run_def Let_def by (intro acts_intros only_guarded only_agent_loop assms) simp_all

lemma only_agent_resume:
  assumes "ae_hitl_enabled env"
  shows "only_calls (approved_calls env cfg (resume_exec_context n)) (agent_resume env cfg n)"
  unfolding agent_resume_def Let_def by (intro acts_intros only_guarded only_after_tools only_agent_loop assms)

end
