(* ===== verification/Agent_Trace.thy ===== *)
theory Agent_Trace
  imports Agent_Safety Hitl_Correct
begin

section \<open>What an agent publishes and leaves behind\<close>

text \<open>
  A program of the agent that runs alone: \<open>traced\<close> says which events it publishes, in which state it ends, and
  with which result, given the invariant of approvals. Most parts of the agent are \<open>calm\<close>: they publish neither
  tokens nor planning or completion events, close every tool they have started, and do not pause.
\<close>

lemma safe_exec:
  assumes "agent_safe registry p" and "hitl_ok registry w" and "exec_prog p w = (v, r)"
  shows "hitl_evolve registry w v" "hitl_ok registry v"
proof -
  have "wp (hitl_evolve registry) (hitl_evolve registry) p (\<lambda>_ t. True \<and> hitl_evolve registry w t) w"
    using safe_whenD [OF assms(1,2)] hitl_evolve_refl approvals.transp approvals.reflp by (rule wp_remember)
  from wp_exec [OF this hitl_evolve_refl] assms(3) show "hitl_evolve registry w v" by simp
  then show "hitl_ok registry v" by (rule approvals.stable [OF assms(2)])
qed

subsection \<open>Events\<close>

fun event_text :: "hitl_event \<Rightarrow> string" where
  "event_text (EvToken _ t) = t"
| "event_text _ = []"

fun event_planning :: "hitl_event \<Rightarrow> nat list" where
  "event_planning (EvPlanning _ i) = [i]"
| "event_planning _ = []"

fun event_complete :: "hitl_event \<Rightarrow> string list" where
  "event_complete (EvComplete _ reason _) = [reason]"
| "event_complete _ = []"

definition tokens_of :: "hitl_event list \<Rightarrow> string" where
  "tokens_of es = concat (map event_text es)"

definition plannings_of :: "hitl_event list \<Rightarrow> nat list" where
  "plannings_of es = concat (map event_planning es)"

definition completes_of :: "hitl_event list \<Rightarrow> string list" where
  "completes_of es = concat (map event_complete es)"

text \<open>Every start of a tool is followed at once by its end.\<close>

fun tools_closed :: "hitl_event list \<Rightarrow> bool" where
  "tools_closed [] = True"
| "tools_closed (EvToolStart e n c # es) =
     (case es of EvToolEnd e' n' c' s # rest \<Rightarrow> e' = e \<and> n' = n \<and> c' = c \<and> tools_closed rest | _ \<Rightarrow> False)"
| "tools_closed (EvToolEnd _ _ _ _ # es) = False"
| "tools_closed (_ # es) = tools_closed es"

lemma events_append [simp]:
  "tokens_of (es @ fs) = tokens_of es @ tokens_of fs"
  "plannings_of (es @ fs) = plannings_of es @ plannings_of fs"
  "completes_of (es @ fs) = completes_of es @ completes_of fs"
  by (simp_all add: tokens_of_def plannings_of_def completes_of_def)

lemma events_simps [simp]:
  "tokens_of [] = []" "plannings_of [] = []" "completes_of [] = []"
  "tokens_of (e # es) = event_text e @ tokens_of es"
  "plannings_of (e # es) = event_planning e @ plannings_of es"
  "completes_of (e # es) = event_complete e @ completes_of es"
  by (simp_all add: tokens_of_def plannings_of_def completes_of_def)

lemma tools_closed_append [simp]: "tools_closed es \<Longrightarrow> tools_closed (es @ fs) = tools_closed fs"
  by (induction es rule: tools_closed.induct) (auto split: list.splits hitl_event.splits)

lemma events_of_tokens [simp]:
  "tokens_of (map (EvToken e) ts) = concat ts" "plannings_of (map (EvToken e) ts) = []"
  "completes_of (map (EvToken e) ts) = []" "tools_closed (map (EvToken e) ts)"
  by (induction ts) simp_all

definition quiet :: "hitl_event list \<Rightarrow> bool" where
  "quiet es \<longleftrightarrow> tokens_of es = [] \<and> plannings_of es = [] \<and> completes_of es = [] \<and> tools_closed es"

lemma quiet_simps [simp]: "quiet []" "quiet es \<Longrightarrow> quiet fs \<Longrightarrow> quiet (es @ fs)"
  by (simp_all add: quiet_def)

lemma quietD:
  "quiet es \<Longrightarrow> tokens_of es = []" "quiet es \<Longrightarrow> plannings_of es = []" "quiet es \<Longrightarrow> completes_of es = []"
  "quiet es \<Longrightarrow> tools_closed es"
  by (simp_all add: quiet_def)

subsection \<open>Traces\<close>

definition traced ::
    "tool_registry option \<Rightarrow> (hitl_world, 'r) prog \<Rightarrow> ('r \<Rightarrow> hitl_event list \<Rightarrow> hitl_world \<Rightarrow> bool) \<Rightarrow> bool" where
  "traced registry p Q \<longleftrightarrow> (\<forall>w v r. hitl_ok registry w \<longrightarrow> exec_prog p w = (v, r) \<longrightarrow>
     hitl_ok registry v \<and> (\<exists>new. hw_events v = hw_events w @ new \<and> Q r new v))"

lemma tracedD:
  "traced registry p Q \<Longrightarrow> hitl_ok registry w \<Longrightarrow> exec_prog p w = (v, r) \<Longrightarrow>
   hitl_ok registry v \<and> (\<exists>new. hw_events v = hw_events w @ new \<and> Q r new v)"
  unfolding traced_def by blast

lemma traced_mono: "traced registry p Q \<Longrightarrow> (\<And>r new v. Q r new v \<Longrightarrow> Q' r new v) \<Longrightarrow> traced registry p Q'"
  unfolding traced_def by blast

lemma traced_Ret: "(\<And>v. Q r [] v) \<Longrightarrow> traced registry (Ret r) Q"
  by (simp add: traced_def)

lemma traced_bindP:
  assumes p: "traced registry p P"
    and g: "\<And>a new u. P a new u \<Longrightarrow> traced registry (g a) (\<lambda>r more v. Q r (new @ more) v)"
  shows "traced registry (bindP p g) Q"
  unfolding traced_def
proof (intro allI impI)
  fix w v r
  assume w: "hitl_ok registry w" and x: "exec_prog (bindP p g) w = (v, r)"
  obtain u a where u: "exec_prog p w = (u, a)" by fastforce
  with x have v: "exec_prog (g a) u = (v, r)" by (simp add: exec_bindP)
  from tracedD [OF p w u] obtain new where n: "hitl_ok registry u" "hw_events u = hw_events w @ new" "P a new u" by blast
  from tracedD [OF g [OF n(3)] n(1) v] n(2)
  show "hitl_ok registry v \<and> (\<exists>new. hw_events v = hw_events w @ new \<and> Q r new v)" by auto
qed

lemma traced_bindE:
  assumes p: "traced registry p P"
    and e: "\<And>e new v. P (Inl e) new v \<Longrightarrow> Q (Inl e) new v"
    and g: "\<And>a new u. P (Inr a) new u \<Longrightarrow> traced registry (g a) (\<lambda>r more v. Q r (new @ more) v)"
  shows "traced registry (bindE p g) Q"
  unfolding traced_def
proof (intro allI impI)
  fix w v r
  assume w: "hitl_ok registry w" and x: "exec_prog (bindE p g) w = (v, r)"
  obtain u a where u: "exec_prog p w = (u, a)" by fastforce
  from tracedD [OF p w u] obtain new where n: "hitl_ok registry u" "hw_events u = hw_events w @ new" "P a new u" by blast
  show "hitl_ok registry v \<and> (\<exists>new. hw_events v = hw_events w @ new \<and> Q r new v)"
  proof (cases a)
    case (Inl err)
    with u x n e show ?thesis by (auto simp: exec_bindE)
  next
    case (Inr y)
    with u x have "exec_prog (g y) u = (v, r)" by (simp add: exec_bindE)
    from tracedD [OF g [OF n(3) [unfolded Inr]] n(1) this] n(2) show ?thesis by auto
  qed
qed

lemma traced_opP:
  assumes "\<And>w. hitl_evolve registry w (fst (f w))" and "\<And>w. hw_events (fst (f w)) = hw_events w"
    and "\<And>w. Q (snd (f w)) [] (fst (f w))"
  shows "traced registry (opP f) Q"
  unfolding traced_def
proof (intro allI impI)
  fix w v r
  assume w: "hitl_ok registry w" and x: "exec_prog (opP f) w = (v, r)"
  then have f: "f w = (v, r)" by simp
  show "hitl_ok registry v \<and> (\<exists>new. hw_events v = hw_events w @ new \<and> Q r new v)"
    using assms(1-3) [of w] w unfolding f by (auto simp: hitl_evolve_def)
qed

lemma traced_readP: "(\<And>w. Q (f w) [] w) \<Longrightarrow> traced registry (readP f) Q"
  by (simp add: traced_def)

lemma traced_publish: "traced registry (publish e) (\<lambda>r new v. r = Inr () \<and> new = [e])"
  using hitl_evolve_kept(8) by (auto simp: traced_def publish_def doP_def hitl_evolve_def)

lemma traced_publish_bindE:
  "traced registry (g ()) (\<lambda>r more v. Q r (e # more) v) \<Longrightarrow> traced registry (bindE (publish e) g) Q"
  by (rule traced_bindE [OF traced_publish]) simp_all

lemma traced_prod: "(\<And>a b. x = (a, b) \<Longrightarrow> traced registry (f a b) Q) \<Longrightarrow> traced registry (case_prod f x) Q"
  by (cases x) simp

lemma traced_if:
  "(b \<Longrightarrow> traced registry p Q) \<Longrightarrow> (\<not> b \<Longrightarrow> traced registry q Q) \<Longrightarrow> traced registry (if b then p else q) Q"
  by simp

lemma traced_option:
  "(x = None \<Longrightarrow> traced registry p Q) \<Longrightarrow> (\<And>a. x = Some a \<Longrightarrow> traced registry (f a) Q) \<Longrightarrow>
   traced registry (case_option p f x) Q"
  by (cases x) simp_all

lemma traced_sum:
  "(\<And>e. x = Inl e \<Longrightarrow> traced registry (f e) Q) \<Longrightarrow> (\<And>a. x = Inr a \<Longrightarrow> traced registry (g a) Q) \<Longrightarrow>
   traced registry (case_sum f g x) Q"
  by (cases x) simp_all

lemmas traced_cases = traced_if traced_option traced_sum traced_prod

subsection \<open>Calm programs\<close>

definition unpaused :: "hitl_exn + 'a \<Rightarrow> bool" where
  "unpaused r \<longleftrightarrow> (\<forall>a. r \<noteq> Inl (ApprovalPause a))"

lemma unpaused_simps [simp]:
  "unpaused (Inr x)" "unpaused (Inl (HitlAgent e))" "unpaused (Inl (HitlTool t))" "unpaused (Inl (HitlProvider f))"
  "unpaused (Inl (HitlValueError m))" "unpaused (Inl (ToolCallRejected n k))" "unpaused (Inl (HitlMisconfigured s))"
  "unpaused (Inl (HitlUnknownSession i))"
  by (simp_all add: unpaused_def)

lemma unpaused_Inl: "unpaused (Inl e :: hitl_exn + 'a) = unpaused (Inl e :: hitl_exn + 'b)"
  by (auto simp: unpaused_def)

abbreviation calm :: "tool_registry option \<Rightarrow> 'a hitl_prog \<Rightarrow> bool" where
  "calm registry p \<equiv> traced registry p (\<lambda>r new v. quiet new \<and> unpaused r)"

named_theorems calm_intros "calm programs"

lemma calm_Ret [calm_intros]: "unpaused r \<Longrightarrow> calm registry (Ret r)"
  by (rule traced_Ret) simp

lemma calm_bindE [calm_intros]:
  assumes "calm registry p" and "\<And>a. calm registry (g a)"
  shows "calm registry (bindE p g)"
  by (rule traced_bindE [OF assms(1)]) (auto simp: unpaused_def intro: traced_mono [OF assms(2)])

lemma calm_bindP:
  assumes "traced registry p (\<lambda>r new v. quiet new)" and "\<And>a. calm registry (g a)"
  shows "calm registry (bindP p g)"
  by (rule traced_bindP [OF assms(1)]) (auto intro: traced_mono [OF assms(2)])

lemma calm_readP [calm_intros]: "(\<And>a. calm registry (g a)) \<Longrightarrow> calm registry (bindP (readP f) g)"
  by (rule calm_bindP [OF traced_readP]) simp

lemma calm_draw_uuid [calm_intros]: "(\<And>a. calm registry (g a)) \<Longrightarrow> calm registry (bindP (opP draw_uuid) g)"
  by (rule calm_bindP [OF traced_opP]) (auto simp: draw_uuid_def hitl_evolve_kept(9) [unfolded draw_uuid_def, simplified])

lemma calm_if [calm_intros]:
  "(b \<Longrightarrow> calm registry p) \<Longrightarrow> (\<not> b \<Longrightarrow> calm registry q) \<Longrightarrow> calm registry (if b then p else q)"
  by simp

lemma calm_option [calm_intros]:
  "(x = None \<Longrightarrow> calm registry p) \<Longrightarrow> (\<And>a. x = Some a \<Longrightarrow> calm registry (f a)) \<Longrightarrow> calm registry (case_option p f x)"
  by (cases x) simp_all

lemma calm_sum [calm_intros]:
  "(\<And>e. x = Inl e \<Longrightarrow> calm registry (f e)) \<Longrightarrow> (\<And>a. x = Inr a \<Longrightarrow> calm registry (g a)) \<Longrightarrow>
   calm registry (case_sum f g x)"
  by (cases x) simp_all

lemma calm_doP [calm_intros]:
  assumes "\<And>w. hitl_evolve registry w (f w)" and "\<And>w. hw_events (f w) = hw_events w"
  shows "calm registry (doP f)"
  unfolding doP_def using assms by (intro traced_opP) simp_all

lemma calm_publish [calm_intros]: "quiet [e] \<Longrightarrow> calm registry (publish e)"
  by (rule traced_mono [OF traced_publish]) simp

lemma traced_run_tools: "traced registry (run_tools p) (\<lambda>r new v. new = [] \<and> unpaused r)"
proof -
  have "unpaused r \<and> (\<exists>s. v = put_tools s w)" if "exec_prog (run_tools p) w = (v, r)" for w v r
    using that by (auto simp: run_tools_def lift_error_def exec_bindP tools_part.exec_zoom split: prod.splits sum.splits)
  then show ?thesis using hitl_evolve_kept(5) by (fastforce simp: traced_def hitl_evolve_def)
qed

lemma calm_run_tools [calm_intros]: "calm registry (run_tools p)"
  by (rule traced_mono [OF traced_run_tools]) simp

lemma calm_retry_more [calm_intros]:
  fixes p :: "'a hitl_prog"
  assumes "calm registry p"
  shows "calm registry (retry_more retryable p n)"
proof (induction n)
  case (Suc n)
  show ?case unfolding retry_more.simps
    by (rule traced_bindP [OF assms])
      (auto split: sum.split intro!: traced_Ret intro: traced_mono [OF Suc.IH] simp: unpaused_def)
qed (simp add: assms)

lemma calm_llm [calm_intros]: "calm registry (retried_llm_call request answer)"
  unfolding retried_llm_call_def retry_operation_def llm_call_def
  by (intro calm_retry_more traced_opP) (auto simp: hitl_evolve_agent split: sum.split)

lemma calm_scratchpad_messages [calm_intros]: "calm registry (scratchpad_messages e)"
  unfolding scratchpad_messages_def by (intro calm_intros) simp_all

lemma calm_scratch_append [calm_intros]: "calm registry (doP (scratch_append e entries))"
  by (rule calm_doP, rule hitl_evolve_kept) (simp add: scratch_append_def)

lemma calm_record_tool_results [calm_intros]: "calm registry (record_tool_results cfg e records)"
  unfolding record_tool_results_def by (intro calm_intros)

subsection \<open>Tools\<close>

lemma traced_execute_with_retry:
  "traced registry (execute_with_retry cfg ctx call) (\<lambda>r new v. new = [] \<and> unpaused r)"
proof -
  let ?Q = "\<lambda>(r :: (tool_result + hitl_exn) + tool_result) new (v :: hitl_world). new = [] \<and>
    (\<forall>a. r \<noteq> Inl (Inr (ApprovalPause a)))"
  have attempt: "traced registry (attempt_tool cfg ctx call) ?Q"
    unfolding attempt_tool_def
    by (rule traced_bindP [OF traced_run_tools])
      (auto split: sum.split intro!: traced_Ret simp: unpaused_def)
  have "traced registry (retry_more isl (attempt_tool cfg ctx call) n) ?Q" for n
  proof (induction n)
    case (Suc n)
    show ?case unfolding retry_more.simps
      by (rule traced_bindP [OF attempt]) (auto split: sum.split intro!: traced_Ret intro: traced_mono [OF Suc.IH])
  qed (simp add: attempt)
  then show ?thesis
    unfolding execute_with_retry_def retry_operation_def
    by (rule traced_bindP) (auto split: sum.split intro!: traced_Ret simp: unpaused_def)
qed

lemma calm_run_single_tool [calm_intros]: "calm registry (run_single_tool env cfg e ctx step_id call)"
proof -
  have run: "traced registry (catch (execute_with_retry cfg ctx x) (\<lambda>err. bindE (publish (EvToolEnd e n c False)) (\<lambda>_. raise err)))
      (\<lambda>r new v. case r of Inl err \<Rightarrow> unpaused r \<and> new = [EvToolEnd e n c False] | Inr _ \<Rightarrow> new = [])"
    for x n c unfolding catch_def
    by (rule traced_bindP [OF traced_execute_with_retry])
      (auto split: sum.split intro!: traced_Ret traced_publish_bindE simp: unpaused_def)
  have "calm registry
     (let normalized_call = call\<lparr>tl_call_id := Some call_id\<rparr> in
     bindE (publish (EvToolStart e (tl_name call) call_id)) (\<lambda>_.
     bindE (catch (execute_with_retry cfg ctx normalized_call) (\<lambda>err.
              bindE (publish (EvToolEnd e (tl_name call) call_id False)) (\<lambda>_. raise err))) (\<lambda>result.
     bindE (publish (EvToolEnd e (tl_name call) call_id (tr_success result))) (\<lambda>_.
       ok \<lparr>tn_step_id = step_id, tn_call = normalized_call, tn_result = result\<rparr>))))" for call_id
    unfolding Let_def
    by (intro traced_publish_bindE traced_bindE [OF run] traced_Ret) (auto simp: quiet_def unpaused_def)
  then show ?thesis
    unfolding run_single_tool_def
    by (cases "tl_call_id call") (auto simp: bindP_assoc intro!: calm_draw_uuid)
qed

lemma calm_run_calls [calm_intros]: "calm registry (run_calls env cfg e ctx step_id calls)"
  by (induction calls) (auto intro!: calm_intros)

lemma calm_run_steps [calm_intros]: "calm registry (run_steps env cfg e ctx steps)"
  by (induction steps) (auto intro!: calm_intros)

subsection \<open>Pausing\<close>

text \<open>The approval of a paused agent is stored, pending, and linked to a placeholder message.\<close>

definition waiting_in :: "agent_context \<Rightarrow> agent_state \<Rightarrow> agent_approval \<Rightarrow> hitl_world \<Rightarrow> bool" where
  "waiting_in context state a v \<longleftrightarrow> as_status state = AgExecuting \<and>
     (\<exists>row m. approval_row v (aa_id a) = Some row \<and> aa_status row = ApPending \<and>
        Some (aa_session_id row) = ax_session_id context \<and>
        (\<exists>caller. ax_caller context = Some caller \<and> tc_user_id caller = Some (aa_owner_id row)) \<and>
        aa_execution_id row = ax_execution_id context \<and>
        aa_paused_state row = Some (state\<lparr>as_status := AgWaitingApproval\<rparr>) \<and>
        m \<in> set (hw_messages v) \<and> cm_status m = ''waiting_approval'' \<and>
        aa_pending_message_id row = Some (cm_id m) \<and> cm_pending_approval_id m = Some (aa_id a))"

abbreviation pausing :: "tool_registry option \<Rightarrow> agent_context \<Rightarrow> agent_state \<Rightarrow> 'a hitl_prog \<Rightarrow> bool" where
  "pausing registry context state p \<equiv> traced registry p (\<lambda>r new v. quiet new \<and>
     (\<forall>a. r = Inl (ApprovalPause a) \<longrightarrow> waiting_in context state a v))"

lemma pausing_calm: "calm registry p \<Longrightarrow> pausing registry context state p"
  by (erule traced_mono) (simp add: unpaused_def)

lemma pausing_bindE:
  assumes "pausing registry context state p" and "\<And>a. pausing registry context state (g a)"
  shows "pausing registry context state (bindE p g)"
  by (rule traced_bindE [OF assms(1)]) (auto intro: traced_mono [OF assms(2)])

lemma pausing_forP:
  "(\<And>x. pausing registry context state (f x)) \<Longrightarrow> pausing registry context state (forP f xs)"
  by (induction xs) (simp_all add: traced_Ret pausing_bindE)

lemma waiting_after_pause:
  assumes "hitl_ok registry w"
    and "exec_prog (pause cfg q) w = (v, Inr a)" and "pq_state q = state" and "ax_session_id context = Some (pq_session_id q)"
    and "ax_caller context = Some caller" and "tc_user_id caller = Some (pq_owner_id q)"
    and "pq_execution_id q = ax_execution_id context"
  shows "waiting_in context state a v" "\<exists>e. quiet [e] \<and> hw_events v = hw_events w @ [e]"
  using pause_Inr [OF assms(1,2)] assms(3-7) by (fastforce simp: waiting_in_def quiet_def)+

lemma traced_pause_Inl: "exec_prog (pause cfg q) w = (v, Inl e) \<Longrightarrow> hw_events v = hw_events w \<and> (\<forall>a. e \<noteq> ApprovalPause a)"
  by (auto simp: pause_def Let_def exec_bindP exec_bindE draw_uuid_def create_approval_def allocate_seq_def add_message_def
      publish_def doP_def mark_last_message_at_def link_pending_message_def update_approval_def
      split: sum.splits option.splits)

lemma pausing_pause_for: "pausing registry context state (pause_for env cfg request context state step stages)"
proof (cases "\<not> ae_has_service env \<or> ax_session_id context = None \<or> ax_caller context = None \<or>
    (\<exists>c. ax_caller context = Some c \<and> tc_user_id c = None)")
  case True
  then have "\<exists>m. pause_for env cfg request context state step stages = raise (HitlMisconfigured m)"
    by (auto simp: pause_for_def split: option.split)
  then show ?thesis by (auto intro!: traced_Ret)
next
  case False
  then obtain sid caller owner where c: "ae_has_service env" "ax_session_id context = Some sid"
    "ax_caller context = Some caller" "tc_user_id caller = Some owner" by auto
  show ?thesis
    unfolding traced_def
  proof (intro allI impI)
    fix w v r
    assume w: "hitl_ok registry w"
      and x: "exec_prog (pause_for env cfg request context state step stages) w = (v, r)"
    define q where "q = \<lparr>pq_step_id = ps_step_id step, pq_tool_calls = ps_tool_calls step,
        pq_scratchpad = scratch_get (ax_execution_id context) w, pq_state = state, pq_session_id = sid,
        pq_owner_id = owner, pq_execution_id = ax_execution_id context, pq_provider = aq_provider request,
        pq_model = Some (aq_model request), pq_required_stages = stages, pq_request_id = ae_request_id env\<rparr>"
    obtain u res where p: "exec_prog (pause cfg q) w = (u, res)" by fastforce
    with x c have r: "v = u" "r = (case res of Inl e \<Rightarrow> Inl e | Inr a \<Rightarrow> Inl (ApprovalPause a))"
      by (auto simp: pause_for_def exec_bindP exec_bindE q_def split: sum.splits)
    have ok: "hitl_ok registry v" using safe_exec(2) [OF safe_pause w p] r(1) by simp
    show "hitl_ok registry v \<and> (\<exists>new. hw_events v = hw_events w @ new \<and> quiet new \<and>
        (\<forall>a. r = Inl (ApprovalPause a) \<longrightarrow> waiting_in context state a v))"
    proof (cases res)
      case (Inl e)
      with p r ok traced_pause_Inl [of cfg q w u e] show ?thesis by auto
    next
      case (Inr a)
      with p waiting_after_pause [OF w, of cfg q u a state "context" caller] c r ok show ?thesis
        by (fastforce simp: q_def)
    qed
  qed
qed

lemma pausing_run_tool_steps:
  "pausing registry context state (run_tool_steps env cfg request context ctx state steps)"
proof -
  have role: "pausing registry context state (caller_role env cfg ctx)"
    unfolding caller_role_def by (rule pausing_calm [OF calm_run_tools])
  have pause: "pausing registry context state (maybe_pause_for_approval env cfg request context ctx state step)" for step
    unfolding maybe_pause_for_approval_def
    by (intro traced_cases pausing_bindE role pausing_pause_for traced_Ret) simp_all
  have "pausing registry context state (preflight_approval_for_steps env cfg request context ctx state steps)"
    unfolding preflight_approval_for_steps_def
    by (intro pausing_forP traced_cases pause traced_Ret) simp_all
  then show ?thesis
    unfolding run_tool_steps_def
    by (intro traced_cases pausing_bindE pausing_calm [OF calm_run_steps] traced_Ret) simp_all
qed

subsection \<open>The state of an agent\<close>

lemma record_tools_used [simp]:
  "as_current_iteration (fold (\<lambda>n st. record_tool_used st n) names state) = as_current_iteration state"
  "as_max_iterations (fold (\<lambda>n st. record_tool_used st n) names state) = as_max_iterations state"
  "as_status (fold (\<lambda>n st. record_tool_used st n) names state) = as_status state"
  by (induction names arbitrary: state) (simp_all add: record_tool_used_def)

text \<open>Two states in the same iteration.\<close>

definition same_iteration :: "agent_state \<Rightarrow> agent_state \<Rightarrow> bool" where
  "same_iteration s t \<longleftrightarrow> as_current_iteration t = as_current_iteration s \<and> as_max_iterations t = as_max_iterations s"

lemma transition_same: "transition s target m = Inr t \<Longrightarrow> same_iteration s t \<and> as_status t = target"
  by (auto simp: transition_def same_iteration_def split: if_splits)

lemma same_iteration_trans: "same_iteration s t \<Longrightarrow> same_iteration t u \<Longrightarrow> same_iteration s u"
  by (simp add: same_iteration_def)

definition unpaused_agent :: "(hitl_exn \<times> agent_state) + 'a \<Rightarrow> bool" where
  "unpaused_agent r \<longleftrightarrow> (\<forall>a st. r \<noteq> Inl (ApprovalPause a, st))"

lemma traced_move:
  "traced registry (move s target) (\<lambda>r new v. new = [] \<and> unpaused_agent r \<and>
     (\<forall>t. r = Inr t \<longrightarrow> same_iteration s t \<and> as_status t = target))"
  unfolding move_def at_state_def lift_error_def
  by (cases "transition s target None") (auto intro!: traced_Ret dest: transition_same simp: unpaused_agent_def)

lemma exec_lift_error: "exec_prog (lift_error h p) w = (case exec_prog p w of (v, r) \<Rightarrow> (v, map_sum h id r))"
  by (auto simp: lift_error_def exec_bindP split: prod.split sum.split)

lemma traced_at_state:
  assumes "traced registry p P" and "\<And>r new v. P r new v \<Longrightarrow> Q (map_sum (\<lambda>e. (e, s)) id r) new v"
  shows "traced registry (at_state s p) Q"
  unfolding traced_def at_state_def exec_lift_error
proof (intro allI impI)
  fix w v r
  assume w: "hitl_ok registry w" and x: "(case exec_prog p w of (v, r) \<Rightarrow> (v, map_sum (\<lambda>e. (e, s)) id r)) = (v, r)"
  then obtain r' where r: "exec_prog p w = (v, r')" "r = map_sum (\<lambda>e. (e, s)) id r'" by (auto split: prod.splits)
  from tracedD [OF assms(1) w r(1)] assms(2) r(2)
  show "hitl_ok registry v \<and> (\<exists>new. hw_events v = hw_events w @ new \<and> Q r new v)" by blast
qed

lemma calm_at_state:
  "calm registry p \<Longrightarrow> traced registry (at_state s p) (\<lambda>r new v. quiet new \<and> unpaused_agent r)"
  by (erule traced_at_state) (auto simp: unpaused_def unpaused_agent_def map_sum_def split: sum.splits)

lemma at_state_publish: "traced registry (at_state s (publish e)) (\<lambda>r new v. r = Inr () \<and> new = [e])"
  by (rule traced_at_state [OF traced_publish]) auto

subsection \<open>Tool plans and reflection\<close>

lemma traced_execute_tool_plan:
  "traced registry (at_state state (execute_tool_plan env cfg request context ctx plan state)) (\<lambda>r new v. quiet new \<and>
     (\<forall>t x. r = Inr (t, x) \<longrightarrow> same_iteration state t \<and> as_status t = as_status state) \<and>
     (\<forall>a st. r = Inl (ApprovalPause a, st) \<longrightarrow> st = state \<and> waiting_in context state a v))"
proof (rule traced_at_state)
  show "traced registry (execute_tool_plan env cfg request context ctx plan state) (\<lambda>r new v. quiet new \<and>
      (\<forall>t x. r = Inr (t, x) \<longrightarrow> same_iteration state t \<and> as_status t = as_status state) \<and>
      (\<forall>a. r = Inl (ApprovalPause a) \<longrightarrow> waiting_in context state a v))"
    unfolding execute_tool_plan_def Let_def
    by (auto intro!: traced_Ret traced_bindE [OF calm_scratch_append] traced_bindE [OF pausing_run_tool_steps]
        traced_bindE [OF calm_record_tool_results] simp: same_iteration_def unpaused_def)
  fix r :: "hitl_exn + agent_state \<times> tool_run_record list option" and new v
  assume "quiet new \<and> (\<forall>t x. r = Inr (t, x) \<longrightarrow> same_iteration state t \<and> as_status t = as_status state) \<and>
      (\<forall>a. r = Inl (ApprovalPause a) \<longrightarrow> waiting_in context state a v)"
  then show "quiet new \<and> (\<forall>t x. map_sum (\<lambda>e. (e, state)) id r = Inr (t, x) \<longrightarrow> same_iteration state t \<and> as_status t = as_status state) \<and>
      (\<forall>a st. map_sum (\<lambda>e. (e, state)) id r = Inl (ApprovalPause a, st) \<longrightarrow> st = state \<and> waiting_in context state a v)"
    by (cases r) simp_all
qed

lemma calm_reflect [calm_intros]: "calm registry (reflect env request e results content)"
  unfolding reflect_def reflect_with_llm_def Let_def by (intro calm_intros) simp_all

lemma traced_move_bindE:
  assumes "\<And>t. same_iteration s t \<Longrightarrow> as_status t = target \<Longrightarrow> traced registry (g t) Q"
    and "\<And>e v. (\<And>a. e \<noteq> ApprovalPause a) \<Longrightarrow> Q (Inl (e, s)) [] v"
  shows "traced registry (bindE (move s target) g) Q"
proof (cases "transition s target None")
  case (Inl e)
  then show ?thesis
    by (auto simp: move_def at_state_def lift_error_def intro!: traced_Ret assms(2))
next
  case (Inr t)
  with transition_same [OF Inr] assms(1) [of t] show ?thesis by (simp add: move_def at_state_def lift_error_def)
qed

lemma traced_maybe_reflect:
  "traced registry (maybe_reflect env request context results content plan state) (\<lambda>r new v. quiet new \<and>
     unpaused_agent r \<and> (\<forall>t x y. r = Inr (t, x, y) \<longrightarrow> same_iteration state t))"
proof -
  have id: "same_iteration s s" for s by (simp add: same_iteration_def)
  have rec: "same_iteration s (record_reflection s)" for s by (simp add: same_iteration_def record_reflection_def)
  show ?thesis
    unfolding maybe_reflect_def Let_def
    by (auto intro!: traced_Ret traced_move_bindE traced_bindE [OF calm_at_state [OF calm_reflect]]
        traced_bindE [OF at_state_publish] simp: unpaused_agent_def quiet_def same_iteration_def record_reflection_def
        split: reflection_decision.split)
qed

subsection \<open>Plans\<close>

lemma py_str_nat_digit: "\<exists>d<10. \<exists>cs. py_str_nat n = ''0123456789'' ! d # cs"
proof (induction n rule: py_str_nat.induct)
  case (1 n)
  show ?case
  proof (cases "n < 10")
    case True
    then show ?thesis by (auto simp: py_str_nat.simps [of n])
  next
    case False
    with 1 show ?thesis by (subst py_str_nat.simps) auto
  qed
qed

lemma not_limit_step: "\<not> py_startswith (''finalize-'' @ py_str_nat n) ''finalize-limit-''"
proof -
  obtain d cs where d: "d < 10" "py_str_nat n = ''0123456789'' ! d # cs" using py_str_nat_digit by blast
  then have "''0123456789'' ! d \<noteq> CHR ''l''" by (auto simp: less_Suc_eq numeral_eq_Suc)
  with d(2) show ?thesis by simp
qed

lemma is_iteration_limit_simps [simp]:
  "is_iteration_limit_plan (resolve_finalize_step (build_iteration_limit_plan n))"
  "\<not> is_iteration_limit_plan (resolve_finalize_step (build_no_tools_finalize_plan n))"
  "\<not> is_iteration_limit_plan (resolve_finalize_step (final_plan (''finalize-'' @ py_str_nat n) r n))"
  "\<not> is_iteration_limit_plan (resolve_finalize_step (final_plan (''finalize-reflect-'' @ py_str_nat m) r' m))"
  by (simp_all add: is_iteration_limit_plan_def resolve_finalize_step_def build_iteration_limit_plan_def
      build_no_tools_finalize_plan_def final_plan_def finalize_step_def not_limit_step [simplified])

lemma parse_final_plan:
  "pl_is_final (parse_tool_completion u completion n) \<Longrightarrow>
   \<not> is_iteration_limit_plan (resolve_finalize_step (parse_tool_completion u completion n))"
  using is_iteration_limit_simps(3) [of n "tk_content completion"]
  by (cases "tk_tool_calls completion = []") (simp_all only: parse_tool_completion_def if_True if_False simp_thms
      execution_plan.simps)

lemma traced_plan_next:
  "traced registry (plan_next env cfg request context n) (\<lambda>r new v. quiet new \<and> unpaused r \<and>
     (\<forall>plan. r = Inr plan \<longrightarrow> n < cf_max_iterations (request_settings request) \<longrightarrow> pl_is_final plan \<longrightarrow>
        \<not> is_iteration_limit_plan (resolve_finalize_step plan)))"
proof -
  have said: "calm registry (case c of None \<Rightarrow> ok () | Some s \<Rightarrow> if s = [] then ok () else doP (scratch_append e [thought_entry s]))"
    for c e by (intro traced_cases calm_intros) simp_all
  have conv: "calm registry (conversation_messages context request)"
    unfolding conversation_messages_def by (intro calm_intros) simp
  have draw: "traced registry (opP draw_uuid) (\<lambda>r new v. new = [])"
    by (rule traced_opP) (auto simp: draw_uuid_def hitl_evolve_kept(9) [unfolded draw_uuid_def, simplified])
  show ?thesis
    unfolding plan_next_def Let_def
    by (intro traced_cases traced_Ret traced_bindP [OF traced_readP [where Q = "\<lambda>_ new _. new = []"]]
        traced_bindE [OF conv] traced_bindE [OF calm_llm] traced_bindE [OF said] traced_bindP [OF draw])
      (auto dest: parse_final_plan simp: unpaused_def)
qed

subsection \<open>Final answers\<close>

lemma traced_publish_tokens:
  "traced registry (publish_tokens e ts) (\<lambda>r new v. r = Inr () \<and> new = map (EvToken e) ts)"
  unfolding publish_tokens_def
  by (induction ts) (auto intro!: traced_Ret traced_publish_bindE intro: traced_mono)

lemma py_split_join:
  "concat (map (\<lambda>(i, word). if i = k + length (py_split_acc c acc s) - 1 then word else word @ [c])
     (enumerate k (py_split_acc c acc s))) = rev acc @ s"
proof (induction c acc s arbitrary: k rule: py_split_acc.induct)
  case (1 c acc)
  then show ?case by simp
next
  case (2 c acc x xs)
  have pos: "py_split_acc c acc xs \<noteq> []" for acc xs by (induction xs arbitrary: acc) simp_all
  show ?case
  proof (cases "x = c")
    case True
    with 2(1) [OF True, of "Suc k"] pos [of "[]" xs] show ?thesis by (cases "py_split_acc c [] xs") auto
  next
    case False
    with 2(2) show ?thesis by simp
  qed
qed

lemma concat_content_tokens [simp]: "concat (content_tokens content) = content"
  using py_split_join [of 0 "CHR '' ''" "[]" content]
  by (simp add: content_tokens_def py_split_def Let_def)

lemma traced_stream_final_answer:
  "traced registry (stream_final_answer env request e) (\<lambda>r new v. plannings_of new = [] \<and> completes_of new = [] \<and>
     tools_closed new \<and> unpaused r \<and> (\<forall>content. r = Inr content \<longrightarrow> tokens_of new = content))"
proof -
  have out: "snd (stream_outcome env request messages n) \<noteq> Some (ApprovalPause a)" for messages n a
    by (auto simp: stream_outcome_def split: prod.split option.split)
  have op: "traced registry (opP (\<lambda>w. (w\<lparr>hw_llm_calls := hw_llm_calls w + 1\<rparr>, stream_outcome env request messages (hw_llm_calls w))))
      (\<lambda>r new v. new = [] \<and> (\<forall>a. snd r \<noteq> Some (ApprovalPause a)))" for messages
    by (rule traced_opP) (simp_all add: hitl_evolve_agent out)
  show ?thesis
    unfolding stream_final_answer_def Let_def
    by (intro traced_bindE [OF calm_scratchpad_messages] traced_bindP [OF op] traced_cases
        traced_bindE [OF traced_publish_tokens] traced_Ret)
      (auto simp: quiet_def unpaused_def)
qed

definition finish_reason_of :: "execution_plan \<Rightarrow> string" where
  "finish_reason_of plan = (if is_iteration_limit_plan (resolve_finalize_step plan) then ''tool_iteration_cap'' else ''stop'')"

lemma traced_finalize_execution:
  "traced registry (finalize_execution env request e plan said) (\<lambda>r new v. plannings_of new = [] \<and> completes_of new = [] \<and>
     tools_closed new \<and> unpaused r \<and>
     (\<forall>content reason. r = Inr (content, reason) \<longrightarrow> tokens_of new = content \<and> reason = finish_reason_of plan))"
  unfolding finalize_execution_def Let_def finish_reason_of_def
  by (intro traced_publish_bindE traced_cases traced_bindE [OF traced_stream_final_answer]
      traced_bindE [OF traced_publish_tokens] traced_Ret)
    (auto simp: unpaused_def split: option.splits)

definition answered :: "agent_state \<Rightarrow> string \<Rightarrow> agent_response \<Rightarrow> hitl_event list \<Rightarrow> bool" where
  "answered state reason response new \<longleftrightarrow> tokens_of new = ap_content response \<and> completes_of new = [reason] \<and>
     ap_finish_reason response = Some reason \<and> ap_approval_id response = None \<and>
     ap_iterations response = as_current_iteration state"

lemma traced_finalize_and_complete:
  "traced registry (finalize_and_complete env request context plan said state) (\<lambda>r new v. plannings_of new = [] \<and>
     tools_closed new \<and> unpaused_agent r \<and> (\<forall>response. r = Inr response \<longrightarrow> answered state (finish_reason_of plan) response new))"
proof -
  have fin: "traced registry (at_state state (finalize_execution env request e plan said)) (\<lambda>r new v. plannings_of new = [] \<and>
     completes_of new = [] \<and> tools_closed new \<and> unpaused_agent r \<and>
     (\<forall>content reason. r = Inr (content, reason) \<longrightarrow> tokens_of new = content \<and> reason = finish_reason_of plan))" for e
    by (rule traced_at_state [OF traced_finalize_execution])
      (auto simp: unpaused_def unpaused_agent_def map_sum_def split: sum.splits)
  show ?thesis
    unfolding finalize_and_complete_def
    by (intro traced_bindE [OF fin] traced_cases traced_move_bindE traced_bindE [OF at_state_publish] traced_Ret)
      (auto simp: unpaused_agent_def answered_def same_iteration_def)
qed

subsection \<open>The loop\<close>

text \<open>
  From iteration \<open>cur\<close> on, with at most \<open>limit\<close> iterations: the planning events are those of the iterations that
  were begun, in order; an answer is what the tokens spell, and it is complete once; a pause has published no
  answer and left a waiting approval of the state it carries.
\<close>

definition loop_post ::
    "agent_request \<Rightarrow> agent_context \<Rightarrow> nat \<Rightarrow> nat \<Rightarrow> (hitl_exn \<times> agent_state) + agent_response \<Rightarrow> hitl_event list \<Rightarrow>
     hitl_world \<Rightarrow> bool" where
  "loop_post request context limit cur r new v \<longleftrightarrow> tools_closed new \<and>
     (case r of
        Inr response \<Rightarrow> plannings_of new = [cur..<ap_iterations response] \<and> cur \<le> ap_iterations response \<and>
          ap_iterations response \<le> limit \<and> tokens_of new = ap_content response \<and> ap_approval_id response = None \<and>
          (\<exists>reason. ap_finish_reason response = Some reason \<and> completes_of new = [reason] \<and>
             (reason = ''stop'' \<or> reason = ''tool_iteration_cap'') \<and>
             (reason = ''tool_iteration_cap'' \<longrightarrow> limit \<le> cf_max_iterations (request_settings request) \<longrightarrow>
                ap_iterations response = limit))
      | Inl (e, st) \<Rightarrow> (\<exists>k. plannings_of new = [cur..<k] \<and> cur \<le> k \<and> k \<le> limit \<and>
          (\<forall>a. e = ApprovalPause a \<longrightarrow> tokens_of new = [] \<and> completes_of new = [] \<and>
             k = as_current_iteration st \<and> waiting_in context st a v)))"

lemma loop_post_quiet:
  assumes "quiet new" and "loop_post request context limit cur r rest v"
  shows "loop_post request context limit cur r (new @ rest) v"
  using assms by (auto simp: loop_post_def quietD split: sum.splits)

lemma traced_quiet_first:
  assumes "quiet new" and "traced registry p (loop_post request context limit cur)"
  shows "traced registry p (\<lambda>r rest v. loop_post request context limit cur r (new @ rest) v)"
  using assms(2) by (rule traced_mono) (rule loop_post_quiet [OF assms(1)])

lemma loop_post_raised:
  "quiet new \<Longrightarrow> cur \<le> limit \<Longrightarrow> (\<And>a. e = ApprovalPause a \<Longrightarrow> as_current_iteration st = cur \<and> waiting_in context st a v) \<Longrightarrow>
   loop_post request context limit cur (Inl (e, st)) new v"
  unfolding loop_post_def by (simp, intro conjI exI [of _ cur]) (auto simp: quietD)

lemma loop_post_answer:
  assumes "traced registry p (\<lambda>r new v. plannings_of new = [] \<and> tools_closed new \<and> unpaused_agent r \<and>
      (\<forall>response. r = Inr response \<longrightarrow> answered state (finish_reason_of plan) response new))"
    and "as_current_iteration state = cur" and "cur \<le> limit"
    and "is_iteration_limit_plan (resolve_finalize_step plan) \<Longrightarrow>
      limit \<le> cf_max_iterations (request_settings request) \<Longrightarrow> cur = limit"
  shows "traced registry p (loop_post request context limit cur)"
  using assms(1)
proof (rule traced_mono)
  fix r new v
  assume r: "plannings_of new = [] \<and> tools_closed new \<and> unpaused_agent r \<and>
      (\<forall>response. r = Inr response \<longrightarrow> answered state (finish_reason_of plan) response new)"
  show "loop_post request context limit cur r new v"
  proof (cases r)
    case (Inl x)
    with r assms(3) show ?thesis
      unfolding loop_post_def by (cases x, simp, intro exI [of _ cur]) (auto simp: unpaused_agent_def)
  next
    case (Inr response)
    with r assms(2-4) show ?thesis by (auto simp: loop_post_def answered_def finish_reason_of_def)
  qed
qed

lemma traced_after_tools:
  assumes next_iteration: "\<And>results t. same_iteration state t \<Longrightarrow> traced registry (next_iteration results t)
      (loop_post request context limit (as_current_iteration state))"
    and "as_current_iteration state \<le> limit"
  shows "traced registry (after_tools env cfg request context ctx plan said results state next_iteration)
      (loop_post request context limit (as_current_iteration state))"
proof -
  let ?post = "loop_post request context limit (as_current_iteration state)"
  have finish: "traced registry (finalize_and_complete env request context
      (final_plan (''finalize-reflect-'' @ py_str_nat (as_current_iteration t)) said (as_current_iteration t)) said t) ?post"
    if "same_iteration state t" for t
    using that assms(2)
    by (intro loop_post_answer [OF traced_finalize_and_complete])
      (simp_all only: same_iteration_def is_iteration_limit_simps simp_thms)
  have go: "traced registry (bindE (if as_status t = AgPlanning then ok t else move t AgPlanning) (next_iteration x)) ?post"
    if "same_iteration state t" for t x
    using that next_iteration [OF same_iteration_trans [OF that]] next_iteration [OF that] assms(2)
    by (auto intro!: traced_move_bindE loop_post_raised simp: same_iteration_def)
  have again: "traced registry (case again of None \<Rightarrow> ok (t, x) | Some p \<Rightarrow>
      bindE (at_state t (execute_tool_plan env cfg request context ctx p t)) (\<lambda>(t, y). ok (t, keep_results y x)))
      (\<lambda>r new v. quiet new \<and> (\<forall>u y. r = Inr (u, y) \<longrightarrow> same_iteration t u) \<and>
        (\<forall>a st. r = Inl (ApprovalPause a, st) \<longrightarrow> st = t \<and> waiting_in context t a v))" for again t x
    by (intro traced_cases traced_bindE [OF traced_execute_tool_plan] traced_Ret)
      (auto simp: same_iteration_def intro!: traced_Ret)
  show ?thesis
    unfolding after_tools_def
  proof (rule traced_bindE [OF traced_maybe_reflect], goal_cases)
    case (1 e new v)
    then show ?case using assms(2)
      by (cases e) (auto intro!: loop_post_raised simp: unpaused_agent_def)
  next
    case (2 a new u)
    then obtain t fin rp where a: "a = (t, fin, rp)" "same_iteration state t" "quiet new" by (cases a) auto
    show ?case unfolding a(1) prod.case
    proof (rule traced_bindE [OF again], goal_cases)
      case (1 e new' v)
      then show ?case using assms(2) a
        by (cases e) (auto intro!: loop_post_raised simp: same_iteration_def)
    next
      case (2 b new' u)
      then obtain t' x where b: "b = (t', x)" "same_iteration t t'" "quiet new'" by (cases b) auto
      with a have "same_iteration state t'" "quiet (new @ new')" by (auto intro: same_iteration_trans)
      with finish [of t'] go [of t' x] show ?case unfolding b(1) prod.case append_assoc [symmetric]
        by (intro traced_quiet_first traced_if) 
    qed
  qed
qed

lemma begin_iteration_Inr:
  "begin_iteration s = Inr t \<Longrightarrow> as_current_iteration t = Suc (as_current_iteration s) \<and>
     as_max_iterations t = as_max_iterations s \<and> as_current_iteration s < as_max_iterations s"
  by (auto simp: begin_iteration_def is_at_iteration_limit_def Let_def split: if_splits)

lemma loop_post_planned:
  assumes "loop_post request context limit (Suc cur) r rest v"
  shows "loop_post request context limit cur r (EvPlanning e cur # rest) v"
proof (cases r)
  case (Inl x)
  obtain err st where x: "x = (err, st)" by (cases x)
  with assms Inl obtain k where "plannings_of rest = [Suc cur..<k] \<and> Suc cur \<le> k \<and> k \<le> limit \<and>
      (\<forall>a. err = ApprovalPause a \<longrightarrow> tokens_of rest = [] \<and> completes_of rest = [] \<and>
         k = as_current_iteration st \<and> waiting_in context st a v)" "tools_closed rest" by (auto simp: loop_post_def)
  then show ?thesis unfolding Inl x loop_post_def
    by (simp, intro exI [of _ k]) (auto simp: upt_conv_Cons)
next
  case (Inr response)
  with assms show ?thesis by (auto simp: loop_post_def upt_conv_Cons)
qed

lemma traced_run_iteration:
  assumes next_iteration: "\<And>said results t. as_max_iterations t = as_max_iterations state \<Longrightarrow>
      as_current_iteration t = Suc (as_current_iteration state) \<Longrightarrow> as_current_iteration t \<le> as_max_iterations t \<Longrightarrow>
      traced registry (next_iteration said results t)
        (loop_post request context (as_max_iterations state) (as_current_iteration t))"
    and "as_current_iteration state \<le> as_max_iterations state"
  shows "traced registry (run_iteration env cfg request context ctx resumed next_iteration said results state)
      (loop_post request context (as_max_iterations state) (as_current_iteration state))"
proof (cases "begin_iteration state")
  case (Inl e)
  then have "run_iteration env cfg request context ctx resumed next_iteration said results state = raise (HitlAgent e, state)"
    by (simp add: run_iteration_def at_state_def lift_error_def)
  then show ?thesis using assms(2) by (auto intro!: traced_Ret loop_post_raised)
next
  case (Inr s)
  let ?limit = "as_max_iterations state"
  note begun = begin_iteration_Inr [OF Inr]
  have cur: "as_current_iteration s = Suc (as_current_iteration state)" using begun by blast
  have planned: "traced registry (bindE (at_state s (plan_next env cfg request context (as_current_iteration state))) g)
      (loop_post request context ?limit (as_current_iteration s))"
    if "\<And>plan. (as_current_iteration state < cf_max_iterations (request_settings request) \<Longrightarrow> pl_is_final plan \<Longrightarrow>
          \<not> is_iteration_limit_plan (resolve_finalize_step plan)) \<Longrightarrow>
        traced registry (g plan) (loop_post request context ?limit (as_current_iteration s))" for g
  proof (rule traced_bindE)
    show "traced registry (at_state s (plan_next env cfg request context (as_current_iteration state))) (\<lambda>r new v. quiet new \<and>
       unpaused_agent r \<and> (\<forall>plan. r = Inr plan \<longrightarrow> as_current_iteration state < cf_max_iterations (request_settings request) \<longrightarrow>
        pl_is_final plan \<longrightarrow> \<not> is_iteration_limit_plan (resolve_finalize_step plan)))"
      by (rule traced_at_state [OF traced_plan_next])
        (auto simp: unpaused_def unpaused_agent_def map_sum_def split: sum.splits)
  next
    fix e new v
    assume "quiet new \<and> unpaused_agent (Inl e :: (hitl_exn \<times> agent_state) + execution_plan) \<and>
      (\<forall>plan. Inl e = Inr plan \<longrightarrow> as_current_iteration state < cf_max_iterations (request_settings request) \<longrightarrow>
        pl_is_final plan \<longrightarrow> \<not> is_iteration_limit_plan (resolve_finalize_step plan))"
    then show "loop_post request context ?limit (as_current_iteration s) (Inl e) new v"
      using begun by (cases e) (auto intro!: loop_post_raised simp: unpaused_agent_def)
  qed (use that in \<open>auto intro!: traced_quiet_first\<close>)
  have act: "traced registry (bindE (at_state t (execute_tool_plan env cfg request context ctx plan t)) (\<lambda>(t, plan_results).
        after_tools env cfg request context ctx plan say (f plan_results) t (next_iteration say)))
      (loop_post request context ?limit (as_current_iteration s))" if t: "same_iteration s t" for t plan say f
  proof (rule traced_bindE [OF traced_execute_tool_plan], goal_cases)
    case (1 e new v)
    then show ?case using begun t by (cases e) (auto intro!: loop_post_raised simp: same_iteration_def)
  next
    case (2 a new u)
    then obtain t' x where a: "a = (t', x)" "same_iteration s t'" "quiet new"
      using same_iteration_trans [OF t] by (cases a) auto
    have "traced registry (after_tools env cfg request context ctx plan say (f x) t' (next_iteration say))
        (loop_post request context ?limit (as_current_iteration t'))"
    proof (rule traced_after_tools)
      fix r q
      assume "same_iteration t' q"
      with a(2) begun next_iteration [of q say r] show "traced registry (next_iteration say r q)
          (loop_post request context ?limit (as_current_iteration t'))" by (simp add: same_iteration_def)
    qed (use a(2) begun in \<open>simp add: same_iteration_def\<close>)
    with a show ?case by (simp add: same_iteration_def traced_quiet_first)
  qed
  have "traced registry (run_iteration env cfg request context ctx resumed next_iteration said results state)
      (\<lambda>r new v. \<exists>rest. new = EvPlanning (ax_execution_id context) (as_current_iteration state) # rest \<and>
         loop_post request context ?limit (as_current_iteration s) r rest v)"
    by (simp add: run_iteration_def Let_def Inr at_state_def [of state] lift_error_def begun)
      (rule traced_bindE [OF at_state_publish], simp, simp, rule planned [unfolded cur], rule traced_move_bindE,
        intro traced_if act [of _ _ _ "\<lambda>x. if resumed then keep_results x results else x", unfolded cur]
          loop_post_answer [OF traced_finalize_and_complete],
        use begun in \<open>auto simp: same_iteration_def intro!: loop_post_raised\<close>)
  then show ?thesis using begun by (auto intro: traced_mono loop_post_planned)
qed

lemma traced_finish_at_limit:
  assumes "as_current_iteration state = limit"
  shows "traced registry (finish_at_limit env request context said state) (loop_post request context limit limit)"
  unfolding finish_at_limit_def Let_def
  by (intro traced_move_bindE loop_post_answer [OF traced_finalize_and_complete])
    (use assms in \<open>auto simp: same_iteration_def mark_iteration_limit_reached_def intro!: loop_post_raised\<close>)

lemma traced_agent_loop:
  "n = remaining_iterations state \<Longrightarrow> as_current_iteration state \<le> as_max_iterations state \<Longrightarrow>
   traced registry (agent_loop env cfg request context ctx resumed n said results state)
     (loop_post request context (as_max_iterations state) (as_current_iteration state))"
proof (induction n arbitrary: said results state)
  case 0
  then have "as_current_iteration state = as_max_iterations state" by (simp add: remaining_iterations_def)
  then show ?case using traced_finish_at_limit [of state "as_max_iterations state"] by simp
next
  case (Suc n)
  then have go: "has_remaining_iterations state" by (simp add: remaining_iterations_def has_remaining_iterations_def)
  have "traced registry (run_iteration env cfg request context ctx resumed (agent_loop env cfg request context ctx resumed n)
      said results state) (loop_post request context (as_max_iterations state) (as_current_iteration state))"
  proof (rule traced_run_iteration)
    fix said results and t :: agent_state
    assume t: "as_max_iterations t = as_max_iterations state" "as_current_iteration t = Suc (as_current_iteration state)"
      "as_current_iteration t \<le> as_max_iterations t"
    then have "n = remaining_iterations t" using Suc.prems(1) by (simp add: remaining_iterations_def)
    from Suc.IH [OF this t(3)] t(1) show "traced registry (agent_loop env cfg request context ctx resumed n said results t)
        (loop_post request context (as_max_iterations state) (as_current_iteration t))" by simp
  qed (rule Suc.prems(2))
  with go show ?case by simp
qed

subsection \<open>Whole runs\<close>

definition run_post ::
    "agent_request \<Rightarrow> agent_context \<Rightarrow> nat \<Rightarrow> nat \<Rightarrow> hitl_exn + agent_response \<Rightarrow> hitl_event list \<Rightarrow> hitl_world \<Rightarrow> bool" where
  "run_post request context limit cur r new v \<longleftrightarrow> tools_closed new \<and>
     (case r of
        Inl e \<Rightarrow> unpaused r \<and> (\<exists>k\<le>limit. plannings_of new = [cur..<k])
      | Inr response \<Rightarrow> plannings_of new = [cur..<ap_iterations response] \<and> ap_iterations response \<le> limit \<and>
          tokens_of new = ap_content response \<and>
          (case ap_approval_id response of
             Some i \<Rightarrow> ap_finish_reason response = Some ''waiting_approval'' \<and> completes_of new = [] \<and>
               (\<exists>a st. aa_id a = i \<and> as_current_iteration st = ap_iterations response \<and> waiting_in context st a v)
           | None \<Rightarrow> \<exists>reason. ap_finish_reason response = Some reason \<and> completes_of new = [reason] \<and>
               (reason = ''stop'' \<or> reason = ''tool_iteration_cap'') \<and>
               (reason = ''tool_iteration_cap'' \<longrightarrow> limit \<le> cf_max_iterations (request_settings request) \<longrightarrow>
                  ap_iterations response = limit)))"

lemma waiting_in_remove [simp]: "waiting_in context st a (scratch_remove e v) = waiting_in context st a v"
  by (simp add: waiting_in_def scratch_remove_def approval_row_def)

lemma remove_events [simp]: "hw_events (scratch_remove e v) = hw_events v"
  by (simp add: scratch_remove_def)

lemma exec_guarded:
  assumes "exec_prog body w = (u, b)"
  shows "exec_prog (guarded e body) w = (case b of
      Inr response \<Rightarrow> (scratch_remove e u, Inr response)
    | Inl (err, st) \<Rightarrow> (case err of
        ApprovalPause a \<Rightarrow> (scratch_remove e u, snd (exec_prog (waiting_approval_response a st) u))
      | HitlAgent x \<Rightarrow> (scratch_remove e (u\<lparr>hw_events := hw_events u @ [EvError e ''agent_error'' (agent_error_message x)]\<rparr>),
          Inl err)
      | _ \<Rightarrow> (scratch_remove e (u\<lparr>hw_events := hw_events u @ [EvError e ''agent_error'' ''Agent execution failed.'']\<rparr>), Inl err)))"
proof -
  have w: "fst (exec_prog (waiting_approval_response a st) u) = u" for a st
    by (simp add: waiting_approval_response_def split: sum.split)
  show ?thesis
    using assms w
    by (cases b) (auto simp: guarded_def exec_bindP exec_bindE doP_def publish_def split_beta split: hitl_exn.split)
qed

lemma traced_guarded:
  assumes body: "traced registry body (loop_post request context limit cur)"
    and safe: "agent_safe registry body"
  shows "traced registry (guarded e body) (run_post request context limit cur)"
  unfolding traced_def
proof (intro allI impI conjI)
  fix w v r
  assume w: "hitl_ok registry w" and x: "exec_prog (guarded e body) w = (v, r)"
  show "hitl_ok registry v" using safe_exec(2) [OF safe_guarded [OF safe] w x] .
  obtain u b where u: "exec_prog body w = (u, b)" by fastforce
  from tracedD [OF body w u] obtain new where new: "hw_events u = hw_events w @ new"
    "loop_post request context limit cur b new u" by blast
  show "\<exists>new. hw_events v = hw_events w @ new \<and> run_post request context limit cur r new v"
  proof (cases b)
    case (Inr response)
    then have "v = scratch_remove e u" "r = Inr response" using x exec_guarded [OF u, of e] by simp_all
    with new Inr show ?thesis by (auto simp: loop_post_def run_post_def scratch_remove_def)
  next
    case (Inl y)
    obtain err st where y: "y = (err, st)" by (cases y)
    from new(2) obtain k where k: "tools_closed new" "plannings_of new = [cur..<k]" "k \<le> limit" "cur \<le> k"
      "\<And>a. err = ApprovalPause a \<Longrightarrow> tokens_of new = [] \<and> completes_of new = [] \<and>
         k = as_current_iteration st \<and> waiting_in context st a u" by (auto simp: loop_post_def Inl y)
    show ?thesis
    proof (cases "\<exists>a. err = ApprovalPause a")
      case True
      then obtain a where a: "err = ApprovalPause a" by blast
      with k(5) have "as_status st = AgExecuting" by (simp add: waiting_in_def)
      then have "transition st AgWaitingApproval None = Inr (st\<lparr>as_status := AgWaitingApproval\<rparr>)"
        by (simp add: transition_def terminal_statuses_def)
      then have "v = scratch_remove e u" "r = Inr \<lparr>ap_content = [], ap_tools_used = as_tools_used st,
          ap_iterations = as_current_iteration st, ap_finish_reason = Some ''waiting_approval'', ap_approval_id = Some (aa_id a)\<rparr>"
        using x exec_guarded [OF u, of e] by (simp_all add: Inl y a waiting_approval_response_def)
      with new(1) k k(5) [OF a] show ?thesis
        by (intro exI [of _ new]) (auto simp: run_post_def)
    next
      case False
      then have "\<exists>m. hw_events v = hw_events u @ [EvError e ''agent_error'' m]" "r = Inl err"
        using x exec_guarded [OF u, of e] by (cases err; auto simp: Inl y scratch_remove_def)+
      with new(1) k False show ?thesis by (auto simp: run_post_def unpaused_def)
    qed
  qed
qed

lemma traced_agent_body:
  assumes "as_status state = AgCreated" and "as_current_iteration state = 0"
  shows "traced registry (bindE (at_state state (publish (EvStart e))) (\<lambda>_. bindE (move state AgPlanning) (\<lambda>state.
      agent_loop env cfg request context ctx False (remaining_iterations state) None None state)))
    (loop_post request context (as_max_iterations state) 0)"
proof -
  have "traced registry (bindE (move state AgPlanning) (\<lambda>state.
      agent_loop env cfg request context ctx False (remaining_iterations state) None None state))
    (loop_post request context (as_max_iterations state) 0)"
  proof (rule traced_move_bindE)
    fix t
    assume "same_iteration state t"
    with assms(2) traced_agent_loop [OF refl, of t registry env cfg request "context" ctx False None None]
    show "traced registry (agent_loop env cfg request context ctx False (remaining_iterations t) None None t)
        (loop_post request context (as_max_iterations state) 0)" by (simp add: same_iteration_def)
  qed (use assms in \<open>auto intro!: loop_post_raised\<close>)
  then have "traced registry (bindE (at_state state (publish (EvStart e))) (\<lambda>_. bindE (move state AgPlanning) (\<lambda>state.
      agent_loop env cfg request context ctx False (remaining_iterations state) None None state)))
    (\<lambda>r new v. \<exists>rest. new = EvStart e # rest \<and> loop_post request context (as_max_iterations state) 0 r rest v)"
    by (intro traced_bindE [OF at_state_publish]) (auto intro: traced_mono)
  then show ?thesis by (rule traced_mono) (auto simp: loop_post_def split: sum.split)
qed

lemma traced_agent_run:
  "traced registry (agent_run env cfg request context ctx)
     (run_post request context (cf_max_iterations (request_settings request)) 0)"
proof -
  let ?post = "run_post request context (cf_max_iterations (request_settings request)) 0"
  have create: "traced registry (opP (scratch_create e)) (\<lambda>r new v. new = [] \<and> unpaused r)" for e
    by (rule traced_opP, rule hitl_evolve_agent) (simp_all add: scratch_create_def)
  have body: "traced registry (guarded e (bindE (at_state state (publish (EvStart e))) (\<lambda>_. bindE (move state AgPlanning) (\<lambda>state.
      agent_loop env cfg request context ctx False (remaining_iterations state) None None state)))) ?post"
    if "state = initial_agent_state context (request_settings request)" for e state
  proof (rule traced_guarded)
    show "traced registry (bindE (at_state state (publish (EvStart e))) (\<lambda>_. bindE (move state AgPlanning) (\<lambda>state.
        agent_loop env cfg request context ctx False (remaining_iterations state) None None state)))
        (loop_post request context (cf_max_iterations (request_settings request)) 0)"
      using traced_agent_body [of state registry e env cfg request "context" ctx] that
      by (simp add: initial_agent_state_def)
  qed (intro hitl_safe_intros)
  have raised: "?post (Inl err) new v" if "quiet new" "unpaused (Inl err :: hitl_exn + agent_response)" for err new v
    using that by (auto simp: run_post_def quietD intro!: exI [of _ 0])
  have later: "traced registry p (\<lambda>r rest v. ?post r (new @ rest) v)" if "quiet new" "traced registry p ?post" for p new
    using that(2) by (rule traced_mono) (use that(1) in \<open>auto simp: run_post_def quietD split: sum.splits option.splits\<close>)
  show ?thesis
    unfolding agent_run_def Let_def
    by (intro traced_bindE [OF create] traced_bindE [OF calm_scratch_append] later body refl raised)
      (auto simp: unpaused_def)
qed

end
