(* ===== verification/Agent_Frame.thy ===== *)
theory Agent_Frame
  imports Agent_Tools Agent_Trace
begin

section \<open>What an agent touches and what it asks\<close>

text \<open>
  \<open>stays_in e asks\<close>: an action changes no scratchpad but that of the execution \<open>e\<close> and, unless \<open>asks\<close>, no model is called.
  Every program of an agent is \<open>stays_in\<close> its own execution; only the planner and the streaming of a final answer ask.
  From this follow the budget of model calls of a run, and that a run leaves the scratchpads as it has found them.
\<close>

definition other_pads :: "string \<Rightarrow> hitl_world \<Rightarrow> scratch_entry list dict" where
  "other_pads e w = filter (\<lambda>(k, _). k \<noteq> e) (hw_scratchpads w)"

definition stays_in :: "string \<Rightarrow> bool \<Rightarrow> hitl_world \<Rightarrow> hitl_world \<Rightarrow> bool" where
  "stays_in e asks w v \<longleftrightarrow> other_pads e v = other_pads e w \<and> (asks \<or> hw_llm_calls v = hw_llm_calls w)"

lemma stays_in_same: "hw_scratchpads v = hw_scratchpads w \<Longrightarrow> hw_llm_calls v = hw_llm_calls w \<Longrightarrow> stays_in e asks w v"
  by (simp add: stays_in_def other_pads_def)

lemma stays_in_trans: "stays_in e asks u v \<Longrightarrow> stays_in e asks v w \<Longrightarrow> stays_in e asks u w"
  by (auto simp: stays_in_def)

lemma stays_exec:
  assumes "acts (stays_in e asks) p"
  shows "stays_in e asks w (fst (exec_prog p w))"
  using assms by (rule acts_exec) (rule stays_in_same, auto intro: stays_in_trans)

lemma other_pads_put: "other_pads e (w\<lparr>hw_scratchpads := dict_put e x d\<rparr>) = filter (\<lambda>(k, _). k \<noteq> e) d"
proof -
  have "filter (\<lambda>(k, _). k \<noteq> e) (dict_put e x d) = filter (\<lambda>(k, _). k \<noteq> e) d" by (induction d) (auto simp: dict_put_def)
  then show ?thesis by (simp add: other_pads_def)
qed

named_theorems stays_intros "programs of an agent that stay stays_in its execution"

lemmas [stays_intros] = acts_Ret acts_bindP acts_bindE acts_if acts_option acts_sum acts_prod acts_catch
  acts_lift_error acts_at_state acts_move acts_decision acts_forP

lemma stays_opP [stays_intros]:
  "(\<And>w. hw_scratchpads (fst (f w)) = hw_scratchpads w) \<Longrightarrow> (\<And>w. hw_llm_calls (fst (f w)) = hw_llm_calls w) \<Longrightarrow>
   acts (stays_in e asks) (opP f)"
  by (rule acts_opP) (rule stays_in_same)

lemma stays_doP [stays_intros]:
  "(\<And>w. hw_scratchpads (f w) = hw_scratchpads w) \<Longrightarrow> (\<And>w. hw_llm_calls (f w) = hw_llm_calls w) \<Longrightarrow>
   acts (stays_in e asks) (doP f)"
  unfolding doP_def by (rule stays_opP) simp_all

lemma stays_readP [stays_intros]: "acts (stays_in e asks) (readP f)"
  by (rule acts_readP) (rule stays_in_same; simp)

lemma frame_kept [simp]:
  "hw_scratchpads (fst (draw_uuid w)) = hw_scratchpads w" "hw_llm_calls (fst (draw_uuid w)) = hw_llm_calls w"
  "hw_scratchpads (fst (create_approval d mk w)) = hw_scratchpads w" "hw_llm_calls (fst (create_approval d mk w)) = hw_llm_calls w"
  "hw_scratchpads (fst (allocate_seq sid w)) = hw_scratchpads w" "hw_llm_calls (fst (allocate_seq sid w)) = hw_llm_calls w"
  "hw_scratchpads (fst (add_message sid n role content prov model status fin cl pend w)) = hw_scratchpads w"
  "hw_llm_calls (fst (add_message sid n role content prov model status fin cl pend w)) = hw_llm_calls w"
  "hw_scratchpads (mark_last_message_at sid w) = hw_scratchpads w" "hw_llm_calls (mark_last_message_at sid w) = hw_llm_calls w"
  "hw_scratchpads (fst (link_pending_message d i m w)) = hw_scratchpads w"
  "hw_llm_calls (fst (link_pending_message d i m w)) = hw_llm_calls w"
  by (simp_all add: draw_uuid_def create_approval_def allocate_seq_def add_message_def mark_last_message_at_def
      link_pending_message_def update_approval_def Let_def split: option.split)

lemma stays_scratch [stays_intros]: "acts (stays_in e asks) (doP (scratch_append e entries))"
  unfolding doP_def by (rule acts_opP) (simp add: stays_in_def scratch_append_def other_pads_put, simp add: other_pads_def)

lemma stays_publish [stays_intros]: "acts (stays_in e asks) (publish ev)"
  unfolding publish_def by (rule stays_doP) simp_all

lemma stays_run_tools [stays_intros]: "acts (stays_in e asks) (run_tools p)"
  unfolding run_tools_def
  by (intro acts_lift_error acts_zoom_any stays_in_same) (simp_all add: put_tools_def)

lemma stays_ask: "acts (stays_in e True) (opP (\<lambda>w. (w\<lparr>hw_llm_calls := hw_llm_calls w + 1\<rparr>, f w)))"
  by (rule acts_opP) (simp add: stays_in_def other_pads_def)

lemma stays_llm_call: "acts (stays_in e True) (llm_call answer)"
  unfolding llm_call_def by (rule stays_ask)

lemma stays_retried_llm_call [stays_intros]: "acts (stays_in e True) (retried_llm_call request answer)"
  unfolding retried_llm_call_def retry_operation_def by (intro acts_retry_more stays_llm_call)

lemma stays_scratchpad_messages [stays_intros]: "acts (stays_in e asks) (scratchpad_messages e')"
  unfolding scratchpad_messages_def by (intro stays_intros)

lemma stays_plan_next [stays_intros]:
  "acts (stays_in (ax_execution_id context) True) (plan_next env cfg request context iteration)"
  unfolding plan_next_def conversation_messages_def Let_def by (intro stays_intros) simp_all

lemma stays_preflight [stays_intros]:
  "acts (stays_in e asks) (preflight_approval_for_steps env cfg request context ctx state steps)"
  unfolding preflight_approval_for_steps_def maybe_pause_for_approval_def pause_for_def pause_def caller_role_def Let_def
  by (intro stays_intros) simp_all

lemma stays_execute_with_retry [stays_intros]: "acts (stays_in e asks) (execute_with_retry cfg ctx call)"
  unfolding execute_with_retry_def retry_operation_def attempt_tool_def by (intro stays_intros acts_retry_more)

lemma stays_run_single_tool [stays_intros]: "acts (stays_in e asks) (run_single_tool env cfg e' ctx step_id call)"
  unfolding run_single_tool_def Let_def by (intro stays_intros) simp_all

lemma stays_run_calls [stays_intros]: "acts (stays_in e asks) (run_calls env cfg e' ctx step_id calls)"
  by (induction calls) (auto intro!: stays_intros)

lemma stays_run_steps [stays_intros]: "acts (stays_in e asks) (run_steps env cfg e' ctx steps)"
  by (induction steps) (auto intro!: stays_intros)

lemma stays_execute_tool_plan [stays_intros]:
  "acts (stays_in (ax_execution_id context) asks) (execute_tool_plan env cfg request context ctx plan state)"
  unfolding execute_tool_plan_def run_tool_steps_def record_tool_results_def Let_def by (intro stays_intros)

lemma stays_publish_tokens [stays_intros]: "acts (stays_in e asks) (publish_tokens e' tokens)"
  unfolding publish_tokens_def by (intro stays_intros)

lemma stays_stream [stays_intros]: "acts (stays_in e True) (stream_final_answer env request e')"
  unfolding stream_final_answer_def Let_def by (intro stays_intros stays_ask)

lemma stays_finalize_and_complete [stays_intros]:
  "acts (stays_in e True) (finalize_and_complete env request context plan said state)"
  unfolding finalize_and_complete_def finalize_execution_def Let_def by (intro stays_intros)

text \<open>With results at hand a rule always applies: reflection never gets to ask the model.\<close>

lemma evaluate_rule_based_decides: "results \<noteq> [] \<Longrightarrow> \<exists>d. evaluate_rule_based (Some results) said = Some d"
  by (simp add: evaluate_rule_based_def)

lemma reflect_by_rule:
  assumes "cf_reflection_enabled (request_settings request)" and "results \<noteq> []"
  shows "\<exists>d. evaluate_rule_based (Some results) said = Some d \<and>
    reflect env request e (Some results) said = ok (d, rule_reason d)"
proof -
  obtain d where "evaluate_rule_based (Some results) said = Some d"
    using evaluate_rule_based_decides [OF assms(2)] by blast
  with assms(1) show ?thesis by (simp add: reflect_def)
qed

lemma stays_maybe_reflect [stays_intros]:
  "acts (stays_in e asks) (maybe_reflect env request context results said plan state)"
proof (cases "cf_reflection_enabled (request_settings request) \<and> results \<noteq> None \<and> results \<noteq> Some []")
  case True
  then obtain records where "results = Some records" "records \<noteq> []" by auto
  with True have "acts (stays_in e asks) (reflect env request e' results said)" for e'
    using reflect_by_rule [of request records said env e'] by (auto intro: acts_Ret)
  then show ?thesis unfolding maybe_reflect_def Let_def by (intro stays_intros)
qed (auto simp: maybe_reflect_def)

lemma stays_after_tools:
  assumes "\<And>results state. acts (stays_in (ax_execution_id context) True) (next_iteration results state)"
  shows "acts (stays_in (ax_execution_id context) True)
    (after_tools env cfg request context ctx plan said results state next_iteration)"
  unfolding after_tools_def by (intro stays_intros assms)

lemma stays_agent_loop:
  "acts (stays_in (ax_execution_id context) True) (agent_loop env cfg request context ctx resumed n said results state)"
proof -
  have limit: "acts (stays_in e True) (finish_at_limit env request context said state)" for e said state
    unfolding finish_at_limit_def Let_def by (intro stays_intros)
  show ?thesis
  proof (induction n arbitrary: said results state)
    case (Suc n)
    have "acts (stays_in (ax_execution_id context) True) (run_iteration env cfg request context ctx resumed
        (agent_loop env cfg request context ctx resumed n) said results state)"
      unfolding run_iteration_def Let_def by (intro stays_intros stays_after_tools Suc)
    with limit show ?case by simp
  qed (simp add: limit)
qed

subsection \<open>A run leaves no scratchpad behind\<close>

lemma guarded_pads:
  assumes "acts (stays_in e True) body"
  shows "hw_scratchpads (fst (exec_prog (guarded e body) w)) = other_pads e w"
proof -
  have handler: "acts (stays_in e True) (case r :: (hitl_exn \<times> agent_state) + agent_response of Inr response \<Rightarrow> ok response
      | Inl (ApprovalPause approval, state) \<Rightarrow> waiting_approval_response approval state
      | Inl (HitlAgent err, _) \<Rightarrow> bindE (publish (EvError e ''agent_error'' (agent_error_message err))) (\<lambda>_. raise (HitlAgent err))
      | Inl (err, _) \<Rightarrow> bindE (publish (EvError e ''agent_error'' ''Agent execution failed.'')) (\<lambda>_. raise err))" for r
  proof (cases r)
    case (Inl x)
    obtain err state where "x = (err, state)" by fastforce
    with Inl show ?thesis by (cases err) (auto simp: waiting_approval_response_def intro!: stays_intros)
  qed simp
  define p where "p = bindP body (\<lambda>r. case r of Inr response \<Rightarrow> ok response
      | Inl (ApprovalPause approval, state) \<Rightarrow> waiting_approval_response approval state
      | Inl (HitlAgent err, _) \<Rightarrow> bindE (publish (EvError e ''agent_error'' (agent_error_message err))) (\<lambda>_. raise (HitlAgent err))
      | Inl (err, _) \<Rightarrow> bindE (publish (EvError e ''agent_error'' ''Agent execution failed.'')) (\<lambda>_. raise err))"
  have "acts (stays_in e True) p" unfolding p_def by (rule acts_bindP [OF assms handler])
  then have "other_pads e (fst (exec_prog p w)) = other_pads e w"
    using stays_exec [of e True p w] by (simp add: stays_in_def)
  then show ?thesis
    unfolding guarded_def p_def [symmetric]
    by (simp add: exec_bindP doP_def scratch_remove_def other_pads_def split_beta)
qed

lemma agent_run_pads: "hw_scratchpads (fst (exec_prog (agent_run env cfg request context ctx) w)) = hw_scratchpads w"
proof (cases "dict_get (hw_scratchpads w) (ax_execution_id context)")
  case None
  let ?e = "ax_execution_id context"
  let ?w = "scratch_append ?e (map message_entry (aq_messages request)) (fst (scratch_create ?e w))"
  let ?body = "bindE (at_state (initial_agent_state context (request_settings request)) (publish (EvStart ?e))) (\<lambda>_.
      bindE (move (initial_agent_state context (request_settings request)) AgPlanning) (\<lambda>state.
      agent_loop env cfg request context ctx False (remaining_iterations state) None None state))"
  have run: "fst (exec_prog (agent_run env cfg request context ctx) w) = fst (exec_prog (guarded ?e ?body) ?w)"
    using None by (simp add: agent_run_def Let_def exec_bindE scratch_create_def doP_def)
  have "acts (stays_in ?e True) ?body" by (intro stays_intros stays_agent_loop)
  from guarded_pads [OF this] have "hw_scratchpads (fst (exec_prog (guarded ?e ?body) ?w)) = other_pads ?e ?w" .
  also have "other_pads ?e ?w = hw_scratchpads w"
  proof -
    have "filter (\<lambda>(k, _). k \<noteq> ?e) (hw_scratchpads w) = hw_scratchpads w"
      using None by (intro filter_True) (force simp: dict_get_None dict_keys_def)
    then show ?thesis using None
      by (simp add: scratch_append_def other_pads_put scratch_create_def) (simp add: other_pads_put [unfolded other_pads_def, simplified])
  qed
  finally show ?thesis by (simp only: run)
next
  case (Some entries)
  then show ?thesis by (simp add: agent_run_def Let_def exec_bindE scratch_create_def)
qed

subsection \<open>The budget of model calls\<close>

abbreviation asks :: "(hitl_world, 'a) prog \<Rightarrow> nat \<Rightarrow> bool" where
  "asks p n \<equiv> costs hw_llm_calls p n"

lemma asks_none: "acts (stays_in e False) p \<Longrightarrow> asks p n"
  by (rule costs_acts, erule acts_mono) (simp add: stays_in_def)

lemma asks_first: "asks p 0 \<Longrightarrow> (\<And>a. asks (g a) n) \<Longrightarrow> asks (bindE p g) n"
  using costs_bindE [of hw_llm_calls p 0 g n] by simp

lemma asks_quiet: "acts (stays_in e False) p \<Longrightarrow> (\<And>a. asks (g a) n) \<Longrightarrow> asks (bindE p g) n"
  by (rule asks_first [OF asks_none])

lemma asks_at_state:
  assumes "asks p n"
  shows "asks (at_state state p) n"
proof -
  have "asks (bindP p (\<lambda>r. case r of Inl err \<Rightarrow> raise (err, state) | Inr a \<Rightarrow> ok a)) (n + 0)"
    by (intro costs_bindP assms costs_case costs_Ret)
  then show ?thesis by (simp add: at_state_def lift_error_def)
qed

lemma asks_retry_more: "asks p 1 \<Longrightarrow> asks (retry_more retryable p n) (Suc n)"
proof (induction n)
  case (Suc n)
  then have "asks (bindP p (\<lambda>r. case r of Inr x \<Rightarrow> ok x
      | Inl e \<Rightarrow> if retryable e then retry_more retryable p n else raise e)) (1 + Suc n)"
    by (intro costs_bindP costs_case costs_Ret) simp_all
  then show ?case by simp
qed simp

definition attempts :: "agent_request \<Rightarrow> nat" where
  "attempts request = max 1 (cf_max_retries (request_settings request))"

lemma asks_retried: "asks (retried_llm_call request answer) (attempts request)"
proof -
  have "asks (llm_call answer) 1" by (simp add: costs_def llm_call_def)
  from asks_retry_more [OF this, of _ "attempts request - 1"] show ?thesis
    by (simp add: retried_llm_call_def retry_operation_def attempts_def)
qed

lemma asks_ask: "asks (opP (\<lambda>w. (w\<lparr>hw_llm_calls := hw_llm_calls w + 1\<rparr>, f w))) 1"
  by (simp add: costs_def)

lemma asks_plan_next: "asks (plan_next env cfg request context iteration) (attempts request)"
proof -
  have rest: "asks (bindE (case tk_content completion of
        None \<Rightarrow> ok ()
      | Some c \<Rightarrow> if c = [] then ok () else doP (scratch_append (ax_execution_id context) [thought_entry c])) (\<lambda>_.
      bindP (opP draw_uuid) (\<lambda>u. ok (parse_tool_completion (ae_hex8 env u) completion iteration)))) 0" for completion
    by (intro asks_none [of "ax_execution_id context"] stays_intros) simp_all
  have call: "asks (bindE (retried_llm_call request answer) (\<lambda>completion.
      bindE (case tk_content completion of
        None \<Rightarrow> ok ()
      | Some c \<Rightarrow> if c = [] then ok () else doP (scratch_append (ax_execution_id context) [thought_entry c])) (\<lambda>_.
      bindP (opP draw_uuid) (\<lambda>u. ok (parse_tool_completion (ae_hex8 env u) completion iteration)))))
    (attempts request)" for answer
    using costs_bindE [OF asks_retried rest, of request answer] by simp
  have first: "asks (bindP (readP hw_now) g) n" if "\<And>a. asks (g a) n" for g :: "datetime \<Rightarrow> execution_plan hitl_prog" and n
    using costs_bindP [of hw_llm_calls "readP hw_now" 0 g n] that by (simp add: costs_def)
  have pads: "asks (conversation_messages context request) 0"
    unfolding conversation_messages_def by (intro asks_none [of "[]"] stays_intros)
  show ?thesis
    unfolding plan_next_def Let_def by (intro costs_case costs_Ret first asks_first [OF pads] call)
qed

lemma asks_finalize: "asks (finalize_and_complete env request context plan said state) 1"
proof -
  have stream: "asks (stream_final_answer env request e) 1" for e
  proof -
    have "asks (bindP (opP (\<lambda>w. (w\<lparr>hw_llm_calls := hw_llm_calls w + 1\<rparr>, f w)))
        (\<lambda>(chunks, failed). bindE (publish_tokens e (filter (\<lambda>c. c \<noteq> []) chunks)) (\<lambda>_.
          case failed of Some err \<Rightarrow> raise err | None \<Rightarrow> ok (concat (filter (\<lambda>c. c \<noteq> []) chunks))))) (1 + 0)"
      for f :: "hitl_world \<Rightarrow> string list \<times> hitl_exn option"
      by (intro costs_bindP [OF asks_ask] asks_none [of "[]"] stays_intros)
    then show ?thesis
      unfolding stream_final_answer_def Let_def
      by (intro asks_quiet [where e = "[]", OF stays_scratchpad_messages]) simp
  qed
  have "asks (bindE (stream_final_answer env request e) (\<lambda>content. ok (content, reason))) 1" for e and reason :: string
    using costs_bindE [OF stream costs_Ret, of e "\<lambda>content. Inr (content, reason)" 0] by simp
  then have "asks (finalize_execution env request e plan said) 1" for e
    unfolding finalize_execution_def Let_def
    by (intro asks_quiet [where e = "[]", OF stays_publish] costs_case)
      (auto intro!: asks_none [of "[]"] stays_intros)
  then have "asks (at_state state (finalize_execution env request (ax_execution_id context) plan said)) 1"
    by (rule asks_at_state)
  then have fin: "asks (bindE (at_state state (finalize_execution env request (ax_execution_id context) plan said)) g) 1"
    if "\<And>x. asks (g x) 0" for g :: "string \<times> string \<Rightarrow> agent_response agent_prog"
    using costs_bindE [of hw_llm_calls _ 1 g 0] that by simp
  show ?thesis
    unfolding finalize_and_complete_def by (intro fin asks_none [of "[]"] stays_intros)
qed

lemma asks_after_tools:
  assumes "\<And>results state. asks (next_iteration results state) n" and "1 \<le> n"
  shows "asks (after_tools env cfg request context ctx plan said results state next_iteration) n"
proof -
  have fin: "asks (finalize_and_complete env request context plan said state) n" for plan state
    using costs_mono [OF asks_finalize assms(2)] .
  show ?thesis
    unfolding after_tools_def
    by (intro asks_quiet [where e = "[]", OF stays_maybe_reflect] asks_quiet [where e = "ax_execution_id context"]
        costs_case fin assms(1) stays_intros)
qed

lemma asks_agent_loop: "asks (agent_loop env cfg request context ctx resumed n said results state) (n * attempts request + 1)"
proof -
  have limit: "asks (finish_at_limit env request context said state) k" if "1 \<le> k" for said state k
    unfolding finish_at_limit_def Let_def
    by (intro asks_quiet [where e = "[]"] costs_mono [OF asks_finalize that] stays_intros)
  show ?thesis
  proof (induction n arbitrary: said results state)
    case (Suc n)
    let ?n = "n * attempts request + 1"
    have rest: "asks (bindE (move s AgExecuting) (\<lambda>state.
        if pl_is_final plan then finalize_and_complete env request context plan said' state
        else bindE (at_state state (execute_tool_plan env cfg request context ctx plan state)) (\<lambda>(state, plan_results).
          after_tools env cfg request context ctx plan said' (f plan_results) state
            (agent_loop env cfg request context ctx resumed n said')))) ?n" for s plan said' f
      by (intro asks_quiet [where e = "ax_execution_id context"] costs_case asks_after_tools Suc
          costs_mono [OF asks_finalize] stays_intros) simp_all
    have plan: "asks (bindE (at_state s (plan_next env cfg request context iteration)) g) (attempts request + ?n)"
      if "\<And>plan. asks (g plan) ?n" for s iteration g
      using that by (intro costs_bindE asks_at_state asks_plan_next)
    have "asks (run_iteration env cfg request context ctx resumed (agent_loop env cfg request context ctx resumed n) said results state)
        (attempts request + ?n)"
      unfolding run_iteration_def Let_def
      by (intro asks_quiet [where e = "[]"] plan rest [where f = "\<lambda>x. if resumed then keep_results x _ else x"] stays_intros)
    moreover have "asks (finish_at_limit env request context said state) (attempts request + ?n)" by (rule limit) simp
    ultimately show ?case by (simp add: algebra_simps)
  qed (simp add: limit)
qed

lemma asks_guarded:
  assumes "asks body n"
  shows "asks (guarded e body) n"
  unfolding costs_def
proof
  fix w
  obtain u b where u: "exec_prog body w = (u, b)" by fastforce
  have "hw_llm_calls (fst (exec_prog (guarded e body) w)) = hw_llm_calls u"
    using exec_guarded [OF u, of e]
    by (cases b) (auto simp: scratch_remove_def split: prod.splits hitl_exn.splits)
  with costsD [OF assms, of w] u show "hw_llm_calls (fst (exec_prog (guarded e body) w)) \<le> hw_llm_calls w + n" by simp
qed

lemma asks_agent_run:
  "asks (agent_run env cfg request context ctx) (cf_max_iterations (request_settings request) * attempts request + 1)"
proof -
  let ?n = "cf_max_iterations (request_settings request) * attempts request + 1"
  have create: "asks (opP (scratch_create (ax_execution_id context))) 0" by (simp add: costs_def scratch_create_def)
  have loop: "asks (agent_loop env cfg request context ctx False (remaining_iterations state) None None state) ?n"
    if "remaining_iterations state \<le> cf_max_iterations (request_settings request)" for state
    by (rule costs_mono [OF asks_agent_loop]) (use that in \<open>simp add: mult_le_mono1\<close>)
  let ?s = "initial_agent_state context (request_settings request)"
  have "move ?s AgPlanning = ok (?s\<lparr>as_status := AgPlanning\<rparr>)"
    by (simp add: move_def at_state_def lift_error_def transition_def initial_agent_state_def terminal_statuses_def)
  then have planning: "asks (bindE (move ?s AgPlanning) (\<lambda>state.
      agent_loop env cfg request context ctx False (remaining_iterations state) None None state)) ?n"
    using loop [of "?s\<lparr>as_status := AgPlanning\<rparr>"] by (simp add: remaining_iterations_def initial_agent_state_def)
  have body: "asks (bindE (at_state ?s (publish (EvStart (ax_execution_id context)))) (\<lambda>_.
      bindE (move ?s AgPlanning) (\<lambda>state.
      agent_loop env cfg request context ctx False (remaining_iterations state) None None state))) ?n"
    by (rule asks_quiet [where e = "[]", OF acts_at_state [OF stays_publish] planning])
  show ?thesis
    unfolding agent_run_def Let_def
    by (rule asks_first [OF create], rule asks_quiet [OF stays_scratch], rule asks_guarded [OF body])
qed

end
