(* ===== verification/Platform_Calls.thy ===== *)
theory Platform_Calls
  imports Agent_Tools
begin

section \<open>No tool runs without a permission\<close>

text \<open>
  In any interleaving of agent runs and approval requests, a handler is called for one of two reasons. Either an agent
  calls it in a step each of whose calls the policy approves by itself, or it was proposed in an approval that somebody has been asked to
  approve: \<open>may_call\<close>, with \<open>P\<close> the calls of the first kind and \<open>D\<close> the approvals that requests approve. A permission
  lasts, since a proposal never changes and an approved approval stays approved. A decision runs its tools inside
  a transaction, and a rollback may take the decision back, not the calls: the
  calls are tied to the names that the row proposed when the transaction took hold of it.
\<close>

definition proposed_names :: "agent_approval \<Rightarrow> string set" where
  "proposed_names a = pc_name ` set (aa_proposed_calls a)"

definition named :: "uuid set \<Rightarrow> hitl_world \<Rightarrow> string \<Rightarrow> bool" where
  "named D w name \<longleftrightarrow> (\<exists>i a. approval_row w i = Some a \<and> name \<in> proposed_names a \<and> (i \<in> D \<or> aa_status a = ApApproved))"

definition may_call :: "(string \<times> pyval dict) set \<Rightarrow> uuid set \<Rightarrow> hitl_world \<Rightarrow> string \<times> pyval dict \<Rightarrow> bool" where
  "may_call P D w c \<longleftrightarrow> c \<in> P \<or> named D w (fst c)"

definition platform_step ::
    "tool_registry option \<Rightarrow> (string \<times> pyval dict) set \<Rightarrow> uuid set \<Rightarrow> hitl_world \<Rightarrow> hitl_world \<Rightarrow> bool" where
  "platform_step registry P D w v \<longleftrightarrow> hitl_evolve registry w v \<and> (hitl_ok registry w \<longrightarrow>
     (\<exists>new. xw_calls (hw_tools v) = xw_calls (hw_tools w) @ new \<and> (\<forall>c\<in>set new. may_call P D v c)))"

lemma named_stable:
  assumes "named D w name" and "hitl_ok registry w" and "hitl_evolve registry w v"
  shows "named D v name"
proof -
  from assms(1) obtain i a where a: "approval_row w i = Some a" "name \<in> proposed_names a" "i \<in> D \<or> aa_status a = ApApproved"
    unfolding named_def by blast
  from hitl_evolve_row [OF assms(3,2) a(1)] obtain b where "approval_row v i = Some b" "approval_may_become a b" by blast
  with a(2,3) show ?thesis
    unfolding named_def approval_may_become_def proposed_names_def by (intro exI [of _ i] exI [of _ b]) auto
qed

lemma may_call_stable:
  "may_call P D w c \<Longrightarrow> hitl_ok registry w \<Longrightarrow> hitl_evolve registry w v \<Longrightarrow> may_call P D v c"
  unfolding may_call_def using named_stable by blast

lemma platform_step_refl: "platform_step registry P D w w"
  by (simp add: platform_step_def hitl_evolve_refl)

lemma platform_step_trans:
  assumes "platform_step registry P D u v" and "platform_step registry P D v w"
  shows "platform_step registry P D u w"
  unfolding platform_step_def
proof (intro conjI impI)
  show "hitl_evolve registry u w" using assms hitl_evolve_trans unfolding platform_step_def by blast
  assume u: "hitl_ok registry u"
  with assms(1) have v: "hitl_ok registry v" unfolding platform_step_def by (blast intro: approvals.stable)
  from u assms(1) obtain xs where xs: "xw_calls (hw_tools v) = xw_calls (hw_tools u) @ xs" "\<forall>c\<in>set xs. may_call P D v c"
    unfolding platform_step_def by blast
  from v assms(2) obtain ys where ys: "xw_calls (hw_tools w) = xw_calls (hw_tools v) @ ys" "\<forall>c\<in>set ys. may_call P D w c"
    unfolding platform_step_def by blast
  have "may_call P D w c" if "c \<in> set xs" for c
    using that xs(2) may_call_stable [OF _ v] assms(2) unfolding platform_step_def by blast
  with xs ys show "\<exists>new. xw_calls (hw_tools w) = xw_calls (hw_tools u) @ new \<and> (\<forall>c\<in>set new. may_call P D w c)"
    by (intro exI [of _ "xs @ ys"]) auto
qed

interpretation permitted: stable_situation "platform_step registry P D" "hitl_ok registry" for registry P D
proof
  show "transp (platform_step registry P D)" by (rule transpI) (rule platform_step_trans)
  show "reflp (platform_step registry P D)" by (rule reflpI) (rule platform_step_refl)
  show "hitl_ok registry t" if "hitl_ok registry s" "platform_step registry P D s t" for s t
    using that approvals.stable unfolding platform_step_def by blast
qed

subsection \<open>Programs that may call what an approval proposes\<close>

text \<open>Besides the calls in \<open>P\<close>, those of tools with a name in \<open>N\<close>.\<close>

definition with_names :: "(string \<times> pyval dict) set \<Rightarrow> string set \<Rightarrow> (string \<times> pyval dict) set" where
  "with_names P N = P \<union> N \<times> UNIV"

abbreviation named_step ::
    "tool_registry option \<Rightarrow> (string \<times> pyval dict) set \<Rightarrow> string set \<Rightarrow> hitl_world \<Rightarrow> hitl_world \<Rightarrow> bool" where
  "named_step registry P N \<equiv> \<lambda>w v. hitl_evolve registry w v \<and> calls_by (with_names P N) w v"

lemma reflp_named_step: "reflp (named_step registry P N)"
  by (intro reflpI conjI hitl_evolve_refl calls_by_refl)

lemma transp_named_step: "transp (named_step registry P N)"
  by (rule transpI) (auto intro: hitl_evolve_trans calls_by_trans)

lemma hitl_restore_tools [simp]: "hw_tools (hitl_restore w v) = hw_tools v"
  by (simp add: hitl_restore_def)

lemma named_step_restore: "named_step registry P N w v \<Longrightarrow> named_step registry P N w (hitl_restore w v)"
  by (auto simp: hitl_evolve_restore calls_by_def)

lemma wp_in_transaction:
  "wp (hitl_evolve registry) (named_step registry P N) p (\<lambda>_ _. True) s \<Longrightarrow>
   wp (hitl_evolve registry) (named_step registry P N) (in_transaction p) (\<lambda>_ _. True) s"
  by (rule hitl_session.wp_transaction [OF approvals.reflp reflp_named_step transp_named_step named_step_restore])

lemma named_step_permitted:
  assumes "named_step registry P N w v" and "\<And>name. name \<in> N \<Longrightarrow> named D w name"
  shows "platform_step registry P D w v"
  unfolding platform_step_def
proof (intro conjI impI)
  show e: "hitl_evolve registry w v" using assms(1) by blast
  assume w: "hitl_ok registry w"
  from assms(1) obtain new where new: "xw_calls (hw_tools v) = xw_calls (hw_tools w) @ new" "set new \<subseteq> with_names P N"
    unfolding calls_by_def by blast
  have "may_call P D v c" if "c \<in> set new" for c
    using that new(2) assms(2) named_stable [OF _ w e] by (cases c) (auto simp: may_call_def with_names_def)
  with new(1) show "\<exists>new. xw_calls (hw_tools v) = xw_calls (hw_tools w) @ new \<and> (\<forall>c\<in>set new. may_call P D v c)" by blast
qed

lemma wp_permitted:
  assumes "wp (hitl_evolve registry) (named_step registry P N) p (\<lambda>_ _. True) s" and "hitl_ok registry s"
    and "\<And>name. name \<in> N \<Longrightarrow> named D s name"
  shows "safe (platform_step registry P D) p s"
  using assms
proof (induction p arbitrary: s)
  case (Ret a)
  then show ?case by simp
next
  case (Act f k)
  show ?case
  proof (simp, intro allI impI conjI)
    fix t
    assume t: "platform_step registry P D s t"
    then have st: "hitl_evolve registry s t" by (simp add: platform_step_def)
    have ok: "hitl_ok registry t" using approvals.stable [OF Act.prems(2) st] .
    have n: "named D t name" if "name \<in> N" for name using named_stable [OF Act.prems(3) [OF that] Act.prems(2) st] .
    from Act.prems(1) st have f: "named_step registry P N t (f t)" "wp (hitl_evolve registry) (named_step registry P N) (k t) (\<lambda>_ _. True) (f t)"
      by simp_all
    show step: "platform_step registry P D t (f t)" using named_step_permitted [OF f(1) n] .
    show "safe (platform_step registry P D) (k t) (f t)"
    proof (rule Act.IH [OF _ f(2)])
      show "hitl_ok registry (f t)" using permitted.stable [OF ok step] .
      show "named D (f t) name" if "name \<in> N" for name using named_stable [OF n [OF that] ok] f(1) by blast
    qed simp
  qed
qed

text \<open>
  A transaction looks for its approval first. Either it has found the row, and knows the names it may call, or it has
  called and written nothing yet.
\<close>

primrec looks_up ::
    "tool_registry option \<Rightarrow> (string \<times> pyval dict) set \<Rightarrow> uuid set \<Rightarrow> 'a hitl_prog \<Rightarrow> hitl_world \<Rightarrow> bool" where
  "looks_up registry P D (Ret r) s = True"
| "looks_up registry P D (Act f k) s = (\<forall>t. hitl_evolve registry s t \<longrightarrow> hitl_ok registry t \<longrightarrow>
     (\<exists>N. (\<forall>name\<in>N. named D t name) \<and> named_step registry P N t (f t) \<and>
        wp (hitl_evolve registry) (named_step registry P N) (k t) (\<lambda>_ _. True) (f t)) \<or>
     f t = t \<and> looks_up registry P D (k t) t)"

lemma looks_up_safe:
  "looks_up registry P D p s \<Longrightarrow> hitl_ok registry s \<Longrightarrow> safe (platform_step registry P D) (in_transaction p) s"
proof (induction p arbitrary: s)
  case (Ret r)
  then show ?case by simp
next
  case (Act f k)
  show ?case
  proof (simp only: transaction.simps wp.simps, intro allI impI)
    fix t
    assume st: "platform_step registry P D s t"
    let ?f = "\<lambda>s. if hitl_db (f s) = hitl_db s then f s else settle hitl_restore s (exec_prog (k s) (f s))"
    let ?k = "if hitl_db (f t) = hitl_db t then in_transaction (k t) else Ret (snd (exec_prog (k t) (f t)))"
    have t: "hitl_evolve registry s t" "hitl_ok registry t"
      using st permitted.stable [OF Act.prems(2) st] by (simp_all add: platform_step_def)
    with Act.prems(1) have "(\<exists>N. (\<forall>name\<in>N. named D t name) \<and> named_step registry P N t (f t) \<and>
        wp (hitl_evolve registry) (named_step registry P N) (k t) (\<lambda>_ _. True) (f t)) \<or>
      f t = t \<and> looks_up registry P D (k t) t" by (simp only: looks_up.simps)
    then consider
        N where "\<And>name. name \<in> N \<Longrightarrow> named D t name" "named_step registry P N t (f t)"
          "wp (hitl_evolve registry) (named_step registry P N) (k t) (\<lambda>_ _. True) (f t)"
      | "f t = t" "looks_up registry P D (k t) t" by blast
    then show "platform_step registry P D t (?f t) \<and> safe (platform_step registry P D) ?k (?f t)"
    proof cases
      case 1
      have "wp (\<lambda>x y. x = y) (named_step registry P N) (Act f k) (\<lambda>_ _. True) t"
        using 1(2) wp_rely [OF 1(3), of "(=)"] by (simp add: hitl_evolve_refl)
      from hitl_session.wp_transaction [OF _ reflp_named_step transp_named_step named_step_restore this]
      have f: "named_step registry P N t (?f t)" by (simp add: reflp_def)
      have w: "wp (hitl_evolve registry) (named_step registry P N) ?k (\<lambda>_ _. True) (?f t)"
        using wp_in_transaction [OF 1(3)] by simp
      have step: "platform_step registry P D t (?f t)" using f 1(1) by (rule named_step_permitted)
      have "named D (?f t) name" if "name \<in> N" for name
        using named_stable [OF 1(1) [OF that] t(2)] f by blast
      from wp_permitted [OF w permitted.stable [OF t(2) step] this] step show ?thesis by blast
    next
      case 2
      then show ?thesis using Act.IH [of "k t" t] t(2) by (simp add: platform_step_refl)
    qed
  qed
qed

subsection \<open>Requests about approvals\<close>

lemma touch_row_tools [simp]: "hw_tools (fst (touch_row d row u w)) = hw_tools w"
  by (auto simp: touch_row_def map_row_persisting_retention_def expire_if_due_def Let_def split: option.split)

lemma store_tools_kept [simp]:
  "hw_tools (fst (get_for_owner d i u w)) = hw_tools w"
  "hw_tools (fst (get_any d i w)) = hw_tools w"
  "hw_tools (fst (append_stage_decision d i u stage verdict by_user reason comments w)) = hw_tools w"
  "hw_tools (rollback_last_stage_decision i u stage verdict w) = hw_tools w"
  "hw_tools (fst (append_agent_revision i u calls note w)) = hw_tools w"
  "hw_tools (fst (cas_expire_pending_sweep d i w)) = hw_tools w"
  "hw_tools (fst (claim_pause_snapshot d i w)) = hw_tools w"
  by (simp_all add: get_for_owner_def get_any_def append_stage_decision_def expire_if_due_def Let_def
      rollback_last_stage_decision_def append_agent_revision_def cas_expire_pending_sweep_def claim_pause_snapshot_def
      split: option.split)

lemma cas_tools_kept [simp]:
  "hw_tools (fst (cas_pending d i u upd w)) = hw_tools w"
  "hw_tools (fst (require_for_owner d i u w)) = hw_tools w"
  by (simp_all add: cas_pending_def resolve_cas_miss_fst require_for_owner_fst split: option.split)

lemma decision_tools_kept [simp]:
  "hw_tools (fst (cas_cancel d i u reason md w)) = hw_tools w"
  "hw_tools (fst (cas_revise d i u calls w)) = hw_tools w"
  "hw_tools (fst (write_decision cfg i u a status args w)) = hw_tools w"
  by (simp_all add: cas_cancel_def cas_revise_def write_decision_def cas_decide_def)

lemma only_update_placeholder [acts_intros]: "only_calls P (update_placeholder_message a content status reason)"
  unfolding update_placeholder_message_def by (intro acts_intros) simp

lemma only_result_now [acts_intros]: "only_calls P (result_now a)"
  unfolding result_now_def by (intro acts_intros)

lemma only_check_stage [acts_intros]: "only_calls P (check_stage_permission cfg u stage)"
  unfolding check_stage_permission_def by (intro acts_intros)

lemma only_resolve [acts_intros]: "only_calls P (resolve_approval_for_decider cfg i u)"
  unfolding resolve_approval_for_decider_def by (intro acts_intros) simp_all

lemma only_decide_with_stages [acts_intros]: "only_calls P (decide_with_stages cfg i u a verdict status d)"
  unfolding decide_with_stages_def cas_decide_with_stage_append_def Let_def by (intro acts_intros) simp_all

lemma only_record_approved [acts_intros]: "only_calls P (record_approved cfg i u d)"
  unfolding record_approved_def append_inline_revision_def by (intro acts_intros) simp_all

lemma only_requests [acts_intros]:
  "only_calls P (revise cfg i calls u note)"
  "only_calls P (cancel cfg i u reason md)"
  "only_calls P (record_stage_approval cfg i u reason comments)"
  "only_calls P (decide cfg i u decision d)"
  unfolding revise_def cancel_def record_stage_approval_def decide_def Let_def by (intro acts_intros; simp)+

lemma only_expire_all [acts_intros]: "only_calls P (expire_all cfg pending n)"
  by (induction cfg pending n rule: expire_all.induct) (auto intro!: acts_intros)

text \<open>Calling what was granted.\<close>

lemma only_execute_approved_calls:
  assumes "pc_name ` set calls \<subseteq> N"
  shows "only_calls (with_names P N) (execute_approved_calls cfg e ctx calls)"
proof -
  have "only_calls (with_names P N) (run_approved_calls cfg e ctx calls)"
    using assms
  proof (induction calls)
    case (Cons c calls)
    then have "only_calls (with_names P N) (run_tools (execute_tool (hc_tools cfg) (call_of c) ctx))"
      by (intro only_execute_tool) (auto simp: handler_call_def with_names_def call_of_def)
    with Cons show ?case by (auto intro!: acts_intros)
  qed simp
  then show ?thesis unfolding execute_approved_calls_def by (intro acts_intros)
qed

lemma only_mark_failed [acts_intros]: "only_calls P (mark_failed a e)"
  unfolding mark_failed_def by (intro acts_intros)

lemma only_resume_after:
  assumes "pc_name ` set (resolve_final_payload decided) \<subseteq> N" and "ae_hitl_enabled env"
    and "\<And>n. approved_calls env cfg (resume_exec_context n) \<subseteq> P"
  shows "only_calls (with_names P N) (resume_after_approval_decision (with_agent env cfg) decided request ctx caller)"
proof -
  have resume: "only_calls (with_names P N) (hc_resume (with_agent env cfg) n)" for n
  proof -
    have "approved_calls env cfg (resume_exec_context n) \<subseteq> with_names P N"
      using assms(3) by (auto simp: with_names_def)
    then have "only_calls (with_names P N) (agent_resume env cfg n)"
      by (intro acts_mono [OF only_agent_resume [OF assms(2)]]) (rule calls_by_mono)
    then show ?thesis by (simp add: with_agent_def)
  qed
  have handler: "only_calls Q (case e of ApprovalPause _ \<Rightarrow> raise e | _ \<Rightarrow> mark_failed decided e)" for e and Q
    by (cases e) (auto intro: acts_intros)
  show ?thesis
    unfolding resume_after_approval_decision_def finish_placeholder_def Let_def
    by (intro acts_intros only_execute_approved_calls assms(1) resume handler) simp_all
qed

end
