(* ===== verification/Platform_Requests.thy ===== *)
theory Platform_Requests
  imports Platform_Calls
begin

section \<open>Requests and agents call only what they may\<close>

text \<open>
  Deciding an approval in favour of its calls leaves a decision that names tools of the proposal only, since edits are
  validated against it; resuming from it calls those and what the policy lets the resumed agent call. With \<open>Platform_Calls\<close>
  every task of the platform is a task of \<open>platform_step\<close>.
\<close>

lemma dict_get_proposed: "dict_get (proposed_by_id calls) i = Some c \<Longrightarrow> c \<in> set calls"
proof -
  have "dict_get (fold (\<lambda>c d. dict_put (pc_call_id c) c d) cs d) i = Some c \<Longrightarrow> c \<in> set cs \<or> dict_get d i = Some c"
    for cs :: "proposed_call list" and d
  proof (induction cs arbitrary: d)
    case (Cons a cs)
    from Cons.IH [of "dict_put (pc_call_id a) a d"] Cons.prems show ?case by (auto split: if_splits)
  qed simp
  from this [of calls "[]"] show "dict_get (proposed_by_id calls) i = Some c \<Longrightarrow> c \<in> set calls"
    by (simp add: proposed_by_id_def dict_get_def)
qed

lemma valid_edit_names: "valid_edit registry proposed edited \<Longrightarrow> pc_name ` set edited \<subseteq> pc_name ` set proposed"
proof (rule subsetI)
  fix name
  assume v: "valid_edit registry proposed edited" and "name \<in> pc_name ` set edited"
  then obtain call where call: "call \<in> set edited" "name = pc_name call" by blast
  with v obtain c where "dict_get (proposed_by_id proposed) (pc_call_id call) = Some c" "pc_name c = pc_name call"
    unfolding valid_edit_def acceptable_edit_def by blast
  from dict_get_proposed [OF this(1)] this(2) call(2) show "name \<in> pc_name ` set proposed" by (metis imageI)
qed

lemma payload_names: "approval_ok registry a \<Longrightarrow> pc_name ` set (resolve_final_payload a) \<subseteq> proposed_names a"
  using valid_edit_names [of registry "aa_proposed_calls a"]
  by (simp add: approval_ok_def resolve_final_payload_def proposed_names_def split: option.split)

subsection \<open>What a decision in favour grants\<close>

definition grants_only :: "string set \<Rightarrow> agent_approval \<Rightarrow> bool" where
  "grants_only N decided \<longleftrightarrow> pc_name ` set (resolve_final_payload decided) \<subseteq> N"

lemma knows_unique: "knows registry i calls w \<Longrightarrow> knows registry i calls' w \<Longrightarrow> calls' = calls"
  by (auto simp: knows_def)

lemma write_decision_grants:
  assumes "knows (hc_registry cfg) i calls w" and "edits_fit cfg calls d"
    and "write_decision cfg i u a status d w = (v, Inr decided)"
  shows "grants_only (pc_name ` set calls) decided"
proof -
  from cas_pending_Inr [OF assms(3) [unfolded write_decision_def cas_decide_def]] obtain row
    where row: "approval_row w i = Some row"
      "decided = map_row (hc_retention_days cfg) w (decided_as (hw_now w) status u (da_reason d) (da_comments d)
        (da_edited_calls d) (da_metadata d) row)" by blast
  from assms(1) row(1) have k: "aa_proposed_calls row = calls" "approval_ok (hc_registry cfg) row"
    using approval_row_ok [OF knows_ok [OF assms(1)] row(1)] by (auto simp: knows_def)
  show ?thesis
  proof (cases "da_edited_calls d")
    case None
    then have "aa_edited_calls decided = aa_edited_calls row" "aa_proposed_calls decided = aa_proposed_calls row"
      by (simp_all only: row(2) map_row_fields) (simp_all add: decided_as_def)
    then have "resolve_final_payload decided = resolve_final_payload row"
      by (cases "aa_edited_calls row") (simp_all add: resolve_final_payload_def)
    with payload_names [OF k(2)] k(1) show ?thesis by (simp add: grants_only_def proposed_names_def)
  next
    case (Some edited)
    then have "resolve_final_payload decided = edited" by (simp add: row(2) resolve_final_payload_def decided_as_def)
    moreover have "valid_edit (hc_registry cfg) calls edited" using assms(2) Some by (simp add: edits_fit_def)
    ultimately show ?thesis using valid_edit_names by (simp add: grants_only_def)
  qed
qed

lemma yields_catch:
  fixes p :: "'a hitl_prog"
  assumes p: "yields (hitl_evolve registry) (knows registry i calls) p Q"
    and h: "\<And>e. hitl_safe registry (h e)" and "\<And>e. leaves (h e) isl"
  shows "yields (hitl_evolve registry) (knows registry i calls) (catch p h) Q"
  unfolding yields_def catch_def wp_bindP
proof (intro allI impI)
  let ?E = "hitl_evolve registry"
  fix s
  assume s: "knows registry i calls s"
  with p have "wp ?E ?E p (\<lambda>r t. case r of Inl _ \<Rightarrow> True | Inr a \<Rightarrow> Q a t) s" by (simp add: yields_def)
  from wp_remember [OF this hitl_evolve_refl approvals.transp approvals.reflp]
  show "wp ?E ?E p (\<lambda>r. wp ?E ?E (case r of Inr x \<Rightarrow> ok x | Inl e \<Rightarrow> h e)
      (\<lambda>r t. case r of Inl _ \<Rightarrow> True | Inr a \<Rightarrow> Q a t)) s"
  proof (rule wp_mono)
    fix r :: "hitl_exn + 'a" and t
    assume r: "(case r of Inl _ \<Rightarrow> True | Inr a \<Rightarrow> Q a t) \<and> ?E s t"
    show "wp ?E ?E (case r of Inr x \<Rightarrow> ok x | Inl e \<Rightarrow> h e) (\<lambda>r t. case r of Inl _ \<Rightarrow> True | Inr a \<Rightarrow> Q a t) t"
    proof (cases r)
      case (Inl e)
      have "hitl_ok registry t" using knows_ok [OF proposal.stable [OF s]] r by blast
      from wp_leaves [OF safe_whenD [OF h this] assms(3), of e]
      show ?thesis by (simp add: Inl) (erule wp_mono, auto split: sum.split)
    qed (use r in simp)
  qed
qed

lemma keeps_known:
  "hitl_safe registry p \<Longrightarrow> yields (hitl_evolve registry) (knows registry i calls) p (\<lambda>_. knows registry i calls)"
  by (rule proposal.safe_keeps) (rule knows_safe)

lemma yields_decide_with_stages:
  assumes "edits_fit cfg calls d" and "decided_status status"
  shows "yields (hitl_evolve (hc_registry cfg)) (knows (hc_registry cfg) i calls)
    (decide_with_stages cfg i u approval verdict status d) (\<lambda>decided _. grants_only (pc_name ` set calls) decided)"
proof -
  let ?Y = "\<lambda>p. yields (hitl_evolve (hc_registry cfg)) (knows (hc_registry cfg) i calls) p
    (\<lambda>decided _. grants_only (pc_name ` set calls) decided)"
  have "hitl_evolve (hc_registry cfg) w (fst (write_decision cfg i u approval status d w))"
    if "knows (hc_registry cfg) i calls w" for w
    unfolding write_decision_def by (rule cas_decide_evolve [OF assms(2)])
      (use assms(1) that in \<open>auto simp: knows_def edits_fit_def\<close>)
  moreover have "grants_only (pc_name ` set calls) a"
    if "knows (hc_registry cfg) i calls w" "snd (write_decision cfg i u approval status d w) = Inr a" for w a
    using write_decision_grants [OF that(1) assms(1)] that(2) by (metis prod.collapse)
  ultimately have written: "?Y (opP (write_decision cfg i u approval status d))"
    by (intro proposal.yields_opP) blast
  have leaf: "leaves (if is_hitl_error e then bindE (doP f) (\<lambda>_. raise e) else raise e) isl" for e f
    by (simp add: leaves_bindE doP_def opP_def)
  have "?Y (catch (opP (write_decision cfg i u approval status d)) (\<lambda>e. if is_hitl_error e
      then bindE (doP (rollback_last_stage_decision i (aa_owner_id approval) stage verdict')) (\<lambda>_. raise e)
      else raise e))" for stage verdict'
    by (rule yields_catch [OF written _ leaf]) (intro hitl_safe_intros rollback_last_stage_decision_evolve)
  then have "?Y (cas_decide_with_stage_append cfg i u approval verdict status d)"
    unfolding cas_decide_with_stage_append_def Let_def
    by (intro yields_bindE [OF keeps_known [OF safe_check_stage_permission]]
        yields_bindE [OF keeps_known [OF safe_append_stage_decision]])
  with written show ?thesis by (simp add: decide_with_stages_def)
qed

lemma yields_resolve_known:
  "yields (hitl_evolve registry) (knows registry i calls) (resolve_approval_for_decider cfg i u)
     (\<lambda>a w. knows registry i calls w \<and> aa_proposed_calls a = calls)"
  unfolding yields_def
proof (intro allI impI)
  fix s
  assume s: "knows registry i calls s"
  let ?E = "hitl_evolve registry" and ?p = "resolve_approval_for_decider cfg i u"
  have "wp ?E ?E ?p (\<lambda>r t. case r of Inl _ \<Rightarrow> True | Inr a \<Rightarrow> knows registry i (aa_proposed_calls a) t) s"
    using yields_resolve [of registry cfg i u] knows_ok [OF s] by (simp add: yields_def)
  moreover have "wp ?E ?E ?p (\<lambda>r t. case r of Inl _ \<Rightarrow> True | Inr a \<Rightarrow> knows registry i calls t) s"
    using proposal.safe_keeps [OF knows_safe [OF safe_resolve]] s by (simp add: yields_def)
  ultimately show "wp ?E ?E ?p (\<lambda>r t. case r of Inl _ \<Rightarrow> True
      | Inr a \<Rightarrow> knows registry i calls t \<and> aa_proposed_calls a = calls) s"
    by (rule wp_mono [OF wp_conj]) (auto split: sum.splits dest: knows_unique)
qed

lemma yields_record_approved:
  "yields (hitl_evolve (hc_registry cfg)) (knows (hc_registry cfg) i calls) (record_approved cfg i u d)
     (\<lambda>decided _. grants_only (pc_name ` set calls) decided)"
proof -
  let ?E = "hitl_evolve (hc_registry cfg)" and ?K = "knows (hc_registry cfg) i calls"
  let ?Q = "\<lambda>decided (_ :: hitl_world). grants_only (pc_name ` set calls) decided"
  have inline: "yields ?E (\<lambda>w. ?K w \<and> ?Q decided w) (bindE (append_inline_revision i u d) (\<lambda>_. ok decided)) ?Q" for decided
    using knows_safe [OF safe_append_inline_revision, of "hc_registry cfg" i calls i u d]
    by (auto simp: yields_def safe_when_def wp_bindE split: sum.split elim!: wp_mono)
  have keep: "yields ?E ?K p (\<lambda>a w. ?K w \<and> Q a w)" if "yields ?E ?K p Q" for p :: "agent_approval hitl_prog" and Q
    unfolding yields_def
  proof (intro allI impI)
    fix s
    assume s: "?K s"
    with that have "wp ?E ?E p (\<lambda>r t. case r of Inl _ \<Rightarrow> True | Inr a \<Rightarrow> Q a t) s" by (simp add: yields_def)
    from wp_remember [OF this hitl_evolve_refl approvals.transp approvals.reflp]
    show "wp ?E ?E p (\<lambda>r t. case r of Inl _ \<Rightarrow> True | Inr a \<Rightarrow> ?K t \<and> Q a t) s"
      by (rule wp_mono) (auto split: sum.splits intro: proposal.stable [OF s])
  qed
  have act: "yields ?E (\<lambda>w. ?K w \<and> aa_proposed_calls approval = calls)
     (bindE (Ret (validate_edits cfg (da_edited_calls d) approval)) (\<lambda>_.
      bindE (Ret (assert_terminal_approve_allowed approval i)) (\<lambda>_.
      bindE (decide_with_stages cfg i u approval StageApproved ApApproved d) (\<lambda>decided.
      bindE (append_inline_revision i u d) (\<lambda>_. ok decided))))) ?Q" for approval
  proof (cases "aa_proposed_calls approval = calls")
    case True
    have ap: "decided_status ApApproved" by (simp add: decided_status_def)
    show ?thesis
    proof (cases "validate_edits cfg (da_edited_calls d) approval")
      case (Inr x)
      from edits_fit_validated [OF this] True have "edits_fit cfg calls d" by simp
      from yields_bindE [OF keep [OF yields_decide_with_stages [OF this ap]] inline] True Inr
      show ?thesis by (cases "assert_terminal_approve_allowed approval i") simp_all
    qed simp
  qed (simp add: yields_def)
  show ?thesis
    unfolding record_approved_def by (rule yields_bindE [OF yields_resolve_known act])
qed

subsection \<open>Decisions\<close>

interpretation granting: guaranteed "hitl_evolve registry" "knows registry i calls" "named_step registry P N"
  for registry i calls P N
  by unfold_locales simp

lemma guards_quiet:
  assumes "agent_safe registry p" and "only_calls (with_names P N) p"
  shows "guards (hitl_evolve registry) (named_step registry P N) (hitl_ok registry) p"
  using guards_both [OF assms] .

lemma guards_known:
  "agent_safe registry p \<Longrightarrow> only_calls (with_names P N) p \<Longrightarrow>
   guards (hitl_evolve registry) (named_step registry P N) (knows registry i calls) p"
  using guards_weaken [OF guards_quiet] knows_ok by blast

definition agents_within :: "agent_env \<Rightarrow> hitl_config \<Rightarrow> (string \<times> pyval dict) set \<Rightarrow> bool" where
  "agents_within env cfg P \<longleftrightarrow> ae_hitl_enabled env \<and> (\<forall>n. approved_calls env cfg (resume_exec_context n) \<subseteq> P)"

lemma with_agent_simps [simp]:
  "hc_registry (with_agent env cfg) = hc_registry cfg" "hc_retention_days (with_agent env cfg) = hc_retention_days cfg"
  by (simp_all add: with_agent_def)

lemma guards_stream_approved:
  assumes "agents_within env cfg P"
  shows "guards (hitl_evolve (hc_registry cfg)) (named_step (hc_registry cfg) P (pc_name ` set calls))
    (knows (hc_registry cfg) i calls) (stream_approved_decision (with_agent env cfg) i u request d)"
proof -
  let ?cfg = "with_agent env cfg" and ?N = "pc_name ` set calls"
  let ?guards = "guards (hitl_evolve (hc_registry cfg)) (named_step (hc_registry cfg) P ?N) (knows (hc_registry cfg) i calls)"
  have "wp (hitl_evolve (hc_registry cfg)) (named_step (hc_registry cfg) P ?N) (record_approved ?cfg i u d)
      (\<lambda>r _. case r of Inl _ \<Rightarrow> True | Inr decided \<Rightarrow> grants_only ?N decided) s"
    if "knows (hc_registry cfg) i calls s" for s
    using yields_record_approved [of ?cfg i calls u d] that
    by (intro wp_acts acts_intros) (simp add: yields_def)
  moreover have "?guards (bindE (result_now decided) (\<lambda>result.
      bindE (resume_after_approval_decision ?cfg decided request (user_context u) u) (\<lambda>response. ok (result, response))))"
    if "grants_only ?N decided" for decided
    using that assms safe_resume_after [OF with_agent_resumer_ok, of env cfg decided request "user_context u" u]
    by (intro guards_known hitl_safe_intros acts_intros only_resume_after)
      (auto simp: grants_only_def agents_within_def)
  ultimately have "?guards (approve_and_resume ?cfg i u request d)"
    unfolding approve_and_resume_def by (rule granting.guards_after)
  then show ?thesis
    unfolding stream_approved_decision_def
    by (rule granting.guards_bindP) (auto simp: guards_def split: sum.split)
qed

lemma looks_up_known:
  assumes "approval_row t i = Some a" and "hitl_ok registry t" and "i \<in> D"
    and "guards (hitl_evolve registry) (named_step registry P (proposed_names a)) (knows registry i (aa_proposed_calls a)) (Act f k)"
  shows "\<exists>N. (\<forall>name\<in>N. named D t name) \<and> named_step registry P N t (f t) \<and>
    wp (hitl_evolve registry) (named_step registry P N) (k t) (\<lambda>_ _. True) (f t)"
proof -
  have "knows registry i (aa_proposed_calls a) t" using assms(1,2) by (simp add: knows_def)
  from guardsD [OF assms(4) this] have "named_step registry P (proposed_names a) t (f t) \<and>
      wp (hitl_evolve registry) (named_step registry P (proposed_names a)) (k t) (\<lambda>_ _. True) (f t)"
    using hitl_evolve_refl by auto
  with assms(1,3) show ?thesis by (auto simp: named_def)
qed

lemma looks_up_resolve:
  assumes "i \<in> D"
    and cont: "\<And>approval calls. guards (hitl_evolve registry) (named_step registry P (pc_name ` set calls))
      (knows registry i calls) (cont approval)"
  shows "looks_up registry P D (bindE (resolve_approval_for_decider cfg i u) cont) s"
proof -
  let ?d = "hc_retention_days cfg"
  define h2 where "h2 = (\<lambda>candidate. case candidate of
       None \<Rightarrow> raise (ApprovalNotFound i)
     | Some c \<Rightarrow>
         bindE (hitl_authorize cfg u (permission_value ApprovalsDecideAll)) (\<lambda>decide_all.
         bindE (if \<not> decide_all \<and> has_outstanding_stages c
                then hitl_authorize cfg u (current_stage c) else ok decide_all) (\<lambda>authorized.
           if \<not> authorized then raise (ApprovalNotFound i)
           else if aa_status c = ApExpired then raise (ApprovalHasExpired i)
           else ok c)))"
  define h1 where "h1 = (\<lambda>approval. case approval of
      Some a \<Rightarrow> if aa_status a = ApExpired then raise (ApprovalHasExpired i) else ok a
    | None \<Rightarrow> if \<not> hc_rbac_active cfg then raise (ApprovalNotFound i) else bindP (opP (get_any ?d i)) h2)"
  have res: "resolve_approval_for_decider cfg i u = bindP (opP (get_for_owner ?d i u)) h1"
    unfolding resolve_approval_for_decider_def h1_def h2_def by (rule refl)
  have split: "bindE (bindP (opP f) h) cont = Act (\<lambda>s. fst (f s)) (\<lambda>s. bindE (h (snd (f s))) cont)"
    for f and h :: "agent_approval option \<Rightarrow> agent_approval hitl_prog" by (simp add: opP_def bindE_def)
  have any_safe: "hitl_safe registry (bindP (opP (get_any ?d i)) h2)"
  proof (rule approvals.bindP [OF approvals.opP])
    show "hitl_evolve registry w (fst (get_any ?d i w))" for w
      using get_any_result(1) [of ?d i w] by (cases "get_any ?d i w") simp
    show "hitl_safe registry (h2 c)" for c unfolding h2_def by (intro hitl_safe_intros)
  qed
  have any_calls: "only_calls Q (bindP (opP (get_any ?d i)) h2)" for Q
    unfolding h2_def by (intro acts_intros) simp_all
  have known: "guards (hitl_evolve registry) (named_step registry P (proposed_names a)) (knows registry i (aa_proposed_calls a))
      (bindE p cont)" if "hitl_safe registry p" "only_calls (with_names P (proposed_names a)) p" for p a
    by (rule granting.guards_bindE [OF guards_known [OF that]]) (rule cont [of "aa_proposed_calls a", folded proposed_names_def])
  have none: "get_any ?d i t = (t, None)" "get_for_owner ?d i u t = (t, None)" if "approval_row t i = None" for t
    using that by (simp_all add: get_any_def get_for_owner_def)
  have any: "looks_up registry P D (bindE (bindP (opP (get_any ?d i)) h2) cont) t" for t
    unfolding split looks_up.simps
  proof (intro allI impI)
    fix t'
    assume t': "hitl_ok registry t'"
    show "(\<exists>N. (\<forall>name\<in>N. named D t' name) \<and> named_step registry P N t' (fst (get_any ?d i t')) \<and>
        wp (hitl_evolve registry) (named_step registry P N) (bindE (h2 (snd (get_any ?d i t'))) cont) (\<lambda>_ _. True) (fst (get_any ?d i t'))) \<or>
      fst (get_any ?d i t') = t' \<and> looks_up registry P D (bindE (h2 (snd (get_any ?d i t'))) cont) t'"
    proof (cases "approval_row t' i")
      case None
      then show ?thesis by (simp add: none h2_def)
    next
      case (Some a)
      from looks_up_known [OF Some t' assms(1) known [OF any_safe any_calls, unfolded split]] show ?thesis by blast
    qed
  qed
  show ?thesis
    unfolding res split looks_up.simps
  proof (intro allI impI)
    fix t
    assume t: "hitl_ok registry t"
    show "(\<exists>N. (\<forall>name\<in>N. named D t name) \<and> named_step registry P N t (fst (get_for_owner ?d i u t)) \<and>
        wp (hitl_evolve registry) (named_step registry P N) (bindE (h1 (snd (get_for_owner ?d i u t))) cont) (\<lambda>_ _. True)
          (fst (get_for_owner ?d i u t))) \<or>
      fst (get_for_owner ?d i u t) = t \<and> looks_up registry P D (bindE (h1 (snd (get_for_owner ?d i u t))) cont) t"
    proof (cases "approval_row t i")
      case None
      with any show ?thesis by (simp add: none h1_def)
    next
      case (Some a)
      from looks_up_known [OF Some t assms(1) known [OF safe_resolve [of _ cfg i u] only_resolve [of _ cfg i u], unfolded res split]] show ?thesis by blast
    qed
  qed
qed

subsection \<open>Every task\<close>

abbreviation platform_safe ::
    "tool_registry option \<Rightarrow> (string \<times> pyval dict) set \<Rightarrow> uuid set \<Rightarrow> (hitl_world, 'a) prog \<Rightarrow> bool" where
  "platform_safe registry P D p \<equiv> safe_when (platform_step registry P D) (hitl_ok registry) p"

lemma platform_guards:
  assumes "guards (hitl_evolve registry) (named_step registry P {}) (hitl_ok registry) p"
  shows "platform_safe registry P D p" "platform_safe registry P D (in_transaction p)"
proof -
  have w: "wp (hitl_evolve registry) (named_step registry P {}) p (\<lambda>_ _. True) s" if "hitl_ok registry s" for s
    using guardsD [OF assms that] .
  show "platform_safe registry P D p" "platform_safe registry P D (in_transaction p)"
    unfolding safe_when_def using wp_permitted [OF w] wp_permitted [OF wp_in_transaction [OF w]] by blast+
qed

lemma platform_quiet:
  assumes "hitl_safe registry p" and "only_calls P p"
  shows "platform_safe registry P D p" "platform_safe registry P D (in_transaction p)"
proof -
  have "only_calls (with_names P {}) p" using assms(2) by (simp add: with_names_def)
  from platform_guards [OF guards_quiet [OF assms(1) this]]
  show "platform_safe registry P D p" "platform_safe registry P D (in_transaction p)" .
qed

lemma platform_forget: "platform_safe registry P D p \<Longrightarrow> platform_safe registry P D (forget p)"
  unfolding forget_def by (intro permitted.bindE safe_when_Ret)

lemma platform_decide:
  assumes "agents_within env cfg P" and "decision = StageApproved \<Longrightarrow> i \<in> D"
  shows "platform_safe (hc_registry cfg) P D (decide_agent_approval (with_agent env cfg) i u decision d)"
proof (cases "decision = StageRejected")
  case True
  have "hitl_safe (hc_registry cfg) (decide (with_agent env cfg) i u decision' args)" for decision' args
    using safe_decide [of "with_agent env cfg"] by simp
  with True show ?thesis
    unfolding decide_agent_approval_def Let_def
    by (simp only: simp_thms if_True) (intro platform_quiet hitl_safe_intros acts_intros)
next
  case False
  let ?cfg = "with_agent env cfg"
  let ?d = "d\<lparr>da_reason := normalize_hitl_reason (da_reason d) (hc_max_reason_length ?cfg),
    da_comments := normalize_hitl_reason (da_comments d) (hc_max_comment_length ?cfg)\<rparr>"
  have cont: "guards (hitl_evolve (hc_registry cfg)) (named_step (hc_registry cfg) P (pc_name ` set calls))
      (knows (hc_registry cfg) i calls)
      (if aa_status approval \<noteq> ApPending
       then raise (ApprovalDecisionConflict i (aa_status approval))
       else if remaining_stage_count approval > 1
       then bindE (record_stage_approval ?cfg i u (da_reason ?d) (da_comments ?d)) (\<lambda>r. ok (Decided r))
       else bindP (readP (\<lambda>w. case aa_pending_message_id approval of None \<Rightarrow> None | Some i \<Rightarrow> get_message i w)) (\<lambda>placeholder.
            stream_approved_decision ?cfg i u (build_resume_request ?cfg placeholder) ?d))" for approval calls
  proof -
    let ?guards = "guards (hitl_evolve (hc_registry cfg)) (named_step (hc_registry cfg) P (pc_name ` set calls))
      (knows (hc_registry cfg) i calls)"
    have "?guards (bindE (record_stage_approval ?cfg i u (da_reason ?d) (da_comments ?d)) (\<lambda>r. ok (Decided r)))"
      by (intro guards_known hitl_safe_intros acts_intros)
    moreover have "?guards (bindP (readP f) (\<lambda>placeholder.
        stream_approved_decision ?cfg i u (build_resume_request ?cfg placeholder) ?d))" for f :: "hitl_world \<Rightarrow> chat_message option"
      by (intro granting.guards_bindP guards_stream_approved assms(1) guards_known approvals.readP only_readP)
    ultimately show ?thesis by (simp add: guards_def)
  qed
  from False assms(2) have "i \<in> D" by (cases decision) simp_all
  from looks_up_safe [OF looks_up_resolve [OF this cont]] False show ?thesis
    by (simp add: safe_when_def decide_agent_approval_def Let_def)
qed

lemma looks_up_orphan:
  assumes "agents_within env cfg P"
  shows "looks_up (hc_registry cfg) P D (resume_orphaned_approval (with_agent env cfg) fail_safe i) s"
proof -
  let ?cfg = "with_agent env cfg" and ?E = "hitl_evolve (hc_registry cfg)"
  define f where "f = claim_pause_snapshot (hc_retention_days cfg) i"
  define rest where "rest = (\<lambda>claimed :: agent_approval option. case claimed of
      None \<Rightarrow> ok False
    | Some approval \<Rightarrow>
        bindP (readP (list_messages (aa_session_id approval))) (\<lambda>messages.
        (case aa_paused_state approval of
           None \<Rightarrow> raise HitlSnapshotInvalid
         | Some state \<Rightarrow>
             catch (bindE (resume_after_approval_decision ?cfg approval
                      (orphan_resume_request ?cfg approval state messages)
                      (user_context (aa_owner_id approval)) (aa_owner_id approval)) (\<lambda>_. ok True)) (\<lambda>e.
               (case e of
                  ApprovalPause _ \<Rightarrow> raise e
                | _ \<Rightarrow> if fail_safe
                       then bindE (update_placeholder_message approval [] ''error'' (Some ''error'')) (\<lambda>_. ok False)
                       else raise e)))))"
  have res: "resume_orphaned_approval ?cfg fail_safe i = Act (\<lambda>s. fst (f s)) (\<lambda>s. rest (snd (f s)))"
    unfolding resume_orphaned_approval_def rest_def f_def by (simp add: opP_def)
  have calls: "only_calls (with_names P N) (rest (Some a))" if "grants_only N a" for N a
  proof -
    have "only_calls Q (case e of ApprovalPause _ \<Rightarrow> raise e
        | _ \<Rightarrow> if fail_safe then bindE (update_placeholder_message a [] m r) (\<lambda>_. ok False) else raise e)"
      for e Q m r by (cases e) (auto intro!: acts_intros)
    with that assms show ?thesis
      unfolding rest_def option.case
      by (intro acts_intros only_resume_after) (auto simp: grants_only_def agents_within_def)
  qed
  show ?thesis
    unfolding res looks_up.simps
  proof (intro allI impI)
    fix t
    assume t: "hitl_ok (hc_registry cfg) t"
    show "(\<exists>N. (\<forall>name\<in>N. named D t name) \<and> named_step (hc_registry cfg) P N t (fst (f t)) \<and>
        wp ?E (named_step (hc_registry cfg) P N) (rest (snd (f t))) (\<lambda>_ _. True) (fst (f t))) \<or>
      fst (f t) = t \<and> looks_up (hc_registry cfg) P D (rest (snd (f t))) t"
    proof (cases "\<exists>row. approval_row t i = Some row \<and> aa_status row = ApApproved \<and> has_pause_snapshot row")
      case True
      then obtain row where row: "approval_row t i = Some row" "aa_status row = ApApproved" "has_pause_snapshot row" by blast
      define a where "a = map_row (hc_retention_days cfg) t row"
      have f: "snd (f t) = Some a" using row by (simp add: f_def claim_pause_snapshot_def a_def)
      have "resolve_final_payload a = resolve_final_payload row"
        by (cases "aa_edited_calls row") (simp_all add: resolve_final_payload_def a_def)
      then have grants: "grants_only (proposed_names row) a"
        using payload_names [OF conjunct1 [OF approval_row_ok [OF t row(1)]]] by (simp add: grants_only_def)
      have "safe ?E (Act (\<lambda>s. fst (f s)) (\<lambda>s. rest (snd (f s)))) t"
        using safe_whenD [OF safe_resume_orphaned_approval [OF with_agent_resumer_ok]] t
        unfolding res [symmetric] by simp
      then have "?E t (fst (f t)) \<and> safe ?E (rest (snd (f t))) (fst (f t))"
        unfolding wp.simps using hitl_evolve_refl by blast
      then have s: "?E t (fst (f t))" "safe ?E (rest (Some a)) (fst (f t))" unfolding f by (rule conjunct1, rule conjunct2)
      have kept: "calls_by Q t (fst (f t))" for Q by (rule calls_by_same) (simp add: f_def)
      have names: "\<forall>name\<in>proposed_names row. named D t name" using row by (auto simp: named_def)
      have "wp ?E (named_step (hc_registry cfg) P (proposed_names row)) (rest (snd (f t))) (\<lambda>_ _. True) (fst (f t))"
        unfolding f by (rule wp_acts [OF calls [OF grants] s(2)])
      with names kept s(1) show ?thesis by (intro disjI1 exI [of _ "proposed_names row"] conjI)
    next
      case False
      then have "f t = (t, None)" by (auto simp: f_def claim_pause_snapshot_def split: option.split)
      then show ?thesis by (simp add: rest_def)
    qed
  qed
qed

lemma platform_sweep_orphans:
  assumes "agents_within env cfg P"
  shows "platform_safe (hc_registry cfg) P D (sweep_orphans (with_agent env cfg) fail_safe orphans counts)"
proof (induction orphans arbitrary: counts)
  case Nil
  show ?case by (simp add: safe_when_Ret)
next
  case (Cons approval orphans)
  obtain resumed failed where counts: "counts = (resumed, failed)" by fastforce
  have "platform_safe (hc_registry cfg) P D (in_transaction (resume_orphaned_approval (with_agent env cfg) fail_safe (aa_id approval)))"
    using looks_up_safe [OF looks_up_orphan [OF assms]] by (simp add: safe_when_def)
  then show ?case
    unfolding counts sweep_orphans.simps
    by (intro permitted.bindP safe_when_sum safe_when_if safe_when_Ret Cons.IH)
qed

definition task_calls :: "agent_env \<Rightarrow> hitl_config \<Rightarrow> platform_task list \<Rightarrow> (string \<times> pyval dict) set" where
  "task_calls env cfg tasks = \<Union> (approved_calls env cfg `
     ({resolve_tool_context context | request context. RunAgent request context \<in> set tasks} \<union> range resume_exec_context))"

definition approving :: "platform_task list \<Rightarrow> uuid set" where
  "approving tasks = {i. \<exists>caller d. Request (ReqDecide i caller StageApproved d) \<in> set tasks}"

lemma platform_serve:
  assumes "ae_hitl_enabled env" and task: "task \<in> set tasks"
  shows "platform_safe (hc_registry cfg) (task_calls env cfg tasks) (approving tasks) (serve_platform env cfg task)"
proof (cases task)
  case (RunAgent request "context")
  have "approved_calls env cfg (resolve_tool_context context) \<subseteq> task_calls env cfg tasks"
    using task RunAgent by (auto simp: task_calls_def)
  then have "only_calls (task_calls env cfg tasks) (default_agent_run env cfg request context)"
    unfolding default_agent_run_def
    by (intro acts_mono [OF only_agent_run [OF assms(1)]]) (rule calls_by_mono)
  moreover have "hitl_safe (hc_registry cfg) (default_agent_run env cfg request context)"
    unfolding default_agent_run_def by (rule safe_agent_run)
  ultimately show ?thesis by (simp add: RunAgent platform_forget platform_quiet(2))
next
  case (Request req)
  let ?P = "task_calls env cfg tasks" and ?D = "approving tasks" and ?cfg = "with_agent env cfg"
  have agents: "agents_within env cfg ?P" using assms(1) by (auto simp: agents_within_def task_calls_def)
  have serve: "platform_safe (hc_registry cfg) ?P ?D (serve_hitl ?cfg req)"
  proof (cases req)
    case (ReqDecide i u decision d)
    then have "decision = StageApproved \<Longrightarrow> i \<in> ?D" using task Request by (auto simp: approving_def)
    from platform_decide [OF agents this] show ?thesis by (simp add: ReqDecide platform_forget)
  next
    case (ReqOrphanSweep enabled fail_safe)
    then show ?thesis
      by (auto simp: hitl_orphaned_snapshot_sweep_def
          intro!: platform_forget permitted.bindP permitted.readP safe_when_Ret platform_sweep_orphans agents)
  next
    case (ReqExpirySweep enabled)
    then show ?thesis
      by (auto simp: expire_timed_out_approvals_def
          intro!: platform_forget permitted.bindP permitted.readP safe_when_Ret platform_quiet(2) safe_expire_all only_expire_all)
  next
    case (ReqPause q)
    show ?thesis unfolding ReqPause serve_hitl.simps by (intro platform_forget platform_quiet(2) safe_pause only_pause)
  next
    case (ReqRevise i calls u remark)
    show ?thesis using safe_revise [of ?cfg i calls u remark] unfolding ReqRevise serve_hitl.simps
      by (intro platform_forget platform_quiet(2) acts_intros) simp
  next
    case (ReqCancel i u reason md)
    show ?thesis unfolding ReqCancel serve_hitl.simps by (intro platform_forget platform_quiet(2) safe_cancel acts_intros)
  next
    case (ReqRead i u)
    show ?thesis unfolding ReqRead serve_hitl.simps
      by (intro platform_forget platform_quiet(2) hitl_safe_intros acts_intros safe_opP get_for_owner_evolve) simp
  next
    case (ReqTimePasses n)
    show ?thesis unfolding ReqTimePasses serve_hitl.simps
      by (intro platform_quiet(1) hitl_safe_intros acts_intros hitl_evolve_kept) simp
  qed
  then show ?thesis by (simp add: Request)
qed

lemma platform_calls:
  assumes "pool_step\<^sup>*\<^sup>* (w, map (serve_platform env cfg) tasks) (v, ps)" and "hitl_ok (hc_registry cfg) w"
    and "ae_hitl_enabled env"
  shows "platform_step (hc_registry cfg) (task_calls env cfg tasks) (approving tasks) w v"
  by (rule permitted.pool [OF assms(1,2)]) (use platform_serve [OF assms(3)] in auto)

end
