(* ===== verification/Agent_Properties.thy ===== *)
theory Agent_Properties
  imports Agent_Frame Platform_Requests Hitl_Properties
begin

section \<open>Properties of agents and of the platform they run on\<close>

text \<open>
  The properties of the agent runtime, alone and among the requests of the approval service, with the example on which they are
  evaluated: an agent whose model first asks for the tool \<open>ping\<close> and then answers, under a policy that requires an approval
  for the tools in \<open>required\<close>.
\<close>

definition agent_tools :: tool_config where
  "agent_tools = ping_config\<lparr>xc_handler := (\<lambda>n. if n = ''ping'' then Some (ping_handler\<lparr>th_execute := (\<lambda>_ _. ToolReturned
     \<lparr>tr_success = True, tr_data = PNone, tr_error = None, tr_error_code = None, tr_metadata = []\<rparr>)\<rparr>) else None),
     xc_rate_extensions := False\<rparr>"

definition agent_hitl :: hitl_config where
  "agent_hitl = example_hitl\<lparr>hc_tools := agent_tools\<rparr>"

definition ping_completion :: tool_completion where
  "ping_completion = \<lparr>tk_content = None, tk_tool_calls =
     [\<lparr>pt_id = ''c'', pt_name = ''ping'', pt_arguments = [], pt_thought_signature = None\<rparr>]\<rparr>"

definition ping_env :: "string list \<Rightarrow> agent_env" where
  "ping_env required = \<lparr>ae_hitl_enabled = True,
     ae_policy = Some \<lparr>ap_required_tool_names = required, ap_rules = None, ap_environment = None\<rparr>, ae_has_service = True,
     ae_search = (\<lambda>_ _ _ _. False), ae_as_text = (\<lambda>_. []), ae_role_enforced = False,
     ae_complete_with_tools = (\<lambda>n _ _ _. Inr (if n = 0 then ping_completion
        else \<lparr>tk_content = Some ''all done'', tk_tool_calls = []\<rparr>)),
     ae_complete_chat = (\<lambda>_ _ _. Inr []), ae_stream_chat = (\<lambda>_ _ _. ([''x''], None)), ae_stalls_after = (\<lambda>_. None),
     ae_planner_prompt = (\<lambda>_ _ _ _. []), ae_reflection_prompt = (\<lambda>_ _. []), ae_detail = (\<lambda>_. []), ae_dumps = (\<lambda>_. []),
     ae_hex8 = (\<lambda>_. ''h''), ae_request_id = None\<rparr>"

definition ping_agent :: agent_context where
  "ping_agent = \<lparr>ax_execution_id = ''run'', ax_caller = Some (user_context 4), ax_allowed_tool_names = None,
     ax_session_id = Some 5, ax_metadata = []\<rparr>"

definition ping_run :: "string list \<Rightarrow> agent_response hitl_prog" where
  "ping_run required = default_agent_run (ping_env required) agent_hitl plain_request ping_agent"

definition empty_platform :: hitl_world where
  "empty_platform = (example_state (example_approval []))\<lparr>hw_approvals := []\<rparr>"

lemma ping_runs: "let (v, r) = exec_prog (ping_run []) empty_platform in
   map fst (xw_calls (hw_tools v)) = [''ping''] \<and> (case r of Inl _ \<Rightarrow> False | Inr x \<Rightarrow> ap_content x = ''all done'' \<and> ap_approval_id x = None \<and> ap_iterations x = 2)"
  by code_simp

lemma ping_waits: "let (v, r) = exec_prog (ping_run [''ping'']) empty_platform in
   xw_calls (hw_tools v) = [] \<and> (case r of Inl _ \<Rightarrow> False | Inr x \<Rightarrow> ap_approval_id x = Some 12)"
  by code_simp

lemma empty_platform_ok: "hitl_ok registry empty_platform"
  by (simp add: empty_platform_def hitl_ok_def example_state_def revisions_ok_def)

lemma ping_pool:
  "pool_step\<^sup>*\<^sup>* (empty_platform, map (serve_platform (ping_env required) agent_hitl) [RunAgent plain_request ping_agent])
     (fst (exec_prog (forget (in_transaction (ping_run required))) empty_platform),
      [Ret (snd (exec_prog (forget (in_transaction (ping_run required))) empty_platform))])"
  using pool_exec [of empty_platform "forget (in_transaction (ping_run required))"] by (simp add: ping_run_def)

subsection \<open>Tools and permissions\<close>



subsection \<open>Approvals among agent runs\<close>

text \<open>C10: whatever other tasks do (agents run, pause and are resumed; requests pause, revise, decide, cancel, read,
  sweep; in any interleaving), an approval that has been decided, has expired or was cancelled keeps its status, decision, stage
  decisions and calls for ever; of the agent's snapshot nothing can happen but its removal.\<close>

theorem decided_approvals_are_final:
  assumes "pool_step\<^sup>*\<^sup>* (w, map (serve_platform env cfg) tasks) (v, ps)" and "hitl_ok (hc_registry cfg) w"
    and "approval_row w i = Some a" and "aa_status a \<noteq> ApPending"
  shows "\<exists>b. approval_row v i = Some b \<and> aa_status b = aa_status a \<and> aa_decided_by b = aa_decided_by a \<and>
    aa_decided_at b = aa_decided_at a \<and> aa_reason b = aa_reason a \<and> aa_stage_decisions b = aa_stage_decisions a \<and>
    resolve_final_payload b = resolve_final_payload a \<and>
    (has_pause_snapshot b \<longrightarrow> aa_paused_state b = aa_paused_state a \<and> aa_paused_scratchpad b = aa_paused_scratchpad a)"
proof -
  from hitl_evolve_row [OF platform_pool [OF assms(1,2)] assms(2,3)] obtain b
    where b: "approval_row v i = Some b" "approval_may_become a b" by blast
  from b(2) assms(4) have "resolve_final_payload b = resolve_final_payload a"
    by (simp add: approval_may_become_def resolve_final_payload_def split: option.split)
  with b assms(4) show ?thesis by (auto simp: approval_may_become_def)
qed

theorem decided_approvals_are_final_witness:
  "\<exists>b. approval_row (fst (exec_prog (serve_platform (ping_env []) agent_hitl (Request (ReqDecide 1 4 StageApproved plain_decision)))
      (example_state (cancelled_as 50 4 None None (example_approval []))))) 1 = Some b \<and> aa_status b = ApCancelled"
proof -
  let ?a = "cancelled_as 50 4 None None (example_approval [])"
  let ?task = "Request (ReqDecide 1 4 StageApproved plain_decision)"
  let ?p = "serve_platform (ping_env []) agent_hitl ?task"
  have run: "pool_step\<^sup>*\<^sup>* (example_state ?a, map (serve_platform (ping_env []) agent_hitl) [?task])
      (fst (exec_prog ?p (example_state ?a)), [Ret (snd (exec_prog ?p (example_state ?a)))])"
    using pool_exec [of "example_state ?a" ?p] by (simp del: serve_platform.simps)
  have row: "approval_row (example_state ?a) 1 = Some ?a" "aa_status ?a \<noteq> ApPending"
    using example_row [of ?a] by (simp_all add: cancelled_as_def example_approval_def new_approval_def)
  from decided_approvals_are_final [OF run example_ok(2) row] show ?thesis by (auto simp: cancelled_as_def)
qed

text \<open>C12: in every state that any interleaving of agent runs and requests reaches, approvals have distinct ids; an
  approval has a decision time exactly when it is approved, rejected or cancelled; client audit data is there only while
  it is pending; edited calls are one for each proposed call, with the ids of proposed calls, their names and
  arguments that the registered tool accepts; and its revisions are numbered 1, 2, 3, ...\<close>

theorem approvals_stay_well_formed:
  assumes "pool_step\<^sup>*\<^sup>* (w, map (serve_platform env cfg) tasks) (v, ps)" and "hitl_ok (hc_registry cfg) w"
  shows "distinct (map aa_id (hw_approvals v)) \<and> revisions_ok (hw_revisions v) \<and> prefix (hw_revisions w) (hw_revisions v) \<and>
    (\<forall>a\<in>set (hw_approvals v).
       (aa_decided_at a \<noteq> None \<longleftrightarrow> aa_status a \<in> {ApApproved, ApRejected, ApCancelled}) \<and>
       (aa_status a \<noteq> ApPending \<longrightarrow> aa_source_ip a = None \<and> aa_client_metadata a = []) \<and>
       (\<forall>edited. aa_edited_calls a = Some edited \<longrightarrow> valid_edit (hc_registry cfg) (aa_proposed_calls a) edited))"
proof -
  have "hitl_ok (hc_registry cfg) v" "prefix (hw_revisions w) (hw_revisions v)"
    using platform_pool [OF assms] assms(2) unfolding hitl_evolve_def by blast+
  then show ?thesis unfolding hitl_ok_def approval_ok_def decided_status_def by blast
qed

theorem approvals_stay_well_formed_witness:
  "revisions_ok (hw_revisions (fst (exec_prog (serve_platform (ping_env []) agent_hitl
     (Request (ReqRevise 1 [proposed_ping ''b'', proposed_ping ''a''] 4 None))) (example_state (example_approval [])))))"
proof -
  let ?task = "Request (ReqRevise 1 [proposed_ping ''b'', proposed_ping ''a''] 4 None)"
  let ?w = "example_state (example_approval [])" and ?p = "serve_platform (ping_env []) agent_hitl"
  have "pool_step\<^sup>*\<^sup>* (?w, map ?p [?task]) (fst (exec_prog (?p ?task) ?w), [Ret (snd (exec_prog (?p ?task) ?w))])"
    using pool_exec [of ?w "?p ?task"] by (simp del: serve_platform.simps)
  from approvals_stay_well_formed [OF this example_ok(1)] show ?thesis by blast
qed

subsection \<open>Runs\<close>

text \<open>C7: an agent run that returns has published what it returns: the tokens it streamed make up the content, it planned
  once per iteration, numbered from 0, at most as often as its limit, and every tool it announced has ended. Unless it waits
  for an approval it announces completion exactly once, with the finish reason of the response: a final answer, or
  the iteration cap, which is only reached after all iterations.\<close>

theorem agent_run_answers_as_it_streams:
  assumes "hitl_ok registry w" and "exec_prog (agent_run env cfg request context ctx) w = (v, Inr response)"
  shows "\<exists>new. hw_events v = hw_events w @ new \<and> tools_closed new \<and> tokens_of new = ap_content response \<and>
    plannings_of new = [0..<ap_iterations response] \<and>
    ap_iterations response \<le> cf_max_iterations (request_settings request) \<and>
    (ap_approval_id response = None \<longrightarrow> (\<exists>reason. ap_finish_reason response = Some reason \<and> completes_of new = [reason] \<and>
       (reason = ''stop'' \<or> reason = ''tool_iteration_cap'' \<and>
          ap_iterations response = cf_max_iterations (request_settings request))))"
  using tracedD [OF traced_agent_run assms] unfolding run_post_def by (auto split: option.splits)

theorem agent_run_answers_as_it_streams_witness:
  "\<exists>new. tokens_of new = ''all done'' \<and> completes_of new = [''stop''] \<and> plannings_of new = [0, 1]"
proof -
  let ?r = "exec_prog (ping_run []) empty_platform"
  have "case snd ?r of Inl _ \<Rightarrow> False | Inr x \<Rightarrow> ap_content x = ''all done'' \<and> ap_approval_id x = None \<and>
      ap_iterations x = 2 \<and> ap_finish_reason x = Some ''stop''" by code_simp
  then obtain v x where "?r = (v, Inr x)" "ap_content x = ''all done''" "ap_approval_id x = None" "ap_iterations x = 2"
    "ap_finish_reason x = Some ''stop''" by (cases ?r) (auto split: sum.splits)
  with agent_run_answers_as_it_streams [OF empty_platform_ok, of "ping_env []" agent_hitl plain_request ping_agent]
  show ?thesis by (fastforce simp: ping_run_def default_agent_run_def upt_rec)
qed



text \<open>C16: a run asks language models at most once for its final answer and, per iteration of its limit, as often as its
  retry limit allows, however the models answer and whatever reflection decides.\<close>

theorem agent_run_has_a_model_budget:
  "hw_llm_calls (fst (exec_prog (agent_run env cfg request context ctx) w)) \<le>
     hw_llm_calls w + cf_max_iterations (request_settings request) * max 1 (cf_max_retries (request_settings request)) + 1"
  using costsD [OF asks_agent_run, of env cfg request "context" ctx w] by (simp add: attempts_def)

text \<open>C20: whatever happens in a run (an answer, a pause, an error at any point, an execution id that is in use), it leaves the
  registry of scratchpads exactly as it has found it.\<close>

theorem agent_run_leaves_no_scratchpad:
  "hw_scratchpads (fst (exec_prog (agent_run env cfg request context ctx) w)) = hw_scratchpads w"
  by (rule agent_run_pads)

subsection \<open>Steps, attempts and reflection\<close>

text \<open>C15: batches exist exactly when the ids of the tool steps are distinct and their dependencies known and without a cycle; the
  batches then hold each tool step once, none is empty, and every dependency of a step lies in an earlier batch.\<close>

theorem step_batches_correct:
  fixes steps :: "planned_step list"
  defines "ts \<equiv> filter (\<lambda>s. ps_action s = ToolCallStep) steps"
  shows "case resolve_step_batches steps of
      Inl _ \<Rightarrow> \<not> (distinct (step_ids ts) \<and> (\<forall>s\<in>set ts. set (ps_depends_on s) \<subseteq> set (step_ids ts)) \<and> acyclic (dependency ts))
    | Inr batches \<Rightarrow> (distinct (step_ids ts) \<and> (\<forall>s\<in>set ts. set (ps_depends_on s) \<subseteq> set (step_ids ts)) \<and> acyclic (dependency ts)) \<and>
        mset (concat batches) = mset ts \<and> [] \<notin> set batches \<and>
        (\<forall>k<length batches. \<forall>s\<in>set (batches ! k). \<forall>d\<in>set (ps_depends_on s). \<exists>j<k. d \<in> set (step_ids (batches ! j)))"
proof (cases "resolve_step_batches steps")
  case (Inl e)
  with resolve_step_batches_cases(1) [of steps] show ?thesis unfolding ts_def by simp
next
  case (Inr batches)
  with resolve_step_batches_cases(1) [of steps] resolve_step_batches_Inr [OF Inr] show ?thesis
    unfolding ts_def by (simp add: Ball_def) blast
qed

definition example_step :: "string \<Rightarrow> string list \<Rightarrow> planned_step" where
  "example_step i deps = \<lparr>ps_step_id = i, ps_action = ToolCallStep, ps_tool_calls = [], ps_depends_on = deps, ps_reasoning = None\<rparr>"

theorem step_batches_correct_witness:
  "\<exists>batches. resolve_step_batches [example_step ''b'' [''a''], example_step ''a'' []] = Inr batches \<and>
     mset (concat batches) = {#example_step ''b'' [''a''], example_step ''a'' []#}"
proof -
  let ?steps = "[example_step ''b'' [''a''], example_step ''a'' []]"
  have "case resolve_step_batches ?steps of Inl _ \<Rightarrow> False | Inr _ \<Rightarrow> True" by code_simp
  then obtain batches where "resolve_step_batches ?steps = Inr batches" by (auto split: sum.splits)
  with step_batches_correct [of ?steps] show ?thesis by (simp add: example_step_def)
qed

text \<open>C19: when a run reflects on the results of its tools, a rule always decides and no model is asked: all failed means replan, some
  failed means plan on, all succeeded means finish, unless the planner said something blank, which means run the
  same plan again whatever its tools have returned (also when all have succeeded). The state moves accordingly, and
  one event tells the decision.\<close>

theorem reflection_is_decided_by_rules:
  fixes state :: agent_state and said :: "string option"
  assumes "results \<noteq> []" and "cf_reflection_enabled (request_settings request)"
    and "as_reflection_count state < cf_max_reflections (request_settings request)" and "as_status state = AgExecuting"
  defines "d \<equiv> (if \<exists>c. said = Some c \<and> is_blank c then RetryStep
      else if \<forall>r\<in>set results. \<not> tr_success (tn_result r) then Replan
      else if \<forall>r\<in>set results. tr_success (tn_result r) then Finish else ContinueStep)"
  shows "exec_prog (maybe_reflect env request context (Some results) said plan state) w =
    (w\<lparr>hw_events := hw_events w @ [EvReflection (ax_execution_id context) d (Some (rule_reason d))]\<rparr>,
     Inr ((record_reflection state)\<lparr>as_status := (if d = RetryStep \<or> d = Finish then AgExecuting else AgPlanning)\<rparr>,
       d = Finish, if d = RetryStep then Some plan else None))"
proof -
  have "evaluate_rule_based (Some results) said = Some d"
    using assms(1) by (auto simp: evaluate_rule_based_def d_def any_succeeded_def all_succeeded_def split: option.split)
  with assms(2) have r: "reflect env request e (Some results) said = ok (d, rule_reason d)" for e
    by (simp add: reflect_def)
  show ?thesis
    using assms(1-4)
    by (cases d) (simp_all add: maybe_reflect_def r move_def at_state_def lift_error_def exec_bindE exec_bindP publish_def
        doP_def transition_def terminal_statuses_def record_reflection_def)
qed

definition reflecting_request :: agent_request where
  "reflecting_request = plain_request\<lparr>aq_config := Some (default_settings\<lparr>cf_reflection_enabled := True\<rparr>)\<rparr>"

definition succeeded_record :: tool_run_record where
  "succeeded_record = \<lparr>tn_step_id = ''s'', tn_call = ping_call, tn_result = \<lparr>tr_success = True, tr_data = PNone,
     tr_error = None, tr_error_code = None, tr_metadata = []\<rparr>\<rparr>"

theorem reflection_is_decided_by_rules_witness:
  "\<exists>v st. exec_prog (maybe_reflect (ping_env []) reflecting_request ping_agent (Some [succeeded_record]) (Some '' '')
     (resume_plan (agent_at AgExecuting)) (agent_at AgExecuting)) empty_platform =
     (v, Inr (st, False, Some (resume_plan (agent_at AgExecuting))))"
proof -
  have "is_blank '' ''" by code_simp
  then show ?thesis
    using reflection_is_decided_by_rules [where results = "[succeeded_record]" and request = reflecting_request
      and state = "agent_at AgExecuting" and said = "Some '' ''"]
    by (simp add: reflecting_request_def default_settings_def request_settings_def agent_at_def)
qed

end
