(* ===== verification/Spec2Isabelle.thy ===== *)
theory Spec2Isabelle
  imports Graph_Properties Run_Properties Job_Properties Security_Properties Hitl_Properties Agent_Properties
begin

section \<open>A verification development for the workflow platform\<close>

text \<open>
  \<^bold>\<open>The program.\<close> \<open>src/backend-python/app\<close> is the backend of an AI platform. Its core is the workflow
  engine (\<open>ai/workflow\<close>): a user stores a \<^emph>\<open>definition\<close> (a directed graph of nodes and edges), starts
  \<^emph>\<open>runs\<close> of it, and the executor walks the graph, calls the executor of each node (tools, models,
  agents, routers, forks, joins), pauses at approval nodes for a human decision and keeps all
  progress in a database row that is written by compare and set. Definitions are checked when they
  are stored (\<open>graph/validator.py\<close>), with the governance rules that say which tools need an approval
  (\<open>ai/security/rules_engine.py\<close>, \<open>ai/hitl/policy.py\<close>).

  The second core is the agent runtime (\<open>ai/agent\<close>): a loop in which a planner asks a language model for the next
  tool calls, a tool runner checks them against the approval policy, executes them or pauses the agent,
  reflection may repeat or stop them, and a finalizer streams the answer. The approval service (\<open>ai/hitl\<close>) stores
  paused agents and resumes them after a decision.

  Around them stand the background jobs (\<open>ai/jobs\<close>: a queue in the database, workers that claim rows under
  a lease, a scheduler that enqueues one job per tick, retention) and what protects the platform: the
  rate limiter, quotas, roles, guardrails, and the tool executor, which asks all of them before it
  calls a tool.

  \<^bold>\<open>Conventions.\<close> Python exceptions are values of a sum type. \<open>async\<close> methods are programs of
  atomic actions (\<open>Prog\<close>): every store call, clock reading and node call is one action, and any
  other task may act in between. Theorems about \<open>pool_step\<close> quantify over all interleavings of any
  number of tasks; theorems about \<open>exec_prog\<close> are about a task that runs alone. Strings are lists
  of characters (code points below 256), UUIDs natural numbers, times integers (microseconds),
  floats the rational they denote, dictionaries association lists in insertion order.

  \<^bold>\<open>Theories and sources\<close> (paths below \<open>src/backend-python/app\<close>).
  \<^item> \<open>Prelude\<close>, \<open>Py_Value\<close>, \<open>Prog\<close>, \<open>Versioned_Store\<close>: results, dictionaries, Python strings and JSON
    values; programs with their rely-guarantee rule; the interface of tables with versioned rows.
  \<^item> \<open>Guarantee\<close>: what an action may do as a relation of its own (\<open>acts\<close>, the locale \<open>guaranteed\<close>), and counters that
    a program can raise by a bounded amount (\<open>costs\<close>). \<open>Failure\<close> (\<open>core/retry.py\<close>): which failures are transient.
  \<^item> \<open>Transaction\<close> (\<open>db/session.py\<close>): the transaction of a request, with the laws of the database as a locale.
  \<^item> \<open>Wf_Model\<close> (\<open>ai/workflow/models\<close>), \<open>Wf_Condition\<close> (\<open>conditions\<close>), \<open>Graph_Search\<close>, \<open>Wf_Node_Config\<close>,
    \<open>Wf_Validator\<close> (\<open>graph/validator.py\<close>, \<open>graph/node_config.py\<close>), \<open>Tools\<close> (\<open>ai/tools\<close>), \<open>Rules\<close>
    (\<open>ai/security/rules_engine.py\<close>, \<open>ai/hitl\<close>): what a definition is and which are accepted.
  \<^item> \<open>Wf_Nodes\<close> (\<open>nodes\<close>), \<open>Wf_Traversal\<close> (\<open>graph/traversal.py\<close>), \<open>Wf_Retry\<close> (\<open>retry\<close>, \<open>core/retry.py\<close>):
    what a node computes, which nodes run next, what is retried.
  \<^item> \<open>Wf_Store\<close> (\<open>providers/postgres.py\<close>), \<open>Wf_Executor\<close> (\<open>engine/executor.py\<close>), \<open>Wf_Manager\<close> (\<open>manager.py\<close>,
    \<open>engine/background.py\<close>): the tables, the step loop and the operations callers use.
  \<^item> \<open>Wf_Examples\<close>: concrete definitions, runs and states.
  \<^item> \<open>Job_Queue\<close> (\<open>ai/jobs/queue.py\<close>, \<open>schedule_store.py\<close>, \<open>models.py\<close>, \<open>retry.py\<close>), \<open>Job_Worker\<close> (\<open>worker.py\<close>,
    \<open>registry.py\<close>, \<open>scheduler.py\<close>, \<open>handlers/workflow_retention.py\<close> and the reconciliation of the two seeded
    schedules): a database transaction is one action; the rows that another transaction has locked
    are an argument of the claim, which skips them.
  \<^item> \<open>Rate_Limit\<close> (\<open>middleware/rate_limit.py\<close>), \<open>Quotas\<close> (\<open>ai/security/quotas/store.py\<close>, the counters of
    \<open>db/identity.py\<close>, \<open>services/quota_service.py\<close>), \<open>Rbac\<close> (\<open>ai/security/rbac\<close>), \<open>Guardrails\<close>
    (\<open>ai/security/guardrails\<close>), \<open>Tool_Executor\<close> (\<open>ai/tools/executor.py\<close>, \<open>authorizer.py\<close>,
    \<open>ai/mcp/permissions.py\<close>). The executor runs the operations of the limiter, the counters and the
    roles on their part of its own state (\<open>zoom\<close>, with the laws of a part in the locale \<open>substate\<close>).
  \<^item> \<open>Hitl_Model\<close> (\<open>ai/hitl/models.py\<close>, the states and the entries of scratchpads of \<open>ai/agent\<close>), \<open>Hitl_Store\<close>
    (\<open>ai/hitl/store.py\<close>, \<open>db/chat.py\<close>), \<open>Hitl_Service\<close> (\<open>ai/hitl/service.py\<close>, \<open>routers/approvals.py\<close>, the two sweeps
    of \<open>ai/jobs/handlers\<close>): approvals of the tool calls of a paused agent. A store method is one action, a request
    one transaction; the executor that continues the agent is a program given by the configuration.
  \<^item> \<open>Agent_Model\<close> (\<open>ai/agent/models\<close>, \<open>planner/parser.py\<close>, \<open>executor/dependency_resolver.py\<close>, \<open>scratchpad\<close>,
    \<open>reflection/quality_checker.py\<close>, \<open>retry/classifier.py\<close>): plans, batches, messages, rules. \<open>Agent_Runtime\<close>
    (\<open>executor/agent_executor.py\<close>, \<open>tool_runner.py\<close>, \<open>finalizer.py\<close>, \<open>llm_step.py\<close>, \<open>planner/react_planner.py\<close>,
    \<open>reflection/engine.py\<close>, \<open>runtime/default_agent.py\<close>): the loop, from a fresh start (\<open>agent_run\<close>) and after an
    approval (\<open>agent_resume\<close>). \<open>with_agent\<close> gives it to the approval service as the executor that continues
    agents; \<open>serve_platform\<close> (\<open>Agent_Safety\<close>) runs agents and requests of the service side by side.

  \<^bold>\<open>What is proved.\<close>
  \<^item> \<open>Wf_Validator_Correct\<close>, \<open>Wf_Approval_Guard\<close>: the validator accepts exactly the definitions
    described by \<open>accepted\<close>, whatever the iteration order of Python's sets; protected nodes are those
    that every walk from the entry reaches through an approval.
  \<^item> \<open>Wf_Traversal_Correct\<close>, \<open>Wf_Nodes_Correct\<close>: the skip loop computes a least fixed point, ready nodes
    are those the rules admit, forks, joins and routers do what their configuration says.
  \<^item> \<open>Wf_Safety\<close>: \<open>run_may_become\<close> is the contract between all writers of a run; every operation
    keeps it under any interleaving (\<open>run_safe\<close>), by the locale \<open>versioned_store\<close> interpreted on the runs.
  \<^item> \<open>Wf_Progress\<close>: an iteration of the step loop that goes on has resolved the nodes it executed.
  \<^item> \<open>Wf_Manager_Correct\<close>: what starting, cancelling and deciding do when nothing else acts.
  \<^item> \<open>Job_Safety\<close>, \<open>Job_Correct\<close>: \<open>job_may_become\<close> is the contract between all writers of a job (the
    locale \<open>purging_store\<close>, in which rows may also be deleted, interpreted on the job table); a claimed
    job that is still held has not changed (\<open>stable_situation\<close>); what a claim, a dispatch, a tick and the
    retention loop do on their own.
  \<^item> \<open>Rate_Limit\<close>, \<open>Quotas\<close>, \<open>Rbac_Correct\<close>, \<open>Guardrails\<close>, \<open>Tool_Executor\<close>: the sliding window against a
    reference that keeps the whole history; the two reserving counters as instances of one locale
    (\<open>daily_counter\<close>); what role requests can do to owners and assignments under any interleaving; the
    strictest verdict; every gate before a handler.
  \<^item> \<open>Hitl_Safety\<close>, \<open>Hitl_Requests\<close>: \<open>approval_may_become\<close> is the contract between all requests about
    approvals and \<open>hitl_ok\<close> their invariant; every request keeps both under any interleaving
    (\<open>hitl_pool\<close>), provided the executor that continues an agent does (\<open>resumer_ok\<close>). An edit is validated against
    a proposal read earlier; \<open>yields\<close> carries that knowledge from the read to the write.
  \<^item> \<open>Hitl_Correct\<close>: requests that run alone: closed approvals refuse every change, granted calls run
    once each in their order, and what two requests for one stage do to each other.
  \<^item> \<open>Agent_Batches\<close>: the levels of Kahn's algorithm hold every step once exactly when the dependencies have no
    cycle. \<open>Agent_Safety\<close>: agent runs keep the contract and the invariant of the approvals, so the hypothesis
    \<open>resumer_ok\<close> holds of the real executor (\<open>platform_pool\<close>).
  \<^item> \<open>Agent_Tools\<close>: an agent calls handlers only with calls of steps that the policy approves by itself.
    \<open>Platform_Calls\<close>, \<open>Platform_Requests\<close>: so does everything that runs beside it, apart from tools that an approval
    proposes which is approved (\<open>platform_calls\<close>).
  \<^item> \<open>Agent_Trace\<close>: the events a run publishes against the response it returns (\<open>run_post\<close>). \<open>Agent_Frame\<close>: what a run
    leaves as it was, how often it asks a model, and when reflection is decided by rules.
  \<^item> \<open>Graph_Properties\<close>, \<open>Run_Properties\<close>, \<open>Job_Properties\<close>, \<open>Security_Properties\<close>, \<open>Hitl_Properties\<close> and
    \<open>Agent_Properties\<close> state the results for a reader.

  \<^bold>\<open>Bounds and fuel.\<close> A checkpoint is tried 25 times and a decision or a cancellation 25 times, as
  in the code, and the error of the last attempt is a value. \<open>execute_run\<close>'s \<open>while\<close> loop has fuel
  and yields \<open>OutOfFuel\<close> without it; \<open>iteration_makes_progress\<close> is the reason why each iteration
  that does not recover a node uses up one of finitely many unresolved nodes. The retention
  loops have fuel too; more fuel than there are rows is enough, as every batch but the last deletes one.
  The loop of an agent has as many rounds as iterations remain, which is exact: each round begins one.
  A tool is attempted at most three times and a model as often as the retry limit of the request says.

  \<^bold>\<open>Not modelled.\<close> Logging, metrics, spans, audit records and HTTP routers have no effect on the state
  described here. Providers of models, Jinja, the regular-expression engine, tool handlers and job
  handlers are parameters, as are hashing, token decoding and the redaction of secrets; for the workflow
  engine the agents are parameters too.
  The retention of runs is modelled as a loop over the table, but it is not among the requests
  of the run theorems. The listing of the audit inbox (\<open>ApprovalsStore\<close>) is read-only and left out; rows that an
  ORM session has cached are not distinguished from the rows of the database. Of the agent runtime, the
  tools of a batch run one after the other (\<open>parallel_tools_enabled\<close> is off, as by default); \<open>execute_plan\<close>,
  \<open>execute_step\<close>, the chat adapters and the queues of the publishers are left out, and waits between
  retries take no time. Plugins, chat, voice, memory, retrieval, MCP transport and evaluation are
  mostly calls of external services.
\<close>

end
